(* ===== verification/Nova_Prelude.thy ===== *)
theory Nova_Prelude
  imports Main "HOL-Library.Word" "HOL-Library.AList" "HOL-Library.Multiset"
    "HOL-Library.Signed_Division"
begin

text \<open>
  Shared vocabulary of the development.

  \<^item> Go's fixed-width integers are words (\<open>uint64\<close> is \<open>64 word\<close>), so that every
    addition and subtraction of the source wraps as it does in Go. A 32-byte array
    (an address, a digest, a seed) is a \<open>256 word\<close>, read big-endian: its zero value is
    \<open>0\<close> and \<open>bytes.Compare\<close> is the order of words.
  \<^item> A Go call that can return an error or panic has a value of type \<open>result\<close>; \<open>andThen\<close>
    is the early return \<open>if err != nil { return err }\<close>.
  \<^item> A Go map is an association list with distinct keys. The order of the list is one order
    in which \<open>range\<close> may visit the map; a theorem about a result that depends on it says so.
    A nil map and an empty one are the same list.
  \<^item> The locales \<open>keyed_store\<close> and \<open>machine\<close> are the interfaces of a
    keyed container and of an event-driven state machine.
\<close>

type_synonym u8 = "8 word"
type_synonym u16 = "16 word"
type_synonym u32 = "32 word"
type_synonym u64 = "64 word"
type_synonym bytes32 = "256 word"
type_synonym address = bytes32
type_synonym digest = bytes32

named_theorems result_simps \<open>equations and inversions of the result monad\<close>
named_theorems map_simps \<open>lookups and sums over association-list maps\<close>

section \<open>Results: values, errors and panics\<close>

datatype go_panic = DivideByZero | IndexOutOfRange | NilDereference | LogPanic string | Fatal string

datatype ('e, 'a) result = Ok 'a | Err 'e | Panic go_panic

fun andThen :: "('e, 'a) result \<Rightarrow> ('a \<Rightarrow> ('e, 'b) result) \<Rightarrow> ('e, 'b) result" where
  "andThen (Ok x) f = f x"
| "andThen (Err e) f = Err e"
| "andThen (Panic p) f = Panic p"

definition isPanic :: "('e, 'a) result \<Rightarrow> bool" where
  "isPanic r = (case r of Panic _ \<Rightarrow> True | _ \<Rightarrow> False)"

lemma andThen_Ok_iff [result_simps]:
  "andThen m f = Ok y \<longleftrightarrow> (\<exists>x. m = Ok x \<and> f x = Ok y)"
  by (cases m) auto

lemma andThen_Err_iff [result_simps]:
  "andThen m f = Err e \<longleftrightarrow> m = Err e \<or> (\<exists>x. m = Ok x \<and> f x = Err e)"
  by (cases m) auto

lemma andThen_Panic_iff [result_simps]:
  "andThen m f = Panic p \<longleftrightarrow> m = Panic p \<or> (\<exists>x. m = Ok x \<and> f x = Panic p)"
  by (cases m) auto

lemma isPanic_simps [simp]:
  "\<not> isPanic (Ok x)" "\<not> isPanic (Err e)" "isPanic (Panic p)"
  by (simp_all add: isPanic_def)

lemma isPanic_andThen:
  "isPanic (andThen m f) \<longleftrightarrow> isPanic m \<or> (\<exists>x. m = Ok x \<and> isPanic (f x))"
  by (cases m) auto

section \<open>Operations that can fail and change a state\<close>

type_synonym ('e, 's, 'a) effect = "'s \<Rightarrow> ('e, 'a \<times> 's) result"

definition ret :: "'a \<Rightarrow> ('e, 's, 'a) effect" where
  "ret x = (\<lambda>s. Ok (x, s))"

definition failWith :: "'e \<Rightarrow> ('e, 's, 'a) effect" where
  "failWith e = (\<lambda>s. Err e)"

definition lift :: "('e, 'a) result \<Rightarrow> ('e, 's, 'a) effect" where
  "lift r = (\<lambda>s. andThen r (\<lambda>x. Ok (x, s)))"

definition andDo :: "('e, 's, 'a) effect \<Rightarrow> ('a \<Rightarrow> ('e, 's, 'b) effect) \<Rightarrow> ('e, 's, 'b) effect" where
  "andDo m f = (\<lambda>s. andThen (m s) (\<lambda>(x, s'). f x s'))"

definition checkThat :: "bool \<Rightarrow> 'e \<Rightarrow> ('e, 's, unit) effect" where
  "checkThat c e = (\<lambda>s. if c then Ok ((), s) else Err e)"

text \<open>An operation that looks at the state it starts in.\<close>

definition withState :: "('s \<Rightarrow> ('e, 's, 'a) effect) \<Rightarrow> ('e, 's, 'a) effect" where
  "withState f = (\<lambda>s. f s s)"

named_theorems act_simps \<open>what it means for an operation to succeed\<close>

lemma andDo_Ok_iff [act_simps]:
  "andDo m f s = Ok (y, s') \<longleftrightarrow> (\<exists>x t. m s = Ok (x, t) \<and> f x t = Ok (y, s'))"
  by (cases "m s") (auto simp: andDo_def)

lemma basic_Ok_iff [act_simps]:
  "ret x s = Ok (y, s') \<longleftrightarrow> y = x \<and> s' = s"
  "failWith e s = Ok (y, s') \<longleftrightarrow> False"
  "lift r s = Ok (y, s') \<longleftrightarrow> r = Ok y \<and> s' = s"
  "checkThat c e s = Ok (u, s') \<longleftrightarrow> c \<and> s' = s"
  by (auto simp: ret_def failWith_def lift_def checkThat_def result_simps)

section \<open>Words\<close>

lemma u64_bound: "unat (a :: u64) < 18446744073709551616"
  using unsigned_less [of a] by simp

lemma u32_bound: "unat (a :: u32) < 4294967296"
  using unsigned_less [of a] by simp

lemma unat_add_u64:
  "unat ((a :: u64) + b) = (if unat a + unat b < 2 ^ 64 then unat a + unat b
                            else unat a + unat b - 2 ^ 64)"
proof -
  have "unat a + unat b < 2 * 2 ^ 64"
    using u64_bound [of a] u64_bound [of b] by simp
  then show ?thesis
    by (simp add: unat_word_ariths mod_if split: if_splits)
qed

lemma unat_sum_list_u64:
  "sum_list (map unat (ws :: u64 list)) < 2 ^ 64 \<Longrightarrow> unat (sum_list ws) = sum_list (map unat ws)"
proof (induction ws)
  case Nil
  then show ?case by simp
next
  case (Cons w ws)
  then have "unat (sum_list ws) = sum_list (map unat ws)" by simp
  with Cons.prems show ?case by (simp add: unat_add_u64)
qed

lemma unat_mul_no_overflow:
  "unat (a :: u64) * unat b < 2 ^ 64 \<Longrightarrow> unat (a * b) = unat a * unat b"
  by (simp add: unat_word_ariths)

lemma unat_ucast_u32_u64 [simp]: "unat (ucast (a :: u32) :: u64) = unat a"
  using u32_bound [of a] by (simp add: unsigned_ucast_eq take_bit_nat_eq_self)

section \<open>Maps as association lists\<close>

type_synonym ('k, 'v) gomap = "('k \<times> 'v) list"

abbreviation mget :: "('k, 'v) gomap \<Rightarrow> 'k \<Rightarrow> 'v option" where
  "mget m k \<equiv> map_of m k"

abbreviation mput :: "'k \<Rightarrow> 'v \<Rightarrow> ('k, 'v) gomap \<Rightarrow> ('k, 'v) gomap" where
  "mput k v m \<equiv> AList.update k v m"

abbreviation mdel :: "'k \<Rightarrow> ('k, 'v) gomap \<Rightarrow> ('k, 'v) gomap" where
  "mdel k m \<equiv> AList.delete k m"

abbreviation keys_distinct :: "('k, 'v) gomap \<Rightarrow> bool" where
  "keys_distinct m \<equiv> distinct (map fst m)"

lemma mdel_append: "mdel k (xs @ ys) = mdel k xs @ mdel k ys"
  by (simp add: AList.delete_eq)

text \<open>The zero value a Go map read yields for a key that is absent.\<close>

definition mgetd :: "'v \<Rightarrow> ('k, 'v) gomap \<Rightarrow> 'k \<Rightarrow> 'v" where
  "mgetd d m k = (case mget m k of None \<Rightarrow> d | Some v \<Rightarrow> v)"

lemma mget_mput [map_simps]: "mget (mput k v m) k' = (if k' = k then Some v else mget m k')"
  by (simp add: AList.update_conv')

lemma mget_mdel [map_simps]: "mget (mdel k m) k' = (if k' = k then None else mget m k')"
  by (simp add: AList.delete_conv')

lemma mgetd_mput [map_simps]: "mgetd d (mput k v m) k' = (if k' = k then v else mgetd d m k')"
  by (simp add: mgetd_def mget_mput)

lemma mgetd_mdel [map_simps]: "mgetd d (mdel k m) k' = (if k' = k then d else mgetd d m k')"
  by (simp add: mgetd_def mget_mdel)

lemma distinct_mput [simp]: "keys_distinct m \<Longrightarrow> keys_distinct (mput k v m)"
  by (rule AList.distinct_update)

lemma distinct_mdel [simp]: "keys_distinct m \<Longrightarrow> keys_distinct (mdel k m)"
  by (rule AList.distinct_delete)

lemma mem_iff_mget: "keys_distinct m \<Longrightarrow> (k, v) \<in> set m \<longleftrightarrow> mget m k = Some v"
  by simp

lemma mput_fresh: "mget m k = None \<Longrightarrow> mput k v m = m @ [(k, v)]"
  by (induction m) (auto split: if_splits)

lemma mdel_absent: "mget m k = None \<Longrightarrow> mdel k m = m"
  by (induction m) (auto split: if_splits)

lemma map_of_split:
  assumes "keys_distinct m" "mget m k = Some v"
  obtains xs ys where "m = xs @ (k, v) # ys" "mget xs k = None" "mget ys k = None"
    "mdel k m = xs @ ys"
proof -
  from assms(2) have "(k, v) \<in> set m" by (rule map_of_SomeD)
  then obtain xs ys where m: "m = xs @ (k, v) # ys" by (auto simp: in_set_conv_decomp)
  with assms(1) have none: "mget xs k = None" "mget ys k = None"
    by (auto simp: map_of_eq_None_iff)
  then have "mdel k m = xs @ ys"
    using m by (simp add: mdel_absent mdel_append)
  with m none show thesis by (rule that)
qed

text \<open>Sums of a quantity over the values of a map.\<close>

definition msum :: "('v \<Rightarrow> nat) \<Rightarrow> ('k, 'v) gomap \<Rightarrow> nat" where
  "msum f m = sum_list (map (f \<circ> snd) m)"

lemma msum_Nil [simp]: "msum f [] = 0"
  by (simp add: msum_def)

lemma msum_mput_fresh [map_simps]: "mget m k = None \<Longrightarrow> msum f (mput k v m) = msum f m + f v"
  by (simp add: msum_def mput_fresh)

lemma msum_mdel:
  assumes "keys_distinct m" "mget m k = Some v"
  shows "msum f m = msum f (mdel k m) + f v"
proof -
  from assms obtain xs ys where "m = xs @ (k, v) # ys" "mdel k m = xs @ ys"
    by (rule map_of_split)
  then show ?thesis by (simp add: msum_def)
qed

lemma msum_mput:
  assumes "keys_distinct m" "mget m k = Some v"
  shows "msum f (mput k v' m) + f v = msum f m + f v'"
proof -
  from assms obtain xs ys where m: "m = xs @ (k, v) # ys" and none: "mget xs k = None"
    by (rule map_of_split)
  have "mput k v' m = xs @ (k, v') # ys"
    using none unfolding m by (induction xs) (auto split: if_splits)
  with m show ?thesis by (simp add: msum_def)
qed

lemma msum_ge_member: "mget m k = Some v \<Longrightarrow> f v \<le> msum f m"
  by (induction m) (auto simp: msum_def split: if_splits)

section \<open>Interfaces\<close>

text \<open>
  A keyed container with an invariant, as its clients see it: what a lookup returns after
  an insertion or a removal, and that both keep the invariant.
\<close>

locale keyed_store =
  fixes get :: "'s \<Rightarrow> 'k \<Rightarrow> 'v option"
    and put :: "'k \<Rightarrow> 'v \<Rightarrow> 's \<Rightarrow> 's"
    and ok :: "'s \<Rightarrow> bool"
  assumes get_put: "ok s \<Longrightarrow> get (put k v s) k' = (if k' = k then Some v else get s k')"
    and ok_put: "ok s \<Longrightarrow> ok (put k v s)"
begin

lemma get_put_same: "ok s \<Longrightarrow> get (put k v s) k = Some v"
  by (simp add: get_put)

lemma get_put_other: "ok s \<Longrightarrow> k' \<noteq> k \<Longrightarrow> get (put k v s) k' = get s k'"
  by (simp add: get_put)

lemma put_put_get: "ok s \<Longrightarrow> get (put k v (put k w s)) = get (put k v s)"
  by (auto simp: fun_eq_iff get_put ok_put)

lemma put_commute_get: "ok s \<Longrightarrow> k \<noteq> l \<Longrightarrow> get (put k v (put l w s)) = get (put l w (put k v s))"
  by (auto simp: fun_eq_iff get_put ok_put)

end

text \<open>A Go map is such a container.\<close>

interpretation gm: keyed_store mget mput keys_distinct
  by unfold_locales (auto simp: map_simps)

text \<open>
  An event-driven machine: \<open>step\<close> handles one event and either yields the next state and
  an answer or fails. An invariant kept by every step, under a condition on the event that
  its sender guarantees, holds after every run.
\<close>

locale machine =
  fixes step :: "'s \<Rightarrow> 'ev \<Rightarrow> ('e, 's \<times> 'o) result"
    and good :: "'ev \<Rightarrow> bool"
    and inv :: "'s \<Rightarrow> bool"
  assumes step_inv: "inv s \<Longrightarrow> good ev \<Longrightarrow> step s ev = Ok (s', out) \<Longrightarrow> inv s'"

text \<open>A run feeds the events in order and collects the answers.\<close>

fun runs :: "('s \<Rightarrow> 'ev \<Rightarrow> ('e, 's \<times> 'o) result) \<Rightarrow> 's \<Rightarrow> 'ev list \<Rightarrow> ('e, 's \<times> 'o list) result"
where
  "runs step s [] = Ok (s, [])"
| "runs step s (ev # evs) =
     andThen (step s ev) (\<lambda>(s', out).
     andThen (runs step s' evs) (\<lambda>(s'', outs). Ok (s'', out # outs)))"

lemma runs_Cons_Ok:
  "runs step s (ev # evs) = Ok (t, os) \<longleftrightarrow>
     (\<exists>s' out outs. step s ev = Ok (s', out) \<and> runs step s' evs = Ok (t, outs) \<and> os = out # outs)"
  by (fastforce simp: result_simps split: prod.splits)

lemma runs_snoc:
  "runs step s (evs @ [ev]) = Ok (t, os) \<longleftrightarrow>
     (\<exists>s' outs out. runs step s evs = Ok (s', outs) \<and> step s' ev = Ok (t, out) \<and> os = outs @ [out])"
proof (induction evs arbitrary: s os)
  case Nil
  show ?case by (auto simp: result_simps split: prod.splits)
next
  case (Cons e evs)
  show ?case
    unfolding append_Cons runs_Cons_Ok Cons.IH by (metis append_Cons)
qed

lemma runs_length: "runs step s evs = Ok (t, os) \<Longrightarrow> length os = length evs"
proof (induction evs arbitrary: s os)
  case Nil
  then show ?case by simp
next
  case (Cons e evs)
  then show ?case unfolding runs_Cons_Ok by auto
qed

context machine
begin

lemma runs_inv:
  "inv s \<Longrightarrow> list_all good evs \<Longrightarrow> runs step s evs = Ok (t, os) \<Longrightarrow> inv t"
proof (induction evs arbitrary: s os)
  case Nil
  then show ?case by simp
next
  case (Cons e evs)
  from Cons.prems(3) obtain s' out outs where
    "step s e = Ok (s', out)" and r: "runs step s' evs = Ok (t, outs)"
    unfolding runs_Cons_Ok by blast
  with Cons.prems have "inv s'" by (auto intro: step_inv)
  then show ?case using Cons.prems(2) r by (auto intro: Cons.IH)
qed

end

text \<open>
  A machine that in addition never fails from a good state: every run returns.
\<close>

locale total_machine = machine +
  assumes step_total: "inv s \<Longrightarrow> good ev \<Longrightarrow> \<exists>r. step s ev = Ok r"
begin

lemma runs_total: "inv s \<Longrightarrow> list_all good evs \<Longrightarrow> \<exists>r. runs step s evs = Ok r"
proof (induction evs arbitrary: s)
  case Nil
  then show ?case by simp
next
  case (Cons e evs)
  then obtain s' out where st: "step s e = Ok (s', out)" using step_total by fastforce
  with Cons.prems have "inv s'" by (auto intro: step_inv)
  then obtain r where "runs step s' evs = Ok r" using Cons by fastforce
  with st show ?case by (cases r) simp
qed

end

end
