(* ===== verification/Basics_Overflow.thy ===== *)
theory Basics_Overflow
  imports Nova_Prelude
begin

text \<open>
  Overflow-checked and saturating arithmetic (\<open>data/basics/overflow.go\<close>) and the units of
  currency and time (\<open>data/basics/units.go\<close>). Every sum of money in the ledger, every
  reward and every minimum balance goes through these functions. The lemmas relate each of
  them to unbounded arithmetic on \<open>nat\<close>: the overflow flag is set exactly when the true
  result does not fit, and the saturating versions clip it.

  \<open>MicroNovas\<close> is a struct with the single field \<open>Raw\<close>; it is modelled by its raw value.
  A method on \<open>*OverflowTracker\<close> takes the flag and returns the result with the new flag.
\<close>

section \<open>Definitions\<close>

type_synonym microNovas = u64
type_synonym round = u64

record overflowTracker =
  Overflowed :: bool

definition OAdd16 :: "u16 \<Rightarrow> u16 \<Rightarrow> u16 \<times> bool" where
  "OAdd16 a b = (let res = a + b in (res, res < a))"

definition OAdd32 :: "u32 \<Rightarrow> u32 \<Rightarrow> u32 \<times> bool" where
  "OAdd32 a b = (let res = a + b in (res, res < a))"

definition OAdd :: "u64 \<Rightarrow> u64 \<Rightarrow> u64 \<times> bool" where
  "OAdd a b = (let res = a + b in (res, res < a))"

definition OSub :: "u64 \<Rightarrow> u64 \<Rightarrow> u64 \<times> bool" where
  "OSub a b = (let res = a - b in (res, res > a))"

definition OSub32 :: "u32 \<Rightarrow> u32 \<Rightarrow> u32 \<times> bool" where
  "OSub32 a b = (let res = a - b in (res, res > a))"

definition OMul :: "u64 \<Rightarrow> u64 \<Rightarrow> u64 \<times> bool" where
  "OMul a b =
     (if b = 0 then (0, False)
      else let c = a * b in if c div b \<noteq> a then (0, True) else (c, False))"

definition MulSaturate :: "u64 \<Rightarrow> u64 \<Rightarrow> u64" where
  "MulSaturate a b = (let (res, overflowed) = OMul a b in if overflowed then - 1 else res)"

definition AddSaturate :: "u64 \<Rightarrow> u64 \<Rightarrow> u64" where
  "AddSaturate a b = (let (res, overflowed) = OAdd a b in if overflowed then - 1 else res)"

definition AddSaturate32 :: "u32 \<Rightarrow> u32 \<Rightarrow> u32" where
  "AddSaturate32 a b = (let (res, overflowed) = OAdd32 a b in if overflowed then - 1 else res)"

definition SubSaturate :: "u64 \<Rightarrow> u64 \<Rightarrow> u64" where
  "SubSaturate a b = (let (res, overflowed) = OSub a b in if overflowed then 0 else res)"

definition SubSaturate32 :: "u32 \<Rightarrow> u32 \<Rightarrow> u32" where
  "SubSaturate32 a b = (let (res, overflowed) = OSub32 a b in if overflowed then 0 else res)"

definition ot_Add16 :: "u16 \<Rightarrow> u16 \<Rightarrow> overflowTracker \<Rightarrow> u16 \<times> overflowTracker" where
  "ot_Add16 a b t = (let (res, overflowed) = OAdd16 a b
     in (res, if overflowed then t\<lparr>Overflowed := True\<rparr> else t))"

definition ot_Add :: "u64 \<Rightarrow> u64 \<Rightarrow> overflowTracker \<Rightarrow> u64 \<times> overflowTracker" where
  "ot_Add a b t = (let (res, overflowed) = OAdd a b
     in (res, if overflowed then t\<lparr>Overflowed := True\<rparr> else t))"

definition ot_Sub :: "u64 \<Rightarrow> u64 \<Rightarrow> overflowTracker \<Rightarrow> u64 \<times> overflowTracker" where
  "ot_Sub a b t = (let (res, overflowed) = OSub a b
     in (res, if overflowed then t\<lparr>Overflowed := True\<rparr> else t))"

definition ot_Mul :: "u64 \<Rightarrow> u64 \<Rightarrow> overflowTracker \<Rightarrow> u64 \<times> overflowTracker" where
  "ot_Mul a b t = (let (res, overflowed) = OMul a b
     in (res, if overflowed then t\<lparr>Overflowed := True\<rparr> else t))"

definition OAddA :: "microNovas \<Rightarrow> microNovas \<Rightarrow> microNovas \<times> bool" where
  "OAddA a b = OAdd a b"

definition OSubA :: "microNovas \<Rightarrow> microNovas \<Rightarrow> microNovas \<times> bool" where
  "OSubA a b = OSub a b"

text \<open>The \<open>int\<close> factor is converted with \<open>uint64(b)\<close>, which wraps.\<close>

definition MulAIntSaturate :: "microNovas \<Rightarrow> int \<Rightarrow> microNovas" where
  "MulAIntSaturate a b = MulSaturate a (word_of_int b)"

definition ot_AddA :: "microNovas \<Rightarrow> microNovas \<Rightarrow> overflowTracker \<Rightarrow> microNovas \<times> overflowTracker" where
  "ot_AddA a b t = ot_Add a b t"

definition ot_SubA :: "microNovas \<Rightarrow> microNovas \<Rightarrow> overflowTracker \<Rightarrow> microNovas \<times> overflowTracker" where
  "ot_SubA a b t = ot_Sub a b t"

definition ot_AddR :: "round \<Rightarrow> round \<Rightarrow> overflowTracker \<Rightarrow> round \<times> overflowTracker" where
  "ot_AddR a b t = ot_Add a b t"

definition ot_SubR :: "round \<Rightarrow> round \<Rightarrow> overflowTracker \<Rightarrow> round \<times> overflowTracker" where
  "ot_SubR a b t = ot_Sub a b t"

definition ot_ScalarMulA :: "microNovas \<Rightarrow> u64 \<Rightarrow> overflowTracker \<Rightarrow> microNovas \<times> overflowTracker" where
  "ot_ScalarMulA a b t = ot_Mul a b t"

text \<open>
  \<open>Muldiv\<close> computes on \<open>big.Int\<close>: \<open>Div\<close> panics on a zero divisor, \<open>Uint64\<close> keeps the low
  64 bits and \<open>IsUint64\<close> says whether the value fits.
\<close>

definition Muldiv :: "u64 \<Rightarrow> u64 \<Rightarrow> u64 \<Rightarrow> ('e, u64 \<times> bool) result" where
  "Muldiv a b c =
     (if c = 0 then Panic DivideByZero
      else let aa = unat a * unat b div unat c
           in Ok (of_nat aa, \<not> aa < 2 ^ 64))"

text \<open>Units.\<close>

definition LessThan :: "microNovas \<Rightarrow> microNovas \<Rightarrow> bool" where
  "LessThan a b = (a < b)"

definition GreaterThan :: "microNovas \<Rightarrow> microNovas \<Rightarrow> bool" where
  "GreaterThan a b = (a > b)"

definition IsZero :: "microNovas \<Rightarrow> bool" where
  "IsZero a = (a = 0)"

definition RewardUnits :: "microNovas \<Rightarrow> u64 \<Rightarrow> ('e, u64) result" where
  "RewardUnits a rewardUnit = (if rewardUnit = 0 then Panic DivideByZero else Ok (a div rewardUnit))"

definition OneTimeIDForRound :: "round \<Rightarrow> u64 \<Rightarrow> ('e, u64 \<times> u64) result" where
  "OneTimeIDForRound r keyDilution =
     (if keyDilution = 0 then Panic DivideByZero else Ok (r div keyDilution, r mod keyDilution))"

definition round_SubSaturate :: "round \<Rightarrow> round \<Rightarrow> round" where
  "round_SubSaturate r x = (if r < x then 0 else r - x)"

definition RoundUpToMultipleOf :: "round \<Rightarrow> round \<Rightarrow> ('e, round) result" where
  "RoundUpToMultipleOf r n =
     (if n = 0 then Panic DivideByZero else Ok ((r + n - 1) div n * n))"

section \<open>Exactness\<close>

lemma OAdd_eq: "OAdd a b = (a + b, 2 ^ 64 \<le> unat a + unat b)"
  using u64_bound [of a] u64_bound [of b]
  by (auto simp: OAdd_def Let_def word_less_nat_alt unat_add_u64)

lemma OAdd_False_unat: "OAdd a b = (res, False) \<Longrightarrow> unat res = unat a + unat b"
  by (auto simp: OAdd_eq unat_add_u64)

lemma OSub_eq: "OSub a b = (a - b, unat a < unat b)"
proof -
  have "a - b > a \<longleftrightarrow> unat a < unat b"
    by (metis (no_types) linorder_not_le word_less_nat_alt word_le_nat_alt word_sub_le_iff)
  then show ?thesis by (auto simp: OSub_def Let_def)
qed

lemma OSub_False_unat: "OSub a b = (res, False) \<Longrightarrow> unat res = unat a - unat b \<and> unat b \<le> unat a"
  by (auto simp: OSub_eq unat_sub word_le_nat_alt)

lemma mul_div_back:
  assumes "b \<noteq> 0"
  shows "((a :: u64) * b) div b = a \<longleftrightarrow> unat a * unat b < 2 ^ 64"
proof
  assume "unat a * unat b < 2 ^ 64"
  then have "unat (a * b) = unat a * unat b" by (rule unat_mul_no_overflow)
  with assms have "unat ((a * b) div b) = unat a" by (simp add: unat_div unat_eq_zero)
  then show "(a * b) div b = a" by (simp add: word_unat_eq_iff)
next
  assume "(a * b) div b = a"
  then have "unat (a * b) div unat b = unat a" by (metis unat_div)
  moreover have "unat (a * b) div unat b * unat b \<le> unat (a * b)" by simp
  ultimately have "unat a * unat b \<le> unat (a * b)" by simp
  then show "unat a * unat b < 2 ^ 64" using u64_bound [of "a * b"] by simp
qed

lemma OMul_eq:
  "OMul a b = (if 2 ^ 64 \<le> unat a * unat b then (0, True) else (a * b, False))"
  by (cases "b = 0") (auto simp: OMul_def Let_def mul_div_back not_less)

lemma OMul_False_unat: "OMul a b = (res, False) \<Longrightarrow> unat res = unat a * unat b"
  by (auto simp: OMul_eq unat_mul_no_overflow split: if_splits)

lemma unat_max_u64 [simp]: "unat (- 1 :: u64) = 18446744073709551615"
  by (simp add: unsigned_minus_1_eq_mask mask_eq_exp_minus_1)

lemma AddSaturate_exact: "unat (AddSaturate a b) = min (2 ^ 64 - 1) (unat a + unat b)"
  using u64_bound [of "a + b"] by (auto simp: AddSaturate_def OAdd_eq unat_add_u64)

lemma MulSaturate_exact: "unat (MulSaturate a b) = min (2 ^ 64 - 1) (unat a * unat b)"
  by (auto simp: MulSaturate_def OMul_eq unat_mul_no_overflow)

lemma SubSaturate_exact: "unat (SubSaturate a b) = unat a - unat b"
  by (auto simp: SubSaturate_def OSub_eq unat_sub word_le_nat_alt)

lemma round_SubSaturate_exact: "unat (round_SubSaturate a b) = unat a - unat b"
  by (auto simp: round_SubSaturate_def unat_sub word_le_nat_alt word_less_nat_alt)

text \<open>
  The tracker accumulates: its flag is set after a chain of operations if and only if it was
  set before or one of the operations overflowed.
\<close>

lemma ot_Add_eq:
  "ot_Add a b t = (a + b, if 2 ^ 64 \<le> unat a + unat b then t\<lparr>Overflowed := True\<rparr> else t)"
  by (simp add: ot_Add_def OAdd_eq)

lemma ot_Sub_eq:
  "ot_Sub a b t = (a - b, if unat a < unat b then t\<lparr>Overflowed := True\<rparr> else t)"
  by (simp add: ot_Sub_def OSub_eq)

lemma ot_Mul_eq:
  "ot_Mul a b t = (if 2 ^ 64 \<le> unat a * unat b then (0, t\<lparr>Overflowed := True\<rparr>) else (a * b, t))"
  by (simp add: ot_Mul_def OMul_eq)

lemmas ot_simps = ot_Add_eq ot_Sub_eq ot_Mul_eq ot_AddA_def ot_SubA_def ot_AddR_def ot_SubR_def
  ot_ScalarMulA_def

lemma Muldiv_exact:
  assumes "c \<noteq> 0"
  shows "\<exists>res. Muldiv a b c = Ok (res, 2 ^ 64 \<le> unat a * unat b div unat c) \<and>
     (unat a * unat b div unat c < 2 ^ 64 \<longrightarrow> unat res = unat a * unat b div unat c)"
  using assms by (auto simp: Muldiv_def Let_def not_less unat_of_nat)

text \<open>The one-time identifier of a round determines the round.\<close>

lemma OneTimeIDForRound_inj:
  assumes "OneTimeIDForRound r d = Ok i" "OneTimeIDForRound s d = Ok i"
  shows "r = s"
proof -
  from assms have "r div d * d + r mod d = s div d * d + s mod d"
    by (auto simp: OneTimeIDForRound_def split: if_splits)
  then show ?thesis by (metis div_mult_mod_eq)
qed

lemma RoundUpToMultipleOf_least:
  assumes "n \<noteq> 0" "unat r + unat n \<le> 2 ^ 64"
  shows "\<exists>m. RoundUpToMultipleOf r n = Ok m \<and> unat n dvd unat m \<and> unat r \<le> unat m
    \<and> unat m < unat r + unat n"
proof -
  have n0: "0 < unat n" using assms(1) by (simp add: unat_gt_0)
  have sum: "unat (r + n - 1) = unat r + unat n - 1"
  proof (cases "unat r + unat n < 2 ^ 64")
    case True
    then have s: "unat (r + n) = unat r + unat n" by (simp add: unat_add_u64)
    with n0 have "1 \<le> r + n" by (simp add: word_le_nat_alt)
    with s show ?thesis by (simp add: unat_sub)
  next
    case False
    with assms(2) have e: "unat r + unat n = 2 ^ 64" by simp
    then have "unat (r + n) = 0" by (simp add: unat_add_u64)
    then have "r + n = 0" by (simp add: unat_eq_zero)
    with e show ?thesis by simp
  qed
  let ?q = "(unat r + unat n - 1) div unat n"
  have le: "?q * unat n \<le> unat r + unat n - 1" by simp
  have "?q * unat n \<le> unat (r + n - 1)" using le sum by (simp only:)
  also have "\<dots> < 2 ^ 64" using u64_bound by simp
  finally have "unat ((r + n - 1) div n * n) = ?q * unat n"
    by (subst unat_mul_no_overflow) (simp_all add: unat_div sum)
  moreover have "unat r \<le> ?q * unat n"
  proof -
    have "unat r + unat n - 1 < ?q * unat n + unat n"
      using n0 by (metis add.commute dividend_less_div_times mult.commute)
    then show ?thesis by simp
  qed
  moreover have "?q * unat n < unat r + unat n" using le n0 by linarith
  ultimately show ?thesis
    using assms(1) by (auto simp: RoundUpToMultipleOf_def)
qed

section \<open>Properties\<close>

text \<open>
  C15. The overflow tracker never reports a wrong amount: each tracked operation returns the
  mathematical sum, difference or product exactly when it does not raise the flag, and
  raises it exactly when the mathematical result is not a \<open>uint64\<close>; a flag once raised stays.
\<close>

theorem tracked_arithmetic_exact:
  "let (sum, t1) = ot_Add a b t; (diff, t2) = ot_Sub a b t; (prod, t3) = ot_Mul a b t in
     (Overflowed t1 \<longleftrightarrow> Overflowed t \<or> 2 ^ 64 \<le> unat a + unat b) \<and>
     (2 ^ 64 \<le> unat a + unat b \<or> unat sum = unat a + unat b) \<and>
     (Overflowed t2 \<longleftrightarrow> Overflowed t \<or> unat a < unat b) \<and>
     (unat a < unat b \<or> unat diff + unat b = unat a) \<and>
     (Overflowed t3 \<longleftrightarrow> Overflowed t \<or> 2 ^ 64 \<le> unat a * unat b) \<and>
     (2 ^ 64 \<le> unat a * unat b \<or> unat prod = unat a * unat b)"
  by (auto simp: ot_simps unat_add_u64 unat_mul_no_overflow unat_sub word_le_nat_alt)

end
