(* ===== verification/Consensus_Config.thy ===== *)
theory Consensus_Config
  imports Nova_Prelude
begin

text \<open>
  Consensus parameters and the table of protocol versions
  (\<open>src/config/consensus.go\<close>, \<open>src/protocol/consensus.go\<close>).

  \<^item> The record \<open>consensusParams\<close> has every field of the struct, each named after the
    source with the prefix \<open>cp_\<close>. A \<open>time.Duration\<close> is a 64-bit word of nanoseconds.
    The field \<open>ApprovedUpgrades\<close> is a Go map that can be nil, so it is an option.
  \<^item> \<open>v7\<close> to \<open>vFuture\<close> and \<open>Consensus\<close> are the values that \<open>initConsensusProtocols\<close>
    leaves behind: a version starts as a copy of the one before it and gets its own
    map of upgrades, which later assignments fill.
  \<^item> \<open>DeepCopy\<close> and \<open>Merge\<close> combine the table with a node's own consensus file. The
    association list of the second argument is the order in which \<open>range\<close> visits it.
\<close>

type_synonym duration = u64
type_synonym consensusVersion = string

section \<open>Parameters and versions\<close>

datatype paysetCommitType = PaysetCommitUnsupported | PaysetCommitFlat | PaysetCommitMerkle

record consensusParams =
  cp_UpgradeVoteRounds :: u64
  cp_UpgradeThreshold :: u64
  cp_DefaultUpgradeWaitRounds :: u64
  cp_MinUpgradeWaitRounds :: u64
  cp_MaxUpgradeWaitRounds :: u64
  cp_MaxVersionStringLen :: int
  cp_MaxTxnBytesPerBlock :: int
  cp_MaxTxnNoteBytes :: int
  cp_MaxTxnLife :: u64
  cp_ApprovedUpgrades :: "(consensusVersion, u64) gomap option"
  cp_SupportGenesisHash :: bool
  cp_RequireGenesisHash :: bool
  cp_DefaultKeyDilution :: u64
  cp_MinBalance :: u64
  cp_MinTxnFee :: u64
  cp_EnableFeePooling :: bool
  cp_EnableAppCostPooling :: bool
  cp_RewardUnit :: u64
  cp_RewardsRateRefreshInterval :: u64
  cp_SeedLookback :: u64
  cp_SeedRefreshInterval :: u64
  cp_MaxBalLookback :: u64
  cp_NumProposers :: u64
  cp_SoftCommitteeSize :: u64
  cp_SoftCommitteeThreshold :: u64
  cp_CertCommitteeSize :: u64
  cp_CertCommitteeThreshold :: u64
  cp_NextCommitteeSize :: u64
  cp_NextCommitteeThreshold :: u64
  cp_LateCommitteeSize :: u64
  cp_LateCommitteeThreshold :: u64
  cp_RedoCommitteeSize :: u64
  cp_RedoCommitteeThreshold :: u64
  cp_DownCommitteeSize :: u64
  cp_DownCommitteeThreshold :: u64
  cp_AgreementFilterTimeout :: duration
  cp_AgreementFilterTimeoutPeriod0 :: duration
  cp_FastRecoveryLambda :: duration
  cp_PaysetCommit :: paysetCommitType
  cp_MaxTimestampIncrement :: "64 word"
  cp_SupportSignedTxnInBlock :: bool
  cp_ForceNonParticipatingFeeSink :: bool
  cp_ApplyData :: bool
  cp_RewardsInApplyData :: bool
  cp_CredentialDomainSeparationEnabled :: bool
  cp_SupportBecomeNonParticipatingTransactions :: bool
  cp_PendingResidueRewards :: bool
  cp_Asset :: bool
  cp_MaxAssetsPerAccount :: int
  cp_MaxAssetNameBytes :: int
  cp_MaxAssetUnitNameBytes :: int
  cp_MaxAssetURLBytes :: int
  cp_TxnCounter :: bool
  cp_SupportTxGroups :: bool
  cp_MaxTxGroupSize :: int
  cp_SupportTransactionLeases :: bool
  cp_FixTransactionLeases :: bool
  cp_LogicSigVersion :: u64
  cp_LogicSigMaxSize :: u64
  cp_LogicSigMaxCost :: u64
  cp_MaxAssetDecimals :: u32
  cp_SupportRekeying :: bool
  cp_Application :: bool
  cp_MaxAppArgs :: int
  cp_MaxAppTotalArgLen :: int
  cp_MaxAppProgramLen :: int
  cp_MaxAppTotalProgramLen :: int
  cp_MaxExtraAppProgramPages :: int
  cp_MaxAppTxnAccounts :: int
  cp_MaxAppTxnForeignApps :: int
  cp_MaxAppTxnForeignAssets :: int
  cp_MaxAppTotalTxnReferences :: int
  cp_MaxAppProgramCost :: int
  cp_MaxAppKeyLen :: int
  cp_MaxAppBytesValueLen :: int
  cp_MaxAppSumKeyValueLens :: int
  cp_MaxInnerTransactions :: int
  cp_EnableInnerTransactionPooling :: bool
  cp_IsolateClearState :: bool
  cp_MaxAppsCreated :: int
  cp_MaxAppsOptedIn :: int
  cp_AppFlatParamsMinBalance :: u64
  cp_AppFlatOptInMinBalance :: u64
  cp_SchemaMinBalancePerEntry :: u64
  cp_SchemaUintMinBalance :: u64
  cp_SchemaBytesMinBalance :: u64
  cp_MaxLocalSchemaEntries :: u64
  cp_MaxGlobalSchemaEntries :: u64
  cp_MaximumMinimumBalance :: u64
  cp_CompactCertRounds :: u64
  cp_CompactCertTopVoters :: u64
  cp_CompactCertVotersLookback :: u64
  cp_CompactCertWeightThreshold :: u32
  cp_CompactCertSecKQ :: u64
  cp_EnableAssetCloseAmount :: bool
  cp_InitialRewardsRateCalculation :: bool
  cp_NoEmptyLocalDeltas :: bool
  cp_EnableKeyregCoherencyCheck :: bool
  cp_EnableExtraPagesOnAppUpdate :: bool
  cp_MaxProposedExpiredOnlineAccounts :: int
  cp_EnableBatchVerification :: bool
  cp_RewardsCalculationFix :: bool
  cp_EnableStateProofKeyregCheck :: bool
  cp_MaxKeyregValidPeriod :: u64

text \<open>The zero value, which a read of the table yields for an unknown version.\<close>

definition zeroParams :: consensusParams where
  "zeroParams = \<lparr>
     cp_UpgradeVoteRounds = 0,
     cp_UpgradeThreshold = 0,
     cp_DefaultUpgradeWaitRounds = 0,
     cp_MinUpgradeWaitRounds = 0,
     cp_MaxUpgradeWaitRounds = 0,
     cp_MaxVersionStringLen = 0,
     cp_MaxTxnBytesPerBlock = 0,
     cp_MaxTxnNoteBytes = 0,
     cp_MaxTxnLife = 0,
     cp_ApprovedUpgrades = None,
     cp_SupportGenesisHash = False,
     cp_RequireGenesisHash = False,
     cp_DefaultKeyDilution = 0,
     cp_MinBalance = 0,
     cp_MinTxnFee = 0,
     cp_EnableFeePooling = False,
     cp_EnableAppCostPooling = False,
     cp_RewardUnit = 0,
     cp_RewardsRateRefreshInterval = 0,
     cp_SeedLookback = 0,
     cp_SeedRefreshInterval = 0,
     cp_MaxBalLookback = 0,
     cp_NumProposers = 0,
     cp_SoftCommitteeSize = 0,
     cp_SoftCommitteeThreshold = 0,
     cp_CertCommitteeSize = 0,
     cp_CertCommitteeThreshold = 0,
     cp_NextCommitteeSize = 0,
     cp_NextCommitteeThreshold = 0,
     cp_LateCommitteeSize = 0,
     cp_LateCommitteeThreshold = 0,
     cp_RedoCommitteeSize = 0,
     cp_RedoCommitteeThreshold = 0,
     cp_DownCommitteeSize = 0,
     cp_DownCommitteeThreshold = 0,
     cp_AgreementFilterTimeout = 0,
     cp_AgreementFilterTimeoutPeriod0 = 0,
     cp_FastRecoveryLambda = 0,
     cp_PaysetCommit = PaysetCommitUnsupported,
     cp_MaxTimestampIncrement = 0,
     cp_SupportSignedTxnInBlock = False,
     cp_ForceNonParticipatingFeeSink = False,
     cp_ApplyData = False,
     cp_RewardsInApplyData = False,
     cp_CredentialDomainSeparationEnabled = False,
     cp_SupportBecomeNonParticipatingTransactions = False,
     cp_PendingResidueRewards = False,
     cp_Asset = False,
     cp_MaxAssetsPerAccount = 0,
     cp_MaxAssetNameBytes = 0,
     cp_MaxAssetUnitNameBytes = 0,
     cp_MaxAssetURLBytes = 0,
     cp_TxnCounter = False,
     cp_SupportTxGroups = False,
     cp_MaxTxGroupSize = 0,
     cp_SupportTransactionLeases = False,
     cp_FixTransactionLeases = False,
     cp_LogicSigVersion = 0,
     cp_LogicSigMaxSize = 0,
     cp_LogicSigMaxCost = 0,
     cp_MaxAssetDecimals = 0,
     cp_SupportRekeying = False,
     cp_Application = False,
     cp_MaxAppArgs = 0,
     cp_MaxAppTotalArgLen = 0,
     cp_MaxAppProgramLen = 0,
     cp_MaxAppTotalProgramLen = 0,
     cp_MaxExtraAppProgramPages = 0,
     cp_MaxAppTxnAccounts = 0,
     cp_MaxAppTxnForeignApps = 0,
     cp_MaxAppTxnForeignAssets = 0,
     cp_MaxAppTotalTxnReferences = 0,
     cp_MaxAppProgramCost = 0,
     cp_MaxAppKeyLen = 0,
     cp_MaxAppBytesValueLen = 0,
     cp_MaxAppSumKeyValueLens = 0,
     cp_MaxInnerTransactions = 0,
     cp_EnableInnerTransactionPooling = False,
     cp_IsolateClearState = False,
     cp_MaxAppsCreated = 0,
     cp_MaxAppsOptedIn = 0,
     cp_AppFlatParamsMinBalance = 0,
     cp_AppFlatOptInMinBalance = 0,
     cp_SchemaMinBalancePerEntry = 0,
     cp_SchemaUintMinBalance = 0,
     cp_SchemaBytesMinBalance = 0,
     cp_MaxLocalSchemaEntries = 0,
     cp_MaxGlobalSchemaEntries = 0,
     cp_MaximumMinimumBalance = 0,
     cp_CompactCertRounds = 0,
     cp_CompactCertTopVoters = 0,
     cp_CompactCertVotersLookback = 0,
     cp_CompactCertWeightThreshold = 0,
     cp_CompactCertSecKQ = 0,
     cp_EnableAssetCloseAmount = False,
     cp_InitialRewardsRateCalculation = False,
     cp_NoEmptyLocalDeltas = False,
     cp_EnableKeyregCoherencyCheck = False,
     cp_EnableExtraPagesOnAppUpdate = False,
     cp_MaxProposedExpiredOnlineAccounts = 0,
     cp_EnableBatchVerification = False,
     cp_RewardsCalculationFix = False,
     cp_EnableStateProofKeyregCheck = False,
     cp_MaxKeyregValidPeriod = 0\<rparr>"

definition ConsensusV7 :: consensusVersion where
  "ConsensusV7 = ''v7''"

definition ConsensusV8 :: consensusVersion where
  "ConsensusV8 = ''v8''"

definition ConsensusV9 :: consensusVersion where
  "ConsensusV9 = ''v9''"

definition ConsensusV10 :: consensusVersion where
  "ConsensusV10 = ''v10''"

definition ConsensusV11 :: consensusVersion where
  "ConsensusV11 = ''v11''"

definition ConsensusV12 :: consensusVersion where
  "ConsensusV12 = ''v12''"

definition ConsensusV13 :: consensusVersion where
  "ConsensusV13 = ''https://github.com/algorand/spec/tree/0c8a9dc44d7368cc266d5407b79fb3311f4fc795''"

definition ConsensusV14 :: consensusVersion where
  "ConsensusV14 = ''https://github.com/algorand/spec/tree/2526b6ae062b4fe5e163e06e41e1d9b9219135a9''"

definition ConsensusV15 :: consensusVersion where
  "ConsensusV15 = ''https://github.com/algorand/spec/tree/a26ed78ed8f834e2b9ccb6eb7d3ee9f629a6e622''"

definition ConsensusV16 :: consensusVersion where
  "ConsensusV16 = ''https://github.com/algorand/spec/tree/22726c9dcd12d9cddce4a8bd7e8ccaa707f74101''"

definition ConsensusV17 :: consensusVersion where
  "ConsensusV17 = ''https://github.com/algorandfoundation/specs/tree/5615adc36bad610c7f165fa2967f4ecfa75125f0''"

definition ConsensusV18 :: consensusVersion where
  "ConsensusV18 = ''https://github.com/algorandfoundation/specs/tree/6c6bd668be0ab14098e51b37e806c509f7b7e31f''"

definition ConsensusV19 :: consensusVersion where
  "ConsensusV19 = ''https://github.com/algorandfoundation/specs/tree/0e196e82bfd6e327994bec373c4cc81bc878ef5c''"

definition ConsensusV20 :: consensusVersion where
  "ConsensusV20 = ''https://github.com/algorandfoundation/specs/tree/4a9db6a25595c6fd097cf9cc137cc83027787eaa''"

definition ConsensusV21 :: consensusVersion where
  "ConsensusV21 = ''https://github.com/algorandfoundation/specs/tree/8096e2df2da75c3339986317f9abe69d4fa86b4b''"

definition ConsensusV22 :: consensusVersion where
  "ConsensusV22 = ''https://github.com/algorandfoundation/specs/tree/57016b942f6d97e6d4c0688b373bb0a2fc85a1a2''"

definition ConsensusV23 :: consensusVersion where
  "ConsensusV23 = ''https://github.com/algorandfoundation/specs/tree/e5f565421d720c6f75cdd186f7098495caf9101f''"

definition ConsensusV24 :: consensusVersion where
  "ConsensusV24 = ''https://github.com/algorandfoundation/specs/tree/3a83c4c743f8b17adfd73944b4319c25722a6782''"

definition ConsensusV25 :: consensusVersion where
  "ConsensusV25 = ''https://github.com/algorandfoundation/specs/tree/bea19289bf41217d2c0af30522fa222ef1366466''"

definition ConsensusV26 :: consensusVersion where
  "ConsensusV26 = ''https://github.com/algorandfoundation/specs/tree/ac2255d586c4474d4ebcf3809acccb59b7ef34ff''"

definition ConsensusV27 :: consensusVersion where
  "ConsensusV27 = ''https://github.com/algorandfoundation/specs/tree/d050b3cade6d5c664df8bd729bf219f179812595''"

definition ConsensusV28 :: consensusVersion where
  "ConsensusV28 = ''https://github.com/algorandfoundation/specs/tree/65b4ab3266c52c56a0fa7d591754887d68faad0a''"

definition ConsensusV29 :: consensusVersion where
  "ConsensusV29 = ''https://github.com/algorandfoundation/specs/tree/abc54f79f9ad679d2d22f0fb9909fb005c16f8a1''"

definition ConsensusV30 :: consensusVersion where
  "ConsensusV30 = ''https://github.com/algorandfoundation/specs/tree/bc36005dbd776e6d1eaf0c560619bb183215645c''"

definition ConsensusV31 :: consensusVersion where
  "ConsensusV31 = ''https://github.com/algorandfoundation/specs/tree/85e6db1fdbdef00aa232c75199e10dc5fe9498f6''"

definition ConsensusFuture :: consensusVersion where
  "ConsensusFuture = ''future''"

definition ConsensusCurrentVersion :: consensusVersion where
  "ConsensusCurrentVersion = ConsensusV31"

definition v7 :: consensusParams where
  "v7 = zeroParams\<lparr>
     cp_UpgradeVoteRounds := 10000,
     cp_UpgradeThreshold := 9000,
     cp_DefaultUpgradeWaitRounds := 10000,
     cp_MaxVersionStringLen := 64,
     cp_MinBalance := 10000,
     cp_MinTxnFee := 1000,
     cp_MaxTxnLife := 1000,
     cp_MaxTxnNoteBytes := 1024,
     cp_MaxTxnBytesPerBlock := 1000000,
     cp_DefaultKeyDilution := 10000,
     cp_MaxTimestampIncrement := 25,
     cp_RewardUnit := 1000000,
     cp_RewardsRateRefreshInterval := 500000,
     cp_NumProposers := 30,
     cp_SoftCommitteeSize := 2500,
     cp_SoftCommitteeThreshold := 1870,
     cp_CertCommitteeSize := 1000,
     cp_CertCommitteeThreshold := 720,
     cp_NextCommitteeSize := 10000,
     cp_NextCommitteeThreshold := 7750,
     cp_LateCommitteeSize := 10000,
     cp_LateCommitteeThreshold := 7750,
     cp_RedoCommitteeSize := 10000,
     cp_RedoCommitteeThreshold := 7750,
     cp_DownCommitteeSize := 10000,
     cp_DownCommitteeThreshold := 7750,
     cp_AgreementFilterTimeout := 4000000000,
     cp_AgreementFilterTimeoutPeriod0 := 4000000000,
     cp_FastRecoveryLambda := 300000000000,
     cp_SeedLookback := 2,
     cp_SeedRefreshInterval := 100,
     cp_MaxBalLookback := 320,
     cp_MaxTxGroupSize := 1,
     cp_ApprovedUpgrades := Some [(ConsensusV8, 0)]\<rparr>"

definition v8 :: consensusParams where
  "v8 = v7\<lparr>
     cp_SeedRefreshInterval := 80,
     cp_NumProposers := 9,
     cp_SoftCommitteeSize := 2990,
     cp_SoftCommitteeThreshold := 2267,
     cp_CertCommitteeSize := 1500,
     cp_CertCommitteeThreshold := 1112,
     cp_NextCommitteeSize := 5000,
     cp_NextCommitteeThreshold := 3838,
     cp_LateCommitteeSize := 5000,
     cp_LateCommitteeThreshold := 3838,
     cp_RedoCommitteeSize := 5000,
     cp_RedoCommitteeThreshold := 3838,
     cp_DownCommitteeSize := 5000,
     cp_DownCommitteeThreshold := 3838,
     cp_ApprovedUpgrades := Some [(ConsensusV9, 0)]\<rparr>"

definition v9 :: consensusParams where
  "v9 = v8\<lparr>
     cp_MinBalance := 100000,
     cp_ApprovedUpgrades := Some [(ConsensusV10, 0)]\<rparr>"

definition v10 :: consensusParams where
  "v10 = v9\<lparr>
     cp_NumProposers := 20,
     cp_LateCommitteeSize := 500,
     cp_LateCommitteeThreshold := 320,
     cp_RedoCommitteeSize := 2400,
     cp_RedoCommitteeThreshold := 1768,
     cp_DownCommitteeSize := 6000,
     cp_DownCommitteeThreshold := 4560,
     cp_ApprovedUpgrades := Some [(ConsensusV11, 0)]\<rparr>"

definition v11 :: consensusParams where
  "v11 = v10\<lparr>
     cp_SupportSignedTxnInBlock := True,
     cp_PaysetCommit := PaysetCommitFlat,
     cp_ApprovedUpgrades := Some [(ConsensusV12, 0)]\<rparr>"

definition v12 :: consensusParams where
  "v12 = v11\<lparr>
     cp_MaxVersionStringLen := 128,
     cp_ApprovedUpgrades := Some [(ConsensusV13, 0)]\<rparr>"

definition v13 :: consensusParams where
  "v13 = v12\<lparr>
     cp_ApprovedUpgrades := Some [(ConsensusV14, 0)]\<rparr>"

definition v14 :: consensusParams where
  "v14 = v13\<lparr>
     cp_ApplyData := True,
     cp_SupportGenesisHash := True,
     cp_ApprovedUpgrades := Some [(ConsensusV15, 0)]\<rparr>"

definition v15 :: consensusParams where
  "v15 = v14\<lparr>
     cp_RewardsInApplyData := True,
     cp_ForceNonParticipatingFeeSink := True,
     cp_ApprovedUpgrades := Some [(ConsensusV16, 0)]\<rparr>"

definition v16 :: consensusParams where
  "v16 = v15\<lparr>
     cp_CredentialDomainSeparationEnabled := True,
     cp_RequireGenesisHash := True,
     cp_ApprovedUpgrades := Some [(ConsensusV17, 0)]\<rparr>"

definition v17 :: consensusParams where
  "v17 = v16\<lparr>
     cp_ApprovedUpgrades := Some [(ConsensusV19, 0)]\<rparr>"

definition v18 :: consensusParams where
  "v18 = v17\<lparr>
     cp_PendingResidueRewards := True,
     cp_TxnCounter := True,
     cp_Asset := True,
     cp_LogicSigVersion := 1,
     cp_LogicSigMaxSize := 1000,
     cp_LogicSigMaxCost := 20000,
     cp_MaxAssetsPerAccount := 1000,
     cp_SupportTxGroups := True,
     cp_MaxTxGroupSize := 16,
     cp_SupportTransactionLeases := True,
     cp_SupportBecomeNonParticipatingTransactions := True,
     cp_MaxAssetNameBytes := 32,
     cp_MaxAssetUnitNameBytes := 8,
     cp_MaxAssetURLBytes := 32,
     cp_ApprovedUpgrades := Some [(ConsensusV19, 0)]\<rparr>"

definition v19 :: consensusParams where
  "v19 = v18\<lparr>
     cp_ApprovedUpgrades := Some [(ConsensusV20, 0)]\<rparr>"

definition v20 :: consensusParams where
  "v20 = v19\<lparr>
     cp_MaxAssetDecimals := 19,
     cp_DefaultUpgradeWaitRounds := 140000,
     cp_ApprovedUpgrades := Some [(ConsensusV21, 0)]\<rparr>"

definition v21 :: consensusParams where
  "v21 = v20\<lparr>
     cp_ApprovedUpgrades := Some [(ConsensusV23, 0)]\<rparr>"

definition v22 :: consensusParams where
  "v22 = v21\<lparr>
     cp_MinUpgradeWaitRounds := 10000,
     cp_MaxUpgradeWaitRounds := 150000,
     cp_ApprovedUpgrades := Some [(ConsensusV23, 10000)]\<rparr>"

definition v23 :: consensusParams where
  "v23 = v22\<lparr>
     cp_FixTransactionLeases := True,
     cp_ApprovedUpgrades := Some [(ConsensusV24, 140000)]\<rparr>"

definition v24 :: consensusParams where
  "v24 = v23\<lparr>
     cp_LogicSigVersion := 2,
     cp_Application := True,
     cp_SupportRekeying := True,
     cp_MaximumMinimumBalance := 100100000,
     cp_MaxAppArgs := 16,
     cp_MaxAppTotalArgLen := 2048,
     cp_MaxAppProgramLen := 1024,
     cp_MaxAppTotalProgramLen := 2048,
     cp_MaxAppKeyLen := 64,
     cp_MaxAppBytesValueLen := 64,
     cp_MaxAppSumKeyValueLens := 128,
     cp_AppFlatParamsMinBalance := 100000,
     cp_AppFlatOptInMinBalance := 100000,
     cp_MaxAppTxnAccounts := 4,
     cp_MaxAppTxnForeignApps := 2,
     cp_MaxAppTxnForeignAssets := 2,
     cp_MaxAppTotalTxnReferences := 8,
     cp_SchemaMinBalancePerEntry := 25000,
     cp_SchemaUintMinBalance := 3500,
     cp_SchemaBytesMinBalance := 25000,
     cp_MaxLocalSchemaEntries := 16,
     cp_MaxGlobalSchemaEntries := 64,
     cp_MaxAppProgramCost := 700,
     cp_MaxAppsCreated := 10,
     cp_MaxAppsOptedIn := 10,
     cp_ApprovedUpgrades := Some [(ConsensusV26, 140000)]\<rparr>"

definition v25 :: consensusParams where
  "v25 = v24\<lparr>
     cp_EnableAssetCloseAmount := True,
     cp_ApprovedUpgrades := Some [(ConsensusV26, 140000)]\<rparr>"

definition v26 :: consensusParams where
  "v26 = v25\<lparr>
     cp_InitialRewardsRateCalculation := True,
     cp_PaysetCommit := PaysetCommitMerkle,
     cp_LogicSigVersion := 3,
     cp_ApprovedUpgrades := Some [(ConsensusV27, 60000)]\<rparr>"

definition v27 :: consensusParams where
  "v27 = v26\<lparr>
     cp_NoEmptyLocalDeltas := True,
     cp_ApprovedUpgrades := Some [(ConsensusV28, 140000)]\<rparr>"

definition v28 :: consensusParams where
  "v28 = v27\<lparr>
     cp_LogicSigVersion := 4,
     cp_MaxExtraAppProgramPages := 3,
     cp_MaxAppProgramLen := 2048,
     cp_MaxAssetURLBytes := 96,
     cp_MaxAppBytesValueLen := 128,
     cp_MaxAppTxnForeignApps := 8,
     cp_MaxAppTxnForeignAssets := 8,
     cp_EnableFeePooling := True,
     cp_EnableKeyregCoherencyCheck := True,
     cp_ApprovedUpgrades := Some [(ConsensusV29, 60000)]\<rparr>"

definition v29 :: consensusParams where
  "v29 = v28\<lparr>
     cp_EnableExtraPagesOnAppUpdate := True,
     cp_ApprovedUpgrades := Some [(ConsensusV30, 140000)]\<rparr>"

definition v30 :: consensusParams where
  "v30 = v29\<lparr>
     cp_LogicSigVersion := 5,
     cp_EnableAppCostPooling := True,
     cp_MaxInnerTransactions := 16,
     cp_MaxAppsOptedIn := 50,
     cp_ApprovedUpgrades := Some [(ConsensusV31, 140000)]\<rparr>"

definition v31 :: consensusParams where
  "v31 = v30\<lparr>
     cp_EnableBatchVerification := True,
     cp_RewardsCalculationFix := True,
     cp_MaxProposedExpiredOnlineAccounts := 32,
     cp_LogicSigVersion := 6,
     cp_EnableInnerTransactionPooling := True,
     cp_IsolateClearState := True,
     cp_EnableStateProofKeyregCheck := True,
     cp_MaxKeyregValidPeriod := 16777215,
     cp_ApprovedUpgrades := Some []\<rparr>"

definition vFuture :: consensusParams where
  "vFuture = v31\<lparr>
     cp_AgreementFilterTimeoutPeriod0 := 4000000000,
     cp_CompactCertRounds := 256,
     cp_CompactCertTopVoters := 1048576,
     cp_CompactCertVotersLookback := 16,
     cp_CompactCertWeightThreshold := 1288490188,
     cp_CompactCertSecKQ := 128,
     cp_ApprovedUpgrades := Some []\<rparr>"

definition Consensus :: "(consensusVersion, consensusParams) gomap" where
  "Consensus = [
     (ConsensusV7, v7),
     (ConsensusV8, v8),
     (ConsensusV9, v9),
     (ConsensusV10, v10),
     (ConsensusV11, v11),
     (ConsensusV12, v12),
     (ConsensusV13, v13),
     (ConsensusV14, v14),
     (ConsensusV15, v15),
     (ConsensusV16, v16),
     (ConsensusV17, v17),
     (ConsensusV18, v18),
     (ConsensusV19, v19),
     (ConsensusV20, v20),
     (ConsensusV21, v21),
     (ConsensusV22, v22),
     (ConsensusV23, v23),
     (ConsensusV24, v24),
     (ConsensusV25, v25),
     (ConsensusV26, v26),
     (ConsensusV27, v27),
     (ConsensusV28, v28),
     (ConsensusV29, v29),
     (ConsensusV30, v30),
     (ConsensusV31, v31),
     (ConsensusFuture, vFuture)]"

text \<open>A read \<open>config.Consensus[v]\<close> of a table.\<close>

definition consensusAt :: "(consensusVersion, consensusParams) gomap \<Rightarrow> consensusVersion \<Rightarrow> consensusParams" where
  "consensusAt cp ver = mgetd zeroParams cp ver"

text \<open>The map of upgrades, read as Go reads a map that may be nil.\<close>

definition approvedUpgrades :: "consensusParams \<Rightarrow> (consensusVersion, u64) gomap" where
  "approvedUpgrades p = (case cp_ApprovedUpgrades p of None \<Rightarrow> [] | Some m \<Rightarrow> m)"

section \<open>Configurable consensus\<close>

definition DeepCopy :: "(consensusVersion, consensusParams) gomap \<Rightarrow> (consensusVersion, consensusParams) gomap" where
  "DeepCopy cp = fold (\<lambda>(ver, params) static. mput ver
     (case cp_ApprovedUpgrades params of
        None \<Rightarrow> params
      | Some m \<Rightarrow> params\<lparr>cp_ApprovedUpgrades := Some (fold (\<lambda>(u, w). mput u w) m [])\<rparr>) static) cp []"

text \<open>Deletes a version from the table and every upgrade that leads to it.\<close>

definition dropVersion :: "consensusVersion \<Rightarrow> (consensusVersion, consensusParams) gomap \<Rightarrow> (consensusVersion, consensusParams) gomap" where
  "dropVersion ver static = map (\<lambda>(cVer, cParam).
     (cVer, case cp_ApprovedUpgrades cParam of
              None \<Rightarrow> cParam
            | Some m \<Rightarrow> cParam\<lparr>cp_ApprovedUpgrades := Some (mdel ver m)\<rparr>)) (mdel ver static)"

definition Merge :: "(consensusVersion, consensusParams) gomap \<Rightarrow> (consensusVersion, consensusParams) gomap \<Rightarrow> (consensusVersion, consensusParams) gomap" where
  "Merge cp configurable = fold (\<lambda>(ver, params) static.
     case cp_ApprovedUpgrades params of
       None \<Rightarrow> dropVersion ver static
     | Some _ \<Rightarrow> mput ver params static) configurable (DeepCopy cp)"

section \<open>The table\<close>

lemmas version_names = ConsensusV7_def ConsensusV8_def ConsensusV9_def ConsensusV10_def ConsensusV11_def
  ConsensusV12_def ConsensusV13_def ConsensusV14_def ConsensusV15_def ConsensusV16_def ConsensusV17_def
  ConsensusV18_def ConsensusV19_def ConsensusV20_def ConsensusV21_def ConsensusV22_def ConsensusV23_def
  ConsensusV24_def ConsensusV25_def ConsensusV26_def ConsensusV27_def ConsensusV28_def ConsensusV29_def
  ConsensusV30_def ConsensusV31_def ConsensusFuture_def ConsensusCurrentVersion_def

lemmas version_params = v7_def v8_def v9_def v10_def v11_def v12_def v13_def v14_def v15_def v16_def
  v17_def v18_def v19_def v20_def v21_def v22_def v23_def v24_def v25_def v26_def v27_def v28_def
  v29_def v30_def v31_def vFuture_def zeroParams_def

lemma current_version: "consensusAt Consensus ConsensusCurrentVersion = v31"
  by (simp add: consensusAt_def mgetd_def Consensus_def version_names)

lemma Consensus_distinct: "keys_distinct Consensus"
  by (simp add: Consensus_def version_names)

section \<open>Properties\<close>

text \<open>
  C20. The result of merging a configurable table depends on the order in which Go happens to
  visit it: a table that adds a version \<open>a\<close> with an upgrade to \<open>b\<close> and deletes \<open>b\<close> yields, in
  one order, a table whose \<open>a\<close> has no upgrade left, and in the other one whose \<open>a\<close> still
  upgrades to the deleted version.
\<close>

theorem Merge_order_matters:
  assumes "a \<noteq> b" "cp_ApprovedUpgrades p = Some [(b, d)]" "cp_ApprovedUpgrades q = None"
  shows "mget (Merge tbl [(a, p), (b, q)]) b = None \<and> mget (Merge tbl [(b, q), (a, p)]) b = None \<and>
    approvedUpgrades (consensusAt (Merge tbl [(a, p), (b, q)]) a) = [] \<and>
    approvedUpgrades (consensusAt (Merge tbl [(b, q), (a, p)]) a) = [(b, d)]"
proof -
  have drop: "mget (dropVersion ver static) k = (if k = ver then None else map_option (\<lambda>c.
      case cp_ApprovedUpgrades c of None \<Rightarrow> c | Some m \<Rightarrow> c\<lparr>cp_ApprovedUpgrades := Some (mdel ver m)\<rparr>) (mget static k))"
    for ver static k
    by (simp add: dropVersion_def map_of_map [unfolded comp_def] mget_mdel)
  show ?thesis
    using assms by (simp add: Merge_def drop mget_mput consensusAt_def mgetd_def approvedUpgrades_def)
qed

theorem Merge_order_matters_witness:
  "approvedUpgrades (consensusAt (Merge Consensus [(''a'', v30), (ConsensusV31, zeroParams)]) ''a'') = [] \<and>
   approvedUpgrades (consensusAt (Merge Consensus [(ConsensusV31, zeroParams), (''a'', v30)]) ''a'') = [(ConsensusV31, 140000)]"
  using Merge_order_matters [of "''a''" ConsensusV31 v30 140000 zeroParams Consensus]
  by (simp add: version_names v30_def zeroParams_def)

end
