(* ===== verification/Basics_Account.thy ===== *)
theory Basics_Account
  imports Basics_Overflow Consensus_Config
begin

text \<open>
  Accounts (\<open>data/basics/userBalance.go\<close>) and the values applications store in them
  (\<open>data/basics/teal.go\<close>): reward accrual, minimum balances, normalized balances, state
  schemas and key/value deltas.

  An \<open>AccountData\<close> is the record \<open>accountData\<close>; a Go map in it is an association list, and
  a nil map is an empty one. A key of the crypto package is the word of its bytes. The
  lemmas give the exact unbounded value of each computed amount, so that the places where
  the code saturates, wraps or panics are explicit.
\<close>

section \<open>Stored values and their deltas\<close>

type_synonym deltaAction = u64
type_synonym tealType = u64

definition SetBytesAction :: deltaAction where "SetBytesAction = 1"
definition SetUintAction :: deltaAction where "SetUintAction = 2"
definition DeleteAction :: deltaAction where "DeleteAction = 3"

definition TealBytesType :: tealType where "TealBytesType = 1"
definition TealUintType :: tealType where "TealUintType = 2"

lemmas teal_tags = SetBytesAction_def SetUintAction_def DeleteAction_def
  TealBytesType_def TealUintType_def

record valueDelta =
  vd_Action :: deltaAction
  vd_Bytes :: string
  vd_Uint :: u64

record tealValue =
  tv_Type :: tealType
  tv_Bytes :: string
  tv_Uint :: u64

type_synonym stateDelta = "(string, valueDelta) gomap"
type_synonym tealKeyValue = "(string, tealValue) gomap"

definition zeroTealValue :: tealValue where
  "zeroTealValue = \<lparr>tv_Type = 0, tv_Bytes = [], tv_Uint = 0\<rparr>"

definition ToTealValue :: "valueDelta \<Rightarrow> tealValue \<times> bool" where
  "ToTealValue vd =
     (if vd_Action vd = SetBytesAction
      then (zeroTealValue\<lparr>tv_Type := TealBytesType, tv_Bytes := vd_Bytes vd\<rparr>, True)
      else if vd_Action vd = SetUintAction
      then (zeroTealValue\<lparr>tv_Type := TealUintType, tv_Uint := vd_Uint vd\<rparr>, True)
      else (zeroTealValue, False))"

definition ToValueDelta :: "tealValue \<Rightarrow> valueDelta" where
  "ToValueDelta tv =
     (if tv_Type tv = TealUintType
      then \<lparr>vd_Action = SetUintAction, vd_Bytes = [], vd_Uint = tv_Uint tv\<rparr>
      else \<lparr>vd_Action = SetBytesAction, vd_Bytes = tv_Bytes tv, vd_Uint = 0\<rparr>)"

definition StateDelta_Equal :: "stateDelta \<Rightarrow> stateDelta \<Rightarrow> bool" where
  "StateDelta_Equal sd d =
     (length sd = length d \<and> list_all (\<lambda>(k, v). mget d k = Some v) sd)"

datatype delta_error = DeltaNotEmpty | KeyTooLong | ValueTooLong | KeyValueTooLong | UnknownDeltaAction

definition validEntry :: "consensusParams \<Rightarrow> string \<Rightarrow> valueDelta \<Rightarrow> (delta_error, unit) result" where
  "validEntry proto key delta =
     (if int (length key) > cp_MaxAppKeyLen proto then Err KeyTooLong
      else if vd_Action delta = SetBytesAction then
        (if int (length (vd_Bytes delta)) > cp_MaxAppBytesValueLen proto then Err ValueTooLong
         else if int (length key + length (vd_Bytes delta)) > cp_MaxAppSumKeyValueLens proto
         then Err KeyValueTooLong else Ok ())
      else if vd_Action delta = SetUintAction then Ok ()
      else if vd_Action delta = DeleteAction then Ok ()
      else Err UnknownDeltaAction)"

fun validEntries :: "consensusParams \<Rightarrow> stateDelta \<Rightarrow> (delta_error, unit) result" where
  "validEntries proto [] = Ok ()"
| "validEntries proto ((key, delta) # sd) =
     andThen (validEntry proto key delta) (\<lambda>_. validEntries proto sd)"

definition StateDelta_Valid :: "stateDelta \<Rightarrow> consensusParams \<Rightarrow> (delta_error, unit) result" where
  "StateDelta_Valid sd proto =
     (if sd \<noteq> [] \<and> cp_MaxAppKeyLen proto = 0 then Err DeltaNotEmpty
      else validEntries proto sd)"

record stateSchema =
  NumUint :: u64
  NumByteSlice :: u64

definition zeroSchema :: stateSchema where
  "zeroSchema = \<lparr>NumUint = 0, NumByteSlice = 0\<rparr>"

definition AddSchema :: "stateSchema \<Rightarrow> stateSchema \<Rightarrow> stateSchema" where
  "AddSchema sm osm = \<lparr>NumUint = AddSaturate (NumUint sm) (NumUint osm),
     NumByteSlice = AddSaturate (NumByteSlice sm) (NumByteSlice osm)\<rparr>"

definition SubSchema :: "stateSchema \<Rightarrow> stateSchema \<Rightarrow> stateSchema" where
  "SubSchema sm osm = \<lparr>NumUint = SubSaturate (NumUint sm) (NumUint osm),
     NumByteSlice = SubSaturate (NumByteSlice sm) (NumByteSlice osm)\<rparr>"

definition NumEntries :: "stateSchema \<Rightarrow> u64" where
  "NumEntries sm = AddSaturate (AddSaturate 0 (NumUint sm)) (NumByteSlice sm)"

definition StateSchema_MinBalance :: "stateSchema \<Rightarrow> consensusParams \<Rightarrow> microNovas" where
  "StateSchema_MinBalance sm proto =
     (let flatCost = MulSaturate (cp_SchemaMinBalancePerEntry proto) (NumEntries sm);
          uintCost = MulSaturate (cp_SchemaUintMinBalance proto) (NumUint sm);
          bytesCost = MulSaturate (cp_SchemaBytesMinBalance proto) (NumByteSlice sm);
          m = AddSaturate 0 flatCost;
          m = AddSaturate m uintCost;
          m = AddSaturate m bytesCost
      in m)"

datatype schema_error = UnknownTealType tealType

fun schemaLoop :: "tealValue list \<Rightarrow> stateSchema \<Rightarrow> (schema_error, stateSchema) result" where
  "schemaLoop [] schema = Ok schema"
| "schemaLoop (v # vs) schema =
     (if tv_Type v = TealBytesType
      then schemaLoop vs (schema\<lparr>NumByteSlice := NumByteSlice schema + 1\<rparr>)
      else if tv_Type v = TealUintType
      then schemaLoop vs (schema\<lparr>NumUint := NumUint schema + 1\<rparr>)
      else Err (UnknownTealType (tv_Type v)))"

definition ToStateSchema :: "tealKeyValue \<Rightarrow> (schema_error, stateSchema) result" where
  "ToStateSchema tk = schemaLoop (map snd tk) zeroSchema"

section \<open>Account data\<close>

datatype status = Offline | Online | NotParticipating

definition Status_String :: "status \<Rightarrow> string" where
  "Status_String s = (case s of Offline \<Rightarrow> ''Offline'' | Online \<Rightarrow> ''Online''
     | NotParticipating \<Rightarrow> ''Not Participating'')"

datatype status_error = UnknownAccountStatus string

definition UnmarshalStatus :: "string \<Rightarrow> (status_error, status) result" where
  "UnmarshalStatus value =
     (if value = ''Offline'' then Ok Offline
      else if value = ''Online'' then Ok Online
      else if value = ''Not Participating'' then Ok NotParticipating
      else Err (UnknownAccountStatus value))"

type_synonym assetIndex = u64
type_synonym appIndex = u64

record assetHolding =
  ah_Amount :: u64
  ah_Frozen :: bool

record assetParams =
  ap_Total :: u64
  ap_Decimals :: u32
  ap_DefaultFrozen :: bool
  ap_UnitName :: string
  ap_AssetName :: string
  ap_URL :: string
  ap_MetadataHash :: bytes32
  ap_Manager :: address
  ap_Reserve :: address
  ap_Freeze :: address
  ap_Clawback :: address

record appLocalState =
  als_Schema :: stateSchema
  als_KeyValue :: tealKeyValue

record appParams =
  app_ApprovalProgram :: "u8 list"
  app_ClearStateProgram :: "u8 list"
  app_GlobalState :: tealKeyValue
  app_LocalStateSchema :: stateSchema
  app_GlobalStateSchema :: stateSchema
  app_ExtraProgramPages :: u32

record onlineAccountData =
  oad_MicroNovasWithRewards :: microNovas
  oad_VoteID :: bytes32
  oad_SelectionID :: bytes32
  oad_VoteFirstValid :: round
  oad_VoteLastValid :: round
  oad_VoteKeyDilution :: u64

record accountData =
  ad_Status :: status
  ad_MicroNovas :: microNovas
  ad_RewardsBase :: u64
  ad_RewardedMicroNovas :: microNovas
  ad_VoteID :: bytes32
  ad_SelectionID :: bytes32
  ad_StateProofID :: "512 word"
  ad_VoteFirstValid :: round
  ad_VoteLastValid :: round
  ad_VoteKeyDilution :: u64
  ad_AssetParams :: "(assetIndex, assetParams) gomap"
  ad_Assets :: "(assetIndex, assetHolding) gomap"
  ad_AuthAddr :: address
  ad_AppLocalStates :: "(appIndex, appLocalState) gomap"
  ad_AppParams :: "(appIndex, appParams) gomap"
  ad_TotalAppSchema :: stateSchema
  ad_TotalExtraAppPages :: u32

definition zeroAccountData :: accountData where
  "zeroAccountData = \<lparr>ad_Status = Offline, ad_MicroNovas = 0, ad_RewardsBase = 0,
     ad_RewardedMicroNovas = 0, ad_VoteID = 0, ad_SelectionID = 0, ad_StateProofID = 0,
     ad_VoteFirstValid = 0, ad_VoteLastValid = 0, ad_VoteKeyDilution = 0,
     ad_AssetParams = [], ad_Assets = [], ad_AuthAddr = 0, ad_AppLocalStates = [],
     ad_AppParams = [], ad_TotalAppSchema = zeroSchema, ad_TotalExtraAppPages = 0\<rparr>"

definition MakeAccountData :: "status \<Rightarrow> microNovas \<Rightarrow> accountData" where
  "MakeAccountData status algos = zeroAccountData\<lparr>ad_Status := status, ad_MicroNovas := algos\<rparr>"

definition ClearOnlineState :: "accountData \<Rightarrow> accountData" where
  "ClearOnlineState u = u\<lparr>ad_Status := Offline, ad_VoteFirstValid := 0, ad_VoteLastValid := 0,
     ad_VoteKeyDilution := 0, ad_VoteID := 0, ad_SelectionID := 0, ad_StateProofID := 0\<rparr>"

definition PendingRewards ::
    "consensusParams \<Rightarrow> microNovas \<Rightarrow> u64 \<Rightarrow> u64 \<Rightarrow> overflowTracker \<Rightarrow> ('e, microNovas \<times> overflowTracker) result" where
  "PendingRewards proto microNovas rewardsBase rewardsLevel ot =
     andThen (RewardUnits microNovas (cp_RewardUnit proto)) (\<lambda>rewardsUnits.
       let (rewardsDelta, ot) = ot_Sub rewardsLevel rewardsBase ot
       in Ok (ot_Mul rewardsUnits rewardsDelta ot))"

definition WithUpdatedRewards :: "accountData \<Rightarrow> consensusParams \<Rightarrow> u64 \<Rightarrow> ('e, accountData) result" where
  "WithUpdatedRewards u proto rewardsLevel =
     (if ad_Status u \<noteq> NotParticipating then
        andThen (RewardUnits (ad_MicroNovas u) (cp_RewardUnit proto)) (\<lambda>rewardsUnits.
          let ot = \<lparr>Overflowed = False\<rparr>;
              (rewardsDelta, ot) = ot_Sub rewardsLevel (ad_RewardsBase u) ot;
              (rewards, ot) = ot_Mul rewardsUnits rewardsDelta ot;
              (money, ot) = ot_AddA (ad_MicroNovas u) rewards ot
          in if Overflowed ot then Panic (LogPanic ''WithUpdatedRewards'')
             else Ok (u\<lparr>ad_MicroNovas := money, ad_RewardsBase := rewardsLevel,
                        ad_RewardedMicroNovas := ad_RewardedMicroNovas u + rewards\<rparr>))
      else Ok u)"

definition Money :: "accountData \<Rightarrow> consensusParams \<Rightarrow> u64 \<Rightarrow> ('e, microNovas \<times> microNovas) result" where
  "Money u proto rewardsLevel = andThen (WithUpdatedRewards u proto rewardsLevel)
     (\<lambda>e. Ok (ad_MicroNovas e, ad_RewardedMicroNovas e))"

definition AccountData_MinBalance :: "accountData \<Rightarrow> consensusParams \<Rightarrow> microNovas" where
  "AccountData_MinBalance u proto =
     (let m = cp_MinBalance proto;
          assetCost = MulSaturate (cp_MinBalance proto) (of_nat (length (ad_Assets u)));
          m = AddSaturate m assetCost;
          appCreationCost = MulSaturate (cp_AppFlatParamsMinBalance proto) (of_nat (length (ad_AppParams u)));
          m = AddSaturate m appCreationCost;
          appOptInCost = MulSaturate (cp_AppFlatOptInMinBalance proto) (of_nat (length (ad_AppLocalStates u)));
          m = AddSaturate m appOptInCost;
          schemaCost = StateSchema_MinBalance (ad_TotalAppSchema u) proto;
          m = AddSaturate m schemaCost;
          extraAppProgramLenCost = MulSaturate (cp_AppFlatParamsMinBalance proto) (ucast (ad_TotalExtraAppPages u));
          m = AddSaturate m extraAppProgramLenCost
      in m)"

definition zeroOnlineAccountData :: onlineAccountData where
  "zeroOnlineAccountData = \<lparr>oad_MicroNovasWithRewards = 0, oad_VoteID = 0, oad_SelectionID = 0,
     oad_VoteFirstValid = 0, oad_VoteLastValid = 0, oad_VoteKeyDilution = 0\<rparr>"

definition OnlineAccountData :: "accountData \<Rightarrow> onlineAccountData" where
  "OnlineAccountData u =
     (if ad_Status u \<noteq> Online then zeroOnlineAccountData
      else \<lparr>oad_MicroNovasWithRewards = ad_MicroNovas u, oad_VoteID = ad_VoteID u,
            oad_SelectionID = ad_SelectionID u, oad_VoteFirstValid = ad_VoteFirstValid u,
            oad_VoteLastValid = ad_VoteLastValid u, oad_VoteKeyDilution = ad_VoteKeyDilution u\<rparr>)"

definition VotingStake :: "onlineAccountData \<Rightarrow> microNovas" where
  "VotingStake u = oad_MicroNovasWithRewards u"

definition KeyDilution :: "onlineAccountData \<Rightarrow> consensusParams \<Rightarrow> u64" where
  "KeyDilution u proto =
     (if oad_VoteKeyDilution u \<noteq> 0 then oad_VoteKeyDilution u else cp_DefaultKeyDilution proto)"

definition NormalizedOnlineBalance :: "accountData \<Rightarrow> consensusParams \<Rightarrow> ('e, u64) result" where
  "NormalizedOnlineBalance u proto =
     (if ad_Status u \<noteq> Online then Ok 0
      else let perRewardUnit = ad_RewardsBase u + cp_RewardUnit proto
           in andThen (Muldiv (ad_MicroNovas u) (cp_RewardUnit proto) perRewardUnit)
                (\<lambda>(norm, overflowed).
                   if overflowed then Panic (LogPanic ''overflow computing normalized balance'')
                   else Ok norm))"

section \<open>Exact amounts\<close>

lemma cap_add: "min M (min M a + b) = min M (a + b :: nat)" "min M (a + min M b) = min M (a + b :: nat)"
  by auto

lemma cap_mul: "min M (a * min M b) = min M (a * b :: nat)"
proof (cases "b \<le> M")
  case True
  then show ?thesis by simp
next
  case False
  then show ?thesis by (cases a) (auto simp: min_def)
qed

lemmas saturate_exact = AddSaturate_exact MulSaturate_exact SubSaturate_exact

lemma NumEntries_exact: "unat (NumEntries sm) = min (2 ^ 64 - 1) (unat (NumUint sm) + unat (NumByteSlice sm))"
  using u64_bound [of "NumUint sm"] by (simp add: NumEntries_def saturate_exact)

text \<open>The unbounded cost of a schema, and of an account.\<close>

definition schemaCost :: "stateSchema \<Rightarrow> consensusParams \<Rightarrow> nat" where
  "schemaCost sm proto =
     unat (cp_SchemaMinBalancePerEntry proto) * (unat (NumUint sm) + unat (NumByteSlice sm)) +
     unat (cp_SchemaUintMinBalance proto) * unat (NumUint sm) +
     unat (cp_SchemaBytesMinBalance proto) * unat (NumByteSlice sm)"

definition accountCost :: "accountData \<Rightarrow> consensusParams \<Rightarrow> nat" where
  "accountCost u proto =
     unat (cp_MinBalance proto) * (1 + length (ad_Assets u)) +
     unat (cp_AppFlatParamsMinBalance proto) * (length (ad_AppParams u) + unat (ad_TotalExtraAppPages u)) +
     unat (cp_AppFlatOptInMinBalance proto) * length (ad_AppLocalStates u) +
     schemaCost (ad_TotalAppSchema u) proto"

lemma StateSchema_MinBalance_exact:
  "unat (StateSchema_MinBalance sm proto) = min (2 ^ 64 - 1) (schemaCost sm proto)"
  by (simp add: StateSchema_MinBalance_def Let_def saturate_exact NumEntries_exact cap_add cap_mul
      schemaCost_def del: min_less_iff_conj)

lemma AccountData_MinBalance_exact:
  assumes "length (ad_Assets u) < 2 ^ 64" "length (ad_AppParams u) < 2 ^ 64"
    "length (ad_AppLocalStates u) < 2 ^ 64"
  shows "unat (AccountData_MinBalance u proto) = min (2 ^ 64 - 1) (accountCost u proto)"
proof -
  have "accountCost u proto = unat (cp_MinBalance proto)
      + unat (cp_MinBalance proto) * length (ad_Assets u)
      + unat (cp_AppFlatParamsMinBalance proto) * length (ad_AppParams u)
      + unat (cp_AppFlatOptInMinBalance proto) * length (ad_AppLocalStates u)
      + schemaCost (ad_TotalAppSchema u) proto
      + unat (cp_AppFlatParamsMinBalance proto) * unat (ad_TotalExtraAppPages u)"
    by (simp add: accountCost_def distrib_left)
  moreover have "unat (of_nat (length (ad_Assets u)) :: u64) = length (ad_Assets u)"
    "unat (of_nat (length (ad_AppParams u)) :: u64) = length (ad_AppParams u)"
    "unat (of_nat (length (ad_AppLocalStates u)) :: u64) = length (ad_AppLocalStates u)"
    using assms by (simp_all add: unat_of_nat)
  ultimately show ?thesis
    by (simp only: AccountData_MinBalance_def Let_def saturate_exact StateSchema_MinBalance_exact
        cap_add unat_ucast_u32_u64)
qed

text \<open>The rewards an account is owed at a level, and what happens when it claims them.\<close>

definition rewardsDue :: "accountData \<Rightarrow> consensusParams \<Rightarrow> u64 \<Rightarrow> nat" where
  "rewardsDue u proto level =
     unat (ad_MicroNovas u) div unat (cp_RewardUnit proto) * (unat level - unat (ad_RewardsBase u))"

lemma WithUpdatedRewards_exact:
  assumes "cp_RewardUnit proto \<noteq> 0" "ad_Status u \<noteq> NotParticipating"
  shows "WithUpdatedRewards u proto level =
    (if ad_RewardsBase u \<le> level \<and> unat (ad_MicroNovas u) + rewardsDue u proto level < 2 ^ 64
     then Ok (u\<lparr>ad_MicroNovas := ad_MicroNovas u + of_nat (rewardsDue u proto level),
                ad_RewardsBase := level,
                ad_RewardedMicroNovas := ad_RewardedMicroNovas u + of_nat (rewardsDue u proto level)\<rparr>)
     else Panic (LogPanic ''WithUpdatedRewards''))"
proof (cases "ad_RewardsBase u \<le> level")
  case True
  let ?a = "ad_MicroNovas u div cp_RewardUnit proto"
  let ?b = "level - ad_RewardsBase u"
  have due: "rewardsDue u proto level = unat ?a * unat ?b"
    using True by (simp add: rewardsDue_def unat_div unat_sub)
  have r: "of_nat (rewardsDue u proto level) = ?a * ?b"
    by (simp add: due)
  have u: "unat level \<ge> unat (ad_RewardsBase u)" using True by (simp add: word_le_nat_alt)
  show ?thesis
  proof (cases "unat ?a * unat ?b < 2 ^ 64")
    case fits: True
    then have "unat (?a * ?b) = rewardsDue u proto level"
      by (simp add: due unat_mul_no_overflow)
    then show ?thesis
      using assms True fits u
      by (simp add: WithUpdatedRewards_def RewardUnits_def ot_simps Let_def r not_le)
  next
    case False
    then show ?thesis
      using assms by (simp add: WithUpdatedRewards_def RewardUnits_def ot_simps Let_def due)
  qed
next
  case False
  then have "unat level < unat (ad_RewardsBase u)" by (simp add: word_le_nat_alt)
  with False assms show ?thesis
    by (simp add: WithUpdatedRewards_def RewardUnits_def ot_simps Let_def)
qed

lemma WithUpdatedRewards_fixed: "ad_Status u = NotParticipating \<Longrightarrow> WithUpdatedRewards u proto level = Ok u"
  by (simp add: WithUpdatedRewards_def)

lemma WithUpdatedRewards_Ok:
  assumes "WithUpdatedRewards u proto level = Ok u'" "cp_RewardUnit proto \<noteq> 0"
  shows "unat (ad_MicroNovas u') = unat (ad_MicroNovas u) +
      (if ad_Status u = NotParticipating then 0 else rewardsDue u proto level)"
    and "ad_Status u' = ad_Status u"
    and "ad_RewardsBase u' = (if ad_Status u = NotParticipating then ad_RewardsBase u else level)"
    and "ad_Assets u' = ad_Assets u" "ad_AssetParams u' = ad_AssetParams u"
    and "ad_AppParams u' = ad_AppParams u" "ad_AppLocalStates u' = ad_AppLocalStates u"
  using assms
  by (cases "ad_Status u = NotParticipating";
      auto simp: WithUpdatedRewards_fixed WithUpdatedRewards_exact unat_add_u64 unat_of_nat
      split: if_splits)+

text \<open>A second application at the same level changes nothing.\<close>

lemma WithUpdatedRewards_idem:
  assumes "WithUpdatedRewards u proto level = Ok u'" "cp_RewardUnit proto \<noteq> 0"
  shows "WithUpdatedRewards u' proto level = Ok u'"
proof (cases "ad_Status u = NotParticipating")
  case True
  with assms show ?thesis by (auto simp: WithUpdatedRewards_fixed)
next
  case False
  have "rewardsDue u' proto level = 0"
    using False WithUpdatedRewards_Ok(3) [OF assms] by (simp add: rewardsDue_def)
  then show ?thesis
    using False assms WithUpdatedRewards_Ok [OF assms] u64_bound [of "ad_MicroNovas u'"]
    by (simp add: WithUpdatedRewards_exact)
qed

lemma NormalizedOnlineBalance_le:
  assumes "unat (ad_RewardsBase u) + unat (cp_RewardUnit proto) < 2 ^ 64" "cp_RewardUnit proto \<noteq> 0"
  shows "\<exists>n. NormalizedOnlineBalance u proto = Ok n \<and> n \<le> ad_MicroNovas u"
proof (cases "ad_Status u = Online")
  case True
  let ?p = "ad_RewardsBase u + cp_RewardUnit proto"
  have p: "unat ?p = unat (ad_RewardsBase u) + unat (cp_RewardUnit proto)"
    using assms(1) by (simp add: unat_add_u64)
  have "0 < unat (cp_RewardUnit proto)" using assms(2) by (simp add: unat_gt_0)
  then have pos: "0 < unat ?p" using p by simp
  then have p0: "?p \<noteq> 0" by (metis less_nat_zero_code unsigned_0)
  let ?q = "unat (ad_MicroNovas u) * unat (cp_RewardUnit proto) div unat ?p"
  have "?q \<le> unat (ad_MicroNovas u) * unat ?p div unat ?p"
    by (intro div_le_mono mult_le_mono2) (simp add: p)
  then have le: "?q \<le> unat (ad_MicroNovas u)" using pos by simp
  then have "?q < 2 ^ 64" using u64_bound [of "ad_MicroNovas u"] by simp
  then show ?thesis
    using True p0 le
    by (auto simp: NormalizedOnlineBalance_def Muldiv_def Let_def word_le_nat_alt unat_of_nat)
qed (simp add: NormalizedOnlineBalance_def)

section \<open>Round trips\<close>

lemma delta_roundtrip:
  assumes "tv_Type tv = TealUintType \<longrightarrow> tv_Bytes tv = []" "tv_Type tv = TealBytesType \<longrightarrow> tv_Uint tv = 0"
    "tv_Type tv \<in> {TealUintType, TealBytesType}"
  shows "ToTealValue (ToValueDelta tv) = (tv, True)"
  using assms by (cases tv) (auto simp: ToTealValue_def ToValueDelta_def teal_tags zeroTealValue_def)

lemma status_roundtrip: "UnmarshalStatus (Status_String s) = Ok s"
  by (cases s) (simp_all add: UnmarshalStatus_def Status_String_def)

lemma schema_add_sub:
  assumes "unat (NumUint a) + unat (NumUint b) < 2 ^ 64" "unat (NumByteSlice a) + unat (NumByteSlice b) < 2 ^ 64"
  shows "SubSchema (AddSchema a b) b = a"
proof -
  have "unat (NumUint (SubSchema (AddSchema a b) b)) = unat (NumUint a)"
    "unat (NumByteSlice (SubSchema (AddSchema a b) b)) = unat (NumByteSlice a)"
    using assms by (simp_all add: SubSchema_def AddSchema_def saturate_exact)
  then show ?thesis by (simp add: word_unat_eq_iff)
qed

text \<open>The schema of a store counts its entries of each type.\<close>

lemma schemaLoop_counts:
  assumes "schemaLoop vs sm = Ok sm'"
    "unat (NumUint sm) + length vs < 2 ^ 64" "unat (NumByteSlice sm) + length vs < 2 ^ 64"
  shows "unat (NumUint sm') = unat (NumUint sm) + length (filter (\<lambda>v. tv_Type v = TealUintType) vs)
     \<and> unat (NumByteSlice sm') = unat (NumByteSlice sm) + length (filter (\<lambda>v. tv_Type v = TealBytesType) vs)"
  using assms
proof (induction vs sm rule: schemaLoop.induct)
  case (1 schema)
  then show ?case by simp
next
  case (2 v vs schema)
  then show ?case
    by (auto simp: unat_add_u64 teal_tags split: if_splits)
qed

section \<open>Properties\<close>

text \<open>
  C8. Claiming rewards pays a participating account exactly its balance in whole reward units
  times the growth of the reward level, once: the claim panics if the level is older than the
  account's or the sum is not a \<open>uint64\<close>, never rounds or wraps, leaves everything but the
  balance, the level and the running total as it was, and claiming again at the same level
  changes nothing.
\<close>

theorem WithUpdatedRewards_pays_once:
  assumes "cp_RewardUnit proto \<noteq> 0" "ad_Status u \<noteq> NotParticipating"
  shows "if ad_RewardsBase u \<le> level \<and> unat (ad_MicroNovas u) + rewardsDue u proto level < 2 ^ 64
    then \<exists>u'. WithUpdatedRewards u proto level = (Ok u' :: (unit, accountData) result) \<and>
      unat (ad_MicroNovas u') = unat (ad_MicroNovas u) + rewardsDue u proto level \<and>
      ad_RewardsBase u' = level \<and>
      u'\<lparr>ad_MicroNovas := ad_MicroNovas u, ad_RewardsBase := ad_RewardsBase u,
         ad_RewardedMicroNovas := ad_RewardedMicroNovas u\<rparr> = u \<and>
      WithUpdatedRewards u' proto level = (Ok u' :: (unit, accountData) result)
    else WithUpdatedRewards u proto level = (Panic (LogPanic ''WithUpdatedRewards'') :: (unit, accountData) result)"
proof (cases "ad_RewardsBase u \<le> level \<and> unat (ad_MicroNovas u) + rewardsDue u proto level < 2 ^ 64")
  case True
  then obtain u' where u': "WithUpdatedRewards u proto level = (Ok u' :: (unit, accountData) result)"
    "u'\<lparr>ad_MicroNovas := ad_MicroNovas u, ad_RewardsBase := ad_RewardsBase u,
         ad_RewardedMicroNovas := ad_RewardedMicroNovas u\<rparr> = u"
    by (simp add: WithUpdatedRewards_exact [OF assms])
  with True assms show ?thesis
    using WithUpdatedRewards_Ok(1,3) [OF u'(1) assms(1)] WithUpdatedRewards_idem [OF u'(1) assms(1)] by auto
next
  case False
  then have "WithUpdatedRewards u proto level = (Panic (LogPanic ''WithUpdatedRewards'') :: (unit, accountData) result)"
    unfolding WithUpdatedRewards_exact [OF assms] by (rule if_not_P)
  with False show ?thesis by (simp only: if_False)
qed

theorem WithUpdatedRewards_pays_once_witness:
  "\<exists>u'. WithUpdatedRewards (MakeAccountData Online 5000000) v31 7 = (Ok u' :: (unit, accountData) result) \<and> unat (ad_MicroNovas u') = 5000035"
  using WithUpdatedRewards_pays_once [of v31 "MakeAccountData Online 5000000" 7]
  by (auto simp: MakeAccountData_def zeroAccountData_def rewardsDue_def version_params)

text \<open>
  C14. The minimum balance of an account is the exact sum of the prices of what it holds (one
  unit plus one per asset, the created applications and their extra pages, the opted-in
  applications and the schema entries), clipped at the largest \<open>uint64\<close> and never wrapped.
\<close>

theorem MinBalance_exact:
  assumes "length (ad_Assets u) < 2 ^ 64" "length (ad_AppParams u) < 2 ^ 64"
    "length (ad_AppLocalStates u) < 2 ^ 64"
  shows "unat (AccountData_MinBalance u proto) = min (2 ^ 64 - 1) (accountCost u proto)"
  using assms by (rule AccountData_MinBalance_exact)

theorem MinBalance_exact_witness:
  "unat (AccountData_MinBalance (zeroAccountData\<lparr>ad_Assets := [(7, \<lparr>ah_Amount = 1, ah_Frozen = False\<rparr>)]\<rparr>) v31) = 200000"
  by (subst MinBalance_exact)
    (simp_all add: accountCost_def schemaCost_def zeroAccountData_def zeroSchema_def version_params)

end
