(* ===== verification/Transactions.thy ===== *)
theory Transactions
  imports Basics_Account
begin

text \<open>
  Transactions (\<open>src/data/transactions\<close>): the transaction record with the fields of every
  transaction type, the checks that a single transaction passes before it reaches the
  ledger (\<open>WellFormed\<close>, \<open>Alive\<close>), and the tables an application call indexes.

  A Go slice that the code compares with nil is an \<open>option\<close> of a list (\<open>None\<close> is nil);
  other slices are lists. The fields of a compact certificate that the code only passes on
  are kept as bytes. Error values are the constructors of \<open>txn_error\<close>.
\<close>

type_synonym 'a slice = "'a list option"

definition elems :: "'a slice \<Rightarrow> 'a list" where
  "elems s = (case s of None \<Rightarrow> [] | Some xs \<Rightarrow> xs)"

lemma elems_simps [simp]: "elems None = []" "elems (Some xs) = xs"
  by (simp_all add: elems_def)

section \<open>Transaction data\<close>

datatype txType = PaymentTx | KeyRegistrationTx | AssetConfigTx | AssetTransferTx | AssetFreezeTx
  | ApplicationCallTx | CompactCertTx | AddressPrintTx | UnknownTx string

datatype onCompletion = NoOpOC | OptInOC | CloseOutOC | ClearStateOC | UpdateApplicationOC
  | DeleteApplicationOC | InvalidOC u64

record txnHeader =
  h_Sender :: address
  h_Fee :: microNovas
  h_FirstValid :: round
  h_LastValid :: round
  h_Note :: "u8 list"
  h_GenesisID :: string
  h_GenesisHash :: digest
  h_Group :: digest
  h_Lease :: bytes32
  h_RekeyTo :: address

record keyregTxnFields =
  kr_VotePK :: bytes32
  kr_SelectionPK :: bytes32
  kr_StateProofPK :: "512 word"
  kr_VoteFirst :: round
  kr_VoteLast :: round
  kr_VoteKeyDilution :: u64
  kr_Nonparticipation :: bool

record paymentTxnFields =
  pay_Receiver :: address
  pay_Amount :: microNovas
  pay_CloseRemainderTo :: address

record assetConfigTxnFields =
  ac_ConfigAsset :: assetIndex
  ac_AssetParams :: assetParams

record assetTransferTxnFields =
  ax_XferAsset :: assetIndex
  ax_AssetAmount :: u64
  ax_AssetSender :: address
  ax_AssetReceiver :: address
  ax_AssetCloseTo :: address

record assetFreezeTxnFields =
  af_FreezeAccount :: address
  af_FreezeAsset :: assetIndex
  af_AssetFrozen :: bool

record applicationCallTxnFields =
  apc_ApplicationID :: appIndex
  apc_OnCompletion :: onCompletion
  apc_ApplicationArgs :: "u8 list slice"
  apc_Accounts :: "address slice"
  apc_ForeignApps :: "appIndex slice"
  apc_ForeignAssets :: "assetIndex slice"
  apc_LocalStateSchema :: stateSchema
  apc_GlobalStateSchema :: stateSchema
  apc_ApprovalProgram :: "u8 slice"
  apc_ClearStateProgram :: "u8 slice"
  apc_ExtraProgramPages :: u32

record compactCertTxnFields =
  cct_CertRound :: round
  cct_CertType :: u64
  cct_SigCommit :: "u8 list"
  cct_SignedWeight :: u64
  cct_SigProofsPath :: "u8 list list"
  cct_PartProofsPath :: "u8 list list"
  cct_Reveals :: "(u64, u8 list) gomap"

record addressPrintTxnFields =
  apr_Receiver2 :: address

record transaction =
  tx_Type :: txType
  tx_Header :: txnHeader
  tx_Keyreg :: keyregTxnFields
  tx_Payment :: paymentTxnFields
  tx_AssetConfig :: assetConfigTxnFields
  tx_AssetTransfer :: assetTransferTxnFields
  tx_AssetFreeze :: assetFreezeTxnFields
  tx_ApplicationCall :: applicationCallTxnFields
  tx_CompactCert :: compactCertTxnFields
  tx_AddressPrint :: addressPrintTxnFields

record multisigSig =
  ms_Version :: u8
  ms_Threshold :: u8
  ms_Subsigs :: "(bytes32 \<times> 512 word) slice"

record logicSig =
  ls_Logic :: "u8 slice"
  ls_Sig :: "512 word"
  ls_Msig :: multisigSig
  ls_Args :: "u8 slice list"

record signedTxn =
  st_Sig :: "512 word"
  st_Msig :: multisigSig
  st_Lsig :: logicSig
  st_Txn :: transaction
  st_AuthAddr :: address

text \<open>What a transaction did; an application call records its inner transactions.\<close>

datatype evalDelta = EvalDelta (ed_GlobalDelta: stateDelta) (ed_LocalDeltas: "(u64, stateDelta) gomap")
    (ed_Logs: "string list") (ed_InnerTxns: "signedTxnWithAD list")
  and applyData = ApplyData (apd_ClosingAmount: microNovas) (apd_AssetClosingAmount: u64)
    (apd_SenderRewards: microNovas) (apd_ReceiverRewards: microNovas) (apd_CloseRewards: microNovas)
    (apd_EvalDelta: evalDelta) (apd_ConfigAsset: assetIndex) (apd_ApplicationID: appIndex)
  and signedTxnWithAD = SignedTxnWithAD (sw_SignedTxn: signedTxn) (sw_ApplyData: applyData)

record signedTxnInBlock =
  stib_SignedTxnWithAD :: signedTxnWithAD
  stib_HasGenesisID :: bool
  stib_HasGenesisHash :: bool

record specialAddresses =
  FeeSink :: address
  RewardsPool :: address

section \<open>Zero values\<close>

definition zeroHeader :: txnHeader where
  "zeroHeader = \<lparr>h_Sender = 0, h_Fee = 0, h_FirstValid = 0, h_LastValid = 0, h_Note = [],
     h_GenesisID = [], h_GenesisHash = 0, h_Group = 0, h_Lease = 0, h_RekeyTo = 0\<rparr>"

definition zeroKeyreg :: keyregTxnFields where
  "zeroKeyreg = \<lparr>kr_VotePK = 0, kr_SelectionPK = 0, kr_StateProofPK = 0, kr_VoteFirst = 0,
     kr_VoteLast = 0, kr_VoteKeyDilution = 0, kr_Nonparticipation = False\<rparr>"

definition zeroPayment :: paymentTxnFields where
  "zeroPayment = \<lparr>pay_Receiver = 0, pay_Amount = 0, pay_CloseRemainderTo = 0\<rparr>"

definition zeroAssetParams :: assetParams where
  "zeroAssetParams = \<lparr>ap_Total = 0, ap_Decimals = 0, ap_DefaultFrozen = False, ap_UnitName = [],
     ap_AssetName = [], ap_URL = [], ap_MetadataHash = 0, ap_Manager = 0, ap_Reserve = 0,
     ap_Freeze = 0, ap_Clawback = 0\<rparr>"

definition zeroAssetConfig :: assetConfigTxnFields where
  "zeroAssetConfig = \<lparr>ac_ConfigAsset = 0, ac_AssetParams = zeroAssetParams\<rparr>"

definition zeroAssetTransfer :: assetTransferTxnFields where
  "zeroAssetTransfer = \<lparr>ax_XferAsset = 0, ax_AssetAmount = 0, ax_AssetSender = 0,
     ax_AssetReceiver = 0, ax_AssetCloseTo = 0\<rparr>"

definition zeroAssetFreeze :: assetFreezeTxnFields where
  "zeroAssetFreeze = \<lparr>af_FreezeAccount = 0, af_FreezeAsset = 0, af_AssetFrozen = False\<rparr>"

definition zeroApplicationCall :: applicationCallTxnFields where
  "zeroApplicationCall = \<lparr>apc_ApplicationID = 0, apc_OnCompletion = NoOpOC,
     apc_ApplicationArgs = None, apc_Accounts = None, apc_ForeignApps = None,
     apc_ForeignAssets = None, apc_LocalStateSchema = zeroSchema,
     apc_GlobalStateSchema = zeroSchema, apc_ApprovalProgram = None,
     apc_ClearStateProgram = None, apc_ExtraProgramPages = 0\<rparr>"

definition zeroCompactCert :: compactCertTxnFields where
  "zeroCompactCert = \<lparr>cct_CertRound = 0, cct_CertType = 0, cct_SigCommit = [], cct_SignedWeight = 0,
     cct_SigProofsPath = [], cct_PartProofsPath = [], cct_Reveals = []\<rparr>"

definition zeroAddressPrint :: addressPrintTxnFields where
  "zeroAddressPrint = \<lparr>apr_Receiver2 = 0\<rparr>"

definition zeroTransaction :: transaction where
  "zeroTransaction = \<lparr>tx_Type = UnknownTx [], tx_Header = zeroHeader, tx_Keyreg = zeroKeyreg,
     tx_Payment = zeroPayment, tx_AssetConfig = zeroAssetConfig,
     tx_AssetTransfer = zeroAssetTransfer, tx_AssetFreeze = zeroAssetFreeze,
     tx_ApplicationCall = zeroApplicationCall, tx_CompactCert = zeroCompactCert,
     tx_AddressPrint = zeroAddressPrint\<rparr>"

definition zeroMultisig :: multisigSig where
  "zeroMultisig = \<lparr>ms_Version = 0, ms_Threshold = 0, ms_Subsigs = None\<rparr>"

definition zeroLogicSig :: logicSig where
  "zeroLogicSig = \<lparr>ls_Logic = None, ls_Sig = 0, ls_Msig = zeroMultisig, ls_Args = []\<rparr>"

definition zeroSignedTxn :: signedTxn where
  "zeroSignedTxn = \<lparr>st_Sig = 0, st_Msig = zeroMultisig, st_Lsig = zeroLogicSig,
     st_Txn = zeroTransaction, st_AuthAddr = 0\<rparr>"

definition zeroApplyData :: applyData where
  "zeroApplyData = ApplyData 0 0 0 0 0 (EvalDelta [] [] [] []) 0 0"

section \<open>Checks on one transaction\<close>

datatype genesis_error = GenesisIDMismatch | GenesisHashMismatch | GenesisHashMissing
  | GenesisHashNotAllowed

datatype spender_error = CloseToSender | FeeSinkToNonPool | FeeSinkClose | SenderIsPool
  | ZeroSender

datatype keyreg_error = KeyregFirstVotingRoundGreaterThanLastVotingRound
  | KeyregNonCoherentVotingKeys | KeyregOfflineTransactionHasVotingRounds
  | KeyregUnsupportedSwitchToNonParticipating | KeyregGoingOnlineWithNonParticipating
  | KeyregGoingOnlineWithZeroVoteLast | KeyregGoingOnlineWithFirstVoteAfterLastValid
  | KeyregEmptyStateProofPK | KeyregNotEmptyStateProofPK
  | KeyregNonParticipantShouldBeEmptyStateProofPK | KeyregOfflineShouldBeEmptyStateProofPK
  | KeyregValidityPeriodTooLong

datatype program_error = ProgramsOnlyOnCreateOrUpdate | InvalidProgramEmpty | InvalidVersion
  | ProgramVersionMismatch | ProgramVersionDowngrade | ApprovalTooLong | ClearStateTooLong
  | ProgramsTooLong | SchemasImmutable | ExtraPagesImmutable | ExtraPagesTooLarge
  | LocalSchemaTooLarge | GlobalSchemaTooLarge

datatype reference_error = TooManyArgs | ArgsTooLong | AccountsTooLong | ForeignAppsTooLong
  | ForeignAssetsTooLong | ReferencesTooLong | InvalidAccountReference | InvalidAppReference

datatype cert_error = CompactCertNotSupported | BadCompactCertSender | FeeMustBeZero
  | NoteMustBeEmpty | GroupMustBeZero | RekeyMustBeZero | LeaseMustBeZero

datatype field_error = NoteTooBig | AssetNameTooBig | UnitNameTooBig | URLTooBig
  | DecimalsTooHigh | MinFee | InvalidRange | WindowExcessive

datatype support_error = AssetNotSupported | ApplicationNotSupported | InvalidOnCompletion
  | LeaseNotSupported | GroupNotSupported | RekeyNotSupported

datatype txn_error = TxnDead round round round
  | UnknownTxType txType | ForeignFields txType txType
  | GenesisErr genesis_error | SpenderErr spender_error | KeyregErr keyreg_error | ProgramErr program_error
  | ReferenceErr reference_error | CertErr cert_error | FieldErr field_error | SupportErr support_error

text \<open>A guard: the error when the condition holds, otherwise the rest of the function.\<close>

abbreviation failIf :: "bool \<Rightarrow> 'e \<Rightarrow> ('e, 'a) result \<Rightarrow> ('e, 'a) result" where
  "failIf c e rest \<equiv> (if c then Err e else rest)"

record explicitTxnContext =
  tc_ExplicitRound :: round
  tc_Proto :: consensusParams
  tc_GenID :: string
  tc_GenHash :: digest

definition Alive :: "txnHeader \<Rightarrow> explicitTxnContext \<Rightarrow> (txn_error, unit) result" where
  "Alive tx tc =
     (let rnd = tc_ExplicitRound tc; proto = tc_Proto tc in
      failIf (rnd < h_FirstValid tx \<or> rnd > h_LastValid tx)
        (TxnDead rnd (h_FirstValid tx) (h_LastValid tx)) (
      failIf (h_GenesisID tx \<noteq> [] \<and> h_GenesisID tx \<noteq> tc_GenID tc) (GenesisErr GenesisIDMismatch) (
      if cp_SupportGenesisHash proto then
        failIf (h_GenesisHash tx \<noteq> 0 \<and> h_GenesisHash tx \<noteq> tc_GenHash tc) (GenesisErr GenesisHashMismatch) (
        failIf (cp_RequireGenesisHash proto \<and> h_GenesisHash tx = 0) (GenesisErr GenesisHashMissing) (Ok ()))
      else failIf (h_GenesisHash tx \<noteq> 0) (GenesisErr GenesisHashNotAllowed) (Ok ()))))"

definition checkSpender :: "paymentTxnFields \<Rightarrow> txnHeader \<Rightarrow> specialAddresses \<Rightarrow> (txn_error, unit) result" where
  "checkSpender payment header spec =
     failIf (h_Sender header = pay_CloseRemainderTo payment) (SpenderErr CloseToSender) (
     if h_Sender header = FeeSink spec then
       failIf (pay_Receiver payment \<noteq> RewardsPool spec) (SpenderErr FeeSinkToNonPool) (
       failIf (pay_CloseRemainderTo payment \<noteq> 0) (SpenderErr FeeSinkClose) (Ok ()))
     else Ok ())"

definition checkSpender2 :: "addressPrintTxnFields \<Rightarrow> txnHeader \<Rightarrow> specialAddresses \<Rightarrow> (txn_error, unit) result" where
  "checkSpender2 addressprint header spec =
     failIf (h_Sender header = FeeSink spec \<and> apr_Receiver2 addressprint \<noteq> RewardsPool spec)
       (SpenderErr FeeSinkToNonPool) (Ok ())"

definition stateProofPKWellFormed :: "keyregTxnFields \<Rightarrow> consensusParams \<Rightarrow> (txn_error, unit) result" where
  "stateProofPKWellFormed tx proto =
     (let isEmpty = (kr_StateProofPK tx = 0) in
      if \<not> cp_EnableStateProofKeyregCheck proto
      then failIf (\<not> isEmpty) (KeyregErr KeyregNotEmptyStateProofPK) (Ok ())
      else failIf (cp_MaxKeyregValidPeriod proto \<noteq> 0 \<and>
             round_SubSaturate (kr_VoteLast tx) (kr_VoteFirst tx) > cp_MaxKeyregValidPeriod proto)
           (KeyregErr KeyregValidityPeriodTooLong) (
      if kr_Nonparticipation tx
      then failIf (\<not> isEmpty) (KeyregErr KeyregNonParticipantShouldBeEmptyStateProofPK) (Ok ())
      else if kr_VotePK tx = 0 \<or> kr_SelectionPK tx = 0
      then failIf (\<not> isEmpty) (KeyregErr KeyregOfflineShouldBeEmptyStateProofPK) (Ok ())
      else failIf isEmpty (KeyregErr KeyregEmptyStateProofPK) (Ok ())))"

definition keyregWellFormed :: "transaction \<Rightarrow> consensusParams \<Rightarrow> (txn_error, unit) result" where
  "keyregWellFormed tx proto =
     (let kr = tx_Keyreg tx in
      andThen
        (if cp_EnableKeyregCoherencyCheck proto then
           failIf (kr_VoteFirst kr > kr_VoteLast kr) (KeyregErr KeyregFirstVotingRoundGreaterThanLastVotingRound) (
           failIf (\<not> (kr_VotePK kr = 0 \<and> kr_SelectionPK kr = 0 \<and> kr_VoteKeyDilution kr = 0 \<or>
                     kr_VotePK kr \<noteq> 0 \<and> kr_SelectionPK kr \<noteq> 0 \<and> kr_VoteKeyDilution kr \<noteq> 0))
             (KeyregErr KeyregNonCoherentVotingKeys) (
           if kr_VoteKeyDilution kr = 0
           then failIf (kr_VoteFirst kr \<noteq> 0 \<or> kr_VoteLast kr \<noteq> 0) (KeyregErr KeyregOfflineTransactionHasVotingRounds) (Ok ())
           else failIf (kr_VoteLast kr = 0) (KeyregErr KeyregGoingOnlineWithZeroVoteLast) (
                failIf (kr_VoteFirst kr > h_LastValid (tx_Header tx) + 1)
                  (KeyregErr KeyregGoingOnlineWithFirstVoteAfterLastValid) (Ok ()))))
         else Ok ()) (\<lambda>_.
      andThen
        (if kr_Nonparticipation kr then
           failIf (\<not> cp_SupportBecomeNonParticipatingTransactions proto)
             (KeyregErr KeyregUnsupportedSwitchToNonParticipating) (
           failIf (\<not> (kr_VotePK kr = 0 \<or> kr_SelectionPK kr = 0))
             (KeyregErr KeyregGoingOnlineWithNonParticipating) (Ok ()))
         else Ok ()) (\<lambda>_.
      stateProofPKWellFormed kr proto)))"

text \<open>
  \<open>binary.Uvarint\<close>: little-endian groups of seven bits, at most ten bytes; \<open>None\<close> when
  the buffer ends early or the value does not fit 64 bits.
\<close>

fun uvarint :: "u8 list \<Rightarrow> nat \<Rightarrow> u64 \<Rightarrow> (u64 \<times> nat) option" where
  "uvarint [] i x = None"
| "uvarint (b # bs) i x =
     (if i \<ge> 10 then None
      else if b < 128 then
        (if i = 9 \<and> b > 1 then None else Some (or x (push_bit (7 * i) (ucast b)), i + 1))
      else uvarint bs (i + 1) (or x (push_bit (7 * i) (ucast (and b 127)))))"

definition ProgramVersion :: "u8 list \<Rightarrow> (txn_error, u64 \<times> nat) result" where
  "ProgramVersion bytecode =
     failIf (bytecode = []) (ProgramErr InvalidProgramEmpty) (
     case uvarint bytecode 0 0 of None \<Rightarrow> Err (ProgramErr InvalidVersion) | Some (version, vlen) \<Rightarrow> Ok (version, vlen))"

definition ExtraProgramChecksVersion :: u64 where
  "ExtraProgramChecksVersion = 6"

definition CheckContractVersions :: "u8 list \<Rightarrow> u8 list \<Rightarrow> u8 list \<Rightarrow> (txn_error, unit) result" where
  "CheckContractVersions approval clear previousApproval =
     andThen (ProgramVersion approval) (\<lambda>(av, _).
     andThen (ProgramVersion clear) (\<lambda>(cv, _).
     failIf ((av \<ge> ExtraProgramChecksVersion \<or> cv \<ge> ExtraProgramChecksVersion) \<and> av \<noteq> cv)
       (ProgramErr ProgramVersionMismatch) (
     if previousApproval \<noteq> [] then
       andThen (ProgramVersion previousApproval) (\<lambda>(pv, _).
       failIf (pv \<ge> ExtraProgramChecksVersion \<and> av < pv) (ProgramErr ProgramVersionDowngrade) (Ok ()))
     else Ok ())))"

definition argSum :: "u8 list list \<Rightarrow> u64" where
  "argSum args = fold (\<lambda>arg acc. AddSaturate acc (of_nat (length arg))) args 0"

definition appCallWellFormed :: "applicationCallTxnFields \<Rightarrow> consensusParams \<Rightarrow> (txn_error, unit) result" where
  "appCallWellFormed tx proto =
     failIf (\<not> cp_Application proto) (SupportErr ApplicationNotSupported) (
     failIf (case apc_OnCompletion tx of InvalidOC _ \<Rightarrow> True | _ \<Rightarrow> False) (SupportErr InvalidOnCompletion) (
     let approval = elems (apc_ApprovalProgram tx); clear = elems (apc_ClearStateProgram tx);
         accounts = length (elems (apc_Accounts tx)); apps = length (elems (apc_ForeignApps tx));
         assets = length (elems (apc_ForeignAssets tx)); args = elems (apc_ApplicationArgs tx) in
     andThen
       (if apc_ApplicationID tx \<noteq> 0 \<and> apc_OnCompletion tx \<noteq> UpdateApplicationOC
        then failIf (approval \<noteq> [] \<or> clear \<noteq> []) (ProgramErr ProgramsOnlyOnCreateOrUpdate) (Ok ())
        else CheckContractVersions approval clear []) (\<lambda>_.
     andThen
       (if apc_ApplicationID tx \<noteq> 0 then
          failIf (apc_LocalStateSchema tx \<noteq> zeroSchema \<or> apc_GlobalStateSchema tx \<noteq> zeroSchema) (ProgramErr SchemasImmutable) (
          failIf (apc_ExtraProgramPages tx \<noteq> 0) (ProgramErr ExtraPagesImmutable) (
          Ok (if cp_EnableExtraPagesOnAppUpdate proto then word_of_int (cp_MaxExtraAppProgramPages proto)
              else apc_ExtraProgramPages tx)))
        else Ok (apc_ExtraProgramPages tx)) (\<lambda>effectiveEPP :: u32.
     failIf (int (length args) > cp_MaxAppArgs proto) (ReferenceErr TooManyArgs) (
     failIf (argSum args > word_of_int (cp_MaxAppTotalArgLen proto)) (ReferenceErr ArgsTooLong) (
     failIf (int accounts > cp_MaxAppTxnAccounts proto) (ReferenceErr AccountsTooLong) (
     failIf (int apps > cp_MaxAppTxnForeignApps proto) (ReferenceErr ForeignAppsTooLong) (
     failIf (int assets > cp_MaxAppTxnForeignAssets proto) (ReferenceErr ForeignAssetsTooLong) (
     failIf (int (accounts + apps + assets) > cp_MaxAppTotalTxnReferences proto) (ReferenceErr ReferencesTooLong) (
     failIf (apc_ExtraProgramPages tx > word_of_int (cp_MaxExtraAppProgramPages proto)) (ProgramErr ExtraPagesTooLarge) (
     let lap = int (length approval); lcs = int (length clear); pages = uint (1 + effectiveEPP) in
     failIf (lap > pages * cp_MaxAppProgramLen proto) (ProgramErr ApprovalTooLong) (
     failIf (lcs > pages * cp_MaxAppProgramLen proto) (ProgramErr ClearStateTooLong) (
     failIf (lap + lcs > pages * cp_MaxAppTotalProgramLen proto) (ProgramErr ProgramsTooLong) (
     failIf (NumEntries (apc_LocalStateSchema tx) > cp_MaxLocalSchemaEntries proto) (ProgramErr LocalSchemaTooLarge) (
     failIf (NumEntries (apc_GlobalStateSchema tx) > cp_MaxGlobalSchemaEntries proto) (ProgramErr GlobalSchemaTooLarge) (
     Ok ()))))))))))))))))"

definition compactCertWellFormed :: "address \<Rightarrow> txnHeader \<Rightarrow> consensusParams \<Rightarrow> (txn_error, unit) result" where
  "compactCertWellFormed compactCertSender tx proto =
     failIf (cp_CompactCertRounds proto = 0) (CertErr CompactCertNotSupported) (
     failIf (h_Sender tx \<noteq> compactCertSender) (CertErr BadCompactCertSender) (
     failIf (\<not> IsZero (h_Fee tx)) (CertErr FeeMustBeZero) (
     failIf (h_Note tx \<noteq> []) (CertErr NoteMustBeEmpty) (
     failIf (h_Group tx \<noteq> 0) (CertErr GroupMustBeZero) (
     failIf (h_RekeyTo tx \<noteq> 0) (CertErr RekeyMustBeZero) (
     failIf (h_Lease tx \<noteq> 0) (CertErr LeaseMustBeZero) (Ok ())))))))"

definition typeWellFormed :: "address \<Rightarrow> transaction \<Rightarrow> specialAddresses \<Rightarrow> consensusParams \<Rightarrow> (txn_error, unit) result" where
  "typeWellFormed compactCertSender tx spec proto =
     (case tx_Type tx of
        PaymentTx \<Rightarrow> checkSpender (tx_Payment tx) (tx_Header tx) spec
      | KeyRegistrationTx \<Rightarrow> keyregWellFormed tx proto
      | AssetConfigTx \<Rightarrow> failIf (\<not> cp_Asset proto) (SupportErr AssetNotSupported) (Ok ())
      | AssetTransferTx \<Rightarrow> failIf (\<not> cp_Asset proto) (SupportErr AssetNotSupported) (Ok ())
      | AssetFreezeTx \<Rightarrow> failIf (\<not> cp_Asset proto) (SupportErr AssetNotSupported) (Ok ())
      | ApplicationCallTx \<Rightarrow> appCallWellFormed (tx_ApplicationCall tx) proto
      | CompactCertTx \<Rightarrow> compactCertWellFormed compactCertSender (tx_Header tx) proto
      | AddressPrintTx \<Rightarrow> checkSpender2 (tx_AddressPrint tx) (tx_Header tx) spec
      | UnknownTx _ \<Rightarrow> Err (UnknownTxType (tx_Type tx)))"

definition ApplicationCall_Empty :: "applicationCallTxnFields \<Rightarrow> bool" where
  "ApplicationCall_Empty ac =
     (apc_ApplicationID ac = 0 \<and> apc_OnCompletion ac = NoOpOC \<and> apc_ApplicationArgs ac = None \<and>
      apc_Accounts ac = None \<and> apc_ForeignApps ac = None \<and> apc_ForeignAssets ac = None \<and>
      apc_LocalStateSchema ac = zeroSchema \<and> apc_GlobalStateSchema ac = zeroSchema \<and>
      apc_ApprovalProgram ac = None \<and> apc_ClearStateProgram ac = None \<and>
      apc_ExtraProgramPages ac = 0)"

definition CompactCert_Empty :: "compactCertTxnFields \<Rightarrow> bool" where
  "CompactCert_Empty cc =
     (cct_CertRound cc = 0 \<and> cct_SigCommit cc = [] \<and> cct_SignedWeight cc = 0 \<and>
      cct_SigProofsPath cc = [] \<and> cct_PartProofsPath cc = [] \<and> cct_Reveals cc = [])"

text \<open>The types whose fields are set, and the first of them that is not the transaction's own.\<close>

definition nonZeroFields :: "transaction \<Rightarrow> txType list" where
  "nonZeroFields tx =
     (if tx_Payment tx \<noteq> zeroPayment then [PaymentTx] else []) @
     (if tx_Keyreg tx \<noteq> zeroKeyreg then [KeyRegistrationTx] else []) @
     (if tx_AssetConfig tx \<noteq> zeroAssetConfig then [AssetConfigTx] else []) @
     (if tx_AssetTransfer tx \<noteq> zeroAssetTransfer then [AssetTransferTx] else []) @
     (if tx_AssetFreeze tx \<noteq> zeroAssetFreeze then [AssetFreezeTx] else []) @
     (if \<not> ApplicationCall_Empty (tx_ApplicationCall tx) then [ApplicationCallTx] else []) @
     (if \<not> CompactCert_Empty (tx_CompactCert tx) then [CompactCertTx] else []) @
     (if tx_AddressPrint tx \<noteq> zeroAddressPrint then [AddressPrintTx] else [])"

definition WellFormed :: "address \<Rightarrow> transaction \<Rightarrow> specialAddresses \<Rightarrow> consensusParams \<Rightarrow> (txn_error, unit) result" where
  "WellFormed compactCertSender tx spec proto =
     (let h = tx_Header tx; ap = ac_AssetParams (tx_AssetConfig tx) in
      andThen (typeWellFormed compactCertSender tx spec proto) (\<lambda>_.
      andThen (case find (\<lambda>t. t \<noteq> tx_Type tx) (nonZeroFields tx) of
                 None \<Rightarrow> Ok () | Some t \<Rightarrow> Err (ForeignFields (tx_Type tx) t)) (\<lambda>_.
      failIf (\<not> cp_EnableFeePooling proto \<and> LessThan (h_Fee h) (cp_MinTxnFee proto) \<and> tx_Type tx \<noteq> CompactCertTx) (FieldErr MinFee) (
      failIf (h_LastValid h < h_FirstValid h) (FieldErr InvalidRange) (
      failIf (h_LastValid h - h_FirstValid h > cp_MaxTxnLife proto) (FieldErr WindowExcessive) (
      failIf (int (length (h_Note h)) > cp_MaxTxnNoteBytes proto) (FieldErr NoteTooBig) (
      failIf (int (length (ap_AssetName ap)) > cp_MaxAssetNameBytes proto) (FieldErr AssetNameTooBig) (
      failIf (int (length (ap_UnitName ap)) > cp_MaxAssetUnitNameBytes proto) (FieldErr UnitNameTooBig) (
      failIf (int (length (ap_URL ap)) > cp_MaxAssetURLBytes proto) (FieldErr URLTooBig) (
      failIf (ap_Decimals ap > cp_MaxAssetDecimals proto) (FieldErr DecimalsTooHigh) (
      failIf (h_Sender h = RewardsPool spec) (SpenderErr SenderIsPool) (
      failIf (h_Sender h = 0) (SpenderErr ZeroSender) (
      failIf (\<not> cp_SupportTransactionLeases proto \<and> h_Lease h \<noteq> 0) (SupportErr LeaseNotSupported) (
      failIf (\<not> cp_SupportTxGroups proto \<and> h_Group h \<noteq> 0) (SupportErr GroupNotSupported) (
      failIf (\<not> cp_SupportRekeying proto \<and> h_RekeyTo h \<noteq> 0) (SupportErr RekeyNotSupported) (
      Ok ()))))))))))))))))"

section \<open>Addresses and references\<close>

definition RelevantAddrs :: "transaction \<Rightarrow> specialAddresses \<Rightarrow> address list" where
  "RelevantAddrs tx spec = [h_Sender (tx_Header tx), FeeSink spec] @
     (case tx_Type tx of
        PaymentTx \<Rightarrow> pay_Receiver (tx_Payment tx) #
          (if pay_CloseRemainderTo (tx_Payment tx) \<noteq> 0 then [pay_CloseRemainderTo (tx_Payment tx)] else [])
      | AssetTransferTx \<Rightarrow> ax_AssetReceiver (tx_AssetTransfer tx) #
          (if ax_AssetCloseTo (tx_AssetTransfer tx) \<noteq> 0 then [ax_AssetCloseTo (tx_AssetTransfer tx)] else []) @
          (if ax_AssetSender (tx_AssetTransfer tx) \<noteq> 0 then [ax_AssetSender (tx_AssetTransfer tx)] else [])
      | AddressPrintTx \<Rightarrow> [apr_Receiver2 (tx_AddressPrint tx)]
      | _ \<Rightarrow> [])"

definition MatchAddress :: "transaction \<Rightarrow> address \<Rightarrow> specialAddresses \<Rightarrow> bool" where
  "MatchAddress tx addr spec = list_ex (\<lambda>candidate. addr = candidate) (RelevantAddrs tx spec)"

definition TxAmount :: "transaction \<Rightarrow> microNovas" where
  "TxAmount tx = (case tx_Type tx of PaymentTx \<Rightarrow> pay_Amount (tx_Payment tx) | _ \<Rightarrow> 0)"

definition GetReceiverAddress :: "transaction \<Rightarrow> address" where
  "GetReceiverAddress tx =
     (case tx_Type tx of
        PaymentTx \<Rightarrow> pay_Receiver (tx_Payment tx)
      | AssetTransferTx \<Rightarrow> ax_AssetReceiver (tx_AssetTransfer tx)
      | AddressPrintTx \<Rightarrow> apr_Receiver2 (tx_AddressPrint tx)
      | _ \<Rightarrow> 0)"

definition AddressByIndex :: "applicationCallTxnFields \<Rightarrow> u64 \<Rightarrow> address \<Rightarrow> (txn_error, address) result" where
  "AddressByIndex ac accountIdx sender =
     (let accounts = elems (apc_Accounts ac) in
      if accountIdx = 0 then Ok sender
      else failIf (accountIdx > of_nat (length accounts)) (ReferenceErr InvalidAccountReference) (
      Ok (accounts ! unat (accountIdx - 1))))"

text \<open>The position of the first occurrence in a slice.\<close>

fun indexOf :: "'a \<Rightarrow> 'a list \<Rightarrow> nat option" where
  "indexOf x [] = None"
| "indexOf x (y # ys) = (if x = y then Some 0 else map_option Suc (indexOf x ys))"

definition IndexByAddress :: "applicationCallTxnFields \<Rightarrow> address \<Rightarrow> address \<Rightarrow> (txn_error, u64) result" where
  "IndexByAddress ac target sender =
     (if target = sender then Ok 0
      else case indexOf target (elems (apc_Accounts ac)) of
             Some idx \<Rightarrow> Ok (of_nat idx + 1)
           | None \<Rightarrow> Err (ReferenceErr InvalidAccountReference))"

definition AppIDByIndex :: "applicationCallTxnFields \<Rightarrow> u64 \<Rightarrow> (txn_error, appIndex) result" where
  "AppIDByIndex ac i =
     (let apps = elems (apc_ForeignApps ac) in
      if i = 0 then Ok (apc_ApplicationID ac)
      else failIf (i > of_nat (length apps)) (ReferenceErr InvalidAppReference) (
      Ok (apps ! unat (i - 1))))"

definition IndexByAppID :: "applicationCallTxnFields \<Rightarrow> appIndex \<Rightarrow> (txn_error, u64) result" where
  "IndexByAppID ac appID =
     (if appID = apc_ApplicationID ac then Ok 0
      else case indexOf appID (elems (apc_ForeignApps ac)) of
             Some i \<Rightarrow> Ok (of_nat i + 1)
           | None \<Rightarrow> Err (ReferenceErr InvalidAppReference))"

definition Authorizer :: "signedTxn \<Rightarrow> address" where
  "Authorizer s = (if st_AuthAddr s = 0 then h_Sender (tx_Header (st_Txn s)) else st_AuthAddr s)"

definition Multisig_Blank :: "multisigSig \<Rightarrow> bool" where
  "Multisig_Blank msig = (ms_Version msig = 0 \<and> ms_Threshold msig = 0 \<and> ms_Subsigs msig = None)"

definition LogicSig_Blank :: "logicSig \<Rightarrow> bool" where
  "LogicSig_Blank lsig = (elems (ls_Logic lsig) = [])"

definition LogicSig_Len :: "logicSig \<Rightarrow> nat" where
  "LogicSig_Len lsig = fold (\<lambda>arg n. n + length (elems arg)) (ls_Args lsig) (length (elems (ls_Logic lsig)))"

datatype assemble_error = SigAndMsig

definition AssembleSignedTxn :: "transaction \<Rightarrow> 512 word \<Rightarrow> multisigSig \<Rightarrow> (assemble_error, signedTxn) result" where
  "AssembleSignedTxn txn sig msig =
     failIf (sig \<noteq> 0 \<and> \<not> Multisig_Blank msig) SigAndMsig (
     Ok (zeroSignedTxn\<lparr>st_Txn := txn, st_Sig := sig, st_Msig := msig\<rparr>))"

definition WrapSignedTxnsWithAD :: "signedTxn list \<Rightarrow> signedTxnWithAD list" where
  "WrapSignedTxnsWithAD txgroup = map (\<lambda>tx. SignedTxnWithAD tx zeroApplyData) txgroup"

section \<open>What a well-formed transaction guarantees\<close>

lemma WellFormed_type:
  "WellFormed ccs tx spec proto = Ok () \<Longrightarrow> typeWellFormed ccs tx spec proto = Ok ()"
  by (auto simp: WellFormed_def Let_def result_simps)

lemma WellFormed_own_fields:
  assumes "WellFormed ccs tx spec proto = Ok ()"
  shows "set (nonZeroFields tx) \<subseteq> {tx_Type tx}"
  using assms by (auto simp: WellFormed_def Let_def result_simps find_None_iff split: option.splits)

lemma WellFormed_header:
  assumes "WellFormed ccs tx spec proto = Ok ()"
  shows "h_Sender (tx_Header tx) \<noteq> 0 \<and> h_Sender (tx_Header tx) \<noteq> RewardsPool spec \<and>
    h_FirstValid (tx_Header tx) \<le> h_LastValid (tx_Header tx) \<and>
    unat (h_LastValid (tx_Header tx)) - unat (h_FirstValid (tx_Header tx)) \<le> unat (cp_MaxTxnLife proto)"
  using assms
  by (auto simp: WellFormed_def Let_def result_simps not_less word_le_nat_alt unat_sub split: if_splits)

lemma checkSpender_Ok:
  "checkSpender pay h spec = Ok () \<longleftrightarrow>
     h_Sender h \<noteq> pay_CloseRemainderTo pay \<and>
     (h_Sender h = FeeSink spec \<longrightarrow> pay_Receiver pay = RewardsPool spec \<and> pay_CloseRemainderTo pay = 0)"
  by (auto simp: checkSpender_def)

lemma indexOf_Some: "indexOf x xs = Some i \<Longrightarrow> i < length xs \<and> xs ! i = x"
  by (induction xs arbitrary: i) (auto split: if_splits)

lemma indexOf_None: "indexOf x xs = None \<longleftrightarrow> x \<notin> set xs"
  by (induction xs) auto

lemma index_reference:
  assumes "i < length xs" "length xs < 2 ^ 64"
  shows "of_nat i + 1 \<noteq> (0 :: u64)" "\<not> of_nat i + 1 > (of_nat (length xs) :: u64)"
    "unat (of_nat i + 1 - 1 :: u64) = i"
proof -
  have i: "unat (of_nat i :: u64) = i" "unat (of_nat (length xs) :: u64) = length xs"
    using assms by (simp_all add: unat_of_nat)
  then have s: "unat (of_nat i + 1 :: u64) = i + 1"
    using assms by (simp add: unat_add_u64)
  show "of_nat i + 1 \<noteq> (0 :: u64)"
    using s by (metis Suc_eq_plus1 nat.distinct(1) unsigned_0)
  show "\<not> of_nat i + 1 > (of_nat (length xs) :: u64)"
    using s i assms(1) by (simp add: word_less_nat_alt)
  show "unat (of_nat i + 1 - 1 :: u64) = i"
    using i by simp
qed

lemma IndexByAddress_AddressByIndex:
  assumes "IndexByAddress ac target sender = Ok i" "length (elems (apc_Accounts ac)) < 2 ^ 64"
  shows "AddressByIndex ac i sender = Ok target"
  using assms index_reference [where xs = "elems (apc_Accounts ac)"]
  by (auto simp: IndexByAddress_def AddressByIndex_def Let_def dest!: indexOf_Some
      split: if_splits option.splits)

lemma IndexByAppID_AppIDByIndex:
  assumes "IndexByAppID ac appID = Ok i" "length (elems (apc_ForeignApps ac)) < 2 ^ 64"
  shows "AppIDByIndex ac i = Ok appID"
  using assms index_reference [where xs = "elems (apc_ForeignApps ac)"]
  by (auto simp: IndexByAppID_def AppIDByIndex_def Let_def dest!: indexOf_Some
      split: if_splits option.splits)

section \<open>Properties\<close>

text \<open>
  C10. A transaction that passes \<open>WellFormed\<close> names a sender that is neither the zero address
  nor the rewards pool, has a validity interval that is ordered and no longer than the
  protocol allows, sets the fields of its own type only, and, if it pays out of the fee
  sink, pays the rewards pool and closes nothing.
\<close>

theorem WellFormed_guarantees:
  assumes "WellFormed ccs tx spec proto = Ok ()"
  shows "h_Sender (tx_Header tx) \<noteq> 0 \<and> h_Sender (tx_Header tx) \<noteq> RewardsPool spec \<and>
    unat (h_FirstValid (tx_Header tx)) \<le> unat (h_LastValid (tx_Header tx)) \<and>
    unat (h_LastValid (tx_Header tx)) - unat (h_FirstValid (tx_Header tx)) \<le> unat (cp_MaxTxnLife proto) \<and>
    set (nonZeroFields tx) \<subseteq> {tx_Type tx} \<and>
    (tx_Type tx = PaymentTx \<and> h_Sender (tx_Header tx) = FeeSink spec \<longrightarrow>
       pay_Receiver (tx_Payment tx) = RewardsPool spec \<and> pay_CloseRemainderTo (tx_Payment tx) = 0)"
proof -
  have "tx_Type tx = PaymentTx \<Longrightarrow> checkSpender (tx_Payment tx) (tx_Header tx) spec = Ok ()"
    using WellFormed_type [OF assms] by (simp add: typeWellFormed_def)
  then show ?thesis
    using WellFormed_header [OF assms] WellFormed_own_fields [OF assms]
    by (auto simp: checkSpender_Ok word_le_nat_alt)
qed

definition samplePayment :: transaction where
  "samplePayment = zeroTransaction\<lparr>tx_Type := PaymentTx,
     tx_Header := zeroHeader\<lparr>h_Sender := 5, h_Fee := 1000, h_FirstValid := 1, h_LastValid := 1001, h_GenesisHash := 9\<rparr>,
     tx_Payment := zeroPayment\<lparr>pay_Receiver := 6, pay_Amount := 100\<rparr>\<rparr>"

theorem WellFormed_guarantees_witness:
  "WellFormed 77 samplePayment \<lparr>FeeSink = 1, RewardsPool = 2\<rparr> v31 = Ok () \<and>
   h_Sender (tx_Header samplePayment) \<noteq> RewardsPool \<lparr>FeeSink = 1, RewardsPool = 2\<rparr>"
proof -
  have "WellFormed 77 samplePayment \<lparr>FeeSink = 1, RewardsPool = 2\<rparr> v31 = Ok ()"
    by (simp add: WellFormed_def samplePayment_def zeroTransaction_def zeroHeader_def zeroPayment_def version_params
        Let_def typeWellFormed_def checkSpender_def nonZeroFields_def zeroKeyreg_def zeroAssetConfig_def
        zeroAssetTransfer_def zeroAssetFreeze_def zeroApplicationCall_def zeroCompactCert_def zeroAddressPrint_def
        ApplicationCall_Empty_def CompactCert_Empty_def zeroAssetParams_def zeroSchema_def)
  with WellFormed_guarantees [OF this] show ?thesis by blast
qed

text \<open>
  C18. Resolving a reference and naming it are inverse: the index that \<open>IndexByAddress\<close>
  and \<open>IndexByAppID\<close> give for an account or an application is in range and is resolved by
  \<open>AddressByIndex\<close> and \<open>AppIDByIndex\<close> to that account or application.
\<close>

theorem reference_roundtrip:
  assumes "length (elems (apc_Accounts ac)) < 2 ^ 64" "length (elems (apc_ForeignApps ac)) < 2 ^ 64"
  shows "(case IndexByAddress ac target sender of
       Ok i \<Rightarrow> AddressByIndex ac i sender = Ok target
     | _ \<Rightarrow> target \<noteq> sender \<and> target \<notin> set (elems (apc_Accounts ac))) \<and>
    (case IndexByAppID ac appID of
       Ok i \<Rightarrow> AppIDByIndex ac i = Ok appID
     | _ \<Rightarrow> appID \<noteq> apc_ApplicationID ac \<and> appID \<notin> set (elems (apc_ForeignApps ac)))"
  using IndexByAddress_AddressByIndex [OF _ assms(1)] IndexByAppID_AppIDByIndex [OF _ assms(2)]
  by (auto simp: IndexByAddress_def IndexByAppID_def indexOf_None split: result.splits option.splits if_splits)

definition sampleCall :: applicationCallTxnFields where
  "sampleCall = zeroApplicationCall\<lparr>apc_Accounts := Some [4, 8]\<rparr>"

theorem reference_roundtrip_witness:
  "IndexByAddress sampleCall 8 3 = Ok 2 \<and> AddressByIndex sampleCall 2 3 = Ok 8"
proof -
  have i: "IndexByAddress sampleCall 8 3 = Ok 2"
    by (simp add: sampleCall_def zeroApplicationCall_def IndexByAddress_def)
  have "length (elems (apc_Accounts sampleCall)) < 2 ^ 64" "length (elems (apc_ForeignApps sampleCall)) < 2 ^ 64"
    by (simp_all add: sampleCall_def zeroApplicationCall_def)
  from conjunct1 [OF reference_roundtrip [OF this, where target = 8 and sender = 3]] i show ?thesis by simp
qed

end
