(* ===== verification/Bookkeeping_Block.thy ===== *)
theory Bookkeeping_Block
  imports Transactions
begin

text \<open>
  Blocks (\<open>src/data/bookkeeping/block.go\<close>): the header, the rewards state and its step from
  one round to the next, the protocol-upgrade state machine, the construction of a block on
  top of a header and the checks of a header against the one before it, and the encoding of
  transactions inside a block.

  The table \<open>config.Consensus\<close> is an argument (\<open>tbl\<close>). So are the hash of a header, the two
  commitments to a payset and the wall clock, which are cryptographic library functions and
  operating-system services. An error returned by the code is a constructor of
  \<open>block_error\<close>; \<open>logging.Panicf\<close> and a division by zero are \<open>Panic\<close>.
\<close>

section \<open>Headers\<close>

record rewardsState =
  rs_FeeSink :: address
  rs_RewardsPool :: address
  rs_RewardsLevel :: u64
  rs_RewardsRate :: u64
  rs_RewardsResidue :: u64
  rs_RewardsRecalculationRound :: round

record upgradeVote =
  uv_UpgradePropose :: consensusVersion
  uv_UpgradeDelay :: round
  uv_UpgradeApprove :: bool

record upgradeState =
  us_CurrentProtocol :: consensusVersion
  us_NextProtocol :: consensusVersion
  us_NextProtocolApprovals :: u64
  us_NextProtocolVoteBefore :: round
  us_NextProtocolSwitchOn :: round

record compactCertState =
  ccs_CompactCertVoters :: "u8 list"
  ccs_CompactCertVotersTotal :: microNovas
  ccs_CompactCertNextRound :: round

record blockHeader =
  bh_Round :: round
  bh_Branch :: digest
  bh_Seed :: bytes32
  bh_TxnRoot :: digest
  bh_TimeStamp :: "64 word"
  bh_GenesisID :: string
  bh_GenesisHash :: digest
  bh_RewardsState :: rewardsState
  bh_UpgradeState :: upgradeState
  bh_UpgradeVote :: upgradeVote
  bh_TxnCounter :: u64
  bh_CompactCert :: "(u64, compactCertState) gomap"
  bh_ExpiredParticipationAccounts :: "address list"

record block =
  bl_BlockHeader :: blockHeader
  bl_Payset :: "signedTxnInBlock list"

type_synonym hashHeader = "blockHeader \<Rightarrow> digest"
type_synonym consensusTable = "(consensusVersion, consensusParams) gomap"

definition Block_Digest :: "hashHeader \<Rightarrow> block \<Rightarrow> digest" where
  "Block_Digest hash b = hash (bl_BlockHeader b)"

definition Block_Round :: "block \<Rightarrow> round" where
  "Block_Round b = bh_Round (bl_BlockHeader b)"

definition ConsensusProtocol :: "consensusTable \<Rightarrow> block \<Rightarrow> consensusParams" where
  "ConsensusProtocol tbl b = consensusAt tbl (us_CurrentProtocol (bh_UpgradeState (bl_BlockHeader b)))"

definition WithSeed :: "block \<Rightarrow> bytes32 \<Rightarrow> block" where
  "WithSeed b s = b\<lparr>bl_BlockHeader := (bl_BlockHeader b)\<lparr>bh_Seed := s\<rparr>\<rparr>"

definition Block_Seed :: "block \<Rightarrow> bytes32" where
  "Block_Seed b = bh_Seed (bl_BlockHeader b)"

section \<open>Rewards\<close>

text \<open>The recalculation of the rewards rate at the start of a refresh interval.\<close>

definition refreshRate :: "rewardsState \<Rightarrow> round \<Rightarrow> consensusParams \<Rightarrow> microNovas \<Rightarrow> ('e, rewardsState) result" where
  "refreshRate res nextRound nextProto incentivePoolBalance =
     (let maxSpentOver =
            (if cp_PendingResidueRewards nextProto
             then let (sum, overflowed) = OAdd (cp_MinBalance nextProto) (rs_RewardsResidue res)
                  in if overflowed then incentivePoolBalance else sum
             else cp_MinBalance nextProto);
          (newRate, overflowed) = OSub incentivePoolBalance maxSpentOver;
          newRate = (if overflowed then 0 else newRate);
          interval = cp_RewardsRateRefreshInterval nextProto
      in if interval = 0 then Panic DivideByZero
         else Ok (res\<lparr>rs_RewardsRate := newRate div interval,
                      rs_RewardsRecalculationRound := nextRound + interval\<rparr>))"

definition NextRewardsState ::
    "rewardsState \<Rightarrow> round \<Rightarrow> consensusParams \<Rightarrow> microNovas \<Rightarrow> u64 \<Rightarrow> ('e, rewardsState) result" where
  "NextRewardsState s nextRound nextProto incentivePoolBalance totalRewardUnits =
     andThen (if nextRound = rs_RewardsRecalculationRound s
              then refreshRate s nextRound nextProto incentivePoolBalance else Ok s) (\<lambda>res.
     if totalRewardUnits = 0 then Ok res
     else
       let rewardsRate = (if cp_RewardsCalculationFix nextProto then rs_RewardsRate res else rs_RewardsRate s);
           ot = \<lparr>Overflowed = False\<rparr>;
           (rewardsWithResidue, ot) = ot_Add rewardsRate (rs_RewardsResidue res) ot;
           (nextRewardLevel, ot) = ot_Add (rs_RewardsLevel res) (rewardsWithResidue div totalRewardUnits) ot;
           nextResidue = rewardsWithResidue mod totalRewardUnits
       in if Overflowed ot then Ok res
          else Ok (res\<lparr>rs_RewardsLevel := nextRewardLevel, rs_RewardsResidue := nextResidue\<rparr>))"

section \<open>Protocol upgrades\<close>

datatype upgrade_error = UnsupportedProtocol consensusVersion | ProposalDuringProposal | VersionTooLong
  | WaitOutOfRange | DelayWithoutProposal | ApprovalWithoutProposal | ApprovalAfterDeadline

definition clearProposal :: "upgradeState \<Rightarrow> upgradeState" where
  "clearProposal s = s\<lparr>us_NextProtocol := [], us_NextProtocolApprovals := 0,
     us_NextProtocolVoteBefore := 0, us_NextProtocolSwitchOn := 0\<rparr>"

text \<open>The three stages of \<open>applyUpgradeVote\<close>: the proposal, the approval, and what falls due in this round.\<close>

definition applyProposal :: "consensusParams \<Rightarrow> round \<Rightarrow> upgradeVote \<Rightarrow> upgradeState \<Rightarrow> (upgrade_error, upgradeState) result" where
  "applyProposal params r vote s =
     (if uv_UpgradePropose vote \<noteq> [] then
        failIf (us_NextProtocol s \<noteq> []) ProposalDuringProposal (
        failIf (int (length (uv_UpgradePropose vote)) > cp_MaxVersionStringLen params) VersionTooLong (
        failIf (uv_UpgradeDelay vote > cp_MaxUpgradeWaitRounds params \<or>
                uv_UpgradeDelay vote < cp_MinUpgradeWaitRounds params) WaitOutOfRange (
        let upgradeDelay = (if uv_UpgradeDelay vote = 0 then cp_DefaultUpgradeWaitRounds params
                            else uv_UpgradeDelay vote)
        in Ok (s\<lparr>us_NextProtocol := uv_UpgradePropose vote, us_NextProtocolApprovals := 0,
                 us_NextProtocolVoteBefore := r + cp_UpgradeVoteRounds params,
                 us_NextProtocolSwitchOn := r + cp_UpgradeVoteRounds params + upgradeDelay\<rparr>))))
      else failIf (uv_UpgradeDelay vote \<noteq> 0) DelayWithoutProposal (Ok s))"

definition applyApproval :: "round \<Rightarrow> upgradeVote \<Rightarrow> upgradeState \<Rightarrow> (upgrade_error, upgradeState) result" where
  "applyApproval r vote s =
     (if uv_UpgradeApprove vote then
        failIf (us_NextProtocol s = []) ApprovalWithoutProposal (
        failIf (r \<ge> us_NextProtocolVoteBefore s) ApprovalAfterDeadline (
        Ok (s\<lparr>us_NextProtocolApprovals := us_NextProtocolApprovals s + 1\<rparr>)))
      else Ok s)"

definition applyDeadlines :: "consensusParams \<Rightarrow> round \<Rightarrow> upgradeState \<Rightarrow> upgradeState" where
  "applyDeadlines params r s =
     (let s = (if r = us_NextProtocolVoteBefore s \<and> us_NextProtocolApprovals s < cp_UpgradeThreshold params
               then clearProposal s else s)
      in if r = us_NextProtocolSwitchOn s
         then clearProposal (s\<lparr>us_CurrentProtocol := us_NextProtocol s\<rparr>) else s)"

definition applyUpgradeVote :: "consensusTable \<Rightarrow> round \<Rightarrow> upgradeVote \<Rightarrow> upgradeState \<Rightarrow> (upgrade_error, upgradeState) result" where
  "applyUpgradeVote tbl r vote s =
     (case mget tbl (us_CurrentProtocol s) of
        None \<Rightarrow> Err (UnsupportedProtocol (us_CurrentProtocol s))
      | Some params \<Rightarrow>
          andThen (applyProposal params r vote s) (\<lambda>s.
          andThen (applyApproval r vote s) (\<lambda>s.
          Ok (applyDeadlines params r s))))"

definition zeroUpgradeVote :: upgradeVote where
  "zeroUpgradeVote = \<lparr>uv_UpgradePropose = [], uv_UpgradeDelay = 0, uv_UpgradeApprove = False\<rparr>"

datatype block_error = PreviousProtocolNotSupported consensusVersion | InvalidUpgradeVote upgrade_error
  | ProtocolNotSupported consensusVersion | RoundIncorrect | BranchIncorrect | UpgradeStateMismatch
  | TimestampDecreased | TimestampTooFar | GenesisIDAbsent | GenesisIDDiffers | GenesisHashAbsent
  | GenesisHashDiffers | GenesisHashPresent | UnsupportedPaysetCommit | MerkleTreeError

text \<open>The proposer's own vote: propose the first approved upgrade, or approve the active one.\<close>

definition proposerVote :: "consensusParams \<Rightarrow> blockHeader \<Rightarrow> upgradeVote" where
  "proposerVote prevParams prev =
     (let us = bh_UpgradeState prev;
          vote = (if us_NextProtocol us = [] then
                    (case approvedUpgrades prevParams of
                       [] \<Rightarrow> zeroUpgradeVote
                     | (k, v) # _ \<Rightarrow> \<lparr>uv_UpgradePropose = k, uv_UpgradeDelay = v, uv_UpgradeApprove = True\<rparr>)
                  else zeroUpgradeVote)
      in if bh_Round prev + 1 < us_NextProtocolVoteBefore us
         then vote\<lparr>uv_UpgradeApprove := mget (approvedUpgrades prevParams) (us_NextProtocol us) \<noteq> None\<rparr>
         else vote)"

definition ProcessUpgradeParams :: "consensusTable \<Rightarrow> blockHeader \<Rightarrow> (block_error, upgradeVote \<times> upgradeState) result" where
  "ProcessUpgradeParams tbl prev =
     (case mget tbl (us_CurrentProtocol (bh_UpgradeState prev)) of
        None \<Rightarrow> Err (PreviousProtocolNotSupported (us_CurrentProtocol (bh_UpgradeState prev)))
      | Some prevParams \<Rightarrow>
          let vote = proposerVote prevParams prev
          in case applyUpgradeVote tbl (bh_Round prev + 1) vote (bh_UpgradeState prev) of
               Ok us \<Rightarrow> Ok (vote, us) | Err e \<Rightarrow> Err (InvalidUpgradeVote e) | Panic p \<Rightarrow> Panic p)"

section \<open>Building and checking a block\<close>

record paysetOps =
  po_CommitFlat :: "signedTxnInBlock list \<Rightarrow> digest"
  po_MerkleRoot :: "signedTxnInBlock list \<Rightarrow> digest option"

definition paysetCommit :: "paysetOps \<Rightarrow> block \<Rightarrow> paysetCommitType \<Rightarrow> (block_error, digest) result" where
  "paysetCommit ops b t =
     (case t of
        PaysetCommitFlat \<Rightarrow> Ok (po_CommitFlat ops (bl_Payset b))
      | PaysetCommitMerkle \<Rightarrow>
          (case po_MerkleRoot ops (bl_Payset b) of None \<Rightarrow> Err MerkleTreeError | Some root \<Rightarrow> Ok root)
      | PaysetCommitUnsupported \<Rightarrow> Err UnsupportedPaysetCommit)"

definition PaysetCommit :: "consensusTable \<Rightarrow> paysetOps \<Rightarrow> block \<Rightarrow> (block_error, digest) result" where
  "PaysetCommit tbl ops b =
     (let ver = us_CurrentProtocol (bh_UpgradeState (bl_BlockHeader b)) in
      case mget tbl ver of None \<Rightarrow> Err (ProtocolNotSupported ver)
      | Some params \<Rightarrow> paysetCommit ops b (cp_PaysetCommit params))"

definition ContentsMatchHeader :: "consensusTable \<Rightarrow> paysetOps \<Rightarrow> block \<Rightarrow> bool" where
  "ContentsMatchHeader tbl ops b =
     (case PaysetCommit tbl ops b of Ok expected \<Rightarrow> expected = bh_TxnRoot (bl_BlockHeader b) | _ \<Rightarrow> False)"

definition nextTimestamp :: "consensusParams \<Rightarrow> blockHeader \<Rightarrow> 64 word \<Rightarrow> 64 word" where
  "nextTimestamp params prev now =
     (if sint (bh_TimeStamp prev) > 0 then
        (if sint now < sint (bh_TimeStamp prev) then bh_TimeStamp prev
         else if sint now > sint (bh_TimeStamp prev + cp_MaxTimestampIncrement params)
         then bh_TimeStamp prev + cp_MaxTimestampIncrement params else now)
      else now)"

definition zeroRewardsState :: rewardsState where
  "zeroRewardsState = \<lparr>rs_FeeSink = 0, rs_RewardsPool = 0, rs_RewardsLevel = 0, rs_RewardsRate = 0,
     rs_RewardsResidue = 0, rs_RewardsRecalculationRound = 0\<rparr>"

definition MakeBlock :: "consensusTable \<Rightarrow> hashHeader \<Rightarrow> paysetOps \<Rightarrow> 64 word \<Rightarrow> blockHeader \<Rightarrow> (block_error, block) result" where
  "MakeBlock tbl hash ops now prev =
     (case ProcessUpgradeParams tbl prev of
        Err e \<Rightarrow> Panic (LogPanic ''MakeBlock: error processing upgrade'')
      | Panic p \<Rightarrow> Panic p
      | Ok (vote, us) \<Rightarrow>
          (case mget tbl (us_CurrentProtocol us) of
             None \<Rightarrow> Panic (LogPanic ''MakeBlock: next protocol not supported'')
           | Some params \<Rightarrow>
               let blk = \<lparr>bl_BlockHeader =
                     \<lparr>bh_Round = bh_Round prev + 1, bh_Branch = hash prev, bh_Seed = 0, bh_TxnRoot = 0,
                      bh_TimeStamp = nextTimestamp params prev now, bh_GenesisID = bh_GenesisID prev,
                      bh_GenesisHash = bh_GenesisHash prev, bh_RewardsState = zeroRewardsState,
                      bh_UpgradeState = us, bh_UpgradeVote = vote, bh_TxnCounter = 0,
                      bh_CompactCert = [], bh_ExpiredParticipationAccounts = []\<rparr>,
                     bl_Payset = []\<rparr>;
                   root = (case PaysetCommit tbl ops blk of Ok d \<Rightarrow> d | _ \<Rightarrow> 0);
                   rs = zeroRewardsState\<lparr>rs_FeeSink := rs_FeeSink (bh_RewardsState prev),
                                         rs_RewardsPool := rs_RewardsPool (bh_RewardsState prev)\<rparr>
               in Ok (blk\<lparr>bl_BlockHeader := (bl_BlockHeader blk)\<lparr>bh_TxnRoot := root, bh_RewardsState := rs\<rparr>\<rparr>)))"

definition PreCheck :: "consensusTable \<Rightarrow> hashHeader \<Rightarrow> blockHeader \<Rightarrow> blockHeader \<Rightarrow> (block_error, unit) result" where
  "PreCheck tbl hash bh prev =
     (case mget tbl (us_CurrentProtocol (bh_UpgradeState bh)) of
        None \<Rightarrow> Err (ProtocolNotSupported (us_CurrentProtocol (bh_UpgradeState bh)))
      | Some params \<Rightarrow>
          failIf (bh_Round prev + 1 \<noteq> bh_Round bh) RoundIncorrect (
          failIf (bh_Branch bh \<noteq> hash prev) BranchIncorrect (
          case applyUpgradeVote tbl (bh_Round prev + 1) (bh_UpgradeVote bh) (bh_UpgradeState prev) of
            Err e \<Rightarrow> Err (InvalidUpgradeVote e)
          | Panic p \<Rightarrow> Panic p
          | Ok nextUpgradeState \<Rightarrow>
              failIf (nextUpgradeState \<noteq> bh_UpgradeState bh) UpgradeStateMismatch (
              failIf (sint (bh_TimeStamp prev) > 0 \<and> sint (bh_TimeStamp bh) < sint (bh_TimeStamp prev)) TimestampDecreased (
              failIf (sint (bh_TimeStamp prev) > 0 \<and>
                      sint (bh_TimeStamp bh) > sint (bh_TimeStamp prev + cp_MaxTimestampIncrement params)) TimestampTooFar (
              failIf (bh_GenesisID bh = []) GenesisIDAbsent (
              failIf (bh_GenesisID prev \<noteq> [] \<and> bh_GenesisID prev \<noteq> bh_GenesisID bh) GenesisIDDiffers (
              if cp_SupportGenesisHash params then
                failIf (bh_GenesisHash bh = 0) GenesisHashAbsent (
                failIf (bh_GenesisHash prev \<noteq> 0 \<and> bh_GenesisHash prev \<noteq> bh_GenesisHash bh) GenesisHashDiffers (Ok ()))
              else failIf (bh_GenesisHash bh \<noteq> 0) GenesisHashPresent (Ok ()))))))))
          )"

definition NextVersionInfo :: "consensusTable \<Rightarrow> blockHeader \<Rightarrow> consensusVersion \<times> round \<times> bool" where
  "NextVersionInfo tbl bh =
     (let us = bh_UpgradeState bh;
          (ver, rnd) = (if bh_Round bh \<ge> us_NextProtocolVoteBefore us \<and> bh_Round bh < us_NextProtocolSwitchOn us
                        then (us_NextProtocol us, us_NextProtocolSwitchOn us)
                        else (us_CurrentProtocol us, bh_Round bh + 1))
      in (ver, rnd, mget tbl ver \<noteq> None))"

section \<open>Transactions in a block\<close>

datatype coding_error = ProtocolNotFound consensusVersion | GenesisIDNotEmpty | GenesisHashNotEmpty
  | HasGenesisHashRedundant | CodingGenesisIDMismatch | CodingGenesisHashMismatch | GenesisHashRequired

definition setGenesisID :: "string \<Rightarrow> signedTxn \<Rightarrow> signedTxn" where
  "setGenesisID g st = st\<lparr>st_Txn := (st_Txn st)\<lparr>tx_Header := (tx_Header (st_Txn st))\<lparr>h_GenesisID := g\<rparr>\<rparr>\<rparr>"

definition setGenesisHash :: "digest \<Rightarrow> signedTxn \<Rightarrow> signedTxn" where
  "setGenesisHash g st = st\<lparr>st_Txn := (st_Txn st)\<lparr>tx_Header := (tx_Header (st_Txn st))\<lparr>h_GenesisHash := g\<rparr>\<rparr>\<rparr>"

definition DecodeSignedTxn :: "consensusTable \<Rightarrow> blockHeader \<Rightarrow> signedTxnInBlock \<Rightarrow> (coding_error, signedTxn \<times> applyData) result" where
  "DecodeSignedTxn tbl bh stb =
     (let st = sw_SignedTxn (stib_SignedTxnWithAD stb); ad = sw_ApplyData (stib_SignedTxnWithAD stb);
          ver = us_CurrentProtocol (bh_UpgradeState bh) in
      case mget tbl ver of None \<Rightarrow> Err (ProtocolNotFound ver)
      | Some proto \<Rightarrow>
          if \<not> cp_SupportSignedTxnInBlock proto then Ok (st, zeroApplyData)
          else
            failIf (h_GenesisID (tx_Header (st_Txn st)) \<noteq> []) GenesisIDNotEmpty (
            let st = (if stib_HasGenesisID stb then setGenesisID (bh_GenesisID bh) st else st) in
            failIf (h_GenesisHash (tx_Header (st_Txn st)) \<noteq> 0) GenesisHashNotEmpty (
            if cp_RequireGenesisHash proto then
              failIf (stib_HasGenesisHash stb) HasGenesisHashRedundant (
              Ok (setGenesisHash (bh_GenesisHash bh) st, ad))
            else Ok (if stib_HasGenesisHash stb then setGenesisHash (bh_GenesisHash bh) st else st, ad))))"

definition EncodeSignedTxn :: "consensusTable \<Rightarrow> blockHeader \<Rightarrow> signedTxn \<Rightarrow> applyData \<Rightarrow> (coding_error, signedTxnInBlock) result" where
  "EncodeSignedTxn tbl bh st ad =
     (let ver = us_CurrentProtocol (bh_UpgradeState bh) in
      case mget tbl ver of None \<Rightarrow> Err (ProtocolNotFound ver)
      | Some proto \<Rightarrow>
          if \<not> cp_SupportSignedTxnInBlock proto
          then Ok \<lparr>stib_SignedTxnWithAD = SignedTxnWithAD st zeroApplyData, stib_HasGenesisID = False,
                   stib_HasGenesisHash = False\<rparr>
          else
            let h = tx_Header (st_Txn st) in
            failIf (h_GenesisID h \<noteq> [] \<and> h_GenesisID h \<noteq> bh_GenesisID bh) CodingGenesisIDMismatch (
            failIf (h_GenesisHash h \<noteq> 0 \<and> h_GenesisHash h \<noteq> bh_GenesisHash bh) CodingGenesisHashMismatch (
            failIf (h_GenesisHash h = 0 \<and> cp_RequireGenesisHash proto) GenesisHashRequired (
            Ok \<lparr>stib_SignedTxnWithAD = SignedTxnWithAD (setGenesisHash 0 (setGenesisID [] st)) ad,
                stib_HasGenesisID = (h_GenesisID h \<noteq> []),
                stib_HasGenesisHash = (h_GenesisHash h \<noteq> 0 \<and> \<not> cp_RequireGenesisHash proto)\<rparr>))))"

fun DecodePaysetFlat :: "consensusTable \<Rightarrow> blockHeader \<Rightarrow> signedTxnInBlock list \<Rightarrow> (coding_error, signedTxnWithAD list) result" where
  "DecodePaysetFlat tbl bh [] = Ok []"
| "DecodePaysetFlat tbl bh (txib # payset) =
     andThen (DecodeSignedTxn tbl bh txib) (\<lambda>(st, ad).
     andThen (DecodePaysetFlat tbl bh payset) (\<lambda>res.
     Ok (SignedTxnWithAD st ad # res)))"

text \<open>
  The grouping loop: \<open>lst\<close> is the open group and \<open>res\<close> the closed ones. A transaction joins
  the open group when both carry the same group that is not zero.
\<close>

fun groupLoop :: "('a \<Rightarrow> digest) \<Rightarrow> 'a list \<Rightarrow> 'a list \<Rightarrow> 'a list list \<Rightarrow> 'a list list" where
  "groupLoop grp [] lst res = (if lst \<noteq> [] then res @ [lst] else res)"
| "groupLoop grp (tx # txs) lst res =
     (if lst \<noteq> [] \<and> (grp (hd lst) \<noteq> grp tx \<or> grp (hd lst) = 0)
      then groupLoop grp txs [tx] (res @ [lst])
      else groupLoop grp txs (lst @ [tx]) res)"

definition txnGroup :: "signedTxn \<Rightarrow> digest" where
  "txnGroup st = h_Group (tx_Header (st_Txn st))"

definition SignedTxnsToGroups :: "signedTxn list \<Rightarrow> signedTxn list list" where
  "SignedTxnsToGroups txns = groupLoop txnGroup txns [] []"

definition SignedTxnGroupsFlatten :: "signedTxn list list \<Rightarrow> signedTxn list" where
  "SignedTxnGroupsFlatten txgroups = fold (\<lambda>txgroup res. res @ txgroup) txgroups []"

definition DecodePaysetGroups :: "consensusTable \<Rightarrow> block \<Rightarrow> (coding_error, signedTxnWithAD list list) result" where
  "DecodePaysetGroups tbl b =
     andThen (DecodePaysetFlat tbl (bl_BlockHeader b) (bl_Payset b))
       (\<lambda>txns. Ok (groupLoop (txnGroup \<circ> sw_SignedTxn) txns [] []))"

subsection \<open>Round trips\<close>

lemma set_genesis_simps [simp]:
  "h_GenesisID (tx_Header (st_Txn (setGenesisID g st))) = g"
  "h_GenesisHash (tx_Header (st_Txn (setGenesisHash d st))) = d"
  "h_GenesisID (tx_Header (st_Txn (setGenesisHash d st))) = h_GenesisID (tx_Header (st_Txn st))"
  "h_GenesisHash (tx_Header (st_Txn (setGenesisID g st))) = h_GenesisHash (tx_Header (st_Txn st))"
  "setGenesisID (h_GenesisID (tx_Header (st_Txn st))) st = st"
  "setGenesisHash (h_GenesisHash (tx_Header (st_Txn st))) st = st"
  "setGenesisID g (setGenesisID g' st) = setGenesisID g st"
  "setGenesisHash d (setGenesisHash d' st) = setGenesisHash d st"
  by (simp_all add: setGenesisID_def setGenesisHash_def)

lemma set_genesis_commute: "setGenesisID g (setGenesisHash d st) = setGenesisHash d (setGenesisID g st)"
  by (simp add: setGenesisID_def setGenesisHash_def)

lemma set_genesis_same:
  "h_GenesisID (tx_Header (st_Txn st)) = g \<Longrightarrow> setGenesisID g st = st"
  "h_GenesisHash (tx_Header (st_Txn st)) = d \<Longrightarrow> setGenesisHash d st = st"
  by auto

lemma encode_decode:
  assumes "mget tbl (us_CurrentProtocol (bh_UpgradeState bh)) = Some proto" "cp_SupportSignedTxnInBlock proto"
    "EncodeSignedTxn tbl bh st ad = Ok stb"
  shows "DecodeSignedTxn tbl bh stb = Ok (st, ad)"
proof -
  let ?h = "tx_Header (st_Txn st)"
  let ?st = "setGenesisHash 0 (setGenesisID [] st)"
  have ok: "h_GenesisID ?h = [] \<or> h_GenesisID ?h = bh_GenesisID bh"
    "h_GenesisHash ?h = 0 \<or> h_GenesisHash ?h = bh_GenesisHash bh"
    "h_GenesisHash ?h = 0 \<longrightarrow> \<not> cp_RequireGenesisHash proto"
    and stb: "stb = \<lparr>stib_SignedTxnWithAD = SignedTxnWithAD ?st ad, stib_HasGenesisID = (h_GenesisID ?h \<noteq> []),
      stib_HasGenesisHash = (h_GenesisHash ?h \<noteq> 0 \<and> \<not> cp_RequireGenesisHash proto)\<rparr>"
    using assms by (auto simp: EncodeSignedTxn_def Let_def split: if_splits)
  have restore: "setGenesisHash (h_GenesisHash ?h) (setGenesisID (h_GenesisID ?h) st) = st"
    by simp
  show ?thesis
    using assms(1,2) ok restore
    by (auto simp: DecodeSignedTxn_def stb Let_def set_genesis_commute set_genesis_same)
qed

lemma decode_encode:
  assumes "mget tbl (us_CurrentProtocol (bh_UpgradeState bh)) = Some proto" "cp_SupportSignedTxnInBlock proto"
    "bh_GenesisID bh \<noteq> []" "bh_GenesisHash bh \<noteq> 0" "DecodeSignedTxn tbl bh stb = Ok (st, ad)"
  shows "EncodeSignedTxn tbl bh st ad = Ok stb"
proof -
  obtain st0 where sw: "stib_SignedTxnWithAD stb = SignedTxnWithAD st0 ad"
    using assms by (cases "stib_SignedTxnWithAD stb") (auto simp: DecodeSignedTxn_def Let_def split: if_splits)
  have id0: "setGenesisID [] st0 = st0" and hash0: "setGenesisHash 0 st0 = st0"
    using assms sw by (auto simp: DecodeSignedTxn_def Let_def set_genesis_same split: if_splits)
  show ?thesis
    using assms sw
    by (cases stb)
       (auto simp: DecodeSignedTxn_def EncodeSignedTxn_def Let_def set_genesis_commute set_genesis_same id0 hash0
         split: if_splits)
qed

subsection \<open>Groups\<close>

text \<open>A group as the pool and the evaluator expect it.\<close>

definition properGroup :: "('a \<Rightarrow> digest) \<Rightarrow> 'a list \<Rightarrow> bool" where
  "properGroup grp g \<longleftrightarrow> g \<noteq> [] \<and> (\<forall>t \<in> set g. grp t = grp (hd g)) \<and> (grp (hd g) = 0 \<longrightarrow> length g = 1)"

fun splitWhereDifferent :: "('a \<Rightarrow> digest) \<Rightarrow> 'a list list \<Rightarrow> bool" where
  "splitWhereDifferent grp (g # h # gs) \<longleftrightarrow>
     (grp (hd g) = grp (hd h) \<longrightarrow> grp (hd g) = 0) \<and> splitWhereDifferent grp (h # gs)"
| "splitWhereDifferent grp _ \<longleftrightarrow> True"

lemma splitWhereDifferent_snoc:
  "splitWhereDifferent grp (gs @ [g, h]) \<longleftrightarrow>
     splitWhereDifferent grp (gs @ [g]) \<and> (grp (hd g) = grp (hd h) \<longrightarrow> grp (hd g) = 0)"
proof (induction gs)
  case (Cons a gs)
  then show ?case by (cases gs) auto
qed simp

lemma groupLoop_spec:
  assumes "list_all (properGroup grp) res" "lst \<noteq> [] \<longrightarrow> properGroup grp lst"
    "splitWhereDifferent grp (if lst = [] then res else res @ [lst])" "lst = [] \<longrightarrow> res = []"
  shows "concat (groupLoop grp txs lst res) = concat res @ lst @ txs \<and>
    list_all (properGroup grp) (groupLoop grp txs lst res) \<and>
    splitWhereDifferent grp (groupLoop grp txs lst res)"
  using assms
proof (induction grp txs lst res rule: groupLoop.induct)
  case (1 grp lst res)
  then show ?case by auto
next
  case (2 grp tx txs lst res)
  have one: "properGroup grp [tx]" by (simp add: properGroup_def)
  show ?case
  proof (cases "lst \<noteq> [] \<and> (grp (hd lst) \<noteq> grp tx \<or> grp (hd lst) = 0)")
    case True
    then have "splitWhereDifferent grp ((res @ [lst]) @ [[tx]])"
      using 2(5) by (simp add: splitWhereDifferent_snoc)
    with True one 2(1) 2(3,4) show ?thesis by simp
  next
    case False
    have "properGroup grp (lst @ [tx])"
      using False one 2(4) by (cases lst) (auto simp: properGroup_def)
    moreover have "splitWhereDifferent grp (res @ [lst @ [tx]])"
    proof (cases "lst = []")
      case True
      then show ?thesis using 2(6) by simp
    next
      case ne: False
      then have "hd (lst @ [tx]) = hd lst" by simp
      with ne 2(5) show ?thesis
        by (cases res rule: rev_cases) (auto simp: splitWhereDifferent_snoc)
    qed
    moreover have "groupLoop grp (tx # txs) lst res = groupLoop grp txs (lst @ [tx]) res"
      using False by auto
    ultimately show ?thesis using 2(2) [OF False] 2(3) by simp
  qed
qed

lemma SignedTxnGroupsFlatten_concat: "SignedTxnGroupsFlatten gs = concat gs"
proof -
  have "fold (\<lambda>g res. res @ g) gs acc = acc @ concat gs" for acc :: "signedTxn list"
    by (induction gs arbitrary: acc) auto
  then show ?thesis by (simp add: SignedTxnGroupsFlatten_def)
qed

section \<open>Rewards are never overspent\<close>

text \<open>
  One round hands out exactly the rate and the old residue: what is not divisible by the
  number of reward units stays as the new residue. When an addition would overflow or there
  are no units, level and residue stay as they were.
\<close>

lemma NextRewardsState_quiet:
  assumes "nextRound \<noteq> rs_RewardsRecalculationRound s"
  shows "\<exists>res. NextRewardsState s nextRound proto pool units = Ok res \<and>
    rs_RewardsRate res = rs_RewardsRate s \<and>
    rs_RewardsRecalculationRound res = rs_RewardsRecalculationRound s \<and>
    rs_RewardsLevel s \<le> rs_RewardsLevel res \<and>
    (unat (rs_RewardsLevel res) - unat (rs_RewardsLevel s)) * unat units + unat (rs_RewardsResidue res)
      \<le> unat (rs_RewardsRate s) + unat (rs_RewardsResidue s)"
proof -
  let ?sum = "rs_RewardsRate s + rs_RewardsResidue s"
  let ?lvl = "rs_RewardsLevel s + ?sum div units"
  consider (zero) "units = 0"
    | (over) "units \<noteq> 0" "2 ^ 64 \<le> unat (rs_RewardsRate s) + unat (rs_RewardsResidue s) \<or>
        2 ^ 64 \<le> unat (rs_RewardsLevel s) + unat (?sum div units)"
    | (fits) "units \<noteq> 0" "unat (rs_RewardsRate s) + unat (rs_RewardsResidue s) < 2 ^ 64"
        "unat (rs_RewardsLevel s) + unat (?sum div units) < 2 ^ 64"
    by linarith
  then show ?thesis
  proof cases
    case zero
    then show ?thesis using assms by (simp add: NextRewardsState_def)
  next
    case over
    then show ?thesis
      using assms by (auto simp: NextRewardsState_def ot_simps Let_def)
  next
    case fits
    then have sum: "unat ?sum = unat (rs_RewardsRate s) + unat (rs_RewardsResidue s)"
      and lvl: "unat ?lvl = unat (rs_RewardsLevel s) + unat ?sum div unat units"
      by (simp_all add: unat_add_u64 unat_div)
    have res: "NextRewardsState s nextRound proto pool units =
        Ok (s\<lparr>rs_RewardsLevel := ?lvl, rs_RewardsResidue := ?sum mod units\<rparr>)"
      using assms fits by (simp add: NextRewardsState_def ot_simps Let_def not_le)
    have "unat ?sum div unat units * unat units + unat (?sum mod units) = unat ?sum"
      by (simp add: unat_mod)
    with lvl sum show ?thesis by (simp add: res word_le_nat_alt)
  qed
qed

text \<open>At a refresh the rate is small enough to pay the whole interval from the pool.\<close>

lemma refreshRate_budget:
  assumes "refreshRate s r proto pool = Ok res" "cp_PendingResidueRewards proto"
  shows "rs_RewardsRate res = 0 \<or>
    unat (cp_RewardsRateRefreshInterval proto) * unat (rs_RewardsRate res) + unat (rs_RewardsResidue s)
      + unat (cp_MinBalance proto) \<le> unat pool"
proof -
  let ?i = "cp_RewardsRateRefreshInterval proto"
  let ?spent = "cp_MinBalance proto + rs_RewardsResidue s"
  have i0: "?i \<noteq> 0" using assms(1) by (auto simp: refreshRate_def Let_def split: if_splits prod.splits)
  show ?thesis
  proof (cases "unat (cp_MinBalance proto) + unat (rs_RewardsResidue s) < 2 ^ 64 \<and> unat ?spent \<le> unat pool")
    case True
    then have spent: "unat ?spent = unat (cp_MinBalance proto) + unat (rs_RewardsResidue s)"
      by (simp add: unat_add_u64)
    have "rs_RewardsRate res = (pool - ?spent) div ?i"
      using True assms i0 by (auto simp: refreshRate_def OAdd_eq OSub_eq Let_def split: if_splits)
    then have rate: "unat (rs_RewardsRate res) = (unat pool - unat ?spent) div unat ?i"
      using True by (simp add: unat_div unat_sub word_le_nat_alt)
    have "unat ?i * unat (rs_RewardsRate res) \<le> unat pool - unat ?spent"
      unfolding rate by (rule times_div_less_eq_dividend)
    with True spent show ?thesis by linarith
  next
    case False
    then have "rs_RewardsRate res = 0"
      using assms i0 by (auto simp: refreshRate_def OAdd_eq OSub_eq Let_def not_less split: if_splits)
    then show ?thesis ..
  qed
qed

text \<open>
  A stretch of rounds without a recalculation, given by the number of reward units in each.
  \<open>rewardsRun\<close> returns the final state and the total handed out.
\<close>

fun rewardsRun :: "consensusParams \<Rightarrow> microNovas \<Rightarrow> rewardsState \<Rightarrow> round \<Rightarrow> u64 list \<Rightarrow> (unit, rewardsState \<times> nat) result" where
  "rewardsRun proto pool s r [] = Ok (s, 0)"
| "rewardsRun proto pool s r (units # us) =
     andThen (NextRewardsState s r proto pool units) (\<lambda>s'.
     andThen (rewardsRun proto pool s' (r + 1) us) (\<lambda>(t, paid).
     Ok (t, (unat (rs_RewardsLevel s') - unat (rs_RewardsLevel s)) * unat units + paid)))"

lemma rewardsRun_budget:
  assumes "\<forall>i < length us. r + of_nat i \<noteq> rs_RewardsRecalculationRound s"
  shows "\<exists>t paid. rewardsRun proto pool s r us = Ok (t, paid) \<and>
    paid + unat (rs_RewardsResidue t) \<le> length us * unat (rs_RewardsRate s) + unat (rs_RewardsResidue s)"
  using assms
proof (induction us arbitrary: s r)
  case Nil
  then show ?case by simp
next
  case (Cons units us)
  have "r \<noteq> rs_RewardsRecalculationRound s" using Cons.prems by force
  from NextRewardsState_quiet [OF this, of proto pool units] obtain s' where
    s': "NextRewardsState s r proto pool units = (Ok s' :: (unit, rewardsState) result)" "rs_RewardsRate s' = rs_RewardsRate s"
      "rs_RewardsRecalculationRound s' = rs_RewardsRecalculationRound s"
    and paid: "(unat (rs_RewardsLevel s') - unat (rs_RewardsLevel s)) * unat units + unat (rs_RewardsResidue s')
      \<le> unat (rs_RewardsRate s) + unat (rs_RewardsResidue s)" by blast
  have "\<forall>i < length us. (r + 1) + of_nat i \<noteq> rs_RewardsRecalculationRound s'"
  proof (intro allI impI)
    fix i assume "i < length us"
    then have "r + of_nat (Suc i) \<noteq> rs_RewardsRecalculationRound s" using Cons.prems by fastforce
    then show "(r + 1) + of_nat i \<noteq> rs_RewardsRecalculationRound s'" using s'(3) by (simp add: add.assoc)
  qed
  then obtain t p where "rewardsRun proto pool s' (r + 1) us = Ok (t, p)"
    "p + unat (rs_RewardsResidue t) \<le> length us * unat (rs_RewardsRate s) + unat (rs_RewardsResidue s')"
    using Cons.IH [of "r + 1" s'] s'(2) by auto
  with s'(1) paid show ?case by auto
qed

section \<open>Upgrades need their votes\<close>

text \<open>
  What holds between two rounds: no proposal leaves no trace, and an active proposal whose
  voting is over has reached the threshold and waits for its switch round.
\<close>

definition upgradeInv :: "consensusParams \<Rightarrow> round \<Rightarrow> upgradeState \<Rightarrow> bool" where
  "upgradeInv params r s \<longleftrightarrow>
     (if us_NextProtocol s = []
      then us_NextProtocolApprovals s = 0 \<and> us_NextProtocolVoteBefore s = 0 \<and> us_NextProtocolSwitchOn s = 0
      else r < us_NextProtocolSwitchOn s \<and> us_NextProtocolVoteBefore s \<le> us_NextProtocolSwitchOn s \<and>
           us_NextProtocolApprovals s \<le> r \<and>
           (us_NextProtocolVoteBefore s \<le> r \<longrightarrow> cp_UpgradeThreshold params \<le> us_NextProtocolApprovals s))"

text \<open>The parameters admit no wrap-around of the deadlines up to round \<open>r\<close>.\<close>

definition upgradeWindow :: "consensusParams \<Rightarrow> round \<Rightarrow> bool" where
  "upgradeWindow params r \<longleftrightarrow> 0 < unat (cp_UpgradeVoteRounds params) \<and>
     unat r + unat (cp_UpgradeVoteRounds params) +
       max (unat (cp_DefaultUpgradeWaitRounds params)) (unat (cp_MaxUpgradeWaitRounds params)) < 2 ^ 64"

lemma clearProposal_simps [simp]:
  "us_NextProtocol (clearProposal s) = []" "us_NextProtocolApprovals (clearProposal s) = 0"
  "us_NextProtocolVoteBefore (clearProposal s) = 0" "us_NextProtocolSwitchOn (clearProposal s) = 0"
  "us_CurrentProtocol (clearProposal s) = us_CurrentProtocol s"
  by (simp_all add: clearProposal_def)

lemma upgradeInv_clear [simp]: "upgradeInv params r (clearProposal s)"
  by (simp add: upgradeInv_def)

lemma proposal_deadlines:
  assumes "applyProposal params r vote s = Ok s'" "uv_UpgradePropose vote \<noteq> []" "upgradeWindow params r"
  shows "us_NextProtocol s' = uv_UpgradePropose vote" "us_NextProtocolApprovals s' = 0"
    "r < us_NextProtocolVoteBefore s'" "us_NextProtocolVoteBefore s' \<le> us_NextProtocolSwitchOn s'"
    "us_CurrentProtocol s' = us_CurrentProtocol s"
proof -
  let ?d = "if uv_UpgradeDelay vote = 0 then cp_DefaultUpgradeWaitRounds params else uv_UpgradeDelay vote"
  have s': "s' = s\<lparr>us_NextProtocol := uv_UpgradePropose vote, us_NextProtocolApprovals := 0,
      us_NextProtocolVoteBefore := r + cp_UpgradeVoteRounds params,
      us_NextProtocolSwitchOn := r + cp_UpgradeVoteRounds params + ?d\<rparr>"
    and d: "uv_UpgradeDelay vote \<le> cp_MaxUpgradeWaitRounds params"
    using assms(1,2) by (auto simp: applyProposal_def Let_def split: if_splits)
  have vr: "unat (r + cp_UpgradeVoteRounds params) = unat r + unat (cp_UpgradeVoteRounds params)"
    using assms(3) by (auto simp: upgradeWindow_def unat_add_u64)
  have "unat ?d \<le> max (unat (cp_DefaultUpgradeWaitRounds params)) (unat (cp_MaxUpgradeWaitRounds params))"
    using d by (auto simp: word_le_nat_alt)
  then have "unat (r + cp_UpgradeVoteRounds params + ?d) = unat (r + cp_UpgradeVoteRounds params) + unat ?d"
    using assms(3) vr by (subst unat_add_u64) (simp add: upgradeWindow_def)
  then show "us_NextProtocol s' = uv_UpgradePropose vote" "us_NextProtocolApprovals s' = 0"
    "r < us_NextProtocolVoteBefore s'" "us_NextProtocolVoteBefore s' \<le> us_NextProtocolSwitchOn s'"
    "us_CurrentProtocol s' = us_CurrentProtocol s"
    using assms(3) vr unfolding s'
    by (simp_all add: word_less_nat_alt word_le_nat_alt upgradeWindow_def)
qed

text \<open>The stage between the vote and the deadlines: an active proposal lies in the future or has its votes.\<close>

definition votedInv :: "consensusParams \<Rightarrow> round \<Rightarrow> upgradeState \<Rightarrow> bool" where
  "votedInv params r s \<longleftrightarrow>
     (if us_NextProtocol s = []
      then us_NextProtocolApprovals s = 0 \<and> us_NextProtocolVoteBefore s = 0 \<and> us_NextProtocolSwitchOn s = 0
      else r \<le> us_NextProtocolSwitchOn s \<and> us_NextProtocolVoteBefore s \<le> us_NextProtocolSwitchOn s \<and>
           us_NextProtocolApprovals s \<le> r \<and>
           (us_NextProtocolVoteBefore s < r \<longrightarrow> cp_UpgradeThreshold params \<le> us_NextProtocolApprovals s))"

lemma round_succ:
  assumes "unat r + 1 < 2 ^ 64"
  shows "unat (r + 1 :: round) = unat r + 1" "r + 1 \<noteq> (0 :: round)"
proof -
  show u: "unat (r + 1) = unat r + 1" using assms by (simp add: unat_add_u64)
  then show "r + 1 \<noteq> 0" by (metis Suc_eq_plus1 nat.distinct(1) unsigned_0)
qed

lemma vote_stage:
  assumes inv: "upgradeInv params r s" and r: "unat r + 1 < 2 ^ 64"
    and pr: "applyProposal params (r + 1) vote s = Ok s1" and win: "upgradeWindow params (r + 1)"
    and appr: "applyApproval (r + 1) vote s1 = Ok s2"
  shows "votedInv params (r + 1) s2"
    and "us_CurrentProtocol s2 = us_CurrentProtocol s"
    and "unat (us_NextProtocolApprovals s2) \<le> unat (us_NextProtocolApprovals s) + (if uv_UpgradeApprove vote then 1 else 0)"
    and "us_NextProtocol s2 = (if uv_UpgradePropose vote = [] then us_NextProtocol s else uv_UpgradePropose vote)"
proof -
  note succ = round_succ [OF r]
  have "votedInv params (r + 1) s2 \<and> us_CurrentProtocol s2 = us_CurrentProtocol s \<and>
    unat (us_NextProtocolApprovals s2) \<le> unat (us_NextProtocolApprovals s) + (if uv_UpgradeApprove vote then 1 else 0) \<and>
    us_NextProtocol s2 = (if uv_UpgradePropose vote = [] then us_NextProtocol s else uv_UpgradePropose vote)"
  proof (cases "uv_UpgradePropose vote = []")
    case True
    then have s1: "s1 = s" using pr by (auto simp: applyProposal_def split: if_splits)
    have "unat (us_NextProtocolApprovals s + 1) = unat (us_NextProtocolApprovals s) + 1"
      if "us_NextProtocolApprovals s \<le> r"
      using that r by (simp add: unat_add_u64 word_le_nat_alt)
    then show ?thesis
      using inv appr True succ unfolding s1
      by (auto simp: applyApproval_def upgradeInv_def votedInv_def word_less_nat_alt word_le_nat_alt
          split: if_splits)
  next
    case False
    note pd = proposal_deadlines [OF pr False win]
    have one: "unat (us_NextProtocolApprovals s1 + 1) = 1" using pd(2) by simp
    show ?thesis
      using appr False pd succ one
      by (auto simp: applyApproval_def votedInv_def word_less_nat_alt word_le_nat_alt split: if_splits)
  qed
  then show "votedInv params (r + 1) s2" "us_CurrentProtocol s2 = us_CurrentProtocol s"
    "unat (us_NextProtocolApprovals s2) \<le> unat (us_NextProtocolApprovals s) + (if uv_UpgradeApprove vote then 1 else 0)"
    "us_NextProtocol s2 = (if uv_UpgradePropose vote = [] then us_NextProtocol s else uv_UpgradePropose vote)"
    by blast+
qed

lemma deadline_stage:
  assumes "votedInv params r s" "r \<noteq> 0"
  shows "upgradeInv params r (applyDeadlines params r s)"
    and "us_CurrentProtocol (applyDeadlines params r s) \<noteq> us_CurrentProtocol s \<Longrightarrow>
      us_NextProtocol s \<noteq> [] \<and> us_CurrentProtocol (applyDeadlines params r s) = us_NextProtocol s \<and>
      r = us_NextProtocolSwitchOn s \<and> cp_UpgradeThreshold params \<le> us_NextProtocolApprovals s"
    and "us_NextProtocolApprovals (applyDeadlines params r s) \<le> us_NextProtocolApprovals s"
  using assms
  by (auto simp: applyDeadlines_def votedInv_def upgradeInv_def Let_def split: if_splits)

lemma applyUpgradeVote_step:
  assumes "upgradeInv params r s" "unat r + 1 < 2 ^ 64" "mget tbl (us_CurrentProtocol s) = Some params"
    "upgradeWindow params (r + 1)" "applyUpgradeVote tbl (r + 1) vote s = Ok t"
  shows "upgradeInv params (r + 1) t"
    and "us_CurrentProtocol t \<noteq> us_CurrentProtocol s \<Longrightarrow> us_NextProtocol t = [] \<and>
      cp_UpgradeThreshold params \<le> us_NextProtocolApprovals s \<and>
      r + 1 = us_NextProtocolSwitchOn s \<and> us_CurrentProtocol t = us_NextProtocol s"
    and "unat (us_NextProtocolApprovals t) \<le> unat (us_NextProtocolApprovals s) + (if uv_UpgradeApprove vote then 1 else 0)"
proof -
  obtain s1 s2 where st: "applyProposal params (r + 1) vote s = Ok s1" "applyApproval (r + 1) vote s1 = Ok s2"
    and t: "t = applyDeadlines params (r + 1) s2"
    using assms(3,5) by (auto simp: applyUpgradeVote_def result_simps)
  note v = vote_stage [OF assms(1,2) st(1) assms(4) st(2)]
  note succ = round_succ [OF assms(2)]
  note d = deadline_stage [OF v(1) succ(2)]
  show "upgradeInv params (r + 1) t" unfolding t by (rule d(1))
  show "unat (us_NextProtocolApprovals t) \<le> unat (us_NextProtocolApprovals s) + (if uv_UpgradeApprove vote then 1 else 0)"
    using d(3) v(3) unfolding t by (simp add: word_le_nat_alt)
  assume "us_CurrentProtocol t \<noteq> us_CurrentProtocol s"
  with v(2) d(2) have sw: "us_CurrentProtocol t = us_NextProtocol s2" "r + 1 = us_NextProtocolSwitchOn s2"
    "cp_UpgradeThreshold params \<le> us_NextProtocolApprovals s2" unfolding t by auto
  have np: "uv_UpgradePropose vote = []"
  proof (rule ccontr)
    assume p: "uv_UpgradePropose vote \<noteq> []"
    have "us_NextProtocolSwitchOn s2 = us_NextProtocolSwitchOn s1"
      using st(2) by (auto simp: applyApproval_def split: if_splits)
    with sw(2) proposal_deadlines(3,4) [OF st(1) p assms(4)] show False by simp
  qed
  then have s1: "s1 = s" using st(1) by (auto simp: applyProposal_def split: if_splits)
  have "s2 = s"
    using st(2) sw(2) assms(1) succ unfolding s1
    by (auto simp: applyApproval_def upgradeInv_def word_le_nat_alt split: if_splits)
  then show "us_NextProtocol t = [] \<and> cp_UpgradeThreshold params \<le> us_NextProtocolApprovals s \<and>
      r + 1 = us_NextProtocolSwitchOn s \<and> us_CurrentProtocol t = us_NextProtocol s"
    using sw unfolding t by (auto simp: applyDeadlines_def Let_def)
qed

text \<open>A sequence of blocks, by their upgrade votes.\<close>

fun upgradeRun :: "consensusTable \<Rightarrow> round \<Rightarrow> upgradeState \<Rightarrow> upgradeVote list \<Rightarrow> (upgrade_error, upgradeState) result" where
  "upgradeRun tbl r s [] = Ok s"
| "upgradeRun tbl r s (v # vs) = andThen (applyUpgradeVote tbl (r + 1) v s) (\<lambda>s'. upgradeRun tbl (r + 1) s' vs)"

lemma upgradeRun_approvals:
  assumes "upgradeInv params r s" "mget tbl (us_CurrentProtocol s) = Some params"
    "upgradeRun tbl r s vs = Ok t" "us_CurrentProtocol t \<noteq> us_CurrentProtocol s"
    "0 < unat (cp_UpgradeVoteRounds params)"
    "unat r + length vs + unat (cp_UpgradeVoteRounds params) +
       max (unat (cp_DefaultUpgradeWaitRounds params)) (unat (cp_MaxUpgradeWaitRounds params)) < 2 ^ 64"
  shows "unat (cp_UpgradeThreshold params)
    \<le> unat (us_NextProtocolApprovals s) + length (filter uv_UpgradeApprove vs)"
  using assms
proof (induction vs arbitrary: r s)
  case Nil
  then show ?case by simp
next
  case (Cons v vs)
  then obtain s1 where s1: "applyUpgradeVote tbl (r + 1) v s = Ok s1" and rest: "upgradeRun tbl (r + 1) s1 vs = Ok t"
    by (auto simp: result_simps)
  have r1: "unat r + 1 < 2 ^ 64" using Cons.prems(6) by simp
  have win: "upgradeWindow params (r + 1)"
    using Cons.prems(5,6) round_succ(1) [OF r1] by (simp add: upgradeWindow_def)
  note st = applyUpgradeVote_step [OF Cons.prems(1) r1 Cons.prems(2) win s1]
  show ?case
  proof (cases "us_CurrentProtocol s1 = us_CurrentProtocol s")
    case True
    have "unat (cp_UpgradeThreshold params)
        \<le> unat (us_NextProtocolApprovals s1) + length (filter uv_UpgradeApprove vs)"
      using Cons.IH [OF st(1) _ rest] True Cons.prems round_succ(1) [OF r1] by simp
    with st(3) show ?thesis by (simp split: if_splits)
  next
    case False
    with st(2) show ?thesis by (simp add: word_le_nat_alt)
  qed
qed

text \<open>A table whose upgrades can be proposed: the proposer's own vote is then always accepted.\<close>

definition upgradesSound :: "consensusTable \<Rightarrow> bool" where
  "upgradesSound tbl \<longleftrightarrow> list_all (\<lambda>(ver, p). cp_UpgradeVoteRounds p \<noteq> 0 \<and>
     list_all (\<lambda>(u, d). u \<noteq> [] \<and> mget tbl u \<noteq> None \<and> int (length u) \<le> cp_MaxVersionStringLen p \<and>
       cp_MinUpgradeWaitRounds p \<le> d \<and> d \<le> cp_MaxUpgradeWaitRounds p) (approvedUpgrades p)) tbl"

lemma proposerVote_accepted:
  assumes snd: "upgradesSound tbl" and p: "mget tbl (us_CurrentProtocol (bh_UpgradeState prev)) = Some params"
    and inv: "upgradeInv params (bh_Round prev) (bh_UpgradeState prev)"
    and win: "upgradeWindow params (bh_Round prev + 1)"
  shows "\<exists>us. applyUpgradeVote tbl (bh_Round prev + 1) (proposerVote params prev) (bh_UpgradeState prev) = Ok us"
proof -
  let ?us = "bh_UpgradeState prev" and ?r = "bh_Round prev + 1"
  have "(us_CurrentProtocol ?us, params) \<in> set tbl" using p by (rule map_of_SomeD)
  then have up: "list_all (\<lambda>(u, d). u \<noteq> [] \<and> int (length u) \<le> cp_MaxVersionStringLen params \<and>
      cp_MinUpgradeWaitRounds params \<le> d \<and> d \<le> cp_MaxUpgradeWaitRounds params) (approvedUpgrades params)"
    using snd by (fastforce simp: upgradesSound_def list_all_iff)
  have zero: "\<not> x < (0 :: u64)" for x by simp
  show ?thesis
  proof (cases "us_NextProtocol ?us = []")
    case False
    then show ?thesis
      using p by (auto simp: proposerVote_def Let_def applyUpgradeVote_def applyProposal_def applyApproval_def
          zeroUpgradeVote_def dest: leD)
  next
    case idle: True
    then have vb: "us_NextProtocolVoteBefore ?us = 0" using inv by (simp add: upgradeInv_def)
    show ?thesis
    proof (cases "approvedUpgrades params")
      case Nil
      with idle vb p show ?thesis
        by (auto simp: proposerVote_def Let_def applyUpgradeVote_def applyProposal_def applyApproval_def
            zeroUpgradeVote_def)
    next
      case (Cons kv rest)
      obtain k v where kv: "kv = (k, v)" by (cases kv)
      let ?vote = "\<lparr>uv_UpgradePropose = k, uv_UpgradeDelay = v, uv_UpgradeApprove = True\<rparr>"
      have vote: "proposerVote params prev = ?vote"
        using idle vb Cons kv by (simp add: proposerVote_def Let_def)
      have k: "k \<noteq> []" using up Cons kv by simp
      obtain s1 where s1: "applyProposal params ?r ?vote ?us = Ok s1"
        using up Cons kv idle by (auto simp: applyProposal_def Let_def not_less)
      note pd = proposal_deadlines [OF s1 _ win]
      have "applyApproval ?r ?vote s1 = Ok (s1\<lparr>us_NextProtocolApprovals := us_NextProtocolApprovals s1 + 1\<rparr>)"
        using pd k by (simp add: applyApproval_def not_le)
      with p s1 vote show ?thesis by (simp add: applyUpgradeVote_def)
    qed
  qed
qed

text \<open>The block a proposer builds passes the check that every other node makes of its header.\<close>

lemma nextTimestamp_bounds:
  assumes "sint (bh_TimeStamp prev) > 0" "0 \<le> sint (cp_MaxTimestampIncrement params)"
    "sint (bh_TimeStamp prev + cp_MaxTimestampIncrement params)
       = sint (bh_TimeStamp prev) + sint (cp_MaxTimestampIncrement params)"
  shows "sint (bh_TimeStamp prev) \<le> sint (nextTimestamp params prev now)"
    "sint (nextTimestamp params prev now) \<le> sint (bh_TimeStamp prev + cp_MaxTimestampIncrement params)"
  using assms by (auto simp: nextTimestamp_def)

lemma MakeBlock_fields:
  assumes "ProcessUpgradeParams tbl prev = Ok (vote, us)" "mget tbl (us_CurrentProtocol us) = Some params"
  shows "\<exists>b. MakeBlock tbl hash ops now prev = Ok b \<and> bh_Round (bl_BlockHeader b) = bh_Round prev + 1 \<and>
    bh_Branch (bl_BlockHeader b) = hash prev \<and> bh_UpgradeState (bl_BlockHeader b) = us \<and>
    bh_UpgradeVote (bl_BlockHeader b) = vote \<and>
    bh_TimeStamp (bl_BlockHeader b) = nextTimestamp params prev now \<and>
    bh_GenesisID (bl_BlockHeader b) = bh_GenesisID prev \<and> bh_GenesisHash (bl_BlockHeader b) = bh_GenesisHash prev"
  using assms by (simp add: MakeBlock_def Let_def)

lemma MakeBlock_checks:
  assumes "ProcessUpgradeParams tbl prev = Ok (vote, us)" "mget tbl (us_CurrentProtocol us) = Some params"
    "bh_GenesisID prev \<noteq> []" "0 \<le> sint (cp_MaxTimestampIncrement params)"
    "sint (bh_TimeStamp prev + cp_MaxTimestampIncrement params)
       = sint (bh_TimeStamp prev) + sint (cp_MaxTimestampIncrement params)"
  shows "\<exists>b. MakeBlock tbl hash ops now prev = Ok b \<and>
    (PreCheck tbl hash (bl_BlockHeader b) prev = Ok () \<longleftrightarrow> (cp_SupportGenesisHash params \<longleftrightarrow> bh_GenesisHash prev \<noteq> 0)) \<and>
    (cp_SupportGenesisHash params \<and> g \<noteq> 0 \<and> (bh_GenesisHash prev = 0 \<or> bh_GenesisHash prev = g) \<longrightarrow>
       PreCheck tbl hash ((bl_BlockHeader b)\<lparr>bh_GenesisHash := g\<rparr>) prev = Ok ())"
proof -
  obtain b where b: "MakeBlock tbl hash ops now prev = Ok b" "bh_Round (bl_BlockHeader b) = bh_Round prev + 1"
    "bh_Branch (bl_BlockHeader b) = hash prev" "bh_UpgradeState (bl_BlockHeader b) = us"
    "bh_UpgradeVote (bl_BlockHeader b) = vote"
    "bh_TimeStamp (bl_BlockHeader b) = nextTimestamp params prev now"
    "bh_GenesisID (bl_BlockHeader b) = bh_GenesisID prev" "bh_GenesisHash (bl_BlockHeader b) = bh_GenesisHash prev"
    using MakeBlock_fields [OF assms(1,2), of hash ops now] by blast
  have us: "applyUpgradeVote tbl (bh_Round prev + 1) vote (bh_UpgradeState prev) = Ok us"
    using assms(1) by (auto simp: ProcessUpgradeParams_def Let_def split: option.splits result.splits)
  have pre: "PreCheck tbl hash ((bl_BlockHeader b)\<lparr>bh_GenesisHash := h\<rparr>) prev = Ok () \<longleftrightarrow>
      (if cp_SupportGenesisHash params then h \<noteq> 0 \<and> (bh_GenesisHash prev = 0 \<or> bh_GenesisHash prev = h) else h = 0)" for h
    using assms(2-5) b us nextTimestamp_bounds [of prev params now]
    by (cases "sint (bh_TimeStamp prev) > 0") (auto simp: PreCheck_def not_less)
  have "(bl_BlockHeader b)\<lparr>bh_GenesisHash := bh_GenesisHash prev\<rparr> = bl_BlockHeader b"
    using b(8) by (cases "bl_BlockHeader b") simp
  then show ?thesis using b(1) pre [of "bh_GenesisHash prev"] pre [of g] by auto
qed

section \<open>Properties\<close>

text \<open>The limits a version sets on upgrades.\<close>

definition upgradeLimits :: "consensusParams \<Rightarrow> u64 \<times> int \<times> u64 \<times> u64" where
  "upgradeLimits p = (cp_UpgradeVoteRounds p, cp_MaxVersionStringLen p, cp_MinUpgradeWaitRounds p, cp_MaxUpgradeWaitRounds p)"

lemma upgradeLimits_inherited:
  shows "upgradeLimits v8 = upgradeLimits v7"
    and "upgradeLimits v9 = upgradeLimits v8"
    and "upgradeLimits v10 = upgradeLimits v9"
    and "upgradeLimits v11 = upgradeLimits v10"
    and "upgradeLimits v13 = upgradeLimits v12"
    and "upgradeLimits v14 = upgradeLimits v13"
    and "upgradeLimits v15 = upgradeLimits v14"
    and "upgradeLimits v16 = upgradeLimits v15"
    and "upgradeLimits v17 = upgradeLimits v16"
    and "upgradeLimits v18 = upgradeLimits v17"
    and "upgradeLimits v19 = upgradeLimits v18"
    and "upgradeLimits v20 = upgradeLimits v19"
    and "upgradeLimits v21 = upgradeLimits v20"
    and "upgradeLimits v23 = upgradeLimits v22"
    and "upgradeLimits v24 = upgradeLimits v23"
    and "upgradeLimits v25 = upgradeLimits v24"
    and "upgradeLimits v26 = upgradeLimits v25"
    and "upgradeLimits v27 = upgradeLimits v26"
    and "upgradeLimits v28 = upgradeLimits v27"
    and "upgradeLimits v29 = upgradeLimits v28"
    and "upgradeLimits v30 = upgradeLimits v29"
    and "upgradeLimits v31 = upgradeLimits v30"
    and "upgradeLimits vFuture = upgradeLimits v31"
proof -
  show "upgradeLimits v8 = upgradeLimits v7" by (simp add: upgradeLimits_def v8_def)
  show "upgradeLimits v9 = upgradeLimits v8" by (simp add: upgradeLimits_def v9_def)
  show "upgradeLimits v10 = upgradeLimits v9" by (simp add: upgradeLimits_def v10_def)
  show "upgradeLimits v11 = upgradeLimits v10" by (simp add: upgradeLimits_def v11_def)
  show "upgradeLimits v13 = upgradeLimits v12" by (simp add: upgradeLimits_def v13_def)
  show "upgradeLimits v14 = upgradeLimits v13" by (simp add: upgradeLimits_def v14_def)
  show "upgradeLimits v15 = upgradeLimits v14" by (simp add: upgradeLimits_def v15_def)
  show "upgradeLimits v16 = upgradeLimits v15" by (simp add: upgradeLimits_def v16_def)
  show "upgradeLimits v17 = upgradeLimits v16" by (simp add: upgradeLimits_def v17_def)
  show "upgradeLimits v18 = upgradeLimits v17" by (simp add: upgradeLimits_def v18_def)
  show "upgradeLimits v19 = upgradeLimits v18" by (simp add: upgradeLimits_def v19_def)
  show "upgradeLimits v20 = upgradeLimits v19" by (simp add: upgradeLimits_def v20_def)
  show "upgradeLimits v21 = upgradeLimits v20" by (simp add: upgradeLimits_def v21_def)
  show "upgradeLimits v23 = upgradeLimits v22" by (simp add: upgradeLimits_def v23_def)
  show "upgradeLimits v24 = upgradeLimits v23" by (simp add: upgradeLimits_def v24_def)
  show "upgradeLimits v25 = upgradeLimits v24" by (simp add: upgradeLimits_def v25_def)
  show "upgradeLimits v26 = upgradeLimits v25" by (simp add: upgradeLimits_def v26_def)
  show "upgradeLimits v27 = upgradeLimits v26" by (simp add: upgradeLimits_def v27_def)
  show "upgradeLimits v28 = upgradeLimits v27" by (simp add: upgradeLimits_def v28_def)
  show "upgradeLimits v29 = upgradeLimits v28" by (simp add: upgradeLimits_def v29_def)
  show "upgradeLimits v30 = upgradeLimits v29" by (simp add: upgradeLimits_def v30_def)
  show "upgradeLimits v31 = upgradeLimits v30" by (simp add: upgradeLimits_def v31_def)
  show "upgradeLimits vFuture = upgradeLimits v31" by (simp add: upgradeLimits_def vFuture_def)
qed

lemma upgradeLimits_values:
  "upgradeLimits v7 = (10000, 64, 0, 0)" "upgradeLimits v12 = (10000, 128, 0, 0)" "upgradeLimits v22 = (10000, 128, 10000, 150000)"
proof -
  show v7: "upgradeLimits v7 = (10000, 64, 0, 0)" by (simp add: upgradeLimits_def v7_def zeroParams_def)
  then have "upgradeLimits v11 = (10000, 64, 0, 0)" by (simp add: upgradeLimits_inherited)
  then show v12: "upgradeLimits v12 = (10000, 128, 0, 0)" by (simp add: upgradeLimits_def v12_def)
  then have "upgradeLimits v21 = (10000, 128, 0, 0)" by (simp add: upgradeLimits_inherited)
  then show "upgradeLimits v22 = (10000, 128, 10000, 150000)" by (simp add: upgradeLimits_def v22_def)
qed

lemma approved_upgrades:
  shows "approvedUpgrades v7 = [(ConsensusV8, 0)]"
    and "approvedUpgrades v8 = [(ConsensusV9, 0)]"
    and "approvedUpgrades v9 = [(ConsensusV10, 0)]"
    and "approvedUpgrades v10 = [(ConsensusV11, 0)]"
    and "approvedUpgrades v11 = [(ConsensusV12, 0)]"
    and "approvedUpgrades v12 = [(ConsensusV13, 0)]"
    and "approvedUpgrades v13 = [(ConsensusV14, 0)]"
    and "approvedUpgrades v14 = [(ConsensusV15, 0)]"
    and "approvedUpgrades v15 = [(ConsensusV16, 0)]"
    and "approvedUpgrades v16 = [(ConsensusV17, 0)]"
    and "approvedUpgrades v17 = [(ConsensusV19, 0)]"
    and "approvedUpgrades v18 = [(ConsensusV19, 0)]"
    and "approvedUpgrades v19 = [(ConsensusV20, 0)]"
    and "approvedUpgrades v20 = [(ConsensusV21, 0)]"
    and "approvedUpgrades v21 = [(ConsensusV23, 0)]"
    and "approvedUpgrades v22 = [(ConsensusV23, 10000)]"
    and "approvedUpgrades v23 = [(ConsensusV24, 140000)]"
    and "approvedUpgrades v24 = [(ConsensusV26, 140000)]"
    and "approvedUpgrades v25 = [(ConsensusV26, 140000)]"
    and "approvedUpgrades v26 = [(ConsensusV27, 60000)]"
    and "approvedUpgrades v27 = [(ConsensusV28, 140000)]"
    and "approvedUpgrades v28 = [(ConsensusV29, 60000)]"
    and "approvedUpgrades v29 = [(ConsensusV30, 140000)]"
    and "approvedUpgrades v30 = [(ConsensusV31, 140000)]"
    and "approvedUpgrades v31 = []"
    and "approvedUpgrades vFuture = []"
proof -
  show "approvedUpgrades v7 = [(ConsensusV8, 0)]" by (simp add: approvedUpgrades_def v7_def)
  show "approvedUpgrades v8 = [(ConsensusV9, 0)]" by (simp add: approvedUpgrades_def v8_def)
  show "approvedUpgrades v9 = [(ConsensusV10, 0)]" by (simp add: approvedUpgrades_def v9_def)
  show "approvedUpgrades v10 = [(ConsensusV11, 0)]" by (simp add: approvedUpgrades_def v10_def)
  show "approvedUpgrades v11 = [(ConsensusV12, 0)]" by (simp add: approvedUpgrades_def v11_def)
  show "approvedUpgrades v12 = [(ConsensusV13, 0)]" by (simp add: approvedUpgrades_def v12_def)
  show "approvedUpgrades v13 = [(ConsensusV14, 0)]" by (simp add: approvedUpgrades_def v13_def)
  show "approvedUpgrades v14 = [(ConsensusV15, 0)]" by (simp add: approvedUpgrades_def v14_def)
  show "approvedUpgrades v15 = [(ConsensusV16, 0)]" by (simp add: approvedUpgrades_def v15_def)
  show "approvedUpgrades v16 = [(ConsensusV17, 0)]" by (simp add: approvedUpgrades_def v16_def)
  show "approvedUpgrades v17 = [(ConsensusV19, 0)]" by (simp add: approvedUpgrades_def v17_def)
  show "approvedUpgrades v18 = [(ConsensusV19, 0)]" by (simp add: approvedUpgrades_def v18_def)
  show "approvedUpgrades v19 = [(ConsensusV20, 0)]" by (simp add: approvedUpgrades_def v19_def)
  show "approvedUpgrades v20 = [(ConsensusV21, 0)]" by (simp add: approvedUpgrades_def v20_def)
  show "approvedUpgrades v21 = [(ConsensusV23, 0)]" by (simp add: approvedUpgrades_def v21_def)
  show "approvedUpgrades v22 = [(ConsensusV23, 10000)]" by (simp add: approvedUpgrades_def v22_def)
  show "approvedUpgrades v23 = [(ConsensusV24, 140000)]" by (simp add: approvedUpgrades_def v23_def)
  show "approvedUpgrades v24 = [(ConsensusV26, 140000)]" by (simp add: approvedUpgrades_def v24_def)
  show "approvedUpgrades v25 = [(ConsensusV26, 140000)]" by (simp add: approvedUpgrades_def v25_def)
  show "approvedUpgrades v26 = [(ConsensusV27, 60000)]" by (simp add: approvedUpgrades_def v26_def)
  show "approvedUpgrades v27 = [(ConsensusV28, 140000)]" by (simp add: approvedUpgrades_def v27_def)
  show "approvedUpgrades v28 = [(ConsensusV29, 60000)]" by (simp add: approvedUpgrades_def v28_def)
  show "approvedUpgrades v29 = [(ConsensusV30, 140000)]" by (simp add: approvedUpgrades_def v29_def)
  show "approvedUpgrades v30 = [(ConsensusV31, 140000)]" by (simp add: approvedUpgrades_def v30_def)
  show "approvedUpgrades v31 = []" by (simp add: approvedUpgrades_def v31_def)
  show "approvedUpgrades vFuture = []" by (simp add: approvedUpgrades_def vFuture_def)
qed

lemma version_name_lengths:
  "list_all (\<lambda>(u, _). u \<noteq> [] \<and> int (length u) \<le> 128) Consensus"
  "list_all (\<lambda>u. u \<noteq> [] \<and> length u \<le> 64) [ConsensusV8, ConsensusV9, ConsensusV10, ConsensusV11, ConsensusV12]"
  by (simp_all add: Consensus_def version_names)

definition versions :: "consensusVersion set" where
  "versions = set (map fst Consensus)"

definition soundEntry :: "consensusParams \<Rightarrow> bool" where
  "soundEntry p \<longleftrightarrow> (let (rounds, len, lo, hi) = upgradeLimits p in rounds \<noteq> 0 \<and>
     list_all (\<lambda>(u, d). u \<noteq> [] \<and> u \<in> versions \<and> int (length u) \<le> len \<and> lo \<le> d \<and> d \<le> hi) (approvedUpgrades p))"

lemma soundEntries: "list_all (\<lambda>(ver, p). soundEntry p) Consensus"
proof -
  have names: "u \<in> versions \<Longrightarrow> u \<noteq> [] \<and> int (length u) \<le> 128" for u
    using version_name_lengths(1) by (auto simp: list_all_iff versions_def)
  have mem: "versions = {ConsensusV7, ConsensusV8, ConsensusV9, ConsensusV10, ConsensusV11, ConsensusV12,
      ConsensusV13, ConsensusV14, ConsensusV15, ConsensusV16, ConsensusV17, ConsensusV18, ConsensusV19, ConsensusV20,
      ConsensusV21, ConsensusV22, ConsensusV23, ConsensusV24, ConsensusV25, ConsensusV26, ConsensusV27, ConsensusV28,
      ConsensusV29, ConsensusV30, ConsensusV31, ConsensusFuture}"
    by (simp add: Consensus_def versions_def)
  have entry: "soundEntry p" if "approvedUpgrades p = [] \<or> (\<exists>u d. approvedUpgrades p = [(u, d)] \<and> u \<in> versions \<and>
      (upgradeLimits p = (10000, 128, 0, 0) \<and> d = 0 \<or> upgradeLimits p = (10000, 128, 10000, 150000) \<and> 10000 \<le> d \<and> d \<le> 150000 \<or>
       upgradeLimits p = (10000, 64, 0, 0) \<and> d = 0 \<and> length u \<le> 64))"
    "fst (upgradeLimits p) = 10000" for p
    using that names by (auto simp: soundEntry_def split: prod.splits)
  show ?thesis
    unfolding Consensus_def list.pred_inject case_prod_conv
    by (intro conjI TrueI entry) (use version_name_lengths(2) in \<open>simp_all add: approved_upgrades upgradeLimits_inherited upgradeLimits_values mem\<close>)
qed

lemma applyDeadlines_early:
  "r < us_NextProtocolVoteBefore s \<Longrightarrow> r < us_NextProtocolSwitchOn s \<Longrightarrow> applyDeadlines params r s = s"
  unfolding applyDeadlines_def Let_def by (auto dest: less_imp_neq)

lemma shipped_upgradesSound: "upgradesSound Consensus"
  using soundEntries
  by (fastforce simp: upgradesSound_def soundEntry_def upgradeLimits_def list_all_iff versions_def map_of_eq_None_iff)

lemma shipped_upgrade:
  assumes "mget Consensus ver = Some params" "approvedUpgrades params = (u, d) # rest"
  shows "u \<noteq> []" "mget Consensus u \<noteq> None" "int (length u) \<le> cp_MaxVersionStringLen params"
    "cp_MinUpgradeWaitRounds params \<le> d" "d \<le> cp_MaxUpgradeWaitRounds params" "cp_UpgradeVoteRounds params \<noteq> 0"
proof -
  have "(ver, params) \<in> set Consensus" using assms(1) by (rule map_of_SomeD)
  then have "cp_UpgradeVoteRounds params \<noteq> 0 \<and> list_all (\<lambda>(u, d). u \<noteq> [] \<and> mget Consensus u \<noteq> None \<and>
      int (length u) \<le> cp_MaxVersionStringLen params \<and> cp_MinUpgradeWaitRounds params \<le> d \<and> d \<le> cp_MaxUpgradeWaitRounds params)
      (approvedUpgrades params)"
    using shipped_upgradesSound unfolding upgradesSound_def list_all_iff by blast
  then show "u \<noteq> []" "mget Consensus u \<noteq> None" "int (length u) \<le> cp_MaxVersionStringLen params"
    "cp_MinUpgradeWaitRounds params \<le> d" "d \<le> cp_MaxUpgradeWaitRounds params" "cp_UpgradeVoteRounds params \<noteq> 0"
    using assms(2) by simp_all
qed

text \<open>
  C19. Every upgrade that the shipped table approves can be proposed. When no upgrade is pending
  in a version that approves one, and the round number is far from overflowing, the proposer's
  vote names that upgrade and \<open>applyUpgradeVote\<close> accepts it: the next header carries the
  proposal with one approval, its voting ends after the voting period, and the switch follows
  after the delay of the table, or the default delay when the table gives none. The version
  proposed is itself in the table.
\<close>

theorem shipped_upgrades_proposed:
  assumes "mget Consensus (us_CurrentProtocol (bh_UpgradeState prev)) = Some params" "approvedUpgrades params = (u, d) # rest"
    "bh_UpgradeState prev = \<lparr>us_CurrentProtocol = ver, us_NextProtocol = [], us_NextProtocolApprovals = 0,
       us_NextProtocolVoteBefore = 0, us_NextProtocolSwitchOn = 0\<rparr>"
    "upgradeWindow params (bh_Round prev + 1)"
  shows "ProcessUpgradeParams Consensus prev =
      Ok (\<lparr>uv_UpgradePropose = u, uv_UpgradeDelay = d, uv_UpgradeApprove = True\<rparr>,
        \<lparr>us_CurrentProtocol = ver, us_NextProtocol = u, us_NextProtocolApprovals = 1,
         us_NextProtocolVoteBefore = bh_Round prev + 1 + cp_UpgradeVoteRounds params,
         us_NextProtocolSwitchOn = bh_Round prev + 1 + cp_UpgradeVoteRounds params +
           (if d = 0 then cp_DefaultUpgradeWaitRounds params else d)\<rparr>) \<and> mget Consensus u \<noteq> None"
proof -
  let ?r = "bh_Round prev + 1" and ?vote = "\<lparr>uv_UpgradePropose = u, uv_UpgradeDelay = d, uv_UpgradeApprove = True\<rparr>"
  let ?d = "if d = 0 then cp_DefaultUpgradeWaitRounds params else d"
  let ?s = "\<lparr>us_CurrentProtocol = ver, us_NextProtocol = u, us_NextProtocolApprovals = 0,
     us_NextProtocolVoteBefore = ?r + cp_UpgradeVoteRounds params, us_NextProtocolSwitchOn = ?r + cp_UpgradeVoteRounds params + ?d\<rparr>"
  note u = shipped_upgrade [OF assms(1,2)]
  have vote: "proposerVote params prev = ?vote" using assms(2,3) by (simp add: proposerVote_def Let_def)
  have s: "applyProposal params ?r ?vote (bh_UpgradeState prev) = Ok ?s"
    using u by (simp add: applyProposal_def Let_def assms(3) not_less)
  have vb: "?r < us_NextProtocolVoteBefore ?s" and "us_NextProtocolVoteBefore ?s \<le> us_NextProtocolSwitchOn ?s"
    using proposal_deadlines(3,4) [OF s _ assms(4)] u(1) by simp_all
  then have so: "?r < us_NextProtocolSwitchOn ?s" by (rule less_le_trans)
  have "applyApproval ?r ?vote ?s = Ok (?s\<lparr>us_NextProtocolApprovals := 1\<rparr>)"
    using vb u(1) by (simp add: applyApproval_def not_le)
  moreover have "applyDeadlines params ?r (?s\<lparr>us_NextProtocolApprovals := 1\<rparr>) = ?s\<lparr>us_NextProtocolApprovals := 1\<rparr>"
    by (rule applyDeadlines_early) (use vb so in simp_all)
  ultimately show ?thesis
    using u(2) s vote assms(1) by (simp add: ProcessUpgradeParams_def applyUpgradeVote_def)
qed

text \<open>
  C12. Storing a transaction in a block and reading it back is the identity: what
  \<open>EncodeSignedTxn\<close> writes under a header, \<open>DecodeSignedTxn\<close> reads back as the same transaction
  and the same apply data, with the genesis identifier and hash that were stripped restored.
\<close>

theorem payset_roundtrip:
  assumes "mget tbl (us_CurrentProtocol (bh_UpgradeState bh)) = Some proto" "cp_SupportSignedTxnInBlock proto"
    "EncodeSignedTxn tbl bh st ad = Ok stb"
  shows "DecodeSignedTxn tbl bh stb = Ok (st, ad)"
  using assms by (rule encode_decode)

definition sampleHeader :: blockHeader where
  "sampleHeader = \<lparr>bh_Round = 7, bh_Branch = 0, bh_Seed = 0, bh_TxnRoot = 0, bh_TimeStamp = 1000,
     bh_GenesisID = ''test'', bh_GenesisHash = 9,
     bh_RewardsState = zeroRewardsState\<lparr>rs_RewardsRate := 10, rs_RewardsRecalculationRound := 500000\<rparr>,
     bh_UpgradeState = \<lparr>us_CurrentProtocol = ConsensusCurrentVersion, us_NextProtocol = [],
       us_NextProtocolApprovals = 0, us_NextProtocolVoteBefore = 0, us_NextProtocolSwitchOn = 0\<rparr>,
     bh_UpgradeVote = zeroUpgradeVote, bh_TxnCounter = 0, bh_CompactCert = [],
     bh_ExpiredParticipationAccounts = []\<rparr>"

theorem shipped_upgrades_proposed_witness:
  "\<exists>us. ProcessUpgradeParams Consensus (sampleHeader\<lparr>bh_UpgradeState := (bh_UpgradeState sampleHeader)\<lparr>us_CurrentProtocol := ConsensusV30\<rparr>\<rparr>) =
     Ok (\<lparr>uv_UpgradePropose = ConsensusV31, uv_UpgradeDelay = 140000, uv_UpgradeApprove = True\<rparr>, us) \<and>
     us_NextProtocolVoteBefore us = 10008 \<and> us_NextProtocolSwitchOn us = 150008"
proof -
  let ?h = "sampleHeader\<lparr>bh_UpgradeState := (bh_UpgradeState sampleHeader)\<lparr>us_CurrentProtocol := ConsensusV30\<rparr>\<rparr>"
  have c: "mget Consensus (us_CurrentProtocol (bh_UpgradeState ?h)) = Some v30" "approvedUpgrades v30 = [(ConsensusV31, 140000)]"
    by (simp_all add: Consensus_def version_names approved_upgrades)
  have l: "cp_UpgradeVoteRounds v30 = 10000" "cp_DefaultUpgradeWaitRounds v30 = 140000" "cp_MaxUpgradeWaitRounds v30 = 150000"
    by (simp_all add: version_params)
  have "upgradeWindow v30 (bh_Round ?h + 1)" by (simp add: upgradeWindow_def sampleHeader_def l)
  from shipped_upgrades_proposed [OF c _ this, of ConsensusV30] show ?thesis by (simp add: sampleHeader_def l)
qed

lemma sampleHeader_protocol:
  "mget Consensus (us_CurrentProtocol (bh_UpgradeState sampleHeader)) = Some v31"
  by (simp add: sampleHeader_def Consensus_def version_names)

theorem payset_roundtrip_witness:
  "\<exists>stb. EncodeSignedTxn Consensus sampleHeader (zeroSignedTxn\<lparr>st_Txn := samplePayment\<rparr>) zeroApplyData = Ok stb \<and>
     DecodeSignedTxn Consensus sampleHeader stb = Ok (zeroSignedTxn\<lparr>st_Txn := samplePayment\<rparr>, zeroApplyData)"
proof -
  let ?st = "zeroSignedTxn\<lparr>st_Txn := samplePayment\<rparr>"
  have "\<exists>stb. EncodeSignedTxn Consensus sampleHeader ?st zeroApplyData = Ok stb"
    by (simp add: EncodeSignedTxn_def sampleHeader_protocol Let_def)
      (simp add: sampleHeader_def samplePayment_def zeroTransaction_def zeroHeader_def zeroSignedTxn_def version_params)
  then show ?thesis
    using payset_roundtrip [OF sampleHeader_protocol] by (auto simp: version_params)
qed

text \<open>
  C13. \<open>SignedTxnsToGroups\<close> cuts the transactions of a block into groups and loses nothing:
  flattening the groups gives the transactions back in order, every group is nonempty with
  one group identifier, a transaction without an identifier is alone, and two neighbouring
  groups never share a nonzero identifier.
\<close>

theorem SignedTxnsToGroups_partition:
  "SignedTxnGroupsFlatten (SignedTxnsToGroups txns) = txns \<and>
   list_all (properGroup txnGroup) (SignedTxnsToGroups txns) \<and>
   splitWhereDifferent txnGroup (SignedTxnsToGroups txns)"
  using groupLoop_spec [of txnGroup "[]" "[]" txns]
  by (simp add: SignedTxnsToGroups_def SignedTxnGroupsFlatten_concat)

lemma refreshRate_Ok:
  assumes "cp_RewardsRateRefreshInterval proto \<noteq> 0"
  shows "\<exists>res. refreshRate s r proto pool = (Ok res :: (unit, rewardsState) result) \<and>
    rs_RewardsLevel res = rs_RewardsLevel s \<and> rs_RewardsResidue res = rs_RewardsResidue s \<and>
    rs_RewardsRecalculationRound res = r + cp_RewardsRateRefreshInterval proto"
  using assms by (simp add: refreshRate_def Let_def split: prod.splits)

lemma NextRewardsState_refresh:
  assumes "cp_RewardsCalculationFix proto" "refreshRate s r proto pool = (Ok res :: (unit, rewardsState) result)"
    "cp_RewardsRateRefreshInterval proto \<noteq> 0" "r = rs_RewardsRecalculationRound s"
  shows "NextRewardsState s r proto pool units = (NextRewardsState res r proto pool units :: (unit, rewardsState) result)"
proof -
  have "rs_RewardsRecalculationRound res = r + cp_RewardsRateRefreshInterval proto"
    using refreshRate_Ok [OF assms(3), of s r pool] assms(2) by auto
  then have "r \<noteq> rs_RewardsRecalculationRound res" using assms(3) by simp
  with assms show ?thesis by (simp add: NextRewardsState_def)
qed

text \<open>
  C6. The rewards pool is never overspent, for the protocols that set both
  \<open>PendingResidueRewards\<close> and \<open>RewardsCalculationFix\<close> (the shipped ones do from version 31 on).
  Over a refresh period of nonzero length that starts with a recalculation of the rate, however
  the number of reward units changes from round to round, no round fails, and all the claims
  that the growth of the reward level makes possible, plus the residue kept at the end, are at
  most the larger of two amounts: the pool above its minimum balance, and the residue
  carried into the period. Without \<open>RewardsCalculationFix\<close> the round of the recalculation still
  uses the old rate, and the bound does not hold.
\<close>

theorem rewards_within_budget:
  assumes "cp_PendingResidueRewards proto" "cp_RewardsCalculationFix proto"
    "cp_RewardsRateRefreshInterval proto \<noteq> 0" "r = rs_RewardsRecalculationRound s"
    "length us \<le> unat (cp_RewardsRateRefreshInterval proto)"
  shows "\<exists>t paid. rewardsRun proto pool s r us = Ok (t, paid) \<and>
    paid + unat (rs_RewardsResidue t)
      \<le> max (unat (rs_RewardsResidue s)) (unat pool - unat (cp_MinBalance proto))"
proof (cases us)
  case Nil
  then show ?thesis by simp
next
  case (Cons u us')
  let ?n = "cp_RewardsRateRefreshInterval proto"
  obtain res where res: "refreshRate s r proto pool = (Ok res :: (unit, _) result)"
    "rs_RewardsLevel res = rs_RewardsLevel s" "rs_RewardsResidue res = rs_RewardsResidue s"
    "rs_RewardsRecalculationRound res = r + ?n"
    using refreshRate_Ok [OF assms(3)] by blast
  have same: "rewardsRun proto pool s r us = rewardsRun proto pool res r us"
    using NextRewardsState_refresh [OF assms(2) res(1) assms(3,4)] res(2) Cons by simp
  have "r + of_nat i \<noteq> rs_RewardsRecalculationRound res" if "i < length us" for i
  proof -
    have "i < unat ?n" using that assms(5) by simp
    then have "unat (of_nat i :: u64) = i" using u64_bound [of ?n] by (simp add: unat_of_nat)
    with \<open>i < unat ?n\<close> show ?thesis using res(4) by auto
  qed
  then obtain t paid where run: "rewardsRun proto pool res r us = Ok (t, paid)"
    "paid + unat (rs_RewardsResidue t) \<le> length us * unat (rs_RewardsRate res) + unat (rs_RewardsResidue res)"
    using rewardsRun_budget by blast
  have "length us * unat (rs_RewardsRate res) \<le> unat ?n * unat (rs_RewardsRate res)"
    using assms(5) by (rule mult_le_mono1)
  then have le: "paid + unat (rs_RewardsResidue t) \<le> unat ?n * unat (rs_RewardsRate res) + unat (rs_RewardsResidue s)"
    using run(2) unfolding res(3) by linarith
  from refreshRate_budget [OF res(1) assms(1)]
  have "paid + unat (rs_RewardsResidue t) \<le> max (unat (rs_RewardsResidue s)) (unat pool - unat (cp_MinBalance proto))"
  proof
    assume "rs_RewardsRate res = 0"
    with le show ?thesis by simp
  next
    assume "unat ?n * unat (rs_RewardsRate res) + unat (rs_RewardsResidue s) + unat (cp_MinBalance proto) \<le> unat pool"
    with le show ?thesis unfolding le_max_iff_disj by linarith
  qed
  with run(1) same show ?thesis by auto
qed

theorem rewards_within_budget_witness:
  "\<exists>t paid. rewardsRun v31 1000000000 (zeroRewardsState\<lparr>rs_RewardsRecalculationRound := 9\<rparr>) 9 [5, 6, 7] = Ok (t, paid) \<and>
    paid + unat (rs_RewardsResidue t) \<le> 999900000"
  using rewards_within_budget [of v31 9 "zeroRewardsState\<lparr>rs_RewardsRecalculationRound := 9\<rparr>" "[5, 6, 7]" 1000000000]
  by (simp add: zeroRewardsState_def version_params)

text \<open>
  C7. The protocol never changes without the votes: if the protocol in force after a run of
  blocks differs from the one at its start, with no proposal pending at the start, then at
  least the threshold of those blocks approved, whatever the blocks proposed and approved in
  between.
\<close>

theorem upgrade_needs_votes:
  assumes "us_NextProtocol s = []" "us_NextProtocolApprovals s = 0" "us_NextProtocolVoteBefore s = 0"
    "us_NextProtocolSwitchOn s = 0" "mget tbl (us_CurrentProtocol s) = Some params"
    "upgradeRun tbl r s votes = Ok t" "us_CurrentProtocol t \<noteq> us_CurrentProtocol s"
    "0 < unat (cp_UpgradeVoteRounds params)"
    "unat r + length votes + unat (cp_UpgradeVoteRounds params) +
       max (unat (cp_DefaultUpgradeWaitRounds params)) (unat (cp_MaxUpgradeWaitRounds params)) < 2 ^ 64"
  shows "unat (cp_UpgradeThreshold params) \<le> length (filter uv_UpgradeApprove votes)"
  using upgradeRun_approvals [OF _ assms(5-9)] assms(1-4) by (simp add: upgradeInv_def)

text \<open>A protocol with a voting period of two rounds and one approval needed.\<close>

definition sampleTable :: consensusTable where
  "sampleTable = [(''a'', v31\<lparr>cp_UpgradeVoteRounds := 2, cp_UpgradeThreshold := 1, cp_DefaultUpgradeWaitRounds := 1,
     cp_MinUpgradeWaitRounds := 0, cp_MaxUpgradeWaitRounds := 10\<rparr>), (''b'', v31)]"

definition sampleUpgrade :: upgradeState where
  "sampleUpgrade = \<lparr>us_CurrentProtocol = ''a'', us_NextProtocol = [], us_NextProtocolApprovals = 0,
     us_NextProtocolVoteBefore = 0, us_NextProtocolSwitchOn = 0\<rparr>"

definition sampleUpgradeVotes :: "upgradeVote list" where
  "sampleUpgradeVotes = [\<lparr>uv_UpgradePropose = ''b'', uv_UpgradeDelay = 1, uv_UpgradeApprove = True\<rparr>,
     zeroUpgradeVote, zeroUpgradeVote, zeroUpgradeVote]"

theorem upgrade_needs_votes_witness:
  "\<exists>t. upgradeRun sampleTable 100 sampleUpgrade sampleUpgradeVotes = Ok t \<and> us_CurrentProtocol t = ''b'' \<and>
     1 \<le> length (filter uv_UpgradeApprove sampleUpgradeVotes)"
proof -
  have "\<exists>t. upgradeRun sampleTable 100 sampleUpgrade sampleUpgradeVotes = Ok t \<and> us_CurrentProtocol t = ''b''"
    by (simp add: sampleTable_def sampleUpgrade_def sampleUpgradeVotes_def zeroUpgradeVote_def applyUpgradeVote_def
        applyProposal_def applyApproval_def applyDeadlines_def clearProposal_def version_params)
  then obtain t where t: "upgradeRun sampleTable 100 sampleUpgrade sampleUpgradeVotes = Ok t" "us_CurrentProtocol t = ''b''"
    by blast
  have "mget sampleTable (us_CurrentProtocol sampleUpgrade) = Some (snd (hd sampleTable))"
    by (simp add: sampleTable_def sampleUpgrade_def)
  from upgrade_needs_votes [OF _ _ _ _ this t(1)] t show ?thesis
    by (simp add: sampleUpgrade_def sampleTable_def sampleUpgradeVotes_def version_params)
qed

text \<open>
  C9. A proposer can make a block, and what decides whether its header passes the other nodes'
  checks. From any header whose protocol is in a table of sound upgrades, with a consistent
  upgrade state, far from the largest round number and with a genesis identifier, the
  proposer's own upgrade vote is accepted. If the protocol that it leads to is known and the
  timestamps do not overflow, \<open>MakeBlock\<close> returns a block, whatever the proposer's clock says.
  \<open>PreCheck\<close> accepts its header against the previous one exactly when the previous header has
  a genesis hash just in case the protocol uses one: at a switch to a protocol that is the first
  to use it, \<open>MakeBlock\<close> copies a missing hash and the check fails. Once the hash is filled in,
  as the block evaluator does, the header passes there too.
\<close>

theorem MakeBlock_passes_PreCheck:
  assumes "upgradesSound tbl" "mget tbl (us_CurrentProtocol (bh_UpgradeState prev)) = Some params"
    "upgradeInv params (bh_Round prev) (bh_UpgradeState prev)" "upgradeWindow params (bh_Round prev + 1)"
    "bh_GenesisID prev \<noteq> []"
  shows "\<exists>vote us. ProcessUpgradeParams tbl prev = Ok (vote, us) \<and>
    (\<forall>p. mget tbl (us_CurrentProtocol us) = Some p \<and> 0 \<le> sint (cp_MaxTimestampIncrement p) \<and>
       sint (bh_TimeStamp prev + cp_MaxTimestampIncrement p) = sint (bh_TimeStamp prev) + sint (cp_MaxTimestampIncrement p) \<longrightarrow>
       (\<exists>b. MakeBlock tbl hash ops now prev = Ok b \<and>
          (PreCheck tbl hash (bl_BlockHeader b) prev = Ok () \<longleftrightarrow> (cp_SupportGenesisHash p \<longleftrightarrow> bh_GenesisHash prev \<noteq> 0)) \<and>
          (cp_SupportGenesisHash p \<and> g \<noteq> 0 \<and> (bh_GenesisHash prev = 0 \<or> bh_GenesisHash prev = g) \<longrightarrow>
             PreCheck tbl hash ((bl_BlockHeader b)\<lparr>bh_GenesisHash := g\<rparr>) prev = Ok ())))"
proof -
  obtain us where "applyUpgradeVote tbl (bh_Round prev + 1) (proposerVote params prev) (bh_UpgradeState prev) = Ok us"
    using proposerVote_accepted [OF assms(1-4)] by blast
  then have pu: "ProcessUpgradeParams tbl prev = Ok (proposerVote params prev, us)"
    using assms(2) by (simp add: ProcessUpgradeParams_def Let_def)
  then show ?thesis using MakeBlock_checks [OF pu _ assms(5)] by blast
qed

definition sampleHash :: "blockHeader \<Rightarrow> digest" where
  "sampleHash h = ucast (bh_Round h) + 1"

definition sampleOps :: paysetOps where
  "sampleOps = \<lparr>po_CommitFlat = (\<lambda>_. 3), po_MerkleRoot = (\<lambda>_. Some 4)\<rparr>"

theorem MakeBlock_passes_PreCheck_witness:
  "\<exists>b. MakeBlock [(ConsensusCurrentVersion, v31)] sampleHash sampleOps 1010 sampleHeader = Ok b \<and>
     PreCheck [(ConsensusCurrentVersion, v31)] sampleHash (bl_BlockHeader b) sampleHeader = Ok ()"
proof -
  let ?tbl = "[(ConsensusCurrentVersion, v31)]"
  have cur: "mget ?tbl (us_CurrentProtocol (bh_UpgradeState sampleHeader)) = Some v31" by (simp add: sampleHeader_def)
  have lims: "cp_UpgradeVoteRounds v31 = 10000" "cp_DefaultUpgradeWaitRounds v31 = 140000"
    "cp_MaxUpgradeWaitRounds v31 = 150000" "approvedUpgrades v31 = []" "cp_SupportGenesisHash v31"
    "cp_MaxTimestampIncrement v31 = 25"
    by (simp_all add: approvedUpgrades_def version_params)
  have "upgradesSound ?tbl" "upgradeWindow v31 (bh_Round sampleHeader + 1)"
    "upgradeInv v31 (bh_Round sampleHeader) (bh_UpgradeState sampleHeader)" "bh_GenesisID sampleHeader \<noteq> []"
    by (simp_all add: upgradesSound_def upgradeWindow_def upgradeInv_def lims sampleHeader_def)
  from MakeBlock_passes_PreCheck [OF this(1) cur this(3,2,4), of sampleHash sampleOps 1010 9]
  obtain vote us where u: "ProcessUpgradeParams ?tbl sampleHeader = Ok (vote, us)"
    "\<And>p. mget ?tbl (us_CurrentProtocol us) = Some p \<Longrightarrow> 0 \<le> sint (cp_MaxTimestampIncrement p) \<Longrightarrow> sint (bh_TimeStamp sampleHeader + cp_MaxTimestampIncrement p) =
         sint (bh_TimeStamp sampleHeader) + sint (cp_MaxTimestampIncrement p) \<Longrightarrow>
       \<exists>b. MakeBlock ?tbl sampleHash sampleOps 1010 sampleHeader = Ok b \<and>
         (PreCheck ?tbl sampleHash (bl_BlockHeader b) sampleHeader = Ok () \<longleftrightarrow> (cp_SupportGenesisHash p \<longleftrightarrow> bh_GenesisHash sampleHeader \<noteq> 0))"
    by blast
  have "us_CurrentProtocol us = ConsensusCurrentVersion"
    using u(1) by (auto simp: ProcessUpgradeParams_def cur proposerVote_def lims applyUpgradeVote_def applyProposal_def
        applyApproval_def applyDeadlines_def zeroUpgradeVote_def sampleHeader_def Let_def)
  then have "\<exists>b. MakeBlock ?tbl sampleHash sampleOps 1010 sampleHeader = Ok b \<and>
      (PreCheck ?tbl sampleHash (bl_BlockHeader b) sampleHeader = Ok () \<longleftrightarrow> (cp_SupportGenesisHash v31 \<longleftrightarrow> bh_GenesisHash sampleHeader \<noteq> 0))"
    by (intro u(2)) (simp_all add: lims sampleHeader_def)
  moreover have "cp_SupportGenesisHash v31 \<longleftrightarrow> bh_GenesisHash sampleHeader \<noteq> 0" by (simp add: lims sampleHeader_def)
  ultimately show ?thesis by blast
qed

end
