(* ===== verification/Ledger_Deltas.thy ===== *)
theory Ledger_Deltas
  imports Bookkeeping_Block "HOL-Library.Multiset"
begin

text \<open>
  The changes of one round (\<open>src/ledger/ledgercore/statedelta.go\<close>) and the totals of the
  ledger (\<open>src/ledger/ledgercore/totals.go\<close>).

  \<open>AccountDeltas\<close> is a slice of balance records with a map from addresses to positions. The
  lemmas show that the two stay in step, so that it behaves as a map from addresses to
  accounts whose keys keep the order of their first insertion. For the totals the lemmas
  relate the tracked counters to the accounts: as long as no flag is raised, a counter is the
  sum of the balances with their pending rewards, and applying a new reward level keeps it
  so.
\<close>

declare map_of_eq_Some_iff [simp del] Some_eq_map_of_iff [simp del]

section \<open>Account deltas\<close>

record balanceRecord =
  br_Addr :: address
  br_AccountData :: accountData

record accountDeltas =
  acd_accts :: "balanceRecord list"
  acd_acctsCache :: "(address, nat) gomap"

definition emptyDeltas :: accountDeltas where
  "emptyDeltas = \<lparr>acd_accts = [], acd_acctsCache = []\<rparr>"

definition AccountDeltas_Get :: "accountDeltas \<Rightarrow> address \<Rightarrow> ('e, accountData \<times> bool) result" where
  "AccountDeltas_Get ad addr =
     (case mget (acd_acctsCache ad) addr of
        None \<Rightarrow> Ok (zeroAccountData, False)
      | Some idx \<Rightarrow>
          if idx < length (acd_accts ad) then Ok (br_AccountData (acd_accts ad ! idx), True)
          else Panic IndexOutOfRange)"

definition ModifiedAccounts :: "accountDeltas \<Rightarrow> address list" where
  "ModifiedAccounts ad = map br_Addr (acd_accts ad)"

definition upsert :: "accountDeltas \<Rightarrow> balanceRecord \<Rightarrow> ('e, accountDeltas) result" where
  "upsert ad br =
     (case mget (acd_acctsCache ad) (br_Addr br) of
        Some idx \<Rightarrow>
          if idx < length (acd_accts ad) then Ok (ad\<lparr>acd_accts := (acd_accts ad)[idx := br]\<rparr>)
          else Panic IndexOutOfRange
      | None \<Rightarrow>
          let last = length (acd_accts ad)
          in Ok \<lparr>acd_accts = acd_accts ad @ [br], acd_acctsCache = mput (br_Addr br) last (acd_acctsCache ad)\<rparr>)"

definition Upsert :: "accountDeltas \<Rightarrow> address \<Rightarrow> accountData \<Rightarrow> ('e, accountDeltas) result" where
  "Upsert ad addr data = upsert ad \<lparr>br_Addr = addr, br_AccountData = data\<rparr>"

fun upsertAll :: "accountDeltas \<Rightarrow> balanceRecord list \<Rightarrow> ('e, accountDeltas) result" where
  "upsertAll ad [] = Ok ad"
| "upsertAll ad (br # brs) = andThen (upsert ad br) (\<lambda>ad. upsertAll ad brs)"

definition MergeAccounts :: "accountDeltas \<Rightarrow> accountDeltas \<Rightarrow> ('e, accountDeltas) result" where
  "MergeAccounts ad other = upsertAll ad (acd_accts other)"

definition GetByIdx :: "accountDeltas \<Rightarrow> nat \<Rightarrow> ('e, address \<times> accountData) result" where
  "GetByIdx ad i =
     (if i < length (acd_accts ad) then Ok (br_Addr (acd_accts ad ! i), br_AccountData (acd_accts ad ! i))
      else Panic IndexOutOfRange)"

section \<open>State deltas\<close>

datatype creatableType = AssetCreatable | AppCreatable

record modifiedCreatable =
  mc_Ctype :: creatableType
  mc_Created :: bool
  mc_Creator :: address
  mc_Ndeltas :: int

record txlease =
  txl_Sender :: address
  txl_Lease :: bytes32

type_synonym txid = digest

section \<open>Totals\<close>

record algoCount =
  ac_Money :: microNovas
  ac_RewardUnits :: u64

record accountTotals =
  at_Online :: algoCount
  at_Offline :: algoCount
  at_NotParticipating :: algoCount
  at_RewardsLevel :: u64

record ledgerDelta =
  sd_Accts :: accountDeltas
  sd_Txids :: "(txid, round) gomap"
  sd_Txleases :: "(txlease, round) gomap"
  sd_Creatables :: "(u64, modifiedCreatable) gomap"
  sd_Hdr :: blockHeader
  sd_CompactCertNext :: round
  sd_PrevTimestamp :: "64 word"
  sd_ModifiedAssetHoldings :: "(address \<times> assetIndex, bool) gomap"
  sd_ModifiedAppLocalStates :: "(address \<times> appIndex, bool) gomap"
  sd_Totals :: accountTotals

definition zeroTotals :: accountTotals where
  "zeroTotals = \<lparr>at_Online = \<lparr>ac_Money = 0, ac_RewardUnits = 0\<rparr>, at_Offline = \<lparr>ac_Money = 0, ac_RewardUnits = 0\<rparr>,
     at_NotParticipating = \<lparr>ac_Money = 0, ac_RewardUnits = 0\<rparr>, at_RewardsLevel = 0\<rparr>"

definition MakeStateDelta :: "blockHeader \<Rightarrow> 64 word \<Rightarrow> round \<Rightarrow> ledgerDelta" where
  "MakeStateDelta hdr prevTimestamp compactCertNext =
     \<lparr>sd_Accts = emptyDeltas, sd_Txids = [], sd_Txleases = [], sd_Creatables = [], sd_Hdr = hdr,
      sd_CompactCertNext = compactCertNext, sd_PrevTimestamp = prevTimestamp, sd_ModifiedAssetHoldings = [],
      sd_ModifiedAppLocalStates = [], sd_Totals = zeroTotals\<rparr>"

definition applyRewards :: "u64 \<Rightarrow> algoCount \<Rightarrow> overflowTracker \<Rightarrow> algoCount \<times> overflowTracker" where
  "applyRewards rewardsPerUnit ac ot =
     (let (rewardsGottenThisRound, ot) = ot_Mul (ac_RewardUnits ac) rewardsPerUnit ot;
          (money, ot) = ot_AddA (ac_Money ac) rewardsGottenThisRound ot
      in (ac\<lparr>ac_Money := money\<rparr>, ot))"

text \<open>The pointer \<open>statusField\<close> returns, as a reader and a writer.\<close>

definition statusField :: "status \<Rightarrow> accountTotals \<Rightarrow> algoCount" where
  "statusField st at = (case st of Online \<Rightarrow> at_Online at | Offline \<Rightarrow> at_Offline at
     | NotParticipating \<Rightarrow> at_NotParticipating at)"

definition setStatusField :: "status \<Rightarrow> algoCount \<Rightarrow> accountTotals \<Rightarrow> accountTotals" where
  "setStatusField st ac at = (case st of Online \<Rightarrow> at\<lparr>at_Online := ac\<rparr> | Offline \<Rightarrow> at\<lparr>at_Offline := ac\<rparr>
     | NotParticipating \<Rightarrow> at\<lparr>at_NotParticipating := ac\<rparr>)"

definition AddAccount ::
    "consensusParams \<Rightarrow> accountData \<Rightarrow> accountTotals \<Rightarrow> overflowTracker \<Rightarrow> ('e, accountTotals \<times> overflowTracker) result" where
  "AddAccount proto data at ot =
     (let sum = statusField (ad_Status data) at in
      andThen (Money data proto (at_RewardsLevel at)) (\<lambda>(algos, _).
      let (money, ot) = ot_AddA (ac_Money sum) algos ot in
      andThen (RewardUnits (ad_MicroNovas data) (cp_RewardUnit proto)) (\<lambda>units.
      let (rewardUnits, ot) = ot_Add (ac_RewardUnits sum) units ot
      in Ok (setStatusField (ad_Status data) \<lparr>ac_Money = money, ac_RewardUnits = rewardUnits\<rparr> at, ot))))"

definition DelAccount ::
    "consensusParams \<Rightarrow> accountData \<Rightarrow> accountTotals \<Rightarrow> overflowTracker \<Rightarrow> ('e, accountTotals \<times> overflowTracker) result" where
  "DelAccount proto data at ot =
     (let sum = statusField (ad_Status data) at in
      andThen (Money data proto (at_RewardsLevel at)) (\<lambda>(algos, _).
      let (money, ot) = ot_SubA (ac_Money sum) algos ot in
      andThen (RewardUnits (ad_MicroNovas data) (cp_RewardUnit proto)) (\<lambda>units.
      let (rewardUnits, ot) = ot_Sub (ac_RewardUnits sum) units ot
      in Ok (setStatusField (ad_Status data) \<lparr>ac_Money = money, ac_RewardUnits = rewardUnits\<rparr> at, ot))))"

definition ApplyRewards :: "u64 \<Rightarrow> accountTotals \<Rightarrow> overflowTracker \<Rightarrow> accountTotals \<times> overflowTracker" where
  "ApplyRewards rewardsLevel at ot =
     (let (rewardsPerUnit, ot) = ot_Sub rewardsLevel (at_RewardsLevel at) ot;
          at = at\<lparr>at_RewardsLevel := rewardsLevel\<rparr>;
          (online, ot) = applyRewards rewardsPerUnit (at_Online at) ot;
          (offline, ot) = applyRewards rewardsPerUnit (at_Offline at) ot
      in (at\<lparr>at_Online := online, at_Offline := offline\<rparr>, ot))"

definition Participating :: "accountTotals \<Rightarrow> ('e, microNovas) result" where
  "Participating at =
     (let (res, overflowed) = OAddA (ac_Money (at_Online at)) (ac_Money (at_Offline at))
      in if overflowed then Panic (LogPanic ''AccountTotals.Participating(): overflow'') else Ok res)"

definition AccountTotals_All :: "accountTotals \<Rightarrow> ('e, microNovas) result" where
  "AccountTotals_All at =
     andThen (Participating at) (\<lambda>participating.
     let (res, overflowed) = OAddA (ac_Money (at_NotParticipating at)) participating
     in if overflowed then Panic (LogPanic ''AccountTotals.All(): overflow'') else Ok res)"

definition AccountTotals_RewardUnits :: "accountTotals \<Rightarrow> ('e, u64) result" where
  "AccountTotals_RewardUnits at =
     (let (res, overflowed) = OAdd (ac_RewardUnits (at_Online at)) (ac_RewardUnits (at_Offline at))
      in if overflowed then Panic (LogPanic ''AccountTotals.RewardUnits(): overflow'') else Ok res)"

section \<open>Account deltas are a map\<close>

text \<open>The cache holds the position of every record, and of nothing else.\<close>

definition deltasOK :: "accountDeltas \<Rightarrow> bool" where
  "deltasOK ad \<longleftrightarrow> distinct (ModifiedAccounts ad) \<and> keys_distinct (acd_acctsCache ad) \<and>
     (\<forall>a idx. mget (acd_acctsCache ad) a = Some idx \<longleftrightarrow> idx < length (acd_accts ad) \<and> br_Addr (acd_accts ad ! idx) = a)"

definition deltasGet :: "accountDeltas \<Rightarrow> address \<Rightarrow> accountData option" where
  "deltasGet ad a = map_option br_AccountData (find (\<lambda>br. br_Addr br = a) (acd_accts ad))"

definition deltasPut :: "address \<Rightarrow> accountData \<Rightarrow> accountDeltas \<Rightarrow> accountDeltas" where
  "deltasPut a d ad = (case Upsert ad a d of (Ok ad' :: (unit, accountDeltas) result) \<Rightarrow> ad' | _ \<Rightarrow> ad)"

lemma deltasOK_empty: "deltasOK emptyDeltas"
  by (simp add: deltasOK_def emptyDeltas_def ModifiedAccounts_def)

lemma deltasOK_bound: "deltasOK ad \<Longrightarrow> mget (acd_acctsCache ad) a = Some idx \<Longrightarrow> idx < length (acd_accts ad)"
  by (simp add: deltasOK_def)

lemma deltasOK_cache:
  "deltasOK ad \<Longrightarrow> idx < length (acd_accts ad) \<Longrightarrow> mget (acd_acctsCache ad) (br_Addr (acd_accts ad ! idx)) = Some idx"
  by (simp add: deltasOK_def)

lemma deltasOK_new:
  assumes "deltasOK ad" "mget (acd_acctsCache ad) a = None"
  shows "a \<notin> set (ModifiedAccounts ad)"
proof
  assume "a \<in> set (ModifiedAccounts ad)"
  then obtain idx where "idx < length (acd_accts ad)" "br_Addr (acd_accts ad ! idx) = a"
    by (auto simp: ModifiedAccounts_def in_set_conv_nth)
  then show False using deltasOK_cache [OF assms(1)] assms(2) by force
qed

lemma deltasGet_nth:
  assumes "deltasOK ad"
  shows "deltasGet ad a = map_option (\<lambda>idx. br_AccountData (acd_accts ad ! idx)) (mget (acd_acctsCache ad) a)"
proof (cases "mget (acd_acctsCache ad) a")
  case None
  then have "find (\<lambda>br. br_Addr br = a) (acd_accts ad) = None"
    using deltasOK_new [OF assms] by (auto simp: find_None_iff ModifiedAccounts_def)
  then show ?thesis using None by (simp add: deltasGet_def)
next
  case (Some idx)
  then have i: "idx < length (acd_accts ad)" "br_Addr (acd_accts ad ! idx) = a"
    using assms by (simp_all add: deltasOK_def)
  have "distinct (map br_Addr (acd_accts ad))" using assms by (simp add: deltasOK_def ModifiedAccounts_def)
  then have "\<forall>j < idx. br_Addr (acd_accts ad ! j) \<noteq> a"
    using i by (auto simp: distinct_conv_nth)
  then have "find (\<lambda>br. br_Addr br = a) (acd_accts ad) = Some (acd_accts ad ! idx)"
    using i by (auto simp: find_Some_iff)
  then show ?thesis using Some by (simp add: deltasGet_def)
qed

lemma AccountDeltas_Get_eq:
  assumes "deltasOK ad"
  shows "AccountDeltas_Get ad a = Ok (case deltasGet ad a of None \<Rightarrow> (zeroAccountData, False) | Some d \<Rightarrow> (d, True))"
  using assms by (auto simp: AccountDeltas_Get_def deltasGet_nth dest: deltasOK_bound split: option.splits)

lemma Upsert_Ok: "deltasOK ad \<Longrightarrow> Upsert ad a d = Ok (deltasPut a d ad)"
  by (auto simp: deltasPut_def Upsert_def upsert_def Let_def dest: deltasOK_bound split: option.splits)

lemma deltasOK_put:
  assumes "deltasOK ad"
  shows "deltasOK (deltasPut a d ad)"
proof (cases "mget (acd_acctsCache ad) a")
  case None
  then have new: "a \<notin> set (ModifiedAccounts ad)" by (rule deltasOK_new [OF assms])
  have "deltasPut a d ad = \<lparr>acd_accts = acd_accts ad @ [\<lparr>br_Addr = a, br_AccountData = d\<rparr>],
      acd_acctsCache = mput a (length (acd_accts ad)) (acd_acctsCache ad)\<rparr>"
    using None by (simp add: deltasPut_def Upsert_def upsert_def Let_def)
  then show ?thesis
    using assms new None by (auto simp: deltasOK_def ModifiedAccounts_def map_simps nth_append less_Suc_eq)
next
  case (Some idx)
  then have i: "idx < length (acd_accts ad)" "br_Addr (acd_accts ad ! idx) = a"
    using assms by (simp_all add: deltasOK_def)
  then have p: "deltasPut a d ad = ad\<lparr>acd_accts := (acd_accts ad)[idx := \<lparr>br_Addr = a, br_AccountData = d\<rparr>]\<rparr>"
    using Some by (simp add: deltasPut_def Upsert_def upsert_def)
  have "map br_Addr ((acd_accts ad)[idx := \<lparr>br_Addr = a, br_AccountData = d\<rparr>]) = map br_Addr (acd_accts ad)"
    using i by (simp add: map_update list_update_same_conv)
  moreover have "br_Addr ((acd_accts ad)[idx := \<lparr>br_Addr = a, br_AccountData = d\<rparr>] ! j) = br_Addr (acd_accts ad ! j)"
    if "j < length (acd_accts ad)" for j
    using i that by (cases "idx = j") simp_all
  ultimately show ?thesis
    using assms unfolding p by (auto simp: deltasOK_def ModifiedAccounts_def)
qed

lemma deltasGet_put:
  assumes "deltasOK ad"
  shows "deltasGet (deltasPut a d ad) a' = (if a' = a then Some d else deltasGet ad a')"
proof (cases "mget (acd_acctsCache ad) a")
  case None
  then have "deltasPut a d ad = \<lparr>acd_accts = acd_accts ad @ [\<lparr>br_Addr = a, br_AccountData = d\<rparr>],
      acd_acctsCache = mput a (length (acd_accts ad)) (acd_acctsCache ad)\<rparr>"
    by (simp add: deltasPut_def Upsert_def upsert_def Let_def)
  then show ?thesis
    using deltasGet_nth [OF deltasOK_put [OF assms], of a d a'] deltasGet_nth [OF assms, of a']
    by (cases "mget (acd_acctsCache ad) a'")
      (auto simp: map_simps nth_append dest: deltasOK_bound [OF assms])
next
  case (Some idx)
  then have i: "idx < length (acd_accts ad)" "br_Addr (acd_accts ad ! idx) = a"
    using assms by (simp_all add: deltasOK_def)
  then have p: "deltasPut a d ad = ad\<lparr>acd_accts := (acd_accts ad)[idx := \<lparr>br_Addr = a, br_AccountData = d\<rparr>]\<rparr>"
    using Some by (simp add: deltasPut_def Upsert_def upsert_def)
  have other: "j \<noteq> idx" if "mget (acd_acctsCache ad) a' = Some j" "a' \<noteq> a" for j
    using that i assms by (auto simp: deltasOK_def)
  show ?thesis
    using deltasGet_nth [OF deltasOK_put [OF assms], of a d a'] deltasGet_nth [OF assms, of a'] Some i other
    unfolding p by (cases "mget (acd_acctsCache ad) a'") (auto simp: nth_list_update)
qed

interpretation deltas: keyed_store deltasGet deltasPut deltasOK
  by unfold_locales (simp_all add: deltasGet_put deltasOK_put)

lemma ModifiedAccounts_iff: "deltasOK ad \<Longrightarrow> a \<in> set (ModifiedAccounts ad) \<longleftrightarrow> deltasGet ad a \<noteq> None"
  by (auto simp: deltasGet_def ModifiedAccounts_def find_None_iff)

text \<open>Merging the changes of a child into its parent overwrites what the child changed.\<close>

definition deltasPutAll :: "balanceRecord list \<Rightarrow> accountDeltas \<Rightarrow> accountDeltas" where
  "deltasPutAll brs ad = fold (\<lambda>br. deltasPut (br_Addr br) (br_AccountData br)) brs ad"

lemma deltasPutAll_simps [simp]:
  "deltasPutAll [] ad = ad"
  "deltasPutAll (br # brs) ad = deltasPutAll brs (deltasPut (br_Addr br) (br_AccountData br) ad)"
  by (simp_all add: deltasPutAll_def)

lemma upsert_Ok: "deltasOK ad \<Longrightarrow> upsert ad br = Ok (deltasPut (br_Addr br) (br_AccountData br) ad)"
  by (cases br) (simp add: Upsert_Ok flip: Upsert_def)

lemma upsertAll_Ok: "deltasOK ad \<Longrightarrow> upsertAll ad brs = Ok (deltasPutAll brs ad)"
  by (induction brs arbitrary: ad) (simp_all add: upsert_Ok deltasOK_put)

lemma deltasOK_putAll: "deltasOK ad \<Longrightarrow> deltasOK (deltasPutAll brs ad)"
  by (induction brs arbitrary: ad) (simp_all add: deltasOK_put)

lemma deltasGet_putAll:
  assumes "deltasOK ad" "distinct (map br_Addr brs)"
  shows "deltasGet (deltasPutAll brs ad) a =
    (case find (\<lambda>br. br_Addr br = a) brs of None \<Rightarrow> deltasGet ad a | Some br \<Rightarrow> Some (br_AccountData br))"
  using assms
proof (induction brs arbitrary: ad)
  case Nil
  then show ?case by simp
next
  case (Cons br brs)
  have fresh: "find (\<lambda>b. br_Addr b = br_Addr br) brs = None"
    using Cons.prems(2) by (auto simp: find_None_iff image_iff)
  show ?case
    using Cons.IH [OF deltasOK_put [OF Cons.prems(1)]] Cons.prems fresh
    by (auto simp: deltasGet_put split: option.splits)
qed

definition deltasMerge :: "accountDeltas \<Rightarrow> accountDeltas \<Rightarrow> accountDeltas" where
  "deltasMerge ad other = deltasPutAll (acd_accts other) ad"

lemma MergeAccounts_Ok: "deltasOK ad \<Longrightarrow> MergeAccounts ad other = Ok (deltasMerge ad other)"
  by (simp add: MergeAccounts_def deltasMerge_def upsertAll_Ok)

lemma deltasOK_merge: "deltasOK ad \<Longrightarrow> deltasOK (deltasMerge ad other)"
  by (simp add: deltasMerge_def deltasOK_putAll)

lemma deltasGet_merge:
  assumes "deltasOK ad" "deltasOK other"
  shows "deltasGet (deltasMerge ad other) a = (case deltasGet other a of None \<Rightarrow> deltasGet ad a | Some d \<Rightarrow> Some d)"
proof -
  have "distinct (map br_Addr (acd_accts other))" using assms(2) by (simp add: deltasOK_def ModifiedAccounts_def)
  from deltasGet_putAll [OF assms(1) this] show ?thesis
    by (simp add: deltasMerge_def deltasGet_def [of other] split: option.splits)
qed

section \<open>Totals are sums over the accounts\<close>

text \<open>What an account is worth at a reward level: its balance and the rewards it is owed.\<close>

definition worth :: "consensusParams \<Rightarrow> u64 \<Rightarrow> accountData \<Rightarrow> nat" where
  "worth proto level u = unat (ad_MicroNovas u) + (if ad_Status u = NotParticipating then 0 else rewardsDue u proto level)"

definition rewardUnitsOf :: "consensusParams \<Rightarrow> accountData \<Rightarrow> nat" where
  "rewardUnitsOf proto u = unat (ad_MicroNovas u) div unat (cp_RewardUnit proto)"

lemma WithUpdatedRewards_worth:
  "WithUpdatedRewards u proto level = Ok u' \<Longrightarrow> cp_RewardUnit proto \<noteq> 0 \<Longrightarrow> unat (ad_MicroNovas u') = worth proto level u"
  unfolding worth_def by (rule WithUpdatedRewards_Ok(1))

text \<open>Whether the rewards can be claimed without an overflow.\<close>

definition claimable :: "consensusParams \<Rightarrow> u64 \<Rightarrow> accountData \<Rightarrow> bool" where
  "claimable proto level u \<longleftrightarrow>
     ad_Status u = NotParticipating \<or> ad_RewardsBase u \<le> level \<and> worth proto level u < 2 ^ 64"

lemma worth_fits: "claimable proto level u \<Longrightarrow> worth proto level u < 2 ^ 64"
  using u64_bound [of "ad_MicroNovas u"] by (auto simp: claimable_def worth_def)

definition claimed :: "consensusParams \<Rightarrow> u64 \<Rightarrow> accountData \<Rightarrow> accountData" where
  "claimed proto level u = (if ad_Status u = NotParticipating then u
     else u\<lparr>ad_MicroNovas := of_nat (worth proto level u), ad_RewardsBase := level,
            ad_RewardedMicroNovas := ad_RewardedMicroNovas u + of_nat (rewardsDue u proto level)\<rparr>)"

lemma WithUpdatedRewards_eq:
  "cp_RewardUnit proto \<noteq> 0 \<Longrightarrow> WithUpdatedRewards u proto level =
    (if claimable proto level u then Ok (claimed proto level u) else Panic (LogPanic ''WithUpdatedRewards''))"
  by (cases "ad_Status u = NotParticipating")
    (simp_all add: WithUpdatedRewards_fixed WithUpdatedRewards_exact claimable_def claimed_def worth_def)

lemma claimed_Money: "claimable proto level u \<Longrightarrow> unat (ad_MicroNovas (claimed proto level u)) = worth proto level u"
  using worth_fits [of proto level u] by (auto simp: claimed_def unat_of_nat take_bit_nat_eq_self) (simp add: worth_def)

lemma Money_eq:
  "cp_RewardUnit proto \<noteq> 0 \<Longrightarrow> Money u proto level =
    (if claimable proto level u
     then Ok (ad_MicroNovas (claimed proto level u), ad_RewardedMicroNovas (claimed proto level u))
     else Panic (LogPanic ''WithUpdatedRewards''))"
  by (simp add: Money_def WithUpdatedRewards_eq)

text \<open>Moving the level up adds one unit's rewards per reward unit.\<close>

lemma worth_level:
  assumes "unat (ad_RewardsBase u) \<le> unat level" "unat level \<le> unat level'"
  shows "worth proto level' u = worth proto level u +
    (if ad_Status u = NotParticipating then 0 else rewardUnitsOf proto u * (unat level' - unat level))"
proof -
  have "unat level' - unat (ad_RewardsBase u) = (unat level - unat (ad_RewardsBase u)) + (unat level' - unat level)"
    using assms by simp
  then show ?thesis by (simp add: worth_def rewardsDue_def rewardUnitsOf_def algebra_simps)
qed

text \<open>The totals of a multiset of accounts.\<close>

definition withStatus :: "status \<Rightarrow> accountData multiset \<Rightarrow> accountData multiset" where
  "withStatus st M = filter_mset (\<lambda>u. ad_Status u = st) M"

definition totalsMatch :: "consensusParams \<Rightarrow> accountTotals \<Rightarrow> accountData multiset \<Rightarrow> bool" where
  "totalsMatch proto at M \<longleftrightarrow> (\<forall>st.
     unat (ac_Money (statusField st at)) = (\<Sum>u \<in># withStatus st M. worth proto (at_RewardsLevel at) u) \<and>
     unat (ac_RewardUnits (statusField st at)) = (\<Sum>u \<in># withStatus st M. rewardUnitsOf proto u))"

lemma withStatus_simps [simp]:
  "withStatus st {#} = {#}"
  "withStatus st (add_mset u M) = (if ad_Status u = st then add_mset u (withStatus st M) else withStatus st M)"
  by (simp_all add: withStatus_def)

lemma statusField_set [simp]:
  "statusField st (setStatusField st' ac at) = (if st = st' then ac else statusField st at)"
  "at_RewardsLevel (setStatusField st' ac at) = at_RewardsLevel at"
  by (cases st; cases st'; simp add: statusField_def setStatusField_def)+

lemma AddAccount_Ok:
  assumes "AddAccount proto u at ot = Ok (at', ot')" "\<not> Overflowed ot'" "cp_RewardUnit proto \<noteq> 0"
  obtains ac where "at' = setStatusField (ad_Status u) ac at" "\<not> Overflowed ot"
    "unat (ac_Money ac) = unat (ac_Money (statusField (ad_Status u) at)) + worth proto (at_RewardsLevel at) u"
    "unat (ac_RewardUnits ac) = unat (ac_RewardUnits (statusField (ad_Status u) at)) + rewardUnitsOf proto u"
  using assms
  by (auto simp: AddAccount_def Let_def Money_eq RewardUnits_def rewardUnitsOf_def ot_simps unat_add_u64
      unat_div claimed_Money not_le split: if_splits)

lemma DelAccount_Ok:
  assumes "DelAccount proto u at ot = Ok (at', ot')" "\<not> Overflowed ot'" "cp_RewardUnit proto \<noteq> 0"
  obtains ac where "at' = setStatusField (ad_Status u) ac at" "\<not> Overflowed ot"
    "unat (ac_Money (statusField (ad_Status u) at)) = unat (ac_Money ac) + worth proto (at_RewardsLevel at) u"
    "unat (ac_RewardUnits (statusField (ad_Status u) at)) = unat (ac_RewardUnits ac) + rewardUnitsOf proto u"
  using assms
  by (auto simp: DelAccount_def Let_def Money_eq RewardUnits_def rewardUnitsOf_def ot_simps unat_sub word_le_nat_alt
      unat_div claimed_Money not_less split: if_splits)

lemma totalsMatch_add:
  assumes "AddAccount proto u at ot = Ok (at', ot')" "\<not> Overflowed ot'" "cp_RewardUnit proto \<noteq> 0"
    "totalsMatch proto at M"
  shows "totalsMatch proto at' (add_mset u M)"
  by (rule AddAccount_Ok [OF assms(1-3)]) (use assms(4) in \<open>simp add: totalsMatch_def\<close>)

lemma totalsMatch_del:
  assumes "DelAccount proto u at ot = Ok (at', ot')" "\<not> Overflowed ot'" "cp_RewardUnit proto \<noteq> 0"
    "totalsMatch proto at (add_mset u M)"
  shows "totalsMatch proto at' M"
proof (rule DelAccount_Ok [OF assms(1-3)])
  fix ac
  assume ac: "at' = setStatusField (ad_Status u) ac at" "\<not> Overflowed ot"
    "unat (ac_Money (statusField (ad_Status u) at)) = unat (ac_Money ac) + worth proto (at_RewardsLevel at) u"
    "unat (ac_RewardUnits (statusField (ad_Status u) at)) = unat (ac_RewardUnits ac) + rewardUnitsOf proto u"
  have "unat (ac_Money (statusField st at')) = (\<Sum>u \<in># withStatus st M. worth proto (at_RewardsLevel at) u) \<and>
     unat (ac_RewardUnits (statusField st at')) = (\<Sum>u \<in># withStatus st M. rewardUnitsOf proto u)" for st
    using ac(3,4) spec [OF assms(4) [unfolded totalsMatch_def], of st] by (auto simp: ac(1))
  then show ?thesis by (simp add: totalsMatch_def ac(1))
qed

lemma sum_worth_level:
  assumes "\<forall>u \<in># M. unat (ad_RewardsBase u) \<le> unat level" "unat level \<le> unat level'" "st \<noteq> NotParticipating"
  shows "(\<Sum>u \<in># withStatus st M. worth proto level' u) =
    (\<Sum>u \<in># withStatus st M. worth proto level u) + (\<Sum>u \<in># withStatus st M. rewardUnitsOf proto u) * (unat level' - unat level)"
  using assms by (induction M) (simp_all add: worth_level [where level = level and level' = level'] add_mult_distrib)

lemma sum_worth_fixed:
  "(\<Sum>u \<in># withStatus NotParticipating M. worth proto level' u) = (\<Sum>u \<in># withStatus NotParticipating M. worth proto level u)"
  by (induction M) (auto simp: worth_def)

lemma applyRewards_exact:
  assumes "applyRewards n ac ot = (ac', ot')" "\<not> Overflowed ot'"
  shows "unat (ac_Money ac') = unat (ac_Money ac) + unat (ac_RewardUnits ac) * unat n"
    "ac_RewardUnits ac' = ac_RewardUnits ac" "\<not> Overflowed ot"
  using assms by (auto simp: applyRewards_def Let_def ot_simps unat_add_u64 unat_mul_no_overflow split: if_splits)

lemma totalsMatch_rewards:
  assumes "ApplyRewards level at ot = (at', ot')" "\<not> Overflowed ot'"
    "\<forall>u \<in># M. unat (ad_RewardsBase u) \<le> unat (at_RewardsLevel at)" "totalsMatch proto at M"
  shows "totalsMatch proto at' M"
proof -
  obtain on ot1 off where on: "applyRewards (level - at_RewardsLevel at) (at_Online at) (snd (ot_Sub level (at_RewardsLevel at) ot)) = (on, ot1)"
    and off: "applyRewards (level - at_RewardsLevel at) (at_Offline at) ot1 = (off, ot')"
    and at': "at' = at\<lparr>at_RewardsLevel := level, at_Online := on, at_Offline := off\<rparr>"
    using assms(1) by (auto simp: ApplyRewards_def Let_def ot_Sub_eq split: prod.splits)
  note exact = applyRewards_exact [OF off assms(2)]
  note exact = exact(1,2) applyRewards_exact [OF on exact(3)]
  have le: "unat (at_RewardsLevel at) \<le> unat level"
    using exact(5) by (auto simp: ot_Sub_eq not_less split: if_splits)
  then have d: "unat (level - at_RewardsLevel at) = unat level - unat (at_RewardsLevel at)"
    by (simp add: unat_sub word_le_nat_alt)
  have "unat (ac_Money (statusField st at')) = (\<Sum>u \<in># withStatus st M. worth proto level u) \<and>
     unat (ac_RewardUnits (statusField st at')) = (\<Sum>u \<in># withStatus st M. rewardUnitsOf proto u)" for st
  proof (cases "st = NotParticipating")
    case True
    have "unat (ac_Money (at_NotParticipating at)) = (\<Sum>u \<in># withStatus st M. worth proto (at_RewardsLevel at) u) \<and>
     unat (ac_RewardUnits (at_NotParticipating at)) = (\<Sum>u \<in># withStatus st M. rewardUnitsOf proto u)"
      using spec [OF assms(4) [unfolded totalsMatch_def], of st] True by (simp add: statusField_def)
    then show ?thesis
      using True sum_worth_fixed [of proto level M "at_RewardsLevel at"] by (simp add: at' statusField_def)
  next
    case False
    have "unat (ac_Money (statusField st at)) = (\<Sum>u \<in># withStatus st M. worth proto (at_RewardsLevel at) u) \<and>
     unat (ac_RewardUnits (statusField st at)) = (\<Sum>u \<in># withStatus st M. rewardUnitsOf proto u)"
      by (rule spec [OF assms(4) [unfolded totalsMatch_def]])
    then show ?thesis
      using False exact sum_worth_level [OF assms(3) le False, of proto] d
      by (cases st) (simp_all add: at' statusField_def)
  qed
  then show ?thesis by (simp add: totalsMatch_def at')
qed

end
