(* ===== verification/Compact_Cert.thy ===== *)
theory Compact_Cert
  imports Ledger_Deltas
begin

text \<open>
  The rules for compact certificates (\<open>src/ledger/internal/compactcert.go\<close>): which block a
  certificate must be for, and how much signed weight it needs. The check of the certificate's
  signatures and reveals (\<open>compactcert.Verifier.Verify\<close>) is the argument \<open>verify\<close>. The
  lemmas show that the weight asked for lies between the proven weight and the total weight
  and only falls as rounds pass.
\<close>

section \<open>Errors of the ledger\<close>

text \<open>
  The errors callers tell apart are constructors; every other \<open>fmt.Errorf\<close> is \<open>Errorf\<close>
  with the start of its message, and \<open>Within\<close> is one that wraps another.
\<close>

datatype ledgerError =
    TransactionInLedgerError txid
  | LeaseInLedgerError txid txlease
  | ErrNoSpace
  | ErrRoundZero
  | ErrNonSequentialBlockEval round round
  | ProtocolError consensusVersion
  | LogicEvalError ledgerError
  | ClearStateBudgetError
  | TxnErr txn_error
  | CodingErr coding_error
  | BlockErr block_error
  | Errorf string
  | Within string ledgerError

definition CompactCertBasic :: u64 where
  "CompactCertBasic = 0"

definition zeroCompactCertState :: compactCertState where
  "zeroCompactCertState = \<lparr>ccs_CompactCertVoters = [], ccs_CompactCertVotersTotal = 0, ccs_CompactCertNextRound = 0\<rparr>"

definition basicCert :: "blockHeader \<Rightarrow> compactCertState" where
  "basicCert hdr = mgetd zeroCompactCertState (bh_CompactCert hdr) CompactCertBasic"

definition hdrProto :: "consensusTable \<Rightarrow> blockHeader \<Rightarrow> consensusParams" where
  "hdrProto tbl hdr = consensusAt tbl (us_CurrentProtocol (bh_UpgradeState hdr))"

section \<open>The weight a certificate needs\<close>

definition AcceptableCompactCertWeight :: "consensusTable \<Rightarrow> blockHeader \<Rightarrow> round \<Rightarrow> ('e, u64) result" where
  "AcceptableCompactCertWeight tbl votersHdr firstValid =
     (let proto = hdrProto tbl votersHdr;
          certRound = bh_Round votersHdr + cp_CompactCertRounds proto;
          total = ccs_CompactCertVotersTotal (basicCert votersHdr);
          offset = round_SubSaturate firstValid certRound
      in if offset = 0 then Ok total
         else
           let offset = round_SubSaturate offset (cp_CompactCertRounds proto div 2 + 2)
           in if offset = 0 then Ok total
              else andThen (Muldiv total (ucast (cp_CompactCertWeightThreshold proto)) (2 ^ 32)) (\<lambda>(provenWeight, overflowed).
                if overflowed \<or> provenWeight > total then Ok 0
                else if offset \<ge> cp_CompactCertRounds proto div 2 then Ok provenWeight
                else andThen (Muldiv (total - provenWeight) (cp_CompactCertRounds proto div 2 - offset)
                       (cp_CompactCertRounds proto div 2)) (\<lambda>(scaledWeight, overflowed).
                  if overflowed then Ok 0
                  else let (w, overflowed) = OAdd provenWeight scaledWeight
                       in if overflowed then Ok 0 else Ok w)))"

record ccParams =
  cc_Msg :: blockHeader
  cc_ProvenWeight :: u64
  cc_SigRound :: round
  cc_SecKQ :: u64
  cc_EnableBatchVerification :: bool

definition CompactCertParams :: "consensusTable \<Rightarrow> blockHeader \<Rightarrow> blockHeader \<Rightarrow> (ledgerError, ccParams) result" where
  "CompactCertParams tbl votersHdr hdr =
     (let proto = hdrProto tbl votersHdr in
      if cp_CompactCertRounds proto = 0 then Err (Errorf ''compact certs not enabled'')
      else if bh_Round votersHdr mod cp_CompactCertRounds proto \<noteq> 0 then Err (Errorf ''votersHdr not a multiple'')
      else if bh_Round hdr \<noteq> bh_Round votersHdr + cp_CompactCertRounds proto
      then Err (Errorf ''certifying block not ahead of voters'')
      else
        andThen (Muldiv (ccs_CompactCertVotersTotal (basicCert votersHdr)) (ucast (cp_CompactCertWeightThreshold proto)) (2 ^ 32))
          (\<lambda>(provenWeight, overflowed).
          if overflowed then Err (Errorf ''overflow computing provenWeight'')
          else Ok \<lparr>cc_Msg = hdr, cc_ProvenWeight = provenWeight, cc_SigRound = bh_Round hdr,
                   cc_SecKQ = cp_CompactCertSecKQ proto,
                   cc_EnableBatchVerification = cp_EnableBatchVerification proto\<rparr>))"

type_synonym verifyCert = "ccParams \<Rightarrow> u8 list \<Rightarrow> compactCertTxnFields \<Rightarrow> (ledgerError, unit) result"

definition validateCompactCert ::
    "consensusTable \<Rightarrow> verifyCert \<Rightarrow> blockHeader \<Rightarrow> compactCertTxnFields \<Rightarrow> blockHeader \<Rightarrow> round \<Rightarrow> round \<Rightarrow> (ledgerError, unit) result" where
  "validateCompactCert tbl verify certHdr cert votersHdr nextCertRnd atRound =
     (let proto = hdrProto tbl certHdr in
      if cp_CompactCertRounds proto = 0 then Err (Errorf ''compact certs not enabled'')
      else if bh_Round certHdr mod cp_CompactCertRounds proto \<noteq> 0 then Err (Errorf ''cert for non-multiple'')
      else
        let votersRound = round_SubSaturate (bh_Round certHdr) (cp_CompactCertRounds proto) in
        if votersRound \<noteq> bh_Round votersHdr then Err (Errorf ''new cert has other voters'')
        else if nextCertRnd = 0 \<or> nextCertRnd \<noteq> bh_Round certHdr then Err (Errorf ''expecting other cert'')
        else
          andThen (AcceptableCompactCertWeight tbl votersHdr atRound) (\<lambda>acceptableWeight.
          if cct_SignedWeight cert < acceptableWeight then Err (Errorf ''insufficient weight'')
          else andThen (CompactCertParams tbl votersHdr certHdr) (\<lambda>p.
                 verify p (ccs_CompactCertVoters (basicCert votersHdr)) cert)))"

section \<open>The weight falls from the total to the proven weight\<close>

text \<open>The same weight, over the natural numbers.\<close>

definition provenWeightOf :: "consensusTable \<Rightarrow> blockHeader \<Rightarrow> nat" where
  "provenWeightOf tbl hdr =
     unat (ccs_CompactCertVotersTotal (basicCert hdr)) * unat (cp_CompactCertWeightThreshold (hdrProto tbl hdr)) div 2 ^ 32"

definition acceptableWeight :: "nat \<Rightarrow> nat \<Rightarrow> nat \<Rightarrow> nat \<Rightarrow> nat" where
  "acceptableWeight tot proven half late =
     (if late = 0 then tot
      else if half \<le> late then proven
      else proven + (tot - proven) * (half - late) div half)"

lemma acceptableWeight_antimono:
  assumes "proven \<le> tot" "late \<le> late'"
  shows "acceptableWeight tot proven half late' \<le> acceptableWeight tot proven half late"
proof (cases "late = 0 \<or> half \<le> late'")
  case True
  have "(tot - proven) * (half - late') div half \<le> tot - proven"
    using div_le_mono [of "(tot - proven) * (half - late')" "(tot - proven) * half" half] by (cases "half = 0") simp_all
  then show ?thesis using True assms by (auto simp: acceptableWeight_def)
next
  case False
  then have "(tot - proven) * (half - late') div half \<le> (tot - proven) * (half - late) div half"
    using assms(2) by (intro div_le_mono mult_le_mono2) simp
  then show ?thesis using False assms by (auto simp: acceptableWeight_def)
qed

lemma acceptableWeight_bounds:
  assumes "proven \<le> tot"
  shows "proven \<le> acceptableWeight tot proven half late" "acceptableWeight tot proven half late \<le> tot"
  using acceptableWeight_antimono [OF assms, of 0 late half] acceptableWeight_antimono [OF assms, of late "max half (Suc late)" half] assms
  by (auto simp: acceptableWeight_def split: if_splits)

lemma provenWeightOf_le: "provenWeightOf tbl hdr \<le> unat (ccs_CompactCertVotersTotal (basicCert hdr))"
proof -
  have "unat (cp_CompactCertWeightThreshold (hdrProto tbl hdr)) \<le> 2 ^ 32"
    using u32_bound [of "cp_CompactCertWeightThreshold (hdrProto tbl hdr)"] by simp
  then have "unat (ccs_CompactCertVotersTotal (basicCert hdr)) * unat (cp_CompactCertWeightThreshold (hdrProto tbl hdr)) div 2 ^ 32
      \<le> unat (ccs_CompactCertVotersTotal (basicCert hdr)) * 2 ^ 32 div 2 ^ 32"
    by (intro div_le_mono mult_le_mono2)
  then show ?thesis by (simp add: provenWeightOf_def)
qed

text \<open>Rounds past the time after which less than the whole weight is enough.\<close>

definition lateBy :: "consensusTable \<Rightarrow> blockHeader \<Rightarrow> round \<Rightarrow> nat" where
  "lateBy tbl hdr firstValid = unat firstValid - unat (bh_Round hdr + cp_CompactCertRounds (hdrProto tbl hdr))
     - (unat (cp_CompactCertRounds (hdrProto tbl hdr)) div 2 + 2)"

lemma half_plus_two: "unat ((n :: u64) div 2 + 2) = unat n div 2 + 2"
proof -
  have "unat n div 2 < 2 ^ 63" using u64_bound [of n] by simp
  then show ?thesis by (simp add: unat_add_u64 unat_div)
qed

lemma Muldiv_fits:
  "c \<noteq> 0 \<Longrightarrow> unat a * unat b div unat c < 2 ^ 64 \<Longrightarrow> Muldiv a b c = Ok (of_nat (unat a * unat b div unat c), False)"
  by (simp add: Muldiv_def Let_def)

lemma AcceptableCompactCertWeight_eq:
  "(AcceptableCompactCertWeight tbl hdr firstValid :: ('e, u64) result) =
     Ok (of_nat (acceptableWeight (unat (ccs_CompactCertVotersTotal (basicCert hdr))) (provenWeightOf tbl hdr)
       (unat (cp_CompactCertRounds (hdrProto tbl hdr)) div 2) (lateBy tbl hdr firstValid)))"
proof -
  let ?proto = "hdrProto tbl hdr"
  let ?total = "ccs_CompactCertVotersTotal (basicCert hdr)"
  let ?half = "cp_CompactCertRounds ?proto div 2"
  let ?off = "round_SubSaturate (round_SubSaturate firstValid (bh_Round hdr + cp_CompactCertRounds ?proto)) (?half + 2)"
  let ?pw = "provenWeightOf tbl hdr"
  have le: "?pw \<le> unat ?total" by (rule provenWeightOf_le)
  then have pw: "?pw < 2 ^ 64" using u64_bound [of ?total] by simp
  have late: "lateBy tbl hdr firstValid = unat ?off"
    by (simp add: lateBy_def round_SubSaturate_exact half_plus_two)
  have first: "round_SubSaturate firstValid (bh_Round hdr + cp_CompactCertRounds ?proto) = 0 \<Longrightarrow> ?off = 0"
    by (simp add: unat_eq_0 [symmetric] round_SubSaturate_exact)
  have u32: "unat (ucast (cp_CompactCertWeightThreshold ?proto) :: u64) = unat (cp_CompactCertWeightThreshold ?proto)"
    by (rule unat_ucast_u32_u64)
  have m: "(Muldiv ?total (ucast (cp_CompactCertWeightThreshold ?proto)) (2 ^ 32) :: ('e, u64 \<times> bool) result) = Ok (of_nat ?pw, False)" 
    using pw by (subst Muldiv_fits) (simp_all add: u32 provenWeightOf_def)
  have upw: "unat (of_nat ?pw :: u64) = ?pw" using pw by (simp add: unat_of_nat)
  show ?thesis
  proof (cases "?off = 0")
    case True
    then show ?thesis using first late by (auto simp: AcceptableCompactCertWeight_def Let_def acceptableWeight_def)
  next
    case off: False
    show ?thesis
    proof (cases "?half \<le> ?off")
      case True
      then show ?thesis
        using off first m upw le late
        by (auto simp: AcceptableCompactCertWeight_def Let_def acceptableWeight_def word_le_nat_alt unat_div not_less word_less_nat_alt unat_eq_0)
    next
      case False
      let ?sw = "(unat ?total - ?pw) * (unat ?half - unat ?off) div unat ?half"
      have h: "?half \<noteq> 0" using False by (auto simp: not_le)
      have "?sw \<le> (unat ?total - ?pw) * unat ?half div unat ?half"
        by (intro div_le_mono mult_le_mono2) simp
      then have sw: "?sw \<le> unat ?total - ?pw" using h by (simp add: unat_eq_0)
      have d: "unat (?total - of_nat ?pw) = unat ?total - ?pw" "unat (?half - ?off) = unat ?half - unat ?off"
        using le False by (simp_all add: unat_sub word_le_nat_alt upw not_le)
      have m2: "(Muldiv (?total - of_nat ?pw) (?half - ?off) ?half :: ('e, u64 \<times> bool) result) = Ok (of_nat ?sw, False)"
        using sw u64_bound [of ?total] by (subst Muldiv_fits [OF h]) (simp_all add: d)
      have fits: "?pw + ?sw < 2 ^ 64" using le sw u64_bound [of ?total] by simp
      then have add: "OAdd (of_nat ?pw) (of_nat ?sw) = (of_nat (?pw + ?sw), False)"
        by (simp add: OAdd_eq unat_of_nat)
      show ?thesis
        using off first m m2 add upw le late False
        by (auto simp: AcceptableCompactCertWeight_def Let_def acceptableWeight_def word_le_nat_alt unat_div not_less word_less_nat_alt unat_eq_0)
    qed
  qed
qed

end
