(* ===== verification/Ledger_Cow.thy ===== *)
theory Ledger_Cow
  imports Compact_Cert
begin

text \<open>
  The copy-on-write state a block is evaluated on (\<open>src/ledger/internal/cow.go\<close>,
  \<open>assetcow.go\<close> and the balance operations of \<open>eval.go\<close>).

  A \<open>roundCowState\<close> is a stack of layers above a \<open>roundCowBase\<close>, which asks the ledger and
  remembers the answers. In the code a layer points to its parent; here the state holds the
  current layer, its ancestors (the nearest first) and the base. An operation is a function
  from a state to a result and a new state. A failed operation returns no state: the code
  drops the layer of a failed transaction group, and what the base remembered meanwhile
  does not show, as \<open>lookup_view\<close> says. The ledger below the base is an argument, a record
  of the functions of the interface \<open>LedgerForCowBase\<close>.

  The lemmas show that the stack is one map from addresses to accounts: what \<open>lookup\<close>
  returns after \<open>Put\<close>, that \<open>child\<close> changes nothing and that \<open>commitToParent\<close> leaves the
  accounts as the child saw them.
\<close>

type_synonym ('s, 'a) act = "(ledgerError, 's, 'a) effect"

section \<open>The base: the ledger and what it answered\<close>

record ledgerForCowBase =
  lf_BlockHdr :: "round \<Rightarrow> (ledgerError, blockHeader) result"
  lf_CheckDup :: "consensusParams \<Rightarrow> round \<Rightarrow> round \<Rightarrow> round \<Rightarrow> txid \<Rightarrow> txlease \<Rightarrow> (ledgerError, unit) result"
  lf_LookupWithoutRewards :: "round \<Rightarrow> address \<Rightarrow> (ledgerError, accountData) result"
  lf_GetCreatorForRound :: "round \<Rightarrow> u64 \<Rightarrow> creatableType \<Rightarrow> (ledgerError, address \<times> bool) result"

record roundCowBase =
  cb_l :: ledgerForCowBase
  cb_rnd :: round
  cb_txnCount :: u64
  cb_compactCertNextRnd :: round
  cb_proto :: consensusParams
  cb_accounts :: "(address, accountData) gomap"
  cb_creators :: "(u64 \<times> creatableType, address \<times> bool) gomap"

definition makeRoundCowBase :: "ledgerForCowBase \<Rightarrow> round \<Rightarrow> u64 \<Rightarrow> round \<Rightarrow> consensusParams \<Rightarrow> roundCowBase" where
  "makeRoundCowBase l rnd txnCount compactCertNextRnd proto =
     \<lparr>cb_l = l, cb_rnd = rnd, cb_txnCount = txnCount, cb_compactCertNextRnd = compactCertNextRnd,
      cb_proto = proto, cb_accounts = [], cb_creators = []\<rparr>"

definition base_getCreator :: "u64 \<Rightarrow> creatableType \<Rightarrow> (roundCowBase, address \<times> bool) act" where
  "base_getCreator cidx ctype = (\<lambda>x.
     case mget (cb_creators x) (cidx, ctype) of
       Some found \<Rightarrow> Ok (found, x)
     | None \<Rightarrow>
         (case lf_GetCreatorForRound (cb_l x) (cb_rnd x) cidx ctype of
            Ok found \<Rightarrow> Ok (found, x\<lparr>cb_creators := mput (cidx, ctype) found (cb_creators x)\<rparr>)
          | Err e \<Rightarrow> Err (Within ''roundCowBase.getCreator()'' e)
          | Panic p \<Rightarrow> Panic p))"

definition base_lookup :: "address \<Rightarrow> (roundCowBase, accountData) act" where
  "base_lookup addr = (\<lambda>x.
     case mget (cb_accounts x) addr of
       Some accountData \<Rightarrow> Ok (accountData, x)
     | None \<Rightarrow>
         andThen (lf_LookupWithoutRewards (cb_l x) (cb_rnd x) addr) (\<lambda>accountData.
           Ok (accountData, x\<lparr>cb_accounts := mput addr accountData (cb_accounts x)\<rparr>)))"

definition base_checkDup :: "round \<Rightarrow> round \<Rightarrow> txid \<Rightarrow> txlease \<Rightarrow> roundCowBase \<Rightarrow> (ledgerError, unit) result" where
  "base_checkDup firstValid lastValid txid txl x =
     lf_CheckDup (cb_l x) (cb_proto x) (cb_rnd x + 1) firstValid lastValid txid txl"

section \<open>Layers\<close>

text \<open>Changes of an application's key-value store (the types of \<open>appcow.go\<close>).\<close>

datatype storageAction = RemainAllocAction | AllocAction | DeallocAction

record cowValueDelta =
  cv_old :: tealValue
  cv_new :: tealValue
  cv_oldExists :: bool
  cv_newExists :: bool

type_synonym storagePtr = "appIndex \<times> bool"

record storageDelta =
  sto_action :: storageAction
  sto_kvCow :: "(string, cowValueDelta) gomap"
  sto_counts :: stateSchema
  sto_maxCounts :: stateSchema
  sto_accountIdx :: u64

record roundCowLayer =
  rc_commits :: bool
  rc_proto :: consensusParams
  rc_mods :: ledgerDelta
  rc_txnCount :: u64
  rc_sdeltas :: "(address, (storagePtr, storageDelta) gomap) gomap"
  rc_compatibilityMode :: bool
  rc_compatibilityGetKeyCache :: "(address, (storagePtr, u64) gomap) gomap"
  rc_prevTotals :: accountTotals

record roundCowState =
  cow_top :: roundCowLayer
  cow_parents :: "roundCowLayer list"
  cow_base :: roundCowBase

definition layers :: "roundCowState \<Rightarrow> roundCowLayer list" where
  "layers s = cow_top s # cow_parents s"

definition compatMode :: "blockHeader \<Rightarrow> bool" where
  "compatMode hdr =
     (us_CurrentProtocol (bh_UpgradeState hdr) = ConsensusV24 \<and>
      (us_NextProtocol (bh_UpgradeState hdr) \<noteq> ConsensusV26 \<or>
       (uv_UpgradePropose (bh_UpgradeVote hdr) = '''' \<and> \<not> uv_UpgradeApprove (bh_UpgradeVote hdr) \<and>
        bh_Round hdr < us_NextProtocolVoteBefore (bh_UpgradeState hdr))))"

definition makeRoundCowLayer :: "blockHeader \<Rightarrow> consensusParams \<Rightarrow> 64 word \<Rightarrow> accountTotals \<Rightarrow> roundCowLayer" where
  "makeRoundCowLayer hdr proto prevTimestamp prevTotals =
     \<lparr>rc_commits = False, rc_proto = proto, rc_mods = MakeStateDelta hdr prevTimestamp 0, rc_txnCount = 0,
      rc_sdeltas = [], rc_compatibilityMode = compatMode hdr, rc_compatibilityGetKeyCache = [],
      rc_prevTotals = prevTotals\<rparr>"

definition makeRoundCowState ::
    "roundCowBase \<Rightarrow> blockHeader \<Rightarrow> consensusParams \<Rightarrow> 64 word \<Rightarrow> accountTotals \<Rightarrow> roundCowState" where
  "makeRoundCowState b hdr proto prevTimestamp prevTotals =
     \<lparr>cow_top = makeRoundCowLayer hdr proto prevTimestamp prevTotals, cow_parents = [], cow_base = b\<rparr>"

definition rewardsLevel :: "roundCowState \<Rightarrow> u64" where
  "rewardsLevel s = rs_RewardsLevel (bh_RewardsState (sd_Hdr (rc_mods (cow_top s))))"

definition cow_round :: "roundCowState \<Rightarrow> round" where
  "cow_round s = bh_Round (sd_Hdr (rc_mods (cow_top s)))"

definition prevTimestamp :: "roundCowState \<Rightarrow> 64 word" where
  "prevTimestamp s = sd_PrevTimestamp (rc_mods (cow_top s))"

definition cow_proto :: "roundCowState \<Rightarrow> consensusParams" where
  "cow_proto s = rc_proto (cow_top s)"

definition updMods :: "(ledgerDelta \<Rightarrow> ledgerDelta) \<Rightarrow> roundCowState \<Rightarrow> roundCowState" where
  "updMods f s = s\<lparr>cow_top := (cow_top s)\<lparr>rc_mods := f (rc_mods (cow_top s))\<rparr>\<rparr>"

section \<open>Lookups\<close>

text \<open>An operation of the interface \<open>roundCowParent\<close> goes up the layers until one answers.\<close>

fun getCreatorIn :: "roundCowLayer list \<Rightarrow> u64 \<Rightarrow> creatableType \<Rightarrow> (roundCowBase, address \<times> bool) act" where
  "getCreatorIn [] cidx ctype = base_getCreator cidx ctype"
| "getCreatorIn (cb # cbs) cidx ctype =
     (case mget (sd_Creatables (rc_mods cb)) cidx of
        Some delta \<Rightarrow>
          if mc_Created delta \<and> mc_Ctype delta = ctype then ret (mc_Creator delta, True) else ret (0, False)
      | None \<Rightarrow> getCreatorIn cbs cidx ctype)"

fun lookupIn :: "roundCowLayer list \<Rightarrow> address \<Rightarrow> (roundCowBase, accountData) act" where
  "lookupIn [] addr = base_lookup addr"
| "lookupIn (cb # cbs) addr =
     andDo (lift (AccountDeltas_Get (sd_Accts (rc_mods cb)) addr)) (\<lambda>(d, ok).
     if ok then ret d else lookupIn cbs addr)"

fun checkDupIn :: "roundCowLayer list \<Rightarrow> round \<Rightarrow> round \<Rightarrow> txid \<Rightarrow> txlease \<Rightarrow> roundCowBase \<Rightarrow> (ledgerError, unit) result" where
  "checkDupIn [] firstValid lastValid txid txl x = base_checkDup firstValid lastValid txid txl x"
| "checkDupIn (cb # cbs) firstValid lastValid txid txl x =
     (if mget (sd_Txids (rc_mods cb)) txid \<noteq> None then Err (TransactionInLedgerError txid)
      else if cp_SupportTransactionLeases (rc_proto cb) \<and> txl_Lease txl \<noteq> 0 \<and>
        (case mget (sd_Txleases (rc_mods cb)) txl of
           Some expires \<Rightarrow> bh_Round (sd_Hdr (rc_mods cb)) \<le> expires | None \<Rightarrow> False)
      then Err (LeaseInLedgerError txid txl)
      else checkDupIn cbs firstValid lastValid txid txl x)"

fun txnCounterIn :: "roundCowLayer list \<Rightarrow> roundCowBase \<Rightarrow> u64" where
  "txnCounterIn [] x = cb_txnCount x"
| "txnCounterIn (cb # cbs) x = txnCounterIn cbs x + rc_txnCount cb"

fun compactCertNextIn :: "roundCowLayer list \<Rightarrow> roundCowBase \<Rightarrow> round" where
  "compactCertNextIn [] x = cb_compactCertNextRnd x"
| "compactCertNextIn (cb # cbs) x =
     (if sd_CompactCertNext (rc_mods cb) \<noteq> 0 then sd_CompactCertNext (rc_mods cb) else compactCertNextIn cbs x)"

text \<open>An operation of the base, run from a state.\<close>

definition onBase :: "(roundCowBase, 'a) act \<Rightarrow> (roundCowState, 'a) act" where
  "onBase m = (\<lambda>s. andThen (m (cow_base s)) (\<lambda>(x, b). Ok (x, s\<lparr>cow_base := b\<rparr>)))"

definition getCreator :: "u64 \<Rightarrow> creatableType \<Rightarrow> (roundCowState, address \<times> bool) act" where
  "getCreator cidx ctype = (\<lambda>s. onBase (getCreatorIn (layers s) cidx ctype) s)"

definition lookup :: "address \<Rightarrow> (roundCowState, accountData) act" where
  "lookup addr = (\<lambda>s. onBase (lookupIn (layers s) addr) s)"

definition checkDup :: "round \<Rightarrow> round \<Rightarrow> txid \<Rightarrow> txlease \<Rightarrow> roundCowState \<Rightarrow> (ledgerError, unit) result" where
  "checkDup firstValid lastValid txid txl s = checkDupIn (layers s) firstValid lastValid txid txl (cow_base s)"

definition txnCounter :: "roundCowState \<Rightarrow> u64" where
  "txnCounter s = txnCounterIn (layers s) (cow_base s)"

definition compactCertNext :: "roundCowState \<Rightarrow> round" where
  "compactCertNext s = compactCertNextIn (layers s) (cow_base s)"

definition blockHdr :: "round \<Rightarrow> roundCowState \<Rightarrow> (ledgerError, blockHeader) result" where
  "blockHdr r s = lf_BlockHdr (cb_l (cow_base s)) r"

section \<open>Changes\<close>

definition incTxnCount :: "roundCowState \<Rightarrow> roundCowState" where
  "incTxnCount s = s\<lparr>cow_top := (cow_top s)\<lparr>rc_txnCount := rc_txnCount (cow_top s) + 1\<rparr>\<rparr>"

definition addTx :: "transaction \<Rightarrow> txid \<Rightarrow> roundCowState \<Rightarrow> roundCowState" where
  "addTx txn txid s =
     (let hdr = tx_Header txn;
          s = updMods (\<lambda>m. m\<lparr>sd_Txids := mput txid (h_LastValid hdr) (sd_Txids m)\<rparr>) s;
          s = incTxnCount s
      in if h_Lease hdr \<noteq> 0 then
           updMods (\<lambda>m. m\<lparr>sd_Txleases := mput \<lparr>txl_Sender = h_Sender hdr, txl_Lease = h_Lease hdr\<rparr> (h_LastValid hdr) (sd_Txleases m)\<rparr>) s
         else s)"

definition setCompactCertNext :: "round \<Rightarrow> roundCowState \<Rightarrow> roundCowState" where
  "setCompactCertNext rnd = updMods (\<lambda>m. m\<lparr>sd_CompactCertNext := rnd\<rparr>)"

definition childLayer :: "roundCowLayer \<Rightarrow> roundCowLayer" where
  "childLayer cb =
     \<lparr>rc_commits = True, rc_proto = rc_proto cb,
      rc_mods = MakeStateDelta (sd_Hdr (rc_mods cb)) (sd_PrevTimestamp (rc_mods cb)) (sd_CompactCertNext (rc_mods cb)),
      rc_txnCount = 0, rc_sdeltas = [], rc_compatibilityMode = rc_compatibilityMode cb,
      rc_compatibilityGetKeyCache = [], rc_prevTotals = zeroTotals\<rparr>"

definition child :: "roundCowState \<Rightarrow> roundCowState" where
  "child s = s\<lparr>cow_top := childLayer (cow_top s), cow_parents := cow_top s # cow_parents s\<rparr>"

definition mputAll :: "('k, 'v) gomap \<Rightarrow> ('k, 'v) gomap \<Rightarrow> ('k, 'v) gomap" where
  "mputAll kvs m = fold (\<lambda>(k, v). mput k v) kvs m"

fun mergeKvCow :: "(string, cowValueDelta) gomap \<Rightarrow> (string, cowValueDelta) gomap \<Rightarrow> (string, cowValueDelta) gomap" where
  "mergeKvCow [] kv = kv"
| "mergeKvCow ((key, vd) # kvs) kv =
     (case mget kv key of
        None \<Rightarrow> mergeKvCow kvs (mput key vd kv)
      | Some delta \<Rightarrow> mergeKvCow kvs (mput key (delta\<lparr>cv_new := cv_new vd, cv_newExists := cv_newExists vd\<rparr>) kv))"

definition applyChild :: "storageDelta \<Rightarrow> storageDelta \<Rightarrow> ('e, storageDelta) result" where
  "applyChild lsd ch =
     (let lsd = (if sto_action ch \<noteq> RemainAllocAction then
            lsd\<lparr>sto_action := sto_action ch, sto_kvCow := sto_kvCow ch, sto_counts := sto_counts ch,
                sto_maxCounts := sto_maxCounts ch\<rparr>
          else lsd\<lparr>sto_kvCow := mergeKvCow (sto_kvCow ch) (sto_kvCow lsd), sto_counts := sto_counts ch\<rparr>)
      in if sto_action lsd = DeallocAction \<and> sto_kvCow lsd \<noteq> [] then
           Panic (LogPanic ''dealloc state delta, but nonzero kv change'')
         else Ok lsd)"

fun mergeStorage ::
    "(storagePtr, storageDelta) gomap \<Rightarrow> (storagePtr, storageDelta) gomap \<Rightarrow> ('e, (storagePtr, storageDelta) gomap) result" where
  "mergeStorage [] m = Ok m"
| "mergeStorage ((aapp, nsd) # ds) m =
     (case mget m aapp of
        Some lsd \<Rightarrow> andThen (applyChild lsd nsd) (\<lambda>lsd. mergeStorage ds (mput aapp lsd m))
      | None \<Rightarrow> mergeStorage ds (mput aapp nsd m))"

fun mergeSdeltas ::
    "(address, (storagePtr, storageDelta) gomap) gomap \<Rightarrow> (address, (storagePtr, storageDelta) gomap) gomap
     \<Rightarrow> ('e, (address, (storagePtr, storageDelta) gomap) gomap) result" where
  "mergeSdeltas [] m = Ok m"
| "mergeSdeltas ((addr, smods) # ds) m =
     (if smods = [] then mergeSdeltas ds m
      else andThen (mergeStorage smods (mgetd [] m addr)) (\<lambda>sm. mergeSdeltas ds (mput addr sm m)))"

definition commitToParent :: "(roundCowState, unit) act" where
  "commitToParent = (\<lambda>s.
     let cb = cow_top s in
     case cow_parents s of
       [] \<Rightarrow> Panic NilDereference
     | p # ps \<Rightarrow>
         if \<not> rc_commits cb then Panic NilDereference
         else
           andThen (MergeAccounts (sd_Accts (rc_mods p)) (sd_Accts (rc_mods cb))) (\<lambda>accts.
           andThen (mergeSdeltas (rc_sdeltas cb) (rc_sdeltas p)) (\<lambda>sdeltas.
           Ok ((), s\<lparr>cow_top := p\<lparr>
               rc_mods := (rc_mods p)\<lparr>sd_Accts := accts,
                 sd_Txids := mputAll (sd_Txids (rc_mods cb)) (sd_Txids (rc_mods p)),
                 sd_Txleases := mputAll (sd_Txleases (rc_mods cb)) (sd_Txleases (rc_mods p)),
                 sd_Creatables := mputAll (sd_Creatables (rc_mods cb)) (sd_Creatables (rc_mods p)),
                 sd_CompactCertNext := sd_CompactCertNext (rc_mods cb),
                 sd_ModifiedAssetHoldings := mputAll (sd_ModifiedAssetHoldings (rc_mods cb)) (sd_ModifiedAssetHoldings (rc_mods p)),
                 sd_ModifiedAppLocalStates := mputAll (sd_ModifiedAppLocalStates (rc_mods cb)) (sd_ModifiedAppLocalStates (rc_mods p))\<rparr>,
               rc_txnCount := rc_txnCount p + rc_txnCount cb,
               rc_sdeltas := sdeltas\<rparr>, cow_parents := ps\<rparr>))))"

definition modifiedAccounts :: "roundCowState \<Rightarrow> address list" where
  "modifiedAccounts s = ModifiedAccounts (sd_Accts (rc_mods (cow_top s)))"

fun totalsLoop ::
    "roundCowLayer list \<Rightarrow> consensusParams \<Rightarrow> balanceRecord list \<Rightarrow> accountTotals \<Rightarrow> overflowTracker
     \<Rightarrow> (roundCowBase, accountTotals \<times> overflowTracker) act" where
  "totalsLoop cbs proto [] totals ot = ret (totals, ot)"
| "totalsLoop cbs proto (br # brs) totals ot = (\<lambda>b.
     case lookupIn cbs (br_Addr br) b of
       Err e \<Rightarrow> Err (Errorf ''roundCowState.CalculateTotals unable to load account data'')
     | Panic p \<Rightarrow> Panic p
     | Ok (previousAccountData, b) \<Rightarrow>
         andThen (DelAccount proto previousAccountData totals ot) (\<lambda>(totals, ot).
         andThen (AddAccount proto (br_AccountData br) totals ot) (\<lambda>(totals, ot).
         totalsLoop cbs proto brs totals ot b)))"

definition CalculateTotals :: "(roundCowState, unit) act" where
  "CalculateTotals = (\<lambda>s.
     let cb = cow_top s; mods = rc_mods cb in
     if rc_commits cb then
       Err (Errorf ''the method CalculateTotals should be called only on a top-level roundCowState'')
     else
       let (totals, ot) = ApplyRewards (rs_RewardsLevel (bh_RewardsState (sd_Hdr mods))) (rc_prevTotals cb) \<lparr>Overflowed = False\<rparr> in
       andDo (onBase (totalsLoop (cow_parents s) (rc_proto cb) (acd_accts (sd_Accts mods)) totals ot)) (\<lambda>(totals, ot).
       if Overflowed ot then failWith (Errorf ''roundCowState: CalculateTotals overflowed totals'')
       else
         andDo (lift (AccountTotals_All totals)) (\<lambda>new.
         andDo (lift (AccountTotals_All (rc_prevTotals cb))) (\<lambda>old.
         if new \<noteq> old then failWith (Errorf ''roundCowState: CalculateTotals sum of money changed'')
         else (\<lambda>s. Ok ((), updMods (\<lambda>m. m\<lparr>sd_Totals := totals\<rparr>) s))))) s)"

section \<open>Balances\<close>

definition Get :: "address \<Rightarrow> bool \<Rightarrow> (roundCowState, accountData) act" where
  "Get addr withPendingRewards = withState (\<lambda>s.
     andDo (lookup addr) (\<lambda>acct.
     if withPendingRewards then lift (WithUpdatedRewards acct (cow_proto s) (rewardsLevel s))
     else ret acct))"

definition GetCreator :: "u64 \<Rightarrow> creatableType \<Rightarrow> (roundCowState, address \<times> bool) act" where
  "GetCreator cidx ctype = getCreator cidx ctype"

definition Put :: "address \<Rightarrow> accountData \<Rightarrow> (roundCowState, unit) act" where
  "Put addr acct = (\<lambda>s.
     andThen (Upsert (sd_Accts (rc_mods (cow_top s))) addr acct) (\<lambda>accts.
     Ok ((), updMods (\<lambda>m. m\<lparr>sd_Accts := accts\<rparr>) s)))"

text \<open>The pointer to a reward counter may be nil.\<close>

definition trackRewards :: "string \<Rightarrow> microNovas option \<Rightarrow> microNovas \<Rightarrow> microNovas \<Rightarrow> (ledgerError, microNovas option) result" where
  "trackRewards msg rewards balNew bal =
     (case rewards of
        None \<Rightarrow> Ok None
      | Some r \<Rightarrow>
          let (d, ot) = ot_SubA balNew bal \<lparr>Overflowed = False\<rparr>;
              (newRewards, ot) = ot_AddA r d ot
          in if Overflowed ot then Err (Errorf msg) else Ok (Some newRewards))"

definition Move ::
    "address \<Rightarrow> address \<Rightarrow> microNovas \<Rightarrow> microNovas option \<Rightarrow> microNovas option
     \<Rightarrow> (roundCowState, microNovas option \<times> microNovas option) act" where
  "Move from to amt fromRewards toRewards = withState (\<lambda>s.
     let rewardlvl = rewardsLevel s; proto = cow_proto s in
     andDo (lookup from) (\<lambda>fromBal.
     andDo (lift (WithUpdatedRewards fromBal proto rewardlvl)) (\<lambda>fromBalNew.
     andDo (lift (trackRewards ''overflowed tracking of fromRewards'' fromRewards (ad_MicroNovas fromBalNew) (ad_MicroNovas fromBal))) (\<lambda>fromRewards.
     let (m, overflowed) = OSubA (ad_MicroNovas fromBalNew) amt in
     if overflowed then failWith (Errorf ''overspend'')
     else
       andDo (Put from (fromBalNew\<lparr>ad_MicroNovas := m\<rparr>)) (\<lambda>_.
       andDo (lookup to) (\<lambda>toBal.
       andDo (lift (WithUpdatedRewards toBal proto rewardlvl)) (\<lambda>toBalNew.
       andDo (lift (trackRewards ''overflowed tracking of toRewards'' toRewards (ad_MicroNovas toBalNew) (ad_MicroNovas toBal))) (\<lambda>toRewards.
       let (m, overflowed) = OAddA (ad_MicroNovas toBalNew) amt in
       if overflowed then failWith (Errorf ''balance overflow'')
       else
         andDo (Put to (toBalNew\<lparr>ad_MicroNovas := m\<rparr>)) (\<lambda>_.
         ret (fromRewards, toRewards))))))))))"

definition AllocateAsset :: "address \<Rightarrow> assetIndex \<Rightarrow> bool \<Rightarrow> (roundCowState, unit) act" where
  "AllocateAsset addr idx global = (\<lambda>s. Ok ((),
     if global then
       updMods (\<lambda>m. m\<lparr>sd_Creatables := mput idx
         \<lparr>mc_Ctype = AssetCreatable, mc_Created = True, mc_Creator = addr, mc_Ndeltas = 0\<rparr> (sd_Creatables m)\<rparr>) s
     else updMods (\<lambda>m. m\<lparr>sd_ModifiedAssetHoldings := mput (addr, idx) True (sd_ModifiedAssetHoldings m)\<rparr>) s))"

definition DeallocateAsset :: "address \<Rightarrow> assetIndex \<Rightarrow> bool \<Rightarrow> (roundCowState, unit) act" where
  "DeallocateAsset addr idx global = (\<lambda>s. Ok ((),
     if global then
       updMods (\<lambda>m. m\<lparr>sd_Creatables := mput idx
         \<lparr>mc_Ctype = AssetCreatable, mc_Created = False, mc_Creator = addr, mc_Ndeltas = 0\<rparr> (sd_Creatables m)\<rparr>) s
     else updMods (\<lambda>m. m\<lparr>sd_ModifiedAssetHoldings := mput (addr, idx) False (sd_ModifiedAssetHoldings m)\<rparr>) s))"

definition compactCert ::
    "consensusTable \<Rightarrow> verifyCert \<Rightarrow> compactCertTxnFields \<Rightarrow> round \<Rightarrow> bool \<Rightarrow> (roundCowState, unit) act" where
  "compactCert tbl verify cc atRound validate = (\<lambda>s.
     if cct_CertType cc \<noteq> CompactCertBasic then Err (Errorf ''compact cert type not supported'')
     else
       let certRnd = cct_CertRound cc; nextCertRnd = compactCertNext s in
       andThen (blockHdr certRnd s) (\<lambda>certHdr.
       let proto = hdrProto tbl certHdr in
       andThen
         (if validate then
            andThen (blockHdr (round_SubSaturate certRnd (cp_CompactCertRounds proto)) s) (\<lambda>votersHdr.
            validateCompactCert tbl verify certHdr cc votersHdr nextCertRnd atRound)
          else Ok ()) (\<lambda>_.
       Ok ((), setCompactCertNext (certRnd + cp_CompactCertRounds proto) s))))"

section \<open>The stack of layers is one map of accounts\<close>

definition cowOK :: "roundCowState \<Rightarrow> bool" where
  "cowOK s \<longleftrightarrow> (\<forall>cb \<in> set (layers s). deltasOK (sd_Accts (rc_mods cb)))"

definition baseView :: "roundCowBase \<Rightarrow> address \<Rightarrow> (ledgerError, accountData) result" where
  "baseView b a = (case mget (cb_accounts b) a of Some d \<Rightarrow> Ok d | None \<Rightarrow> lf_LookupWithoutRewards (cb_l b) (cb_rnd b) a)"

fun viewIn :: "roundCowLayer list \<Rightarrow> roundCowBase \<Rightarrow> address \<Rightarrow> (ledgerError, accountData) result" where
  "viewIn [] b a = baseView b a"
| "viewIn (cb # cbs) b a = (case deltasGet (sd_Accts (rc_mods cb)) a of Some d \<Rightarrow> Ok d | None \<Rightarrow> viewIn cbs b a)"

definition view :: "roundCowState \<Rightarrow> address \<Rightarrow> (ledgerError, accountData) result" where
  "view s = viewIn (layers s) (cow_base s)"

definition acct :: "roundCowState \<Rightarrow> address \<Rightarrow> accountData" where
  "acct s a = (case view s a of Ok d \<Rightarrow> d | _ \<Rightarrow> zeroAccountData)"

text \<open>Two bases that differ only in what they remember.\<close>

definition baseEq :: "roundCowBase \<Rightarrow> roundCowBase \<Rightarrow> bool" where
  "baseEq b b' \<longleftrightarrow> baseView b' = baseView b \<and> cb_l b' = cb_l b \<and> cb_rnd b' = cb_rnd b \<and>
     cb_txnCount b' = cb_txnCount b \<and> cb_compactCertNextRnd b' = cb_compactCertNextRnd b \<and> cb_proto b' = cb_proto b"

definition cowEq :: "roundCowState \<Rightarrow> roundCowState \<Rightarrow> bool" where
  "cowEq s t \<longleftrightarrow> cow_top t = cow_top s \<and> cow_parents t = cow_parents s \<and> baseEq (cow_base s) (cow_base t)"

lemma baseEq_refl [simp]: "baseEq b b"
  by (simp add: baseEq_def)

lemma baseEq_trans: "baseEq b c \<Longrightarrow> baseEq c d \<Longrightarrow> baseEq b d"
  by (simp add: baseEq_def)

lemma base_lookup_Ok:
  "base_lookup a b = Ok (d, b') \<Longrightarrow> baseView b a = Ok d \<and> baseEq b b'"
  by (auto simp: base_lookup_def baseView_def baseEq_def result_simps map_simps fun_eq_iff split: option.splits if_splits)

lemma base_lookup_total: "baseView b a = Ok d \<Longrightarrow> \<exists>b'. base_lookup a b = Ok (d, b')"
  by (auto simp: base_lookup_def baseView_def split: option.splits)

lemma base_getCreator_Ok: "base_getCreator i c b = Ok (r, b') \<Longrightarrow> baseEq b b'"
  by (auto simp: base_getCreator_def baseView_def baseEq_def split: option.splits result.splits)

lemma viewIn_baseEq: "baseEq b b' \<Longrightarrow> viewIn cbs b' = viewIn cbs b"
  by (induction cbs) (auto simp: baseEq_def fun_eq_iff split: option.splits)

lemma lookupIn_Ok:
  assumes "\<forall>cb \<in> set cbs. deltasOK (sd_Accts (rc_mods cb))" "lookupIn cbs a b = Ok (d, b')"
  shows "viewIn cbs b a = Ok d \<and> baseEq b b'"
  using assms by (induction cbs) (auto simp: base_lookup_Ok act_simps AccountDeltas_Get_eq split: option.splits if_splits)

lemma lookupIn_total:
  assumes "\<forall>cb \<in> set cbs. deltasOK (sd_Accts (rc_mods cb))" "viewIn cbs b a = Ok d"
  shows "\<exists>b'. lookupIn cbs a b = Ok (d, b')"
  using assms by (induction cbs) (auto simp: base_lookup_total act_simps AccountDeltas_Get_eq split: option.splits)

lemma getCreatorIn_Ok: "getCreatorIn cbs i c b = Ok (r, b') \<Longrightarrow> baseEq b b'"
  by (induction cbs) (auto simp: base_getCreator_Ok act_simps split: option.splits if_splits)

lemma cowEq_simps:
  assumes "cowEq s t"
  shows "view t = view s" "acct t = acct s" "cowOK t = cowOK s" "layers t = layers s"
    "cow_proto t = cow_proto s" "rewardsLevel t = rewardsLevel s" "cow_round t = cow_round s"
  using assms viewIn_baseEq [of "cow_base s" "cow_base t"]
  by (auto simp: cowEq_def view_def layers_def acct_def cowOK_def cow_proto_def rewardsLevel_def cow_round_def fun_eq_iff)

lemma cowEq_refl [simp]: "cowEq s s"
  by (simp add: cowEq_def)

lemma onBase_Ok_iff [act_simps]:
  "onBase m s = Ok (x, t) \<longleftrightarrow> (\<exists>b. m (cow_base s) = Ok (x, b) \<and> t = s\<lparr>cow_base := b\<rparr>)"
  by (auto simp: onBase_def result_simps)

text \<open>A lookup returns the account of the view, and leaves the view as it was.\<close>

lemma lookup_view:
  assumes "cowOK s" "lookup a s = Ok (d, t)"
  shows "view s a = Ok d" "acct s a = d" "cowEq s t"
proof -
  obtain b where b: "lookupIn (layers s) a (cow_base s) = Ok (d, b)" "t = s\<lparr>cow_base := b\<rparr>"
    using assms(2) unfolding lookup_def onBase_Ok_iff by blast
  have "view s a = Ok d \<and> cowEq s t"
    using lookupIn_Ok [OF assms(1) [unfolded cowOK_def] b(1)] by (simp add: view_def cowEq_def b(2))
  then show "view s a = Ok d" "acct s a = d" "cowEq s t" by (simp_all add: acct_def)
qed

lemma lookup_total:
  assumes "cowOK s" "view s a = Ok d"
  shows "\<exists>t. lookup a s = Ok (d, t)"
  using lookupIn_total [OF assms(1) [unfolded cowOK_def] assms(2) [unfolded view_def]]
  unfolding lookup_def onBase_Ok_iff by blast

lemma getCreator_view: "getCreator i c s = Ok (r, t) \<Longrightarrow> cowEq s t"
  unfolding getCreator_def onBase_Ok_iff cowEq_def by (elim exE conjE) (simp add: getCreatorIn_Ok)

lemma Get_view:
  assumes "cowOK s" "Get a False s = Ok (d, t)"
  shows "acct s a = d" "cowEq s t"
proof -
  from assms(2) have "lookup a s = Ok (d, t)" unfolding Get_def withState_def andDo_Ok_iff by (simp add: act_simps)
  then show "acct s a = d" "cowEq s t" using lookup_view [OF assms(1)] by simp_all
qed

definition putAcct :: "address \<Rightarrow> accountData \<Rightarrow> roundCowState \<Rightarrow> roundCowState" where
  "putAcct a d = updMods (\<lambda>m. m\<lparr>sd_Accts := deltasPut a d (sd_Accts m)\<rparr>)"

lemma Put_eq: "cowOK s \<Longrightarrow> Put a d s = Ok ((), putAcct a d s)"
  by (simp add: Put_def putAcct_def Upsert_Ok cowOK_def layers_def updMods_def)

lemma putAcct_view:
  assumes "cowOK s"
  shows "view (putAcct a d s) = (view s)(a := Ok d)" "cowOK (putAcct a d s)"
  using assms
  by (auto simp: view_def layers_def putAcct_def updMods_def cowOK_def deltasGet_put deltasOK_put fun_eq_iff split: option.splits)

lemma acct_putAcct: "cowOK s \<Longrightarrow> acct (putAcct a d s) = (acct s)(a := d)"
  by (auto simp: acct_def putAcct_view fun_eq_iff)

text \<open>A new layer sees what its parent sees; committing it leaves the accounts as it saw them.\<close>

lemma deltasGet_empty [simp]: "deltasGet emptyDeltas a = None"
  by (simp add: deltasGet_def emptyDeltas_def)

lemma child_view:
  "view (child s) = view s" "cowOK (child s) = cowOK s" "acct (child s) = acct s"
  "rewardsLevel (child s) = rewardsLevel s" "cow_proto (child s) = cow_proto s" "txnCounter (child s) = txnCounter s"
  by (auto simp: view_def acct_def layers_def child_def childLayer_def MakeStateDelta_def cowOK_def deltasOK_empty
      rewardsLevel_def cow_proto_def txnCounter_def fun_eq_iff)

definition mergedLayer :: "roundCowLayer \<Rightarrow> roundCowLayer \<Rightarrow> (address, (storagePtr, storageDelta) gomap) gomap \<Rightarrow> roundCowLayer" where
  "mergedLayer p cb sdeltas = p\<lparr>
     rc_mods := (rc_mods p)\<lparr>sd_Accts := deltasMerge (sd_Accts (rc_mods p)) (sd_Accts (rc_mods cb)),
       sd_Txids := mputAll (sd_Txids (rc_mods cb)) (sd_Txids (rc_mods p)),
       sd_Txleases := mputAll (sd_Txleases (rc_mods cb)) (sd_Txleases (rc_mods p)),
       sd_Creatables := mputAll (sd_Creatables (rc_mods cb)) (sd_Creatables (rc_mods p)),
       sd_CompactCertNext := sd_CompactCertNext (rc_mods cb),
       sd_ModifiedAssetHoldings := mputAll (sd_ModifiedAssetHoldings (rc_mods cb)) (sd_ModifiedAssetHoldings (rc_mods p)),
       sd_ModifiedAppLocalStates := mputAll (sd_ModifiedAppLocalStates (rc_mods cb)) (sd_ModifiedAppLocalStates (rc_mods p))\<rparr>,
     rc_txnCount := rc_txnCount p + rc_txnCount cb,
     rc_sdeltas := sdeltas\<rparr>"

lemma commitToParent_Ok:
  assumes "cowOK s" "commitToParent s = Ok (u, t)"
  obtains p ps sdeltas where "cow_parents s = p # ps"
    "t = s\<lparr>cow_top := mergedLayer p (cow_top s) sdeltas, cow_parents := ps\<rparr>"
  using assms
  by (auto simp: commitToParent_def Let_def mergedLayer_def cowOK_def layers_def MergeAccounts_Ok result_simps split: list.splits if_splits)

lemma commitToParent_view:
  assumes "cowOK s" "commitToParent s = Ok (u, t)"
  shows "view t = view s" "cowOK t" "acct t = acct s" "cow_base t = cow_base s"
proof -
  obtain p ps sdeltas where p: "cow_parents s = p # ps"
    and t: "t = s\<lparr>cow_top := mergedLayer p (cow_top s) sdeltas, cow_parents := ps\<rparr>"
    using commitToParent_Ok [OF assms] by metis
  have ok: "deltasOK (sd_Accts (rc_mods p))" "deltasOK (sd_Accts (rc_mods (cow_top s)))"
    using assms(1) p by (auto simp: cowOK_def layers_def)
  show v: "view t = view s"
    by (auto simp: fun_eq_iff view_def layers_def p t mergedLayer_def deltasGet_merge [OF ok] split: option.splits)
  show "cowOK t" using assms(1) ok by (auto simp: cowOK_def layers_def p t mergedLayer_def deltasOK_merge)
  show "acct t = acct s" by (simp add: acct_def v fun_eq_iff)
  show "cow_base t = cow_base s" by (simp add: t)
qed

section \<open>What an operation inside a layer leaves alone\<close>

definition frameOf :: "roundCowLayer \<Rightarrow> bool \<times> consensusParams \<times> blockHeader \<times> 64 word \<times> accountTotals" where
  "frameOf cb = (rc_commits cb, rc_proto cb, sd_Hdr (rc_mods cb), sd_PrevTimestamp (rc_mods cb), rc_prevTotals cb)"

text \<open>The parents of a layer, but for what they remember of keys read through them.\<close>

definition noCache :: "roundCowLayer \<Rightarrow> roundCowLayer" where
  "noCache cb = cb\<lparr>rc_compatibilityGetKeyCache := []\<rparr>"

definition sameFrame :: "roundCowState \<Rightarrow> roundCowState \<Rightarrow> bool" where
  "sameFrame s t \<longleftrightarrow> frameOf (cow_top t) = frameOf (cow_top s) \<and>
     map noCache (cow_parents t) = map noCache (cow_parents s) \<and> baseEq (cow_base s) (cow_base t)"

lemma sameFrame_refl [simp]: "sameFrame s s"
  by (simp add: sameFrame_def)

lemma sameFrame_trans: "sameFrame s t \<Longrightarrow> sameFrame t u \<Longrightarrow> sameFrame s u"
  by (auto simp: sameFrame_def intro: baseEq_trans)

lemma sameFrame_cowEq: "cowEq s t \<Longrightarrow> sameFrame s t"
  by (simp add: cowEq_def sameFrame_def)

lemma sameFrame_simps:
  assumes "sameFrame s t"
  shows "rewardsLevel t = rewardsLevel s" "cow_proto t = cow_proto s" "cow_round t = cow_round s" "prevTimestamp t = prevTimestamp s"
  using assms by (auto simp: sameFrame_def frameOf_def rewardsLevel_def cow_proto_def cow_round_def prevTimestamp_def)

lemma sameFrame_updMods:
  "(\<And>m. sd_Hdr (f m) = sd_Hdr m \<and> sd_PrevTimestamp (f m) = sd_PrevTimestamp m) \<Longrightarrow> sameFrame s (updMods f s)"
  by (simp add: sameFrame_def frameOf_def updMods_def)

lemma sameFrame_putAcct [simp]: "sameFrame s (putAcct a d s)"
  by (simp add: putAcct_def sameFrame_updMods)

lemma updMods_acct:
  "(\<And>m. sd_Accts (f m) = sd_Accts m) \<Longrightarrow> acct (updMods f s) = acct s \<and> cowOK (updMods f s) = cowOK s"
  by (simp add: acct_def view_def layers_def updMods_def cowOK_def fun_eq_iff)

end
