(* ===== verification/Ledger_Money.thy ===== *)
theory Ledger_Money
  imports Ledger_Cow
begin

text \<open>
  Conservation. A quantity of an account, summed over all addresses, changes by what one
  account changes; \<open>Move\<close> takes from one account exactly what it gives the other, so that
  the money of the ledger, with the rewards still owed, stays the same.
\<close>

section \<open>Sums over all accounts\<close>

definition sumOver :: "('v \<Rightarrow> nat) \<Rightarrow> ('k :: finite \<Rightarrow> 'v) \<Rightarrow> nat" where
  "sumOver f m = (\<Sum>a \<in> UNIV. f (m a))"

lemma sumOver_upd: "sumOver f (m(a := d)) + f (m a) = sumOver f m + f d"
proof -
  have "sumOver f (m(a := d)) = f d + (\<Sum>b \<in> UNIV - {a}. f (m b))"
    by (simp add: sumOver_def sum.remove [of UNIV a])
  moreover have "sumOver f m = f (m a) + (\<Sum>b \<in> UNIV - {a}. f (m b))"
    by (simp add: sumOver_def sum.remove [of UNIV a])
  ultimately show ?thesis by simp
qed

lemma sumOver_ge: "f (m a) \<le> sumOver f m"
  unfolding sumOver_def by (rule member_le_sum) simp_all

text \<open>
  The contract of a store of accounts: reading after writing. It is what the operations on
  balances need from the copy-on-write state.
\<close>

locale account_book =
  fixes fetch :: "'s \<Rightarrow> 'k :: finite \<Rightarrow> 'v"
    and store :: "'k \<Rightarrow> 'v \<Rightarrow> 's \<Rightarrow> 's"
    and valid :: "'s \<Rightarrow> bool"
  assumes read_write: "valid s \<Longrightarrow> fetch (store a d s) = (fetch s)(a := d)"
    and valid_write: "valid s \<Longrightarrow> valid (store a d s)"
begin

lemma sum_write: "valid s \<Longrightarrow> sumOver f (fetch (store a d s)) + f (fetch s a) = sumOver f (fetch s) + f d"
  by (simp add: read_write sumOver_upd)

lemma sum_write_same: "valid s \<Longrightarrow> f d = f (fetch s a) \<Longrightarrow> sumOver f (fetch (store a d s)) = sumOver f (fetch s)"
  using sum_write [of s f a d] by simp

lemma sum_transfer:
  assumes "valid s" "f d = f (fetch s a) - n" "n \<le> f (fetch s a)" "f e = f (fetch (store a d s) b) + n"
  shows "sumOver f (fetch (store b e (store a d s))) = sumOver f (fetch s)"
  using sum_write [of s f a d] sum_write [of "store a d s" f b e] assms valid_write [of s a d] by simp

end

interpretation cow: account_book acct putAcct cowOK
  by unfold_locales (simp_all add: acct_putAcct putAcct_view)

section \<open>Money\<close>

definition moneyOf :: "roundCowState \<Rightarrow> nat" where
  "moneyOf s = sumOver (worth (cow_proto s) (rewardsLevel s)) (acct s)"

text \<open>An operation's step: the state stays well formed and nothing of the layer's frame changes.\<close>

definition keeps :: "(accountData \<Rightarrow> nat) \<Rightarrow> roundCowState \<Rightarrow> roundCowState \<Rightarrow> bool" where
  "keeps f s t \<longleftrightarrow> cowOK t \<and> sameFrame s t \<and> sumOver f (acct t) = sumOver f (acct s)"

lemma keeps_refl: "cowOK s \<Longrightarrow> keeps f s s"
  by (simp add: keeps_def)

lemma keeps_trans: "keeps f s t \<Longrightarrow> keeps f t u \<Longrightarrow> keeps f s u"
  by (auto simp: keeps_def intro: sameFrame_trans)

lemma keeps_cowEq: "cowOK s \<Longrightarrow> cowEq s t \<Longrightarrow> keeps f s t"
  by (simp add: keeps_def cowEq_simps sameFrame_cowEq)

lemma keeps_put: "cowOK s \<Longrightarrow> f d = f (acct s a) \<Longrightarrow> keeps f s (putAcct a d s)"
  by (simp add: keeps_def cow.sum_write_same putAcct_view)

lemma keeps_updMods:
  assumes "cowOK s" "\<And>m. sd_Accts (f m) = sd_Accts m" "\<And>m. sd_Hdr (f m) = sd_Hdr m \<and> sd_PrevTimestamp (f m) = sd_PrevTimestamp m"
  shows "keeps g s (updMods f s)"
  using assms updMods_acct [of f s] sameFrame_updMods [of f s] by (simp add: keeps_def)

lemma worth_claimed_set:
  "worth proto level ((claimed proto level u)\<lparr>ad_MicroNovas := m\<rparr>) = unat m"
  by (simp add: claimed_def worth_def rewardsDue_def)

section \<open>Move\<close>

text \<open>The state after a transfer, as one account written after the other.\<close>

definition moved :: "consensusParams \<Rightarrow> u64 \<Rightarrow> address \<Rightarrow> address \<Rightarrow> microNovas \<Rightarrow> (address \<Rightarrow> accountData) \<Rightarrow> address \<Rightarrow> accountData" where
  "moved proto level from to amt m =
     (let d = claimed proto level (m from);
          m1 = m(from := d\<lparr>ad_MicroNovas := ad_MicroNovas d - amt\<rparr>);
          e = claimed proto level (m1 to)
      in m1(to := e\<lparr>ad_MicroNovas := ad_MicroNovas e + amt\<rparr>))"

lemma lookup_step:
  assumes "andDo (lookup a) g s = Ok (r, t)" "cowOK s"
  obtains s1 where "cowEq s s1" "cowOK s1" "acct s1 = acct s" "g (acct s a) s1 = Ok (r, t)"
proof -
  from assms(1) obtain d s1 where l: "lookup a s = Ok (d, s1)" and g: "g d s1 = Ok (r, t)"
    unfolding andDo_Ok_iff by blast
  note e = lookup_view [OF assms(2) l]
  show thesis using that [of s1] e g assms(2) by (simp add: cowEq_simps [OF e(3)])
qed

lemma lift_step:
  assumes "andDo (lift m) g s = Ok (r, t)"
  obtains x where "m = Ok x" "g x s = Ok (r, t)"
  using assms by (auto simp: act_simps)

lemma put_step:
  assumes "andDo (Put a d) g s = Ok (r, t)" "cowOK s"
  obtains "cowOK (putAcct a d s)" "g () (putAcct a d s) = Ok (r, t)"
  using assms by (auto simp: act_simps Put_eq putAcct_view)

lemma claim_step:
  assumes "andDo (lift (WithUpdatedRewards u p l)) g s = Ok (r, t)" "cp_RewardUnit p \<noteq> 0"
  obtains "claimable p l u" "g (claimed p l u) s = Ok (r, t)"
  using assms by (auto simp: act_simps WithUpdatedRewards_eq split: if_splits)

lemma if_step:
  assumes "(if c then failWith e else g) s = Ok (r, t)"
  obtains "\<not> c" "g s = Ok (r, t)"
  using assms by (auto simp: act_simps split: if_splits)

lemma Move_E:
  assumes "Move from to amt fr tr s = Ok (r, t)" "cowOK s" "cp_RewardUnit (cow_proto s) \<noteq> 0"
    "fb = claimed (cow_proto s) (rewardsLevel s) (acct s from)"
    "F = fb\<lparr>ad_MicroNovas := ad_MicroNovas fb - amt\<rparr>"
    "tb = claimed (cow_proto s) (rewardsLevel s) (acct (putAcct from F s) to)"
    "T = tb\<lparr>ad_MicroNovas := ad_MicroNovas tb + amt\<rparr>"
  obtains s1 s2 where "cowEq s s1" "claimable (cow_proto s) (rewardsLevel s) (acct s from)"
    "\<not> unat (ad_MicroNovas fb) < unat amt" "cowEq (putAcct from F s1) s2"
    "claimable (cow_proto s) (rewardsLevel s) (acct (putAcct from F s) to)"
    "\<not> 2 ^ 64 \<le> unat (ad_MicroNovas tb) + unat amt" "t = putAcct to T s2"
  using assms(1)
  unfolding Move_def withState_def Let_def OSubA_def OAddA_def OSub_eq OAdd_eq prod.case
  apply (elim lookup_step [OF _ assms(2)] claim_step [OF _ assms(3)] lift_step if_step)
  apply (erule put_step, assumption)
  apply (erule lookup_step, assumption)
  apply (elim claim_step [OF _ assms(3)] lift_step if_step)
  apply (erule put_step, assumption)
  apply (rule that)
  using assms by (simp_all add: acct_putAcct act_simps)

lemma Move_Ok:
  assumes "cowOK s" "cp_RewardUnit (cow_proto s) \<noteq> 0" "Move from to amt fr tr s = Ok (r, t)"
  shows "acct t = moved (cow_proto s) (rewardsLevel s) from to amt (acct s)"
    and "unat amt \<le> worth (cow_proto s) (rewardsLevel s) (acct s from)"
    and "keeps (worth (cow_proto s) (rewardsLevel s)) s t"
proof -
  let ?p = "cow_proto s" and ?l = "rewardsLevel s"
  let ?W = "worth ?p ?l"
  define fb where fb: "fb = claimed ?p ?l (acct s from)"
  define F where F: "F = fb\<lparr>ad_MicroNovas := ad_MicroNovas fb - amt\<rparr>"
  define tb where tb: "tb = claimed ?p ?l (acct (putAcct from F s) to)"
  define T where T: "T = tb\<lparr>ad_MicroNovas := ad_MicroNovas tb + amt\<rparr>"
  obtain s1 s2 where e1: "cowEq s s1" and c1: "claimable ?p ?l (acct s from)"
    and o1: "\<not> unat (ad_MicroNovas fb) < unat amt" and e2: "cowEq (putAcct from F s1) s2"
    and c2: "claimable ?p ?l (acct (putAcct from F s) to)"
    and o2: "\<not> 2 ^ 64 \<le> unat (ad_MicroNovas tb) + unat amt" and t: "t = putAcct to T s2"
    by (rule Move_E [OF assms(3,1,2) fb F tb T])
  have ok1: "cowOK s1" and a1: "acct s1 = acct s" using e1 assms(1) by (simp_all add: cowEq_simps)
  have ok2: "cowOK s2" and a2: "acct s2 = acct (putAcct from F s)"
    using e2 by (simp_all add: cowEq_simps [OF e2] putAcct_view ok1 acct_putAcct assms(1) a1)
  show "acct t = moved ?p ?l from to amt (acct s)"
    by (simp add: t acct_putAcct ok2 a2 assms(1) moved_def Let_def T tb F fb)
  show le: "unat amt \<le> ?W (acct s from)" using o1 c1 by (simp add: claimed_Money fb)
  have w1: "?W F = ?W (acct s from) - unat amt"
    using o1 c1 by (simp add: worth_claimed_set claimed_Money unat_sub word_le_nat_alt F fb)
  have w2: "?W T = ?W (acct (putAcct from F s) to) + unat amt"
    using o2 c2 by (simp add: worth_claimed_set claimed_Money unat_add_u64 T tb)
  have "sumOver ?W (acct t) = sumOver ?W (acct s)"
    using cow.sum_transfer [OF assms(1) w1 le w2]
    by (simp add: t acct_putAcct ok2 a2 putAcct_view assms(1))
  moreover have "sameFrame s t"
    unfolding t by (rule sameFrame_trans [OF sameFrame_cowEq [OF e1] sameFrame_trans [OF sameFrame_putAcct
      sameFrame_trans [OF sameFrame_cowEq [OF e2] sameFrame_putAcct]]])
  ultimately show "keeps ?W s t" by (simp add: keeps_def t putAcct_view ok2)
qed

section \<open>Reasoning about operations\<close>

text \<open>
  An operation does \<open>R\<close> if each of its successful runs from a good state ends in a good state
  that \<open>R\<close> relates to the first. For a reflexive and transitive \<open>R\<close> this composes along the
  structure of an operation; the rules are collected in \<open>does_intros\<close>.
\<close>

definition okState :: "roundCowState \<Rightarrow> bool" where
  "okState s \<longleftrightarrow> cowOK s \<and> cp_RewardUnit (cow_proto s) \<noteq> 0"

definition does :: "(roundCowState \<Rightarrow> roundCowState \<Rightarrow> bool) \<Rightarrow> (roundCowState, 'a) act \<Rightarrow> bool" where
  "does R m \<longleftrightarrow> (\<forall>s x t. okState s \<longrightarrow> m s = Ok (x, t) \<longrightarrow> okState t \<and> R s t)"

lemma doesI: "(\<And>s x t. okState s \<Longrightarrow> m s = Ok (x, t) \<Longrightarrow> okState t \<and> R s t) \<Longrightarrow> does R m"
  unfolding does_def by blast

lemma doesD: "does R m \<Longrightarrow> okState s \<Longrightarrow> m s = Ok (x, t) \<Longrightarrow> okState t \<and> R s t"
  unfolding does_def by blast

lemma does_mono: "does Q m \<Longrightarrow> (\<And>s t. okState s \<Longrightarrow> Q s t \<Longrightarrow> R s t) \<Longrightarrow> does R m"
  unfolding does_def by blast

named_theorems does_intros \<open>rules for the steps of an operation\<close>

locale step_relation =
  fixes R :: "roundCowState \<Rightarrow> roundCowState \<Rightarrow> bool"
  assumes refl: "okState s \<Longrightarrow> R s s"
    and trans: "R s t \<Longrightarrow> R t u \<Longrightarrow> R s u"
begin

lemma does_basic: "does R (ret x)" "does R (failWith e)" "does R (lift r)" "does R (checkThat c e)"
  by (rule doesI, simp add: act_simps refl)+

lemma does_andDo: "does R m \<Longrightarrow> (\<And>x. does R (f x)) \<Longrightarrow> does R (andDo m f)"
  unfolding does_def andDo_Ok_iff by (meson trans)

lemma does_if: "(c \<Longrightarrow> does R m) \<Longrightarrow> (\<not> c \<Longrightarrow> does R n) \<Longrightarrow> does R (if c then m else n)"
  by simp

lemma does_option: "does R m \<Longrightarrow> (\<And>x. does R (f x)) \<Longrightarrow> does R (case z of None \<Rightarrow> m | Some x \<Rightarrow> f x)"
  by (simp split: option.split)

lemma does_prod: "(\<And>x y. does R (f x y)) \<Longrightarrow> does R (case z of (x, y) \<Rightarrow> f x y)"
  by (simp split: prod.split)

lemma does_let: "(\<And>x. does R (f x)) \<Longrightarrow> does R (let x = z in f x)"
  by (simp add: Let_def)

lemma does_withState: "(\<And>s. does R (f s)) \<Longrightarrow> does R (withState f)"
  unfolding does_def withState_def by blast

end

text \<open>Leaving the accounts alone and forgetting no transaction, and keeping the money.\<close>

definition idsOf :: "ledgerDelta \<Rightarrow> txid set" where
  "idsOf m = {k. mget (sd_Txids m) k \<noteq> None}"

definition ids :: "roundCowState \<Rightarrow> txid set" where
  "ids s = idsOf (rc_mods (cow_top s))"

definition quiet :: "roundCowState \<Rightarrow> roundCowState \<Rightarrow> bool" where
  "quiet s t \<longleftrightarrow> sameFrame s t \<and> acct t = acct s \<and> ids s \<subseteq> ids t"

definition keepsMoney :: "roundCowState \<Rightarrow> roundCowState \<Rightarrow> bool" where
  "keepsMoney s t \<longleftrightarrow> sameFrame s t \<and> moneyOf t = moneyOf s"

interpretation qt: step_relation quiet
  by unfold_locales (auto simp: quiet_def intro: sameFrame_trans)

interpretation km: step_relation keepsMoney
  by unfold_locales (auto simp: keepsMoney_def intro: sameFrame_trans)

lemmas quiet_rules = qt.does_basic qt.does_andDo qt.does_if qt.does_option qt.does_prod qt.does_let qt.does_withState
lemmas money_rules = km.does_basic km.does_andDo km.does_if km.does_option km.does_prod km.does_let km.does_withState

lemma quiet_keepsMoney: "quiet s t \<Longrightarrow> keepsMoney s t"
  by (auto simp: quiet_def keepsMoney_def moneyOf_def sameFrame_simps)

lemma does_quiet_money: "does quiet m \<Longrightarrow> does keepsMoney m"
  by (erule does_mono) (rule quiet_keepsMoney)

lemma okState_frame: "okState s \<Longrightarrow> sameFrame s t \<Longrightarrow> cowOK t \<Longrightarrow> okState t"
  by (simp add: okState_def sameFrame_simps)

lemma ids_cowEq: "cowEq s t \<Longrightarrow> ids t = ids s"
  by (simp add: ids_def cowEq_def)

lemma quiet_cowEq: "okState s \<Longrightarrow> cowEq s t \<Longrightarrow> okState t \<and> quiet s t"
  by (simp add: okState_def quiet_def cowEq_simps sameFrame_cowEq ids_cowEq)

lemma quiet_updMods:
  assumes "okState s" "\<And>m. sd_Accts (f m) = sd_Accts m" "\<And>m. sd_Hdr (f m) = sd_Hdr m \<and> sd_PrevTimestamp (f m) = sd_PrevTimestamp m"
    "\<And>m. sd_Txids (f m) = sd_Txids m"
  shows "okState (updMods f s) \<and> quiet s (updMods f s)"
proof -
  have f: "sameFrame s (updMods f s)" by (rule sameFrame_updMods [OF assms(3)])
  have a: "acct (updMods f s) = acct s" "cowOK (updMods f s)"
    using updMods_acct [OF assms(2), of s] assms(1) by (simp_all add: okState_def)
  show ?thesis using okState_frame [OF assms(1) f a(2)] f a(1) by (simp add: quiet_def ids_def idsOf_def updMods_def assms(4))
qed

lemma put_money:
  assumes "okState s" "worth (cow_proto s) (rewardsLevel s) d = worth (cow_proto s) (rewardsLevel s) (acct s a)"
  shows "okState (putAcct a d s) \<and> keepsMoney s (putAcct a d s)"
proof -
  have ok: "cowOK s" using assms(1) by (simp add: okState_def)
  have "okState (putAcct a d s)"
    by (rule okState_frame [OF assms(1) sameFrame_putAcct putAcct_view(2) [OF ok]])
  moreover have "moneyOf (putAcct a d s) = moneyOf s"
    unfolding moneyOf_def sameFrame_simps(1,2) [OF sameFrame_putAcct] by (rule cow.sum_write_same [OF ok assms(2)])
  ultimately show ?thesis by (simp add: keepsMoney_def)
qed

lemma does_lookup [does_intros]: "does quiet (lookup a)"
proof (rule doesI)
  fix s x t
  assume "okState s" "lookup a s = Ok (x, t)"
  then show "okState t \<and> quiet s t" using lookup_view(3) by (intro quiet_cowEq) (auto simp: okState_def)
qed

lemma does_Get [does_intros]: "does quiet (Get a w)"
  unfolding Get_def
  by (intro quiet_rules does_lookup)

lemma does_getCreator [does_intros]: "does quiet (getCreator i c)" "does quiet (GetCreator i c)"
  unfolding GetCreator_def by (rule doesI, erule quiet_cowEq, erule getCreator_view)+

lemma does_Move [does_intros]: "does keepsMoney (Move from to amt fr tr)"
proof (rule doesI)
  fix s x t
  assume s: "okState s" and m: "Move from to amt fr tr s = Ok (x, t)"
  from Move_Ok(3) [OF _ _ m] s have k: "keeps (worth (cow_proto s) (rewardsLevel s)) s t"
    by (simp add: okState_def)
  then show "okState t \<and> keepsMoney s t"
    using s by (auto simp: keeps_def keepsMoney_def moneyOf_def sameFrame_simps intro: okState_frame)
qed

text \<open>A read binds the account of the state it was read from.\<close>

lemma does_Get_bind:
  assumes "step_relation R" "\<And>s t. okState s \<Longrightarrow> quiet s t \<Longrightarrow> R s t"
    "\<And>s x t. okState s \<Longrightarrow> f (acct s a) s = Ok (x, t) \<Longrightarrow> okState t \<and> R s t"
  shows "does R (andDo (Get a False) f)"
proof (rule doesI)
  fix s x t
  assume s: "okState s" and m: "andDo (Get a False) f s = Ok (x, t)"
  then obtain d s1 where g: "Get a False s = Ok (d, s1)" and f: "f d s1 = Ok (x, t)"
    unfolding andDo_Ok_iff by blast
  have e: "acct s a = d" "cowEq s s1" using Get_view [OF _ g] s by (simp_all add: okState_def)
  have s1: "okState s1" "quiet s s1" using quiet_cowEq [OF s e(2)] by simp_all
  have "acct s1 a = d" using e by (simp add: cowEq_simps)
  then have "okState t \<and> R s1 t" using assms(3) [OF s1(1)] f by simp
  then show "okState t \<and> R s t" using step_relation.trans [OF assms(1)] assms(2) [OF s s1(2)] by blast
qed

lemmas money_Get_bind = does_Get_bind [OF km.step_relation_axioms quiet_keepsMoney]

section \<open>A layer that is committed\<close>

lemma frameOf_merged: "frameOf (mergedLayer p cb sds) = frameOf p"
  by (simp add: frameOf_def mergedLayer_def)

lemma frameOf_noCache: "frameOf (noCache cb) = frameOf cb"
  by (simp add: frameOf_def noCache_def)

lemma child_commit:
  assumes "sameFrame (child s) c" "okState c" "okState s" "commitToParent c = Ok (u, t)"
  shows "sameFrame s t" "okState t" "acct t = acct c"
proof -
  have ok: "cowOK c" using assms(2) by (simp add: okState_def)
  obtain p ps sds where p: "cow_parents c = p # ps"
    and t: "t = c\<lparr>cow_top := mergedLayer p (cow_top c) sds, cow_parents := ps\<rparr>"
    using commitToParent_Ok [OF ok assms(4)] by metis
  have par: "map noCache (p # ps) = map noCache (cow_top s # cow_parents s)"
    using assms(1) by (simp add: sameFrame_def child_def p)
  then have "noCache p = noCache (cow_top s)" "map noCache ps = map noCache (cow_parents s)" by simp_all
  moreover from this(1) have "frameOf p = frameOf (cow_top s)" by (metis frameOf_noCache)
  moreover have "baseEq (cow_base s) (cow_base c)" using assms(1) by (simp add: sameFrame_def child_def)
  ultimately show f: "sameFrame s t" by (simp add: sameFrame_def t frameOf_merged)
  show "okState t" by (rule okState_frame [OF assms(3) f commitToParent_view(2) [OF ok assms(4)]])
  show "acct t = acct c" by (rule commitToParent_view(3) [OF ok assms(4)])
qed

lemma okState_child: "okState s \<Longrightarrow> okState (child s)"
  by (simp add: okState_def child_view)

lemma moneyOf_child: "moneyOf (child s) = moneyOf s"
  by (simp add: moneyOf_def child_view)

lemma child_commit_money:
  assumes "keepsMoney (child s) c" "okState c" "okState s" "commitToParent c = Ok (u, t)"
  shows "okState t \<and> keepsMoney s t"
proof -
  have f: "sameFrame (child s) c" using assms(1) by (simp add: keepsMoney_def)
  note t = child_commit [OF f assms(2-4)]
  have "moneyOf t = moneyOf c"
    unfolding moneyOf_def sameFrame_simps(1,2) [OF t(1)] sameFrame_simps(1,2) [OF f] child_view t(3) ..
  then show ?thesis using t assms(1) moneyOf_child [of s] by (simp add: keepsMoney_def)
qed

end
