(* ===== verification/Ledger_App_Cow.thy ===== *)
theory Ledger_App_Cow
  imports Ledger_Money
begin

text \<open>
  Application storage on the copy-on-write state (\<open>src/ledger/internal/appcow.go\<close>). A layer
  holds, per account and application, the keys it changed with their old and new values and
  the number of integers and byte strings stored; reading goes up the layers until one knows
  the key.

  The interpreter of application programs is an argument: \<open>vm_EvalContract\<close> runs a program
  on a child layer and says whether it passed. The lemmas show what reading a key returns
  after writing or deleting one and that the counts never exceed the schema.
\<close>

section \<open>Reading from the base\<close>

definition base_allocated :: "address \<Rightarrow> appIndex \<Rightarrow> bool \<Rightarrow> (roundCowBase, bool) act" where
  "base_allocated addr aidx global =
     andDo (base_lookup addr) (\<lambda>acct.
     if global then ret (mget (ad_AppParams acct) aidx \<noteq> None)
     else ret (mget (ad_AppLocalStates acct) aidx \<noteq> None))"

definition storeOf :: "accountData \<Rightarrow> appIndex \<Rightarrow> bool \<Rightarrow> tealKeyValue option" where
  "storeOf ad aidx global =
     (if global then map_option app_GlobalState (mget (ad_AppParams ad) aidx)
      else map_option als_KeyValue (mget (ad_AppLocalStates ad) aidx))"

definition base_getKey :: "address \<Rightarrow> appIndex \<Rightarrow> bool \<Rightarrow> string \<Rightarrow> (roundCowBase, tealValue \<times> bool) act" where
  "base_getKey addr aidx global key =
     andDo (base_lookup addr) (\<lambda>ad.
     case storeOf ad aidx global of
       None \<Rightarrow> failWith (Errorf ''cannot fetch key'')
     | Some kv \<Rightarrow> ret (case mget kv key of Some val \<Rightarrow> (val, True) | None \<Rightarrow> (zeroTealValue, False)))"

fun countStorage :: "tealValue list \<Rightarrow> stateSchema \<Rightarrow> stateSchema" where
  "countStorage [] cnt = cnt"
| "countStorage (v # vs) cnt =
     countStorage vs (if tv_Type v = TealUintType then cnt\<lparr>NumUint := NumUint cnt + 1\<rparr>
                      else cnt\<lparr>NumByteSlice := NumByteSlice cnt + 1\<rparr>)"

definition base_getStorageCounts :: "address \<Rightarrow> appIndex \<Rightarrow> bool \<Rightarrow> (roundCowBase, stateSchema) act" where
  "base_getStorageCounts addr aidx global =
     andDo (base_lookup addr) (\<lambda>ad.
     case storeOf ad aidx global of
       None \<Rightarrow> ret zeroSchema
     | Some kv \<Rightarrow> ret (countStorage (map snd kv) zeroSchema))"

definition base_getStorageLimits :: "appIndex \<Rightarrow> bool \<Rightarrow> (roundCowBase, stateSchema) act" where
  "base_getStorageLimits aidx global =
     andDo (base_getCreator aidx AppCreatable) (\<lambda>(creator, exist).
     if \<not> exist then ret zeroSchema
     else
       andDo (base_lookup creator) (\<lambda>record.
       case mget (ad_AppParams record) aidx of
         None \<Rightarrow> failWith (Errorf ''app not found in account'')
       | Some params \<Rightarrow> ret (if global then app_GlobalStateSchema params else app_LocalStateSchema params)))"

section \<open>Reading through the layers\<close>

definition sdGet :: "roundCowLayer \<Rightarrow> address \<Rightarrow> storagePtr \<Rightarrow> storageDelta option" where
  "sdGet cb addr aapp = mget (mgetd [] (rc_sdeltas cb) addr) aapp"

definition sdPut :: "address \<Rightarrow> storagePtr \<Rightarrow> storageDelta \<Rightarrow> roundCowLayer \<Rightarrow> roundCowLayer" where
  "sdPut addr aapp lsd cb =
     cb\<lparr>rc_sdeltas := mput addr (mput aapp lsd (mgetd [] (rc_sdeltas cb) addr)) (rc_sdeltas cb)\<rparr>"

fun allocatedIn :: "roundCowLayer list \<Rightarrow> address \<Rightarrow> appIndex \<Rightarrow> bool \<Rightarrow> (roundCowBase, bool) act" where
  "allocatedIn [] addr aidx global = base_allocated addr aidx global"
| "allocatedIn (cb # cbs) addr aidx global =
     (case sdGet cb addr (aidx, global) of
        Some lsd \<Rightarrow>
          (case sto_action lsd of
             AllocAction \<Rightarrow> ret True
           | DeallocAction \<Rightarrow> ret False
           | RemainAllocAction \<Rightarrow> allocatedIn cbs addr aidx global)
      | None \<Rightarrow> allocatedIn cbs addr aidx global)"

fun getStorageCountsIn :: "roundCowLayer list \<Rightarrow> address \<Rightarrow> appIndex \<Rightarrow> bool \<Rightarrow> (roundCowBase, stateSchema) act" where
  "getStorageCountsIn [] addr aidx global = base_getStorageCounts addr aidx global"
| "getStorageCountsIn (cb # cbs) addr aidx global =
     andDo (allocatedIn (cb # cbs) addr aidx global) (\<lambda>alloc.
     if \<not> alloc then ret zeroSchema
     else
       (case sdGet cb addr (aidx, global) of
          Some lsd \<Rightarrow> ret (sto_counts lsd)
        | None \<Rightarrow> getStorageCountsIn cbs addr aidx global))"

fun getStorageLimitsIn :: "roundCowLayer list \<Rightarrow> address \<Rightarrow> appIndex \<Rightarrow> bool \<Rightarrow> (roundCowBase, stateSchema) act" where
  "getStorageLimitsIn [] addr aidx global = base_getStorageLimits aidx global"
| "getStorageLimitsIn (cb # cbs) addr aidx global =
     andDo (allocatedIn (cb # cbs) addr aidx global) (\<lambda>alloc.
     if \<not> alloc then ret zeroSchema
     else
       (case sdGet cb addr (aidx, global) of
          Some lsd \<Rightarrow> ret (sto_maxCounts lsd)
        | None \<Rightarrow> getStorageLimitsIn cbs addr aidx global))"

text \<open>In compatibility mode a layer remembers the first account index a local key was read with.\<close>

definition rememberKey :: "address \<Rightarrow> storagePtr \<Rightarrow> u64 \<Rightarrow> roundCowLayer \<Rightarrow> roundCowLayer" where
  "rememberKey addr aapp accountIdx cb =
     (if rc_compatibilityMode cb \<and> \<not> snd aapp then
        (case mget (rc_compatibilityGetKeyCache cb) addr of
           None \<Rightarrow> cb\<lparr>rc_compatibilityGetKeyCache := mput addr [(aapp, accountIdx)] (rc_compatibilityGetKeyCache cb)\<rparr>
         | Some s \<Rightarrow>
             (case mget s aapp of
                None \<Rightarrow> cb\<lparr>rc_compatibilityGetKeyCache := mput addr (mput aapp accountIdx s) (rc_compatibilityGetKeyCache cb)\<rparr>
              | Some _ \<Rightarrow> cb))
      else cb)"

fun getKeyIn ::
    "roundCowLayer list \<Rightarrow> address \<Rightarrow> appIndex \<Rightarrow> bool \<Rightarrow> string \<Rightarrow> u64
     \<Rightarrow> (roundCowBase, (tealValue \<times> bool) \<times> roundCowLayer list) act" where
  "getKeyIn [] addr aidx global key accountIdx = andDo (base_getKey addr aidx global key) (\<lambda>v. ret (v, []))"
| "getKeyIn (cb # cbs) addr aidx global key accountIdx =
     andDo (allocatedIn (cb # cbs) addr aidx global) (\<lambda>alloc.
     if \<not> alloc then failWith (Errorf ''cannot fetch key'')
     else
       let up = andDo (getKeyIn cbs addr aidx global key accountIdx) (\<lambda>(v, cbs).
                  ret (v, rememberKey addr (aidx, global) accountIdx cb # cbs))
       in case sdGet cb addr (aidx, global) of
            Some lsd \<Rightarrow>
              (case mget (sto_kvCow lsd) key of
                 Some vdelta \<Rightarrow> ret ((cv_new vdelta, cv_newExists vdelta), cb # cbs)
               | None \<Rightarrow> if sto_action lsd \<noteq> RemainAllocAction then ret ((zeroTealValue, False), cb # cbs) else up)
          | None \<Rightarrow> up)"

definition allocated :: "address \<Rightarrow> appIndex \<Rightarrow> bool \<Rightarrow> (roundCowState, bool) act" where
  "allocated addr aidx global = (\<lambda>s. onBase (allocatedIn (layers s) addr aidx global) s)"

definition getStorageCounts :: "address \<Rightarrow> appIndex \<Rightarrow> bool \<Rightarrow> (roundCowState, stateSchema) act" where
  "getStorageCounts addr aidx global = (\<lambda>s. onBase (getStorageCountsIn (layers s) addr aidx global) s)"

definition getStorageLimits :: "address \<Rightarrow> appIndex \<Rightarrow> bool \<Rightarrow> (roundCowState, stateSchema) act" where
  "getStorageLimits addr aidx global = (\<lambda>s. onBase (getStorageLimitsIn (layers s) addr aidx global) s)"

definition setLayers :: "roundCowLayer list \<Rightarrow> roundCowState \<Rightarrow> roundCowState" where
  "setLayers cbs s = (case cbs of [] \<Rightarrow> s | cb # cbs \<Rightarrow> s\<lparr>cow_top := cb, cow_parents := cbs\<rparr>)"

definition GetKey :: "address \<Rightarrow> appIndex \<Rightarrow> bool \<Rightarrow> string \<Rightarrow> u64 \<Rightarrow> (roundCowState, tealValue \<times> bool) act" where
  "GetKey addr aidx global key accountIdx = (\<lambda>s.
     andDo (onBase (getKeyIn (layers s) addr aidx global key accountIdx)) (\<lambda>(v, cbs).
     (\<lambda>s. Ok (v, setLayers cbs s))) s)"

section \<open>Changing storage\<close>

definition updTop :: "(roundCowLayer \<Rightarrow> roundCowLayer) \<Rightarrow> roundCowState \<Rightarrow> roundCowState" where
  "updTop f s = s\<lparr>cow_top := f (cow_top s)\<rparr>"

definition storeDelta :: "address \<Rightarrow> storagePtr \<Rightarrow> storageDelta \<Rightarrow> (roundCowState, unit) act" where
  "storeDelta addr aapp lsd = (\<lambda>s. Ok ((), updTop (sdPut addr aapp lsd) s))"

definition ensureStorageDelta ::
    "address \<Rightarrow> appIndex \<Rightarrow> bool \<Rightarrow> storageAction \<Rightarrow> u64 \<Rightarrow> (roundCowState, storageDelta) act" where
  "ensureStorageDelta addr aidx global defaultAction accountIdx = withState (\<lambda>s.
     let aapp = (aidx, global) in
     case sdGet (cow_top s) addr aapp of
       Some lsd \<Rightarrow> ret lsd
     | None \<Rightarrow>
         andDo (getStorageCounts addr aidx global) (\<lambda>counts.
         andDo (getStorageLimits addr aidx global) (\<lambda>maxCounts.
         let idx = (if rc_compatibilityMode (cow_top s) \<and> \<not> global then
                      (case mget (mgetd [] (rc_compatibilityGetKeyCache (cow_top s)) addr) aapp of
                         Some idx \<Rightarrow> idx | None \<Rightarrow> accountIdx)
                    else 0);
             lsd = \<lparr>sto_action = defaultAction, sto_kvCow = [], sto_counts = counts, sto_maxCounts = maxCounts,
                    sto_accountIdx = idx\<rparr>
         in andDo (storeDelta addr aapp lsd) (\<lambda>_. ret lsd))))"

definition noteCreatable :: "address \<Rightarrow> appIndex \<Rightarrow> bool \<Rightarrow> bool \<Rightarrow> (roundCowState, unit) act" where
  "noteCreatable addr aidx global created = (\<lambda>s. Ok ((),
     if global then
       updMods (\<lambda>m. m\<lparr>sd_Creatables := mput aidx
         \<lparr>mc_Ctype = AppCreatable, mc_Created = created, mc_Creator = addr, mc_Ndeltas = 0\<rparr> (sd_Creatables m)\<rparr>) s
     else updMods (\<lambda>m. m\<lparr>sd_ModifiedAppLocalStates := mput (addr, aidx) created (sd_ModifiedAppLocalStates m)\<rparr>) s))"

definition AllocateApp :: "address \<Rightarrow> appIndex \<Rightarrow> bool \<Rightarrow> stateSchema \<Rightarrow> (roundCowState, unit) act" where
  "AllocateApp addr aidx global space =
     andDo (allocated addr aidx global) (\<lambda>alloc.
     if alloc then failWith (Errorf ''cannot allocate storage'')
     else
       andDo (ensureStorageDelta addr aidx global AllocAction 0) (\<lambda>lsd.
       andDo (storeDelta addr (aidx, global) (lsd\<lparr>sto_action := AllocAction, sto_maxCounts := space\<rparr>)) (\<lambda>_.
       noteCreatable addr aidx global True)))"

definition DeallocateApp :: "address \<Rightarrow> appIndex \<Rightarrow> bool \<Rightarrow> (roundCowState, unit) act" where
  "DeallocateApp addr aidx global =
     andDo (allocated addr aidx global) (\<lambda>alloc.
     if \<not> alloc then failWith (Errorf ''cannot deallocate storage'')
     else
       andDo (ensureStorageDelta addr aidx global DeallocAction 0) (\<lambda>lsd.
       andDo (storeDelta addr (aidx, global)
         (lsd\<lparr>sto_action := DeallocAction, sto_counts := zeroSchema, sto_maxCounts := zeroSchema, sto_kvCow := []\<rparr>)) (\<lambda>_.
       noteCreatable addr aidx global False)))"

definition countBefore :: "tealValue \<Rightarrow> bool \<Rightarrow> stateSchema \<Rightarrow> (ledgerError, stateSchema) result" where
  "countBefore bv bok counts =
     (if bok then
        if tv_Type bv = TealBytesType then Ok (counts\<lparr>NumByteSlice := NumByteSlice counts - 1\<rparr>)
        else if tv_Type bv = TealUintType then Ok (counts\<lparr>NumUint := NumUint counts - 1\<rparr>)
        else Err (Errorf ''unknown before type'')
      else Ok counts)"

definition countAfter :: "tealValue \<Rightarrow> bool \<Rightarrow> stateSchema \<Rightarrow> (ledgerError, stateSchema) result" where
  "countAfter av aok counts =
     (if aok then
        if tv_Type av = TealBytesType then Ok (counts\<lparr>NumByteSlice := NumByteSlice counts + 1\<rparr>)
        else if tv_Type av = TealUintType then Ok (counts\<lparr>NumUint := NumUint counts + 1\<rparr>)
        else Err (Errorf ''unknown after type'')
      else Ok counts)"

definition updateCounts :: "storageDelta \<Rightarrow> tealValue \<Rightarrow> bool \<Rightarrow> tealValue \<Rightarrow> bool \<Rightarrow> (ledgerError, storageDelta) result" where
  "updateCounts lsd bv bok av aok =
     andThen (countBefore bv bok (sto_counts lsd)) (\<lambda>counts.
     andThen (countAfter av aok counts) (\<lambda>counts.
     Ok (lsd\<lparr>sto_counts := counts\<rparr>)))"

definition checkCounts :: "storageDelta \<Rightarrow> (ledgerError, unit) result" where
  "checkCounts lsd =
     (if NumUint (sto_counts lsd) > NumUint (sto_maxCounts lsd) then Err (Errorf ''store integer cnt exceeds schema integer cnt'')
      else if NumByteSlice (sto_counts lsd) > NumByteSlice (sto_maxCounts lsd)
      then Err (Errorf ''store bytes cnt exceeds schema bytes cnt'')
      else Ok ())"

definition recordKey :: "string \<Rightarrow> tealValue \<Rightarrow> bool \<Rightarrow> tealValue \<Rightarrow> bool \<Rightarrow> storageDelta \<Rightarrow> storageDelta" where
  "recordKey key oldValue oldOk newValue newOk lsd =
     (let vdelta = (case mget (sto_kvCow lsd) key of
            Some vdelta \<Rightarrow> vdelta
          | None \<Rightarrow> \<lparr>cv_old = oldValue, cv_new = zeroTealValue, cv_oldExists = oldOk, cv_newExists = False\<rparr>)
      in lsd\<lparr>sto_kvCow := mput key (vdelta\<lparr>cv_new := newValue, cv_newExists := newOk\<rparr>) (sto_kvCow lsd)\<rparr>)"

definition SetKey :: "address \<Rightarrow> appIndex \<Rightarrow> bool \<Rightarrow> string \<Rightarrow> tealValue \<Rightarrow> u64 \<Rightarrow> (roundCowState, unit) act" where
  "SetKey addr aidx global key val accountIdx = withState (\<lambda>s.
     let proto = cow_proto s in
     if int (length key) > cp_MaxAppKeyLen proto then failWith (Errorf ''key too long'')
     else if tv_Type val = TealBytesType \<and> int (length (tv_Bytes val)) > cp_MaxAppBytesValueLen proto
     then failWith (Errorf ''value too long for key'')
     else if tv_Type val = TealBytesType \<and> int (length key + length (tv_Bytes val)) > cp_MaxAppSumKeyValueLens proto
     then failWith (Errorf ''key/value total too long for key'')
     else
       andDo (allocated addr aidx global) (\<lambda>alloc.
       if \<not> alloc then failWith (Errorf ''cannot set key'')
       else
         andDo (GetKey addr aidx global key accountIdx) (\<lambda>(oldValue, oldOk).
         andDo (ensureStorageDelta addr aidx global RemainAllocAction accountIdx) (\<lambda>lsd.
         andDo (lift (updateCounts (recordKey key oldValue oldOk val True lsd) oldValue oldOk val True)) (\<lambda>lsd.
         andDo (storeDelta addr (aidx, global) lsd) (\<lambda>_.
         lift (checkCounts lsd)))))))"

text \<open>An error of \<open>ensureStorageDelta\<close> ends \<open>DelKey\<close> without an error and without a deletion.\<close>

definition DelKey :: "address \<Rightarrow> appIndex \<Rightarrow> bool \<Rightarrow> string \<Rightarrow> u64 \<Rightarrow> (roundCowState, unit) act" where
  "DelKey addr aidx global key accountIdx =
     andDo (allocated addr aidx global) (\<lambda>alloc.
     if \<not> alloc then failWith (Errorf ''cannot del key'')
     else
       andDo (GetKey addr aidx global key accountIdx) (\<lambda>(oldValue, oldOk).
       (\<lambda>s. case ensureStorageDelta addr aidx global RemainAllocAction accountIdx s of
              Err e \<Rightarrow> Ok ((), s)
            | Panic p \<Rightarrow> Panic p
            | Ok (lsd, s) \<Rightarrow>
                andDo (lift (updateCounts (recordKey key oldValue oldOk zeroTealValue False lsd) oldValue oldOk zeroTealValue False)) (\<lambda>lsd.
                storeDelta addr (aidx, global) lsd) s)))"

section \<open>The changes of a program, and of a block\<close>

definition valueDelta_serialize :: "cowValueDelta \<Rightarrow> valueDelta option" where
  "valueDelta_serialize vd =
     (if \<not> cv_newExists vd then
        (if cv_oldExists vd then Some \<lparr>vd_Action = DeleteAction, vd_Bytes = [], vd_Uint = 0\<rparr> else None)
      else if cv_oldExists vd \<and> cv_old vd = cv_new vd then None
      else if tv_Type (cv_new vd) = TealBytesType
      then Some \<lparr>vd_Action = SetBytesAction, vd_Bytes = tv_Bytes (cv_new vd), vd_Uint = 0\<rparr>
      else Some \<lparr>vd_Action = SetUintAction, vd_Bytes = [], vd_Uint = tv_Uint (cv_new vd)\<rparr>)"

fun stateDelta_serialize :: "(string, cowValueDelta) gomap \<Rightarrow> stateDelta" where
  "stateDelta_serialize [] = []"
| "stateDelta_serialize ((key, vd) # sd) =
     (case valueDelta_serialize vd of
        Some vdelta \<Rightarrow> (key, vdelta) # stateDelta_serialize sd
      | None \<Rightarrow> stateDelta_serialize sd)"

fun flattenSdeltas :: "(address, (storagePtr, storageDelta) gomap) gomap \<Rightarrow> (address \<times> storagePtr \<times> storageDelta) list" where
  "flattenSdeltas [] = []"
| "flattenSdeltas ((addr, smods) # sds) = map (\<lambda>(aapp, sdelta). (addr, aapp, sdelta)) smods @ flattenSdeltas sds"

definition noEmptyDeltas :: "roundCowLayer \<Rightarrow> bool" where
  "noEmptyDeltas cb =
     (cp_NoEmptyLocalDeltas (rc_proto cb) \<or>
      us_CurrentProtocol (bh_UpgradeState (sd_Hdr (rc_mods cb))) = ConsensusV24 \<and>
      us_NextProtocol (bh_UpgradeState (sd_Hdr (rc_mods cb))) \<noteq> ConsensusV26)"

fun buildLoop ::
    "roundCowLayer \<Rightarrow> appIndex \<Rightarrow> applicationCallTxnFields \<Rightarrow> address \<Rightarrow> (address \<times> storagePtr \<times> storageDelta) list
     \<Rightarrow> bool \<Rightarrow> stateDelta \<Rightarrow> (u64, stateDelta) gomap \<Rightarrow> (ledgerError, stateDelta \<times> (u64, stateDelta) gomap) result" where
  "buildLoop cb aidx ac sender [] foundGlobal globals locals = Ok (globals, locals)"
| "buildLoop cb aidx ac sender ((addr, (idx, global), sdelta) # ds) foundGlobal globals locals =
     (if idx \<noteq> aidx then Err (Errorf ''found storage delta for different app'')
      else if global then
        if foundGlobal then Err (Errorf ''found more than one global delta'')
        else buildLoop cb aidx ac sender ds True (stateDelta_serialize (sto_kvCow sdelta)) locals
      else
        andThen (if rc_compatibilityMode cb then Ok (sto_accountIdx sdelta)
                 else map_result TxnErr (\<lambda>x. x) (IndexByAddress ac addr sender)) (\<lambda>addrOffset.
        let d = stateDelta_serialize (sto_kvCow sdelta)
        in buildLoop cb aidx ac sender ds foundGlobal globals
             (if \<not> noEmptyDeltas cb \<or> d \<noteq> [] then mput addrOffset d locals else locals)))"

definition BuildEvalDelta :: "appIndex \<Rightarrow> applicationCallTxnFields \<Rightarrow> address \<Rightarrow> roundCowState \<Rightarrow> (ledgerError, evalDelta) result" where
  "BuildEvalDelta aidx ac sender s =
     andThen (buildLoop (cow_top s) aidx ac sender (flattenSdeltas (rc_sdeltas (cow_top s))) False [] []) (\<lambda>(globals, locals).
     Ok (EvalDelta globals locals [] []))"

text \<open>
  The interpreter (\<open>data/transactions/logic\<close>): its parameters for a group, a run of a program
  on a layer, and what it recorded for each transaction of the group.
\<close>

record 'p logicVM =
  vm_NewEvalParams :: "signedTxnWithAD list \<Rightarrow> consensusParams \<Rightarrow> specialAddresses \<Rightarrow> 'p"
  vm_EvalContract :: "u8 list \<Rightarrow> nat \<Rightarrow> appIndex \<Rightarrow> 'p \<Rightarrow> roundCowState \<Rightarrow> 'p \<times> (ledgerError, bool \<times> roundCowState) result"
  vm_CheckContract :: "u8 list \<Rightarrow> 'p \<Rightarrow> (ledgerError, unit) result"
  vm_RecordAD :: "nat \<Rightarrow> applyData \<Rightarrow> 'p \<Rightarrow> 'p"
  vm_TxnEvalDelta :: "'p \<Rightarrow> nat \<Rightarrow> evalDelta"
  vm_Txn :: "'p \<Rightarrow> nat \<Rightarrow> transaction"

definition zeroEvalDelta :: evalDelta where
  "zeroEvalDelta = EvalDelta [] [] [] []"

definition StatefulEval ::
    "'p logicVM \<Rightarrow> nat \<Rightarrow> 'p \<Rightarrow> appIndex \<Rightarrow> u8 list \<Rightarrow> roundCowState \<Rightarrow> 'p \<times> (ledgerError, (bool \<times> evalDelta) \<times> roundCowState) result" where
  "StatefulEval vm gi params aidx program s =
     (case vm_EvalContract vm program gi aidx params (child s) of
        (params, Err e) \<Rightarrow> (params, if e = ClearStateBudgetError then Err e else Err (LogicEvalError e))
      | (params, Panic p) \<Rightarrow> (params, Panic p)
      | (params, Ok (pass, calf)) \<Rightarrow>
          (params,
           if \<not> pass then Ok ((False, zeroEvalDelta), s)
           else
             andThen
               (if cp_LogicSigVersion (cow_proto s) < 6 then
                  let txn = vm_Txn vm params gi in
                  andThen (BuildEvalDelta aidx (tx_ApplicationCall txn) (h_Sender (tx_Header txn)) calf) (\<lambda>ed.
                  Ok (EvalDelta (ed_GlobalDelta ed) (ed_LocalDeltas ed)
                        (ed_Logs (vm_TxnEvalDelta vm params gi)) (ed_InnerTxns (vm_TxnEvalDelta vm params gi))))
                else Ok (vm_TxnEvalDelta vm params gi)) (\<lambda>evalDelta.
             andThen (commitToParent calf) (\<lambda>(_, s).
             Ok ((True, evalDelta), s)))))"

fun applyKvCow :: "(string, cowValueDelta) gomap \<Rightarrow> tealKeyValue \<Rightarrow> tealKeyValue" where
  "applyKvCow [] kv = kv"
| "applyKvCow ((k, v) # kvs) kv = applyKvCow kvs (if cv_newExists v then mput k (cv_new v) kv else mdel k kv)"

definition newStore :: "storageDelta \<Rightarrow> tealKeyValue \<Rightarrow> tealKeyValue" where
  "newStore st kv = applyKvCow (sto_kvCow st) (if sto_action st = AllocAction \<and> sto_kvCow st \<noteq> [] then [] else kv)"

definition applyStorageDelta :: "accountData \<Rightarrow> storagePtr \<Rightarrow> storageDelta \<Rightarrow> (ledgerError, accountData) result" where
  "applyStorageDelta data aapp st =
     (if snd aapp then
        (if sto_action st = DeallocAction then Ok (data\<lparr>ad_AppParams := mdel (fst aapp) (ad_AppParams data)\<rparr>)
         else
           (case mget (ad_AppParams data) (fst aapp) of
              None \<Rightarrow> Err (Errorf ''could not find existing params'')
            | Some params \<Rightarrow>
                Ok (data\<lparr>ad_AppParams := mput (fst aapp) (params\<lparr>app_GlobalState := newStore st (app_GlobalState params)\<rparr>)
                  (ad_AppParams data)\<rparr>)))
      else
        (if sto_action st = DeallocAction then Ok (data\<lparr>ad_AppLocalStates := mdel (fst aapp) (ad_AppLocalStates data)\<rparr>)
         else
           (case mget (ad_AppLocalStates data) (fst aapp) of
              None \<Rightarrow> Err (Errorf ''could not find existing states'')
            | Some states \<Rightarrow>
                Ok (data\<lparr>ad_AppLocalStates := mput (fst aapp) (states\<lparr>als_KeyValue := newStore st (als_KeyValue states)\<rparr>)
                  (ad_AppLocalStates data)\<rparr>))))"

fun applyStorageDeltas :: "(storagePtr, storageDelta) gomap \<Rightarrow> accountData \<Rightarrow> (ledgerError, accountData) result" where
  "applyStorageDeltas [] data = Ok data"
| "applyStorageDeltas ((aapp, st) # sts) data =
     (case applyStorageDelta data aapp st of
        Ok data \<Rightarrow> applyStorageDeltas sts data
      | Err e \<Rightarrow> Panic (LogPanic ''applying storage delta failed'')
      | Panic p \<Rightarrow> Panic p)"

fun deltasLoop :: "(address, (storagePtr, storageDelta) gomap) gomap \<Rightarrow> (roundCowState, unit) act" where
  "deltasLoop [] = ret ()"
| "deltasLoop ((addr, smap) # sds) =
     andDo (\<lambda>s. case lookup addr s of
              Ok r \<Rightarrow> Ok r
            | Err e \<Rightarrow> Panic (LogPanic ''fetching account data failed'')
            | Panic p \<Rightarrow> Panic p) (\<lambda>delta.
     andDo (lift (applyStorageDeltas smap delta)) (\<lambda>delta.
     andDo (Put addr delta) (\<lambda>_. deltasLoop sds)))"

definition deltas :: "(roundCowState, ledgerDelta) act" where
  "deltas = (\<lambda>s. andDo (deltasLoop (rc_sdeltas (cow_top s))) (\<lambda>_. (\<lambda>s. Ok (rc_mods (cow_top s), s))) s)"

section \<open>Storage operations leave the accounts alone\<close>

definition baseQuiet :: "(roundCowBase, 'a) act \<Rightarrow> bool" where
  "baseQuiet m \<longleftrightarrow> (\<forall>b x b'. m b = Ok (x, b') \<longrightarrow> baseEq b b')"

lemma baseQuietI: "(\<And>b x b'. m b = Ok (x, b') \<Longrightarrow> baseEq b b') \<Longrightarrow> baseQuiet m"
  unfolding baseQuiet_def by blast

lemma baseQuietD: "baseQuiet m \<Longrightarrow> m b = Ok (x, b') \<Longrightarrow> baseEq b b'"
  unfolding baseQuiet_def by blast

lemma baseQuiet_basic [does_intros]: "baseQuiet (ret x)" "baseQuiet (failWith e)" "baseQuiet (lift r)"
  by (rule baseQuietI, simp add: act_simps)+

lemma baseQuiet_andDo [does_intros]: "baseQuiet m \<Longrightarrow> (\<And>x. baseQuiet (f x)) \<Longrightarrow> baseQuiet (andDo m f)"
  unfolding baseQuiet_def andDo_Ok_iff by (meson baseEq_trans)

lemma baseQuiet_cases [does_intros]:
  "(c \<Longrightarrow> baseQuiet m) \<Longrightarrow> (\<not> c \<Longrightarrow> baseQuiet n) \<Longrightarrow> baseQuiet (if c then m else n)"
  "baseQuiet k \<Longrightarrow> (\<And>y. baseQuiet (f y)) \<Longrightarrow> baseQuiet (case z of None \<Rightarrow> k | Some y \<Rightarrow> f y)"
  "(\<And>v w. baseQuiet (g v w)) \<Longrightarrow> baseQuiet (case q of (v, w) \<Rightarrow> g v w)"
  by (simp_all split: option.split prod.split)

lemma baseQuiet_base [does_intros]: "baseQuiet (base_lookup a)" "baseQuiet (base_getCreator i c)"
  by (auto intro!: baseQuietI dest: base_lookup_Ok base_getCreator_Ok)

lemma baseQuiet_storage [does_intros]:
  "baseQuiet (base_allocated addr aidx global)" "baseQuiet (base_getKey addr aidx global key)"
  "baseQuiet (base_getStorageCounts addr aidx global)" "baseQuiet (base_getStorageLimits aidx global)"
  unfolding base_allocated_def base_getKey_def base_getStorageCounts_def base_getStorageLimits_def
  by (intro does_intros)+

lemma baseQuiet_allocatedIn [does_intros]: "baseQuiet (allocatedIn cbs addr aidx global)"
  by (induction cbs) (auto intro!: does_intros split: option.split storageAction.split)

lemma baseQuiet_countsIn [does_intros]:
  "baseQuiet (getStorageCountsIn cbs addr aidx global)" "baseQuiet (getStorageLimitsIn cbs addr aidx global)"
  by (induction cbs) (auto simp del: allocatedIn.simps intro!: does_intros split: option.split)

lemma noCache_rememberKey [simp]: "noCache (rememberKey addr aapp idx cb) = noCache cb"
  by (simp add: noCache_def rememberKey_def split: option.split)

lemma getKeyIn_noCache:
  "getKeyIn cbs addr aidx global key idx b = Ok ((v, cbs'), b') \<Longrightarrow> map noCache cbs' = map noCache cbs \<and> baseEq b b'"
proof (induction cbs arbitrary: v cbs' b b')
  case Nil
  then show ?case by (auto simp: act_simps dest: baseQuietD [OF baseQuiet_storage(2)])
next
  case (Cons cb cbs)
  let ?up = "andDo (getKeyIn cbs addr aidx global key idx) (\<lambda>(v, cbs). ret (v, rememberKey addr (aidx, global) idx cb # cbs))"
  obtain al b1 where al: "allocatedIn (cb # cbs) addr aidx global b = Ok (al, b1)"
    and r: "(if \<not> al then failWith (Errorf ''cannot fetch key'') else
        case sdGet cb addr (aidx, global) of
            Some lsd \<Rightarrow>
              (case mget (sto_kvCow lsd) key of
                 Some vdelta \<Rightarrow> ret ((cv_new vdelta, cv_newExists vdelta), cb # cbs)
               | None \<Rightarrow> if sto_action lsd \<noteq> RemainAllocAction then ret ((zeroTealValue, False), cb # cbs) else ?up)
          | None \<Rightarrow> ?up) b1 = Ok ((v, cbs'), b')"
    using Cons.prems unfolding getKeyIn.simps Let_def andDo_Ok_iff by blast
  have e: "baseEq b b1" by (rule baseQuietD [OF baseQuiet_allocatedIn al])
  have up: "?up b1 = Ok ((v, cbs'), b') \<Longrightarrow> map noCache cbs' = map noCache (cb # cbs) \<and> baseEq b1 b'"
    using Cons.IH by (auto simp: act_simps split: prod.splits)
  show ?case using r e up
    by (auto simp: act_simps split: if_splits option.splits intro: baseEq_trans)
qed

lemma noCache_sel [simp]: "rc_mods (noCache cb) = rc_mods cb" "rc_proto (noCache cb) = rc_proto cb"
  by (simp_all add: noCache_def)

lemma view_noCache:
  assumes "map noCache cbs' = map noCache cbs"
  shows "viewIn cbs' b = viewIn cbs b"
  using assms
proof (induction cbs arbitrary: cbs')
  case Nil
  then show ?case by simp
next
  case (Cons cb cbs)
  then obtain cb' cbs'' where c: "cbs' = cb' # cbs''" "noCache cb' = noCache cb" "map noCache cbs'' = map noCache cbs"
    by (cases cbs') auto
  then have "rc_mods cb' = rc_mods cb" by (metis noCache_sel(1))
  then show ?case using Cons.IH [OF c(3)] by (simp add: c(1) fun_eq_iff split: option.split)
qed

lemma cowOK_noCache: "map noCache (layers t) = map noCache (layers s) \<Longrightarrow> cowOK s \<Longrightarrow> cowOK t"
  unfolding cowOK_def by (metis (no_types, lifting) image_iff list.set_map noCache_sel(1))

lemma quiet_setLayers:
  assumes "okState s" "map noCache cbs = map noCache (layers s)" "baseEq (cow_base s) b"
  shows "okState (setLayers cbs (s\<lparr>cow_base := b\<rparr>)) \<and> quiet s (setLayers cbs (s\<lparr>cow_base := b\<rparr>))"
proof -
  obtain cb ps where c: "cbs = cb # ps" "noCache cb = noCache (cow_top s)" "map noCache ps = map noCache (cow_parents s)"
    using assms(2) by (cases cbs) (auto simp: layers_def)
  let ?t = "setLayers cbs (s\<lparr>cow_base := b\<rparr>)"
  have t: "?t = s\<lparr>cow_top := cb, cow_parents := ps, cow_base := b\<rparr>" by (simp add: setLayers_def c(1))
  have l: "layers ?t = cbs" by (simp add: setLayers_def layers_def c(1))
  have f: "sameFrame s ?t" using c assms(3) frameOf_noCache unfolding sameFrame_def t by simp (metis frameOf_noCache)
  have "view ?t = view s"
    unfolding view_def l using view_noCache [OF assms(2)] viewIn_baseEq [OF assms(3)] by (simp add: t)
  then have a: "acct ?t = acct s" by (simp add: acct_def fun_eq_iff)
  have "cowOK ?t" using cowOK_noCache [of ?t s] assms(1,2) l by (simp add: okState_def)
  moreover have "ids ?t = ids s" using noCache_sel(1) c(2) unfolding ids_def t by simp (metis noCache_sel(1))
  ultimately show ?thesis using okState_frame [OF assms(1) f] f a by (simp add: quiet_def)
qed

lemma does_onBase: "(\<And>s. baseQuiet (m s)) \<Longrightarrow> does quiet (\<lambda>s. onBase (m s) s)"
proof (rule doesI)
  fix s x t
  assume m: "\<And>s. baseQuiet (m s)" and s: "okState s" and t: "onBase (m s) s = Ok (x, t)"
  from t obtain b where b: "m s (cow_base s) = Ok (x, b)" "t = s\<lparr>cow_base := b\<rparr>" unfolding onBase_Ok_iff by blast
  show "okState t \<and> quiet s t" using baseQuietD [OF m b(1)] by (intro quiet_cowEq [OF s]) (simp add: cowEq_def b(2))
qed

lemma does_GetKey [does_intros]: "does quiet (GetKey addr aidx global key idx)"
proof (rule doesI)
  fix s x t
  assume s: "okState s" and g: "GetKey addr aidx global key idx s = Ok (x, t)"
  from g obtain cbs b where k: "getKeyIn (layers s) addr aidx global key idx (cow_base s) = Ok ((x, cbs), b)"
    and t: "t = setLayers cbs (s\<lparr>cow_base := b\<rparr>)"
    unfolding GetKey_def andDo_Ok_iff onBase_Ok_iff by (auto split: prod.splits)
  show "okState t \<and> quiet s t" unfolding t using getKeyIn_noCache [OF k] by (intro quiet_setLayers [OF s]) simp_all
qed

lemma does_reads [does_intros]:
  "does quiet (allocated addr aidx global)" "does quiet (getStorageCounts addr aidx global)" "does quiet (getStorageLimits addr aidx global)"
  unfolding allocated_def getStorageCounts_def getStorageLimits_def by (intro does_onBase does_intros)+

lemma does_updTop:
  assumes "\<And>cb. frameOf (f cb) = frameOf cb" "\<And>cb. sd_Accts (rc_mods (f cb)) = sd_Accts (rc_mods cb)"
    "\<And>cb. idsOf (rc_mods cb) \<subseteq> idsOf (rc_mods (f cb))"
  shows "does quiet (\<lambda>s. Ok (x, updTop f s))"
proof (rule doesI)
  fix s y t
  assume s: "okState s" and "Ok (x, updTop f s) = Ok (y, t)"
  then have t: "t = updTop f s" by simp
  have fr: "sameFrame s t" by (simp add: sameFrame_def t updTop_def assms(1))
  have "cowOK t" using s by (simp add: t cowOK_def layers_def updTop_def okState_def assms(2))
  moreover have "acct t = acct s" by (simp add: t acct_def view_def layers_def updTop_def assms(2) fun_eq_iff)
  ultimately show "okState t \<and> quiet s t" using okState_frame [OF s fr] fr assms(3) by (simp add: quiet_def ids_def t updTop_def)
qed

lemma does_updMods:
  assumes "\<And>m. sd_Accts (f m) = sd_Accts m" "\<And>m. sd_Hdr (f m) = sd_Hdr m \<and> sd_PrevTimestamp (f m) = sd_PrevTimestamp m"
    "\<And>m. sd_Txids (f m) = sd_Txids m"
  shows "does quiet (\<lambda>s. Ok (x, updMods f s))"
  by (rule doesI) (use quiet_updMods [OF _ assms] in blast)

lemma does_storeDelta [does_intros]: "does quiet (storeDelta addr aapp lsd)"
  unfolding storeDelta_def by (rule does_updTop) (simp_all add: sdPut_def frameOf_def)

lemma does_noteCreatable [does_intros]: "does quiet (noteCreatable addr aidx global created)"
  unfolding noteCreatable_def by (cases global) (simp_all add: does_updMods)

lemma does_assets [does_intros]: "does quiet (AllocateAsset addr idx global)" "does quiet (DeallocateAsset addr idx global)"
  unfolding AllocateAsset_def DeallocateAsset_def by (cases global; simp add: does_updMods)+

lemma does_ensure [does_intros]: "does quiet (ensureStorageDelta addr aidx global action idx)"
  unfolding ensureStorageDelta_def by (intro quiet_rules does_intros)

lemma does_apps [does_intros]: "does quiet (AllocateApp addr aidx global space)" "does quiet (DeallocateApp addr aidx global)"
  unfolding AllocateApp_def DeallocateApp_def by (intro quiet_rules does_intros)+

lemma does_SetKey [does_intros]: "does quiet (SetKey addr aidx global key val idx)"
  unfolding SetKey_def by (intro quiet_rules does_intros)

lemma does_DelKey [does_intros]: "does quiet (DelKey addr aidx global key idx)"
  unfolding DelKey_def
proof (intro quiet_rules does_intros)
  fix oldValue oldOk
  let ?r = "\<lambda>lsd. andDo (lift (updateCounts (recordKey key oldValue oldOk zeroTealValue False lsd) oldValue oldOk zeroTealValue False))
    (storeDelta addr (aidx, global))"
  have r: "does quiet (?r lsd)" for lsd by (intro quiet_rules does_intros)
  show "does quiet (\<lambda>s. case ensureStorageDelta addr aidx global RemainAllocAction idx s of
              Err e \<Rightarrow> Ok ((), s)
            | Panic p \<Rightarrow> Panic p
            | Ok (lsd, s) \<Rightarrow> ?r lsd s)"
  proof (rule doesI)
    fix s x t
    assume s: "okState s" and m: "(case ensureStorageDelta addr aidx global RemainAllocAction idx s of
              Err e \<Rightarrow> Ok ((), s)
            | Panic p \<Rightarrow> Panic p
            | Ok (lsd, s) \<Rightarrow> ?r lsd s) = Ok (x, t)"
    show "okState t \<and> quiet s t"
    proof (cases "ensureStorageDelta addr aidx global RemainAllocAction idx s")
      case (Ok r)
      then obtain lsd s1 where e: "ensureStorageDelta addr aidx global RemainAllocAction idx s = Ok (lsd, s1)" by (cases r) auto
      with m have "?r lsd s1 = Ok (x, t)" by simp
      then show ?thesis using doesD [OF does_ensure s e] doesD [OF r] qt.trans by blast
    qed (use m s qt.refl in auto)
  qed
qed

end
