(* ===== verification/Ledger_Rules.thy ===== *)
theory Ledger_Rules
  imports Ledger_App_Cow
begin

text \<open>
  A small program logic for operations on the copy-on-write state. \<open>holds p l P R m\<close> says:
  from a good state with parameters \<open>p\<close>, reward level \<open>l\<close> and accounts that satisfy \<open>P\<close>, a
  successful run of \<open>m\<close> ends in a good state that \<open>R\<close> relates to the first. The rules
  follow the structure of an operation. They are proved once for any relation that composes
  and that reading respects.
\<close>

section \<open>Rules\<close>

definition holds ::
    "consensusParams \<Rightarrow> u64 \<Rightarrow> ((address \<Rightarrow> accountData) \<Rightarrow> bool) \<Rightarrow> (roundCowState \<Rightarrow> roundCowState \<Rightarrow> bool)
     \<Rightarrow> (roundCowState, 'a) act \<Rightarrow> bool" where
  "holds p l P R m \<longleftrightarrow> (\<forall>s x t. okState s \<longrightarrow> cow_proto s = p \<longrightarrow> rewardsLevel s = l \<longrightarrow> P (acct s) \<longrightarrow>
     m s = Ok (x, t) \<longrightarrow> okState t \<and> R s t)"

lemma holdsI:
  "(\<And>s x t. okState s \<Longrightarrow> cow_proto s = p \<Longrightarrow> rewardsLevel s = l \<Longrightarrow> P (acct s) \<Longrightarrow> m s = Ok (x, t) \<Longrightarrow> okState t \<and> R s t)
   \<Longrightarrow> holds p l P R m"
  unfolding holds_def by blast

lemma holdsD:
  "holds p l P R m \<Longrightarrow> okState s \<Longrightarrow> cow_proto s = p \<Longrightarrow> rewardsLevel s = l \<Longrightarrow> P (acct s) \<Longrightarrow> m s = Ok (x, t)
   \<Longrightarrow> okState t \<and> R s t"
  unfolding holds_def by blast

lemma does_holds: "does R m \<longleftrightarrow> (\<forall>p l. holds p l (\<lambda>_. True) R m)"
  unfolding does_def holds_def by blast

lemma holds_does: "does R m \<Longrightarrow> holds p l P R m"
  unfolding does_def holds_def by blast

lemma holds_weaken: "holds p l Q R m \<Longrightarrow> (\<And>A. P A \<Longrightarrow> Q A) \<Longrightarrow> holds p l P R m"
  unfolding holds_def by blast

locale ledger_step = step_relation R for R +
  assumes quiet_step: "okState s \<Longrightarrow> quiet s t \<Longrightarrow> R s t"
    and step_frame: "R s t \<Longrightarrow> sameFrame s t"
begin

lemma holds_basic: "holds p l P R (ret x)" "holds p l P R (failWith e)" "holds p l P R (lift r)" "holds p l P R (checkThat c e)"
  by (rule holds_does, rule does_basic)+

lemma holds_quiet: "does quiet m \<Longrightarrow> holds p l P R m"
  by (rule holds_does, erule does_mono, rule quiet_step)

lemma holds_if: "(c \<Longrightarrow> holds p l P R m) \<Longrightarrow> (\<not> c \<Longrightarrow> holds p l P R n) \<Longrightarrow> holds p l P R (if c then m else n)"
  by simp

lemma holds_option:
  "(z = None \<Longrightarrow> holds p l P R m) \<Longrightarrow> (\<And>x. z = Some x \<Longrightarrow> holds p l P R (f x)) \<Longrightarrow> holds p l P R (case z of None \<Rightarrow> m | Some x \<Rightarrow> f x)"
  by (cases z) simp_all

lemma holds_prod: "(\<And>x y. z = (x, y) \<Longrightarrow> holds p l P R (f x y)) \<Longrightarrow> holds p l P R (case z of (x, y) \<Rightarrow> f x y)"
  by (cases z) simp

lemma holds_let: "(\<And>x. x = z \<Longrightarrow> holds p l P R (f x)) \<Longrightarrow> holds p l P R (let x = z in f x)"
  by (simp add: Let_def)

lemma holds_withState: "(\<And>s. cow_proto s = p \<Longrightarrow> holds p l P R (f s)) \<Longrightarrow> holds p l P R (withState f)"
  unfolding holds_def withState_def by blast

lemma holds_bind:
  assumes "holds p l P R m" "\<And>x. holds p l (\<lambda>_. True) R (f x)"
  shows "holds p l P R (andDo m f)"
proof (rule holdsI)
  fix s x t
  assume s: "okState s" "cow_proto s = p" "rewardsLevel s = l" "P (acct s)" and m: "andDo m f s = Ok (x, t)"
  then obtain y s1 where m1: "m s = Ok (y, s1)" and f: "f y s1 = Ok (x, t)" unfolding andDo_Ok_iff by blast
  have s1: "okState s1" "R s s1" using holdsD [OF assms(1) s m1] by simp_all
  note fr = sameFrame_simps [OF step_frame [OF s1(2)]]
  show "okState t \<and> R s t" using holdsD [OF assms(2) s1(1) _ _ _ f] fr s s1(2) trans by blast
qed

lemma holds_bind_post:
  assumes "holds p l P R m" "holds p l P (\<lambda>s t. Q (acct t)) m" "\<And>x. holds p l Q R (f x)"
  shows "holds p l P R (andDo m f)"
proof (rule holdsI)
  fix s x t
  assume s: "okState s" "cow_proto s = p" "rewardsLevel s = l" "P (acct s)" and m: "andDo m f s = Ok (x, t)"
  then obtain y s1 where m1: "m s = Ok (y, s1)" and f: "f y s1 = Ok (x, t)" unfolding andDo_Ok_iff by blast
  have s1: "okState s1" "R s s1" "Q (acct s1)" using holdsD [OF assms(1) s m1] holdsD [OF assms(2) s m1] by simp_all
  note fr = sameFrame_simps [OF step_frame [OF s1(2)]]
  show "okState t \<and> R s t" using holdsD [OF assms(3) s1(1) _ _ s1(3) f] fr s s1(2) trans by blast
qed

text \<open>Reading keeps what is known of the accounts.\<close>

lemma holds_quiet_bind:
  assumes "does quiet m" "\<And>x. holds p l P R (f x)"
  shows "holds p l P R (andDo m f)"
proof (rule holdsI)
  fix s x t
  assume s: "okState s" "cow_proto s = p" "rewardsLevel s = l" "P (acct s)" and m: "andDo m f s = Ok (x, t)"
  then obtain y s1 where m1: "m s = Ok (y, s1)" and f: "f y s1 = Ok (x, t)" unfolding andDo_Ok_iff by blast
  have s1: "okState s1" "quiet s s1" using doesD [OF assms(1) s(1) m1] by simp_all
  have a: "acct s1 = acct s" "sameFrame s s1" using s1(2) by (simp_all add: quiet_def)
  have "okState t \<and> R s1 t"
    using holdsD [OF assms(2) s1(1) _ _ _ f] sameFrame_simps [OF a(2)] a(1) s by simp
  then show "okState t \<and> R s t" using quiet_step [OF s(1) s1(2)] trans by blast
qed

lemma holds_Get_bind:
  assumes "\<And>d. holds p l (\<lambda>A. P A \<and> A a = d) R (f d)"
  shows "holds p l P R (andDo (Get a False) f)"
proof (rule holdsI)
  fix s x t
  assume s: "okState s" "cow_proto s = p" "rewardsLevel s = l" "P (acct s)" and m: "andDo (Get a False) f s = Ok (x, t)"
  then obtain d s1 where g: "Get a False s = Ok (d, s1)" and f: "f d s1 = Ok (x, t)" unfolding andDo_Ok_iff by blast
  have e: "acct s a = d" "cowEq s s1" using Get_view [OF _ g] s(1) by (simp_all add: okState_def)
  have s1: "okState s1" "quiet s s1" using quiet_cowEq [OF s(1) e(2)] by simp_all
  have "okState t \<and> R s1 t"
    using holdsD [OF assms s1(1) _ _ _ f] e s cowEq_simps [OF e(2)] by simp
  then show "okState t \<and> R s t" using quiet_step [OF s(1) s1(2)] trans by blast
qed

lemma holds_GetRewards_bind:
  assumes "\<And>d. holds p l (\<lambda>A. P A \<and> unat (ad_MicroNovas d) = worth p l (A a)) R (f d)"
  shows "holds p l P R (andDo (Get a True) f)"
proof (rule holdsI)
  fix s x t
  assume s: "okState s" "cow_proto s = p" "rewardsLevel s = l" "P (acct s)" and m: "andDo (Get a True) f s = Ok (x, t)"
  then obtain d s1 where g: "Get a True s = Ok (d, s1)" and f: "f d s1 = Ok (x, t)" unfolding andDo_Ok_iff by blast
  from g obtain u where u: "lookup a s = Ok (u, s1)" "(WithUpdatedRewards u p l :: (ledgerError, accountData) result) = Ok d"
    unfolding Get_def withState_def andDo_Ok_iff by (auto simp: act_simps s(2,3))
  have e: "acct s a = u" "cowEq s s1" using lookup_view [OF _ u(1)] s(1) by (simp_all add: okState_def)
  have w: "unat (ad_MicroNovas d) = worth p l u"
    using WithUpdatedRewards_worth [OF u(2)] s(1,2) by (simp add: okState_def)
  have s1: "okState s1" "quiet s s1" using quiet_cowEq [OF s(1) e(2)] by simp_all
  have "okState t \<and> R s1 t"
    using holdsD [OF assms s1(1) _ _ _ f] e s w cowEq_simps [OF e(2)] by simp
  then show "okState t \<and> R s t" using quiet_step [OF s(1) s1(2)] trans by blast
qed

end

lemma holds_Put:
  assumes "\<And>s. okState s \<Longrightarrow> cow_proto s = p \<Longrightarrow> rewardsLevel s = l \<Longrightarrow> P (acct s) \<Longrightarrow> R s (putAcct a d s)"
  shows "holds p l P R (Put a d)"
proof (rule holdsI)
  fix s x t
  assume s: "okState s" "cow_proto s = p" "rewardsLevel s = l" "P (acct s)" and m: "Put a d s = Ok (x, t)"
  have ok: "cowOK s" using s(1) by (simp add: okState_def)
  then have t: "t = putAcct a d s" using m by (simp add: Put_eq)
  show "okState t \<and> R s t"
    using okState_frame [OF s(1) sameFrame_putAcct putAcct_view(2) [OF ok]] assms [OF s] by (simp add: t)
qed

section \<open>Policies\<close>

text \<open>
  A policy is a relation that every transaction respects if the few ways of changing an
  account do: writing a record with the same balance, reward base and status; changing the
  status of an account that has claimed its rewards; clearing an account that is worth
  nothing; moving money; and committing a layer. The theories on transactions prove once that
  the operations respect every policy. Conservation of money is one, the bound on reward
  bases in \<open>Ledger_Totals\<close> another.
\<close>

definition settled :: "consensusParams \<Rightarrow> u64 \<Rightarrow> accountData \<Rightarrow> bool" where
  "settled p l u \<longleftrightarrow> worth p l u = unat (ad_MicroNovas u)"

definition sameBalance :: "accountData \<Rightarrow> accountData \<Rightarrow> bool" where
  "sameBalance u v \<longleftrightarrow> ad_MicroNovas u = ad_MicroNovas v \<and> ad_RewardsBase u = ad_RewardsBase v"

locale ledger_policy = ledger_step R for R +
  assumes put_same: "okState s \<Longrightarrow> sameBalance d (acct s a) \<Longrightarrow> ad_Status d = ad_Status (acct s a) \<Longrightarrow> R s (putAcct a d s)"
    and put_status: "okState s \<Longrightarrow> sameBalance d (acct s a) \<Longrightarrow> settled (cow_proto s) (rewardsLevel s) (acct s a)
      \<Longrightarrow> ad_Status (acct s a) \<noteq> NotParticipating \<Longrightarrow> R s (putAcct a d s)"
    and put_closed: "okState s \<Longrightarrow> worth (cow_proto s) (rewardsLevel s) (acct s a) = 0 \<Longrightarrow> R s (putAcct a zeroAccountData s)"
    and does_transfer: "does R (Move from to amt fr tr)"
    and commit_step: "R (child s) c \<Longrightarrow> okState c \<Longrightarrow> okState s \<Longrightarrow> commitToParent c = Ok (u, t) \<Longrightarrow> R s t"
begin

lemmas holds_cases = holds_basic holds_if holds_option holds_prod holds_let holds_withState
lemmas does_rules = does_basic does_andDo does_if does_option does_prod does_let does_withState

lemma does_quiet: "does quiet m \<Longrightarrow> does R m"
  by (erule does_mono, rule quiet_step)

lemma holds_Put_same:
  assumes "\<And>A. P A \<Longrightarrow> sameBalance d (A a) \<and> ad_Status d = ad_Status (A a)"
  shows "holds p l P R (Put a d)"
  by (rule holds_Put) (use assms put_same in blast)

lemma holds_Put_status:
  assumes "\<And>A. P A \<Longrightarrow> sameBalance d (A a) \<and> settled p l (A a) \<and> ad_Status (A a) \<noteq> NotParticipating"
  shows "holds p l P R (Put a d)"
  by (rule holds_Put) (use assms put_status in blast)

lemma holds_Put_closed:
  assumes "\<And>A. P A \<Longrightarrow> worth p l (A a) = 0"
  shows "holds p l P R (Put a zeroAccountData)"
  by (rule holds_Put) (use assms put_closed in blast)

lemma post_bind:
  assumes "does R m" "holds p l P (\<lambda>s t. Q (acct t)) m" "\<And>x. holds p l Q (\<lambda>s t. Q' (acct t)) (f x)"
  shows "holds p l P (\<lambda>s t. Q' (acct t)) (andDo m f)"
proof (rule holdsI)
  fix s x t
  assume s: "okState s" "cow_proto s = p" "rewardsLevel s = l" "P (acct s)" and m: "andDo m f s = Ok (x, t)"
  then obtain y s1 where m1: "m s = Ok (y, s1)" and f: "f y s1 = Ok (x, t)" unfolding andDo_Ok_iff by blast
  have s1: "okState s1" "R s s1" "Q (acct s1)"
    using doesD [OF assms(1) s(1) m1] holdsD [OF assms(2) s m1] by simp_all
  show "okState t \<and> Q' (acct t)"
    using holdsD [OF assms(3) s1(1) _ _ s1(3) f] sameFrame_simps [OF step_frame [OF s1(2)]] s by simp
qed

end

section \<open>The money of the ledger\<close>

lemma worth_same:
  "sameBalance u v \<Longrightarrow> ad_Status u = ad_Status v \<Longrightarrow> worth p l u = worth p l v"
  by (simp add: worth_def rewardsDue_def sameBalance_def)

lemma worth_status:
  "settled p l v \<Longrightarrow> ad_Status v \<noteq> NotParticipating \<Longrightarrow> sameBalance u v \<Longrightarrow> worth p l u = worth p l v"
  by (auto simp: settled_def worth_def rewardsDue_def sameBalance_def)

lemma worth_zero [simp]: "worth p l zeroAccountData = 0"
  by (simp add: worth_def zeroAccountData_def rewardsDue_def)

lemma money_Put: "okState s \<Longrightarrow> worth (cow_proto s) (rewardsLevel s) d = worth (cow_proto s) (rewardsLevel s) (acct s a)
    \<Longrightarrow> keepsMoney s (putAcct a d s)"
  using put_money by blast

interpretation money: ledger_policy keepsMoney
proof unfold_locales
  show "okState s \<Longrightarrow> quiet s t \<Longrightarrow> keepsMoney s t" for s t by (rule quiet_keepsMoney)
  show "keepsMoney s t \<Longrightarrow> sameFrame s t" for s t by (simp add: keepsMoney_def)
  show "okState s \<Longrightarrow> sameBalance d (acct s a) \<Longrightarrow> ad_Status d = ad_Status (acct s a) \<Longrightarrow> keepsMoney s (putAcct a d s)" for s d a
    by (rule money_Put, assumption, rule worth_same)
  show "okState s \<Longrightarrow> sameBalance d (acct s a) \<Longrightarrow> settled (cow_proto s) (rewardsLevel s) (acct s a)
      \<Longrightarrow> ad_Status (acct s a) \<noteq> NotParticipating \<Longrightarrow> keepsMoney s (putAcct a d s)" for s d a
    by (rule money_Put, assumption, rule worth_status)
  show "okState s \<Longrightarrow> worth (cow_proto s) (rewardsLevel s) (acct s a) = 0 \<Longrightarrow> keepsMoney s (putAcct a zeroAccountData s)" for s a
    by (rule money_Put) simp_all
  show "does keepsMoney (Move from to amt fr tr)" for "from" to amt fr tr by (rule does_Move)
  show "keepsMoney (child s) c \<Longrightarrow> okState c \<Longrightarrow> okState s \<Longrightarrow> commitToParent c = Ok (u, t) \<Longrightarrow> keepsMoney s t" for s c u t
    by (simp add: child_commit_money)
qed

end
