(* ===== verification/Ledger_Apply.thy ===== *)
theory Ledger_Apply
  imports Ledger_Rules
begin

text \<open>
  What each type of transaction does to the balances (\<open>src/ledger/apply\<close>): payments, key
  registrations, asset configuration, transfer and freezing, application calls and address
  prints. The Go code works on the interface \<open>Balances\<close>; here it works on its one
  implementation outside the tests, the copy-on-write state. A pointer to the apply data
  that an operation fills in is an argument and a result.

  The lemmas show, per operation, that a successful run respects every policy; among them is
  the conservation of money.
\<close>

section \<open>Apply data\<close>

definition setSenderRewards :: "microNovas option \<Rightarrow> applyData \<Rightarrow> applyData" where
  "setSenderRewards r ad = (case (r, ad) of
     (Some r, ApplyData c a sr rr cr ed ca ap) \<Rightarrow> ApplyData c a r rr cr ed ca ap | _ \<Rightarrow> ad)"

definition setReceiverRewards :: "microNovas option \<Rightarrow> applyData \<Rightarrow> applyData" where
  "setReceiverRewards r ad = (case (r, ad) of
     (Some r, ApplyData c a sr rr cr ed ca ap) \<Rightarrow> ApplyData c a sr r cr ed ca ap | _ \<Rightarrow> ad)"

definition setCloseRewards :: "microNovas option \<Rightarrow> applyData \<Rightarrow> applyData" where
  "setCloseRewards r ad = (case (r, ad) of
     (Some r, ApplyData c a sr rr cr ed ca ap) \<Rightarrow> ApplyData c a sr rr r ed ca ap | _ \<Rightarrow> ad)"

definition setClosingAmount :: "microNovas \<Rightarrow> applyData \<Rightarrow> applyData" where
  "setClosingAmount x ad = (case ad of ApplyData c a sr rr cr ed ca ap \<Rightarrow> ApplyData x a sr rr cr ed ca ap)"

definition setAssetClosingAmount :: "u64 \<Rightarrow> applyData \<Rightarrow> applyData" where
  "setAssetClosingAmount x ad = (case ad of ApplyData c a sr rr cr ed ca ap \<Rightarrow> ApplyData c x sr rr cr ed ca ap)"

definition setEvalDelta :: "evalDelta \<Rightarrow> applyData \<Rightarrow> applyData" where
  "setEvalDelta x ad = (case ad of ApplyData c a sr rr cr ed ca ap \<Rightarrow> ApplyData c a sr rr cr x ca ap)"

definition setConfigAsset :: "assetIndex \<Rightarrow> applyData \<Rightarrow> applyData" where
  "setConfigAsset x ad = (case ad of ApplyData c a sr rr cr ed ca ap \<Rightarrow> ApplyData c a sr rr cr ed x ap)"

definition setApplicationID :: "appIndex \<Rightarrow> applyData \<Rightarrow> applyData" where
  "setApplicationID x ad = (case ad of ApplyData c a sr rr cr ed ca ap \<Rightarrow> ApplyData c a sr rr cr ed ca x)"

section \<open>Rekeying and payments\<close>

definition Rekey :: "transaction \<Rightarrow> (roundCowState, unit) act" where
  "Rekey tx =
     (let hdr = tx_Header tx in
      if h_RekeyTo hdr \<noteq> 0 then
        andDo (Get (h_Sender hdr) False) (\<lambda>acct.
        Put (h_Sender hdr) (acct\<lparr>ad_AuthAddr := if h_RekeyTo hdr = h_Sender hdr then 0 else h_RekeyTo hdr\<rparr>))
      else ret ())"

definition closeRemainder :: "paymentTxnFields \<Rightarrow> txnHeader \<Rightarrow> applyData \<Rightarrow> (roundCowState, applyData) act" where
  "closeRemainder payment header ad =
     andDo (Get (h_Sender header) True) (\<lambda>rec.
     let closeAmount = ad_MicroNovas rec; ad = setClosingAmount closeAmount ad in
     andDo (Move (h_Sender header) (pay_CloseRemainderTo payment) closeAmount
       (Some (apd_SenderRewards ad)) (Some (apd_CloseRewards ad))) (\<lambda>(sr, cr).
     let ad = setCloseRewards cr (setSenderRewards sr ad) in
     andDo (Get (h_Sender header) True) (\<lambda>rec.
     if \<not> IsZero (ad_MicroNovas rec) then failWith (Errorf ''balance still not zero after CloseRemainderTo'')
     else if ad_Assets rec \<noteq> [] then failWith (Errorf ''cannot close: outstanding assets'')
     else if ad_AssetParams rec \<noteq> [] then failWith (Errorf ''cannot close: outstanding created assets'')
     else if ad_AppLocalStates rec \<noteq> [] then failWith (Errorf ''cannot close: outstanding applications opted in'')
     else if ad_AppParams rec \<noteq> [] then failWith (Errorf ''cannot close: outstanding created applications'')
     else andDo (Put (h_Sender header) zeroAccountData) (\<lambda>_. ret ad))))"

definition Payment :: "paymentTxnFields \<Rightarrow> txnHeader \<Rightarrow> applyData \<Rightarrow> (roundCowState, applyData) act" where
  "Payment payment header ad =
     andDo
       (if \<not> IsZero (pay_Amount payment) \<or> pay_Receiver payment \<noteq> 0 then
          andDo (Move (h_Sender header) (pay_Receiver payment) (pay_Amount payment)
            (Some (apd_SenderRewards ad)) (Some (apd_ReceiverRewards ad))) (\<lambda>(sr, rr).
          ret (setReceiverRewards rr (setSenderRewards sr ad)))
        else ret ad) (\<lambda>ad.
     if pay_CloseRemainderTo payment \<noteq> 0 then closeRemainder payment header ad else ret ad)"

section \<open>Key registration\<close>

definition Keyreg :: "keyregTxnFields \<Rightarrow> txnHeader \<Rightarrow> specialAddresses \<Rightarrow> round \<Rightarrow> (roundCowState, unit) act" where
  "Keyreg keyreg header spec rnd = withState (\<lambda>s.
     let proto = cow_proto s in
     if h_Sender header = FeeSink spec then failWith (Errorf ''cannot register participation key for fee sink'')
     else
       andDo (Get (h_Sender header) False) (\<lambda>record.
       if ad_Status record = NotParticipating then
         failWith (Errorf ''cannot change online/offline status of non-participating account'')
       else
         let record = record\<lparr>ad_VoteID := kr_VotePK keyreg, ad_SelectionID := kr_SelectionPK keyreg\<rparr> in
         if kr_VotePK keyreg = 0 \<or> kr_SelectionPK keyreg = 0 then
           if kr_Nonparticipation keyreg \<and> \<not> cp_SupportBecomeNonParticipatingTransactions proto then
             failWith (Errorf ''transaction tries to mark an account as nonparticipating'')
           else
             Put (h_Sender header) (record\<lparr>ad_Status := if kr_Nonparticipation keyreg then NotParticipating else Offline,
               ad_VoteFirstValid := 0, ad_VoteLastValid := 0, ad_VoteKeyDilution := 0\<rparr>)
         else if cp_EnableKeyregCoherencyCheck proto \<and> kr_VoteLast keyreg \<le> rnd then
           failWith (Errorf ''transaction tries to mark an account as online with last voting round in the past'')
         else if cp_EnableKeyregCoherencyCheck proto \<and> kr_VoteFirst keyreg > rnd + 1 then
           failWith (Errorf ''transaction tries to mark an account as online with first voting round beyond the next voting round'')
         else
           let record = record\<lparr>ad_Status := Online, ad_VoteFirstValid := kr_VoteFirst keyreg,
             ad_VoteLastValid := kr_VoteLast keyreg, ad_VoteKeyDilution := kr_VoteKeyDilution keyreg\<rparr>
           in Put (h_Sender header)
                (if cp_EnableStateProofKeyregCheck proto then record\<lparr>ad_StateProofID := kr_StateProofPK keyreg\<rparr> else record)))"

section \<open>Assets\<close>

definition zeroHolding :: assetHolding where
  "zeroHolding = \<lparr>ah_Amount = 0, ah_Frozen = False\<rparr>"

definition getParams :: "assetIndex \<Rightarrow> (roundCowState, assetParams \<times> address) act" where
  "getParams aidx =
     andDo (GetCreator aidx AssetCreatable) (\<lambda>(creator, exist).
     if \<not> exist then failWith (Errorf ''asset does not exist or has been deleted'')
     else
       andDo (Get creator False) (\<lambda>creatorRecord.
       case mget (ad_AssetParams creatorRecord) aidx of
         None \<Rightarrow> failWith (Errorf ''asset index not found in account'')
       | Some params \<Rightarrow> ret (params, creator)))"

definition reconfigure :: "assetParams \<Rightarrow> assetParams \<Rightarrow> assetParams" where
  "reconfigure new params =
     params\<lparr>ap_Manager := if ap_Manager params \<noteq> 0 then ap_Manager new else ap_Manager params,
            ap_Reserve := if ap_Reserve params \<noteq> 0 then ap_Reserve new else ap_Reserve params,
            ap_Freeze := if ap_Freeze params \<noteq> 0 then ap_Freeze new else ap_Freeze params,
            ap_Clawback := if ap_Clawback params \<noteq> 0 then ap_Clawback new else ap_Clawback params\<rparr>"

definition AssetConfig :: "assetConfigTxnFields \<Rightarrow> txnHeader \<Rightarrow> applyData \<Rightarrow> u64 \<Rightarrow> (roundCowState, applyData) act" where
  "AssetConfig cc header ad ctr = withState (\<lambda>s.
     let proto = cow_proto s in
     if ac_ConfigAsset cc = 0 then
       andDo (Get (h_Sender header) False) (\<lambda>record.
       let newidx = ctr + 1 in
       if mget (ad_AssetParams record) newidx \<noteq> None then failWith (Errorf ''already found asset with index'')
       else
         let record = record\<lparr>ad_AssetParams := mput newidx (ac_AssetParams cc) (ad_AssetParams record),
               ad_Assets := mput newidx (zeroHolding\<lparr>ah_Amount := ap_Total (ac_AssetParams cc)\<rparr>) (ad_Assets record)\<rparr> in
         if int (length (ad_Assets record)) > cp_MaxAssetsPerAccount proto then failWith (Errorf ''too many assets in account'')
         else
           andDo (Put (h_Sender header) record) (\<lambda>_.
           andDo (AllocateAsset (h_Sender header) newidx True) (\<lambda>_.
           andDo (AllocateAsset (h_Sender header) newidx False) (\<lambda>_.
           ret (setConfigAsset newidx ad)))))
     else
       andDo (getParams (ac_ConfigAsset cc)) (\<lambda>(params, creator).
       if ap_Manager params = 0 \<or> h_Sender header \<noteq> ap_Manager params then
         failWith (Errorf ''this transaction should be issued by the manager'')
       else
         andDo (Get creator False) (\<lambda>record.
         if ac_AssetParams cc = zeroAssetParams then
           if ah_Amount (mgetd zeroHolding (ad_Assets record) (ac_ConfigAsset cc)) \<noteq> ap_Total params then
             failWith (Errorf ''cannot destroy asset: creator is holding only'')
           else
             andDo (DeallocateAsset creator (ac_ConfigAsset cc) True) (\<lambda>_.
             andDo (DeallocateAsset creator (ac_ConfigAsset cc) False) (\<lambda>_.
             andDo (Put creator (record\<lparr>ad_Assets := mdel (ac_ConfigAsset cc) (ad_Assets record),
                 ad_AssetParams := mdel (ac_ConfigAsset cc) (ad_AssetParams record)\<rparr>)) (\<lambda>_. ret ad)))
         else
           andDo (Put creator (record\<lparr>ad_AssetParams :=
               mput (ac_ConfigAsset cc) (reconfigure (ac_AssetParams cc) params) (ad_AssetParams record)\<rparr>)) (\<lambda>_. ret ad))))"

definition takeOut :: "address \<Rightarrow> assetIndex \<Rightarrow> u64 \<Rightarrow> bool \<Rightarrow> (roundCowState, unit) act" where
  "takeOut addr asset amount bypassFreeze =
     (if amount = 0 then ret ()
      else
        andDo (Get addr False) (\<lambda>snd.
        case mget (ad_Assets snd) asset of
          None \<Rightarrow> failWith (Errorf ''asset missing from account'')
        | Some sndHolding \<Rightarrow>
            if ah_Frozen sndHolding \<and> \<not> bypassFreeze then failWith (Errorf ''asset frozen in account'')
            else
              let (newAmount, overflowed) = OSub (ah_Amount sndHolding) amount in
              if overflowed then failWith (Errorf ''underflow on subtracting from sender amount'')
              else Put addr (snd\<lparr>ad_Assets := mput asset (sndHolding\<lparr>ah_Amount := newAmount\<rparr>) (ad_Assets snd)\<rparr>)))"

definition putIn :: "address \<Rightarrow> assetIndex \<Rightarrow> u64 \<Rightarrow> bool \<Rightarrow> (roundCowState, unit) act" where
  "putIn addr asset amount bypassFreeze =
     (if amount = 0 then ret ()
      else
        andDo (Get addr False) (\<lambda>rcv.
        case mget (ad_Assets rcv) asset of
          None \<Rightarrow> failWith (Errorf ''asset missing from account'')
        | Some rcvHolding \<Rightarrow>
            if ah_Frozen rcvHolding \<and> \<not> bypassFreeze then failWith (Errorf ''asset frozen in recipient'')
            else
              let (newAmount, overflowed) = OAdd (ah_Amount rcvHolding) amount in
              if overflowed then failWith (Errorf ''overflow on adding to receiver amount'')
              else Put addr (rcv\<lparr>ad_Assets := mput asset (rcvHolding\<lparr>ah_Amount := newAmount\<rparr>) (ad_Assets rcv)\<rparr>)))"

definition optIn :: "assetTransferTxnFields \<Rightarrow> address \<Rightarrow> (roundCowState, unit) act" where
  "optIn ct source = withState (\<lambda>s.
     andDo (Get source False) (\<lambda>snd.
     if mget (ad_Assets snd) (ax_XferAsset ct) = None then
       andDo (getParams (ax_XferAsset ct)) (\<lambda>(params, _).
       let snd = snd\<lparr>ad_Assets := mput (ax_XferAsset ct) (zeroHolding\<lparr>ah_Frozen := ap_DefaultFrozen params\<rparr>) (ad_Assets snd)\<rparr> in
       if int (length (ad_Assets snd)) > cp_MaxAssetsPerAccount (cow_proto s) then failWith (Errorf ''too many assets in account'')
       else
         andDo (Put source snd) (\<lambda>_. AllocateAsset source (ax_XferAsset ct) False))
     else ret ()))"

definition closeAsset :: "assetTransferTxnFields \<Rightarrow> address \<Rightarrow> applyData \<Rightarrow> (roundCowState, applyData) act" where
  "closeAsset ct source ad = withState (\<lambda>s.
     andDo (Get source False) (\<lambda>snd.
     if mget (ad_AssetParams snd) (ax_XferAsset ct) \<noteq> None then failWith (Errorf ''cannot close asset ID in allocating account'')
     else
       case mget (ad_Assets snd) (ax_XferAsset ct) of
         None \<Rightarrow> failWith (Errorf ''asset not present in account'')
       | Some sndHolding \<Rightarrow>
           andDo (Get (ax_AssetCloseTo ct) False) (\<lambda>dst.
           let bypassFreeze = (mget (ad_AssetParams dst) (ax_XferAsset ct) \<noteq> None);
               ad = (if cp_EnableAssetCloseAmount (cow_proto s) then setAssetClosingAmount (ah_Amount sndHolding) ad else ad) in
           andDo (takeOut source (ax_XferAsset ct) (ah_Amount sndHolding) bypassFreeze) (\<lambda>_.
           andDo (putIn (ax_AssetCloseTo ct) (ax_XferAsset ct) (ah_Amount sndHolding) bypassFreeze) (\<lambda>_.
           andDo (Get source False) (\<lambda>snd.
           if ah_Amount (mgetd zeroHolding (ad_Assets snd) (ax_XferAsset ct)) \<noteq> 0 then
             failWith (Errorf ''asset not zero after closing'')
           else
             andDo (Put source (snd\<lparr>ad_Assets := mdel (ax_XferAsset ct) (ad_Assets snd)\<rparr>)) (\<lambda>_.
             andDo (DeallocateAsset source (ax_XferAsset ct) False) (\<lambda>_. ret ad))))))))"

definition AssetTransfer :: "assetTransferTxnFields \<Rightarrow> txnHeader \<Rightarrow> applyData \<Rightarrow> (roundCowState, applyData) act" where
  "AssetTransfer ct header ad =
     andDo
       (if ax_AssetSender ct \<noteq> 0 then
          andDo (getParams (ax_XferAsset ct)) (\<lambda>(params, _).
          if ap_Clawback params = 0 \<or> h_Sender header \<noteq> ap_Clawback params then failWith (Errorf ''clawback not allowed'')
          else ret (ax_AssetSender ct, True))
        else ret (h_Sender header, False)) (\<lambda>(source, clawback).
     andDo (if ax_AssetAmount ct = 0 \<and> ax_AssetReceiver ct = source \<and> \<not> clawback then optIn ct source else ret ()) (\<lambda>_.
     andDo (takeOut source (ax_XferAsset ct) (ax_AssetAmount ct) clawback) (\<lambda>_.
     andDo (putIn (ax_AssetReceiver ct) (ax_XferAsset ct) (ax_AssetAmount ct) clawback) (\<lambda>_.
     if ax_AssetCloseTo ct \<noteq> 0 then
       if clawback then failWith (Errorf ''cannot close asset by clawback'')
       else closeAsset ct source ad
     else ret ad))))"

definition AssetFreeze :: "assetFreezeTxnFields \<Rightarrow> txnHeader \<Rightarrow> (roundCowState, unit) act" where
  "AssetFreeze cf header =
     andDo (getParams (af_FreezeAsset cf)) (\<lambda>(params, _).
     if ap_Freeze params = 0 \<or> h_Sender header \<noteq> ap_Freeze params then failWith (Errorf ''freeze not allowed'')
     else
       andDo (Get (af_FreezeAccount cf) False) (\<lambda>record.
       case mget (ad_Assets record) (af_FreezeAsset cf) of
         None \<Rightarrow> failWith (Errorf ''asset not found in account'')
       | Some holding \<Rightarrow>
           Put (af_FreezeAccount cf) (record\<lparr>ad_Assets :=
             mput (af_FreezeAsset cf) (holding\<lparr>ah_Frozen := af_AssetFrozen cf\<rparr>) (ad_Assets record)\<rparr>)))"

section \<open>Address prints\<close>

text \<open>
  What the file system answers when a log file is opened for appending. \<open>log.Fatalf\<close> ends the
  process; a failure to find the absolute path only skips the line.
\<close>

datatype logFile = NoAbsolutePath | CannotOpen | Opened

definition appendLog :: "logFile \<Rightarrow> (roundCowState, unit) act" where
  "appendLog f = (\<lambda>s. case f of CannotOpen \<Rightarrow> Panic (Fatal ''error opening file'') | _ \<Rightarrow> Ok ((), s))"

definition AddressPrint :: "logFile \<Rightarrow> (roundCowState, unit) act" where
  "AddressPrint f = andDo (appendLog f) (\<lambda>_. ret ())"

section \<open>Transactions respect every policy\<close>

lemma quiet_getParams [does_intros]: "does quiet (getParams idx)"
  unfolding getParams_def by (intro quiet_rules does_intros)

lemma quiet_appendLog [does_intros]: "does quiet (appendLog f)"
  unfolding appendLog_def by (rule doesI) (auto simp: qt.refl split: logFile.splits)

lemma quiet_AddressPrint [does_intros]: "does quiet (AddressPrint f)"
  unfolding AddressPrint_def by (intro quiet_rules does_intros)

context ledger_policy
begin

lemma does_Rekey: "does R (Rekey tx)"
  unfolding does_holds Rekey_def
  by (intro allI holds_cases holds_Get_bind holds_Put_same) (elim conjE; simp add: sameBalance_def)+

lemma does_asset_moves:
  "does R (takeOut addr idx amount bypass)" "does R (putIn addr idx amount bypass)"
  unfolding does_holds takeOut_def putIn_def
  by (intro allI holds_cases holds_Get_bind holds_Put_same; elim conjE; simp add: sameBalance_def)+

lemma does_optIn: "does R (optIn ct source)"
  unfolding does_holds optIn_def
  by (intro allI holds_cases holds_Get_bind)
    (rule holds_quiet_bind [OF quiet_getParams],
     intro holds_cases holds_bind holds_Put_same holds_quiet does_intros; elim conjE; simp add: sameBalance_def)

lemma does_AssetFreeze: "does R (AssetFreeze cf header)"
  unfolding does_holds AssetFreeze_def
  by (intro allI holds_quiet_bind [OF quiet_getParams] holds_cases holds_Get_bind holds_Put_same; elim conjE; simp add: sameBalance_def)

lemma does_closeAsset: "does R (closeAsset ct source ad)"
  unfolding does_holds closeAsset_def
  by (intro allI holds_cases holds_quiet_bind [OF does_Get])
    (rule holds_bind [OF holds_does [OF does_asset_moves(1)]],
     rule holds_bind [OF holds_does [OF does_asset_moves(2)]],
     intro holds_cases holds_Get_bind holds_bind [OF holds_Put_same] holds_bind [OF holds_quiet]
       does_intros; elim conjE; simp add: sameBalance_def)

lemma does_AssetTransfer: "does R (AssetTransfer ct header ad)"
  unfolding AssetTransfer_def
  by (intro does_rules does_asset_moves does_optIn does_closeAsset does_quiet [OF quiet_getParams])

lemma does_AssetConfig: "does R (AssetConfig cc header ad ctr)"
  unfolding does_holds AssetConfig_def Let_def
  by (intro allI holds_cases holds_quiet_bind [OF quiet_getParams] holds_quiet_bind [OF does_assets(1)]
      holds_quiet_bind [OF does_assets(2)] holds_Get_bind holds_Put_same holds_bind [OF holds_Put_same];
      elim conjE; simp add: sameBalance_def)

lemma does_closeRemainder: "does R (closeRemainder payment header ad)"
  unfolding does_holds closeRemainder_def Let_def
  by (intro allI, rule holds_quiet_bind [OF does_Get], rule holds_bind [OF holds_does [OF does_transfer]])
    (intro holds_cases holds_GetRewards_bind holds_bind [OF holds_Put_closed]; simp add: IsZero_def)+

lemma does_Payment: "does R (Payment payment header ad)"
  unfolding Payment_def by (intro does_rules does_transfer does_closeRemainder)

text \<open>
  A key registration can end an account's participation. It respects the policy if the
  account has no rewards to claim, and the payment of the fee has claimed them.
\<close>

lemma holds_Keyreg: "holds p l (\<lambda>A. settled p l (A (h_Sender header))) R (Keyreg keyreg header spec rnd)"
  unfolding Keyreg_def Let_def
  by (intro holds_cases holds_Get_bind holds_Put_status; elim conjE; simp add: sameBalance_def)

end

text \<open>After a transfer both accounts have claimed their rewards; rekeying changes no money.\<close>

lemma settled_moved: "settled p l (moved p l from to amt A from)"
  by (auto simp: moved_def Let_def settled_def worth_claimed_set claimed_def worth_def rewardsDue_def)

lemma settles_Move: "holds p l P (\<lambda>s t. settled p l (acct t from)) (Move from to amt fr tr)"
proof (rule holdsI)
  fix s x t
  assume s: "okState s" "cow_proto s = p" "rewardsLevel s = l" and m: "Move from to amt fr tr s = Ok (x, t)"
  have "acct t = moved p l from to amt (acct s)" using Move_Ok(1) [OF _ _ m] s by (simp add: okState_def)
  then show "okState t \<and> settled p l (acct t from)"
    using doesD [OF does_Move s(1) m] by (simp add: settled_moved)
qed

lemma settles_Rekey:
  "holds p l (\<lambda>A. settled p l (A a)) (\<lambda>s t. settled p l (acct t a)) (Rekey tx)"
proof (rule holdsI)
  fix s x t
  assume s: "okState s" and st: "settled p l (acct s a)" and r: "Rekey tx s = Ok (x, t)"
  have ok: "okState t" using doesD [OF money.does_Rekey s r] by simp
  show "okState t \<and> settled p l (acct t a)"
  proof (cases "h_RekeyTo (tx_Header tx) = 0")
    case True
    then show ?thesis using r st ok by (simp add: Rekey_def act_simps)
  next
    case False
    let ?h = "tx_Header tx"
    obtain d s1 where g: "Get (h_Sender ?h) False s = Ok (d, s1)"
      and p: "Put (h_Sender ?h) (d\<lparr>ad_AuthAddr := if h_RekeyTo ?h = h_Sender ?h then 0 else h_RekeyTo ?h\<rparr>) s1 = Ok (x, t)"
      using r False unfolding Rekey_def Let_def by (auto simp: andDo_Ok_iff)
    have e: "acct s (h_Sender ?h) = d" "cowEq s s1" using Get_view [OF _ g] s by (simp_all add: okState_def)
    have ok1: "cowOK s1" using e s by (simp add: cowEq_simps okState_def)
    have "acct t = (acct s)(h_Sender ?h := d\<lparr>ad_AuthAddr := if h_RekeyTo ?h = h_Sender ?h then 0 else h_RekeyTo ?h\<rparr>)"
      using p unfolding Put_eq [OF ok1] by (auto simp: acct_putAcct [OF ok1] cowEq_simps [OF e(2)])
    then show ?thesis using ok st e(1) by (auto simp: settled_def worth_def rewardsDue_def)
  qed
qed

end
