(* ===== verification/Ledger_Application.thy ===== *)
theory Ledger_Application
  imports Ledger_Apply
begin

text \<open>
  Application calls (\<open>src/ledger/apply/application.go\<close>) and the view an application program
  has of the ledger (\<open>src/ledger/internal/applications.go\<close>), inner transactions included. The
  interpreter is the argument \<open>vm\<close> with its own parameters of type \<open>'p\<close>.

  The lemmas show that every operation a program can perform on the ledger respects every
  policy, and from this, by induction on the depth of inner calls, that every call does.
\<close>

section \<open>Applications of an account\<close>

definition zeroAppParams :: appParams where
  "zeroAppParams = \<lparr>app_ApprovalProgram = [], app_ClearStateProgram = [], app_GlobalState = [],
     app_LocalStateSchema = zeroSchema, app_GlobalStateSchema = zeroSchema, app_ExtraProgramPages = 0\<rparr>"

definition getAppParams :: "appIndex \<Rightarrow> (roundCowState, appParams \<times> address \<times> bool) act" where
  "getAppParams aidx =
     andDo (GetCreator aidx AppCreatable) (\<lambda>(creator, exist).
     if \<not> exist then ret (zeroAppParams, creator, False)
     else
       andDo (Get creator False) (\<lambda>record.
       case mget (ad_AppParams record) aidx of
         None \<Rightarrow> failWith (Errorf ''app not found in account'')
       | Some params \<Rightarrow> ret (params, creator, True)))"

definition createApplication :: "applicationCallTxnFields \<Rightarrow> address \<Rightarrow> u64 \<Rightarrow> (roundCowState, appIndex) act" where
  "createApplication ac creator ctr = withState (\<lambda>s.
     andDo (Get creator False) (\<lambda>record.
     if int (length (ad_AppParams record)) \<ge> cp_MaxAppsCreated (cow_proto s) then
       failWith (Errorf ''cannot create app: max created apps per acct'')
     else
       let appIdx = ctr + 1;
           record = record\<lparr>ad_AppParams := mput appIdx
               \<lparr>app_ApprovalProgram = elems (apc_ApprovalProgram ac), app_ClearStateProgram = elems (apc_ClearStateProgram ac),
                app_GlobalState = [], app_LocalStateSchema = apc_LocalStateSchema ac,
                app_GlobalStateSchema = apc_GlobalStateSchema ac, app_ExtraProgramPages = apc_ExtraProgramPages ac\<rparr>
               (ad_AppParams record),
             ad_TotalAppSchema := AddSchema (ad_TotalAppSchema record) (apc_GlobalStateSchema ac),
             ad_TotalExtraAppPages := AddSaturate32 (ad_TotalExtraAppPages record) (apc_ExtraProgramPages ac)\<rparr>
       in andDo (Put creator record) (\<lambda>_.
          andDo (AllocateApp creator appIdx True (apc_GlobalStateSchema ac)) (\<lambda>_.
          ret appIdx))))"

definition deleteApplication :: "address \<Rightarrow> appIndex \<Rightarrow> (roundCowState, unit) act" where
  "deleteApplication creator appIdx = withState (\<lambda>s.
     andDo (Get creator False) (\<lambda>record.
     let params = mgetd zeroAppParams (ad_AppParams record) appIdx;
         record = record\<lparr>ad_TotalAppSchema := SubSchema (ad_TotalAppSchema record) (app_GlobalStateSchema params),
           ad_TotalExtraAppPages :=
             (if ad_TotalExtraAppPages record > 0 \<and> cp_EnableExtraPagesOnAppUpdate (cow_proto s)
              then SubSaturate32 (ad_TotalExtraAppPages record) (app_ExtraProgramPages params)
              else ad_TotalExtraAppPages record),
           ad_AppParams := mdel appIdx (ad_AppParams record)\<rparr>
     in andDo (Put creator record) (\<lambda>_.
        DeallocateApp creator appIdx True)))"

definition updateApplication :: "applicationCallTxnFields \<Rightarrow> address \<Rightarrow> appIndex \<Rightarrow> (roundCowState, unit) act" where
  "updateApplication ac creator appIdx = withState (\<lambda>s.
     andDo (Get creator False) (\<lambda>record.
     let params = mgetd zeroAppParams (ad_AppParams record) appIdx;
         proto = cow_proto s;
         lap = int (length (elems (apc_ApprovalProgram ac)));
         lcs = int (length (elems (apc_ClearStateProgram ac)));
         pages = uint (1 + app_ExtraProgramPages params) in
     if cp_EnableExtraPagesOnAppUpdate proto \<and> lap > pages * cp_MaxAppProgramLen proto then
       failWith (Errorf ''updateApplication approval program too long'')
     else if cp_EnableExtraPagesOnAppUpdate proto \<and> lcs > pages * cp_MaxAppProgramLen proto then
       failWith (Errorf ''updateApplication clear state program too long'')
     else if cp_EnableExtraPagesOnAppUpdate proto \<and> lap + lcs > pages * cp_MaxAppTotalProgramLen proto then
       failWith (Errorf ''updateApplication app programs too long'')
     else
       Put creator (record\<lparr>ad_AppParams := mput appIdx
         (params\<lparr>app_ApprovalProgram := elems (apc_ApprovalProgram ac), app_ClearStateProgram := elems (apc_ClearStateProgram ac)\<rparr>)
         (ad_AppParams record)\<rparr>)))"

definition optInApplication :: "address \<Rightarrow> appIndex \<Rightarrow> appParams \<Rightarrow> (roundCowState, unit) act" where
  "optInApplication sender appIdx params = withState (\<lambda>s.
     andDo (Get sender False) (\<lambda>record.
     if mget (ad_AppLocalStates record) appIdx \<noteq> None then failWith (Errorf ''account has already opted in to app'')
     else if int (length (ad_AppLocalStates record)) \<ge> cp_MaxAppsOptedIn (cow_proto s) then
       failWith (Errorf ''cannot opt in app: max opted-in apps per acct'')
     else
       andDo (Put sender (record\<lparr>
           ad_AppLocalStates := mput appIdx \<lparr>als_Schema = app_LocalStateSchema params, als_KeyValue = []\<rparr> (ad_AppLocalStates record),
           ad_TotalAppSchema := AddSchema (ad_TotalAppSchema record) (app_LocalStateSchema params)\<rparr>)) (\<lambda>_.
       AllocateApp sender appIdx False (app_LocalStateSchema params))))"

definition closeOutApplication :: "address \<Rightarrow> appIndex \<Rightarrow> (roundCowState, unit) act" where
  "closeOutApplication sender appIdx =
     andDo (Get sender False) (\<lambda>record.
     case mget (ad_AppLocalStates record) appIdx of
       None \<Rightarrow> failWith (Errorf ''account is not opted in to app'')
     | Some localState \<Rightarrow>
         andDo (Put sender (record\<lparr>ad_TotalAppSchema := SubSchema (ad_TotalAppSchema record) (als_Schema localState),
             ad_AppLocalStates := mdel appIdx (ad_AppLocalStates record)\<rparr>)) (\<lambda>_.
         DeallocateApp sender appIdx False))"

section \<open>Calls\<close>

definition checkPrograms :: "'p logicVM \<Rightarrow> applicationCallTxnFields \<Rightarrow> 'p \<Rightarrow> (ledgerError, unit) result" where
  "checkPrograms vm ac evalParams =
     andThen (map_result (Within ''check failed on ApprovalProgram'') (\<lambda>x. x)
       (vm_CheckContract vm (elems (apc_ApprovalProgram ac)) evalParams)) (\<lambda>_.
     map_result (Within ''check failed on ClearStateProgram'') (\<lambda>x. x)
       (vm_CheckContract vm (elems (apc_ClearStateProgram ac)) evalParams))"

text \<open>
  A run whose error ends the call, and a run of the clear state program: there an error of
  the program itself counts as a rejection, and the account leaves the application anyway.
\<close>

definition runApproval ::
    "'p logicVM \<Rightarrow> nat \<Rightarrow> 'p \<Rightarrow> appIndex \<Rightarrow> u8 list \<Rightarrow> (roundCowState, 'p \<times> bool \<times> evalDelta) act" where
  "runApproval vm gi evalParams appIdx program = (\<lambda>s.
     case StatefulEval vm gi evalParams appIdx program s of
       (evalParams, r) \<Rightarrow> andThen r (\<lambda>(x, t). Ok ((evalParams, x), t)))"

definition runClearState ::
    "'p logicVM \<Rightarrow> nat \<Rightarrow> 'p \<Rightarrow> appIndex \<Rightarrow> u8 list \<Rightarrow> (roundCowState, 'p \<times> bool \<times> evalDelta) act" where
  "runClearState vm gi evalParams appIdx program = (\<lambda>s.
     case StatefulEval vm gi evalParams appIdx program s of
       (evalParams, Err (LogicEvalError e)) \<Rightarrow> Ok ((evalParams, False, zeroEvalDelta), s)
     | (evalParams, r) \<Rightarrow> andThen r (\<lambda>(x, t). Ok ((evalParams, x), t)))"

definition ApplicationCall ::
    "'p logicVM \<Rightarrow> applicationCallTxnFields \<Rightarrow> txnHeader \<Rightarrow> applyData \<Rightarrow> nat \<Rightarrow> 'p \<Rightarrow> u64 \<Rightarrow> (roundCowState, applyData \<times> 'p) act" where
  "ApplicationCall vm ac header ad gi evalParams ctr =
     andDo
       (if apc_ApplicationID ac = 0 then
          andDo (createApplication ac (h_Sender header) ctr) (\<lambda>appIdx. ret (appIdx, setApplicationID appIdx ad))
        else ret (apc_ApplicationID ac, ad)) (\<lambda>(appIdx, ad).
     andDo (getAppParams appIdx) (\<lambda>(params, creator, exist).
     if \<not> exist \<and> apc_OnCompletion ac \<noteq> ClearStateOC then
       failWith (Errorf ''only clearing out is supported for applications that do not exist'')
     else
       andDo
         (if apc_ApplicationID ac = 0 \<or> apc_OnCompletion ac = UpdateApplicationOC then
            andDo (lift (map_result TxnErr (\<lambda>x. x) (CheckContractVersions (elems (apc_ApprovalProgram ac))
              (elems (apc_ClearStateProgram ac)) (app_ApprovalProgram params)))) (\<lambda>_.
            lift (checkPrograms vm ac evalParams))
          else ret ()) (\<lambda>_.
       if apc_OnCompletion ac = ClearStateOC then
         andDo (Get (h_Sender header) False) (\<lambda>record.
         if mget (ad_AppLocalStates record) appIdx = None then failWith (Errorf ''cannot clear state: not currently opted in'')
         else
           andDo (if exist then runClearState vm gi evalParams appIdx (app_ClearStateProgram params)
                  else ret (evalParams, False, zeroEvalDelta)) (\<lambda>(evalParams, pass, evalDelta).
           andDo (closeOutApplication (h_Sender header) appIdx) (\<lambda>_.
           ret (if pass then setEvalDelta evalDelta ad else ad, evalParams))))
       else
         andDo (if apc_OnCompletion ac = OptInOC then optInApplication (h_Sender header) appIdx params else ret ()) (\<lambda>_.
         andDo (runApproval vm gi evalParams appIdx (app_ApprovalProgram params)) (\<lambda>(evalParams, approved, evalDelta).
         if \<not> approved then failWith (Errorf ''transaction rejected by ApprovalProgram'')
         else
           andDo (case apc_OnCompletion ac of
               NoOpOC \<Rightarrow> ret ()
             | OptInOC \<Rightarrow> ret ()
             | CloseOutOC \<Rightarrow> closeOutApplication (h_Sender header) appIdx
             | DeleteApplicationOC \<Rightarrow> deleteApplication creator appIdx
             | UpdateApplicationOC \<Rightarrow> updateApplication ac creator appIdx
             | _ \<Rightarrow> failWith (Errorf ''invalid application action'')) (\<lambda>_.
           ret (setEvalDelta evalDelta ad, evalParams)))))))"

section \<open>The ledger an application program sees\<close>

definition logic_Authorizer :: "address \<Rightarrow> (roundCowState, address) act" where
  "logic_Authorizer addr =
     andDo (Get addr False) (\<lambda>record. ret (if ad_AuthAddr record \<noteq> 0 then ad_AuthAddr record else addr))"

definition logic_AssetHolding :: "address \<Rightarrow> assetIndex \<Rightarrow> (roundCowState, assetHolding) act" where
  "logic_AssetHolding addr assetIdx =
     andDo (Get addr False) (\<lambda>record.
     case mget (ad_Assets record) assetIdx of
       None \<Rightarrow> failWith (Errorf ''account has not opted in to asset'')
     | Some holding \<Rightarrow> ret holding)"

definition logic_AssetParams :: "assetIndex \<Rightarrow> (roundCowState, assetParams \<times> address) act" where
  "logic_AssetParams assetIdx =
     andDo (GetCreator assetIdx AssetCreatable) (\<lambda>(creator, ok).
     if \<not> ok then failWith (Errorf ''asset does not exist'')
     else
       andDo (Get creator False) (\<lambda>record.
       case mget (ad_AssetParams record) assetIdx of
         None \<Rightarrow> failWith (Errorf ''account has not created asset'')
       | Some params \<Rightarrow> ret (params, creator)))"

definition logic_AppParams :: "appIndex \<Rightarrow> (roundCowState, appParams \<times> address) act" where
  "logic_AppParams appIdx =
     andDo (GetCreator appIdx AppCreatable) (\<lambda>(creator, ok).
     if \<not> ok then failWith (Errorf ''app does not exist'')
     else
       andDo (Get creator False) (\<lambda>record.
       case mget (ad_AppParams record) appIdx of
         None \<Rightarrow> failWith (Errorf ''account has not created app'')
       | Some params \<Rightarrow> ret (params, creator)))"

definition fetchAppCreator :: "appIndex \<Rightarrow> (roundCowState, address) act" where
  "fetchAppCreator appIdx =
     andDo (GetCreator appIdx AppCreatable) (\<lambda>(addr, ok).
     if \<not> ok then failWith (Errorf ''app does not exist'') else ret addr)"

definition logic_GetGlobal :: "appIndex \<Rightarrow> string \<Rightarrow> (roundCowState, tealValue \<times> bool) act" where
  "logic_GetGlobal appIdx key = andDo (fetchAppCreator appIdx) (\<lambda>addr. GetKey addr appIdx True key 0)"

definition logic_SetGlobal :: "appIndex \<Rightarrow> string \<Rightarrow> tealValue \<Rightarrow> (roundCowState, unit) act" where
  "logic_SetGlobal appIdx key val = andDo (fetchAppCreator appIdx) (\<lambda>creator. SetKey creator appIdx True key val 0)"

definition logic_DelGlobal :: "appIndex \<Rightarrow> string \<Rightarrow> (roundCowState, unit) act" where
  "logic_DelGlobal appIdx key = andDo (fetchAppCreator appIdx) (\<lambda>creator. DelKey creator appIdx True key 0)"

text \<open>An inner transaction: the fee goes to the fee sink, then the transaction is applied.\<close>

definition Perform ::
    "'p logicVM \<Rightarrow> specialAddresses \<Rightarrow> nat \<Rightarrow> transaction \<Rightarrow> applyData \<Rightarrow> 'p \<Rightarrow> (roundCowState, applyData \<times> 'p) act" where
  "Perform vm spec gi txn ad ep =
     (let hdr = tx_Header txn in
      andDo (Move (h_Sender hdr) (FeeSink spec) (h_Fee hdr) (Some (apd_SenderRewards ad)) None) (\<lambda>(sr, _).
      let ad = setSenderRewards sr ad in
      andDo (Rekey txn) (\<lambda>_.
      andDo (\<lambda>s. Ok ((), incTxnCount s)) (\<lambda>_.
      withState (\<lambda>s.
      case tx_Type txn of
        PaymentTx \<Rightarrow> andDo (Payment (tx_Payment txn) hdr ad) (\<lambda>ad. ret (ad, ep))
      | KeyRegistrationTx \<Rightarrow> andDo (Keyreg (tx_Keyreg txn) hdr spec (cow_round s)) (\<lambda>_. ret (ad, ep))
      | AssetConfigTx \<Rightarrow> andDo (AssetConfig (tx_AssetConfig txn) hdr ad (txnCounter s)) (\<lambda>ad. ret (ad, ep))
      | AssetTransferTx \<Rightarrow> andDo (AssetTransfer (tx_AssetTransfer txn) hdr ad) (\<lambda>ad. ret (ad, ep))
      | AssetFreezeTx \<Rightarrow> andDo (AssetFreeze (tx_AssetFreeze txn) hdr) (\<lambda>_. ret (ad, ep))
      | ApplicationCallTx \<Rightarrow> ApplicationCall vm (tx_ApplicationCall txn) hdr ad gi ep (txnCounter s)
      | _ \<Rightarrow> failWith (Errorf ''tx in AVM''))))))"

section \<open>Calls respect every policy\<close>

lemma quiet_getAppParams [does_intros]: "does quiet (getAppParams aidx)"
  unfolding getAppParams_def by (intro quiet_rules does_intros)

lemma quiet_incTxnCount [does_intros]: "does quiet (\<lambda>s. Ok ((), incTxnCount s))"
proof -
  have i: "incTxnCount = updTop (\<lambda>cb. cb\<lparr>rc_txnCount := rc_txnCount cb + 1\<rparr>)"
    by (simp add: fun_eq_iff incTxnCount_def updTop_def)
  show ?thesis unfolding i by (rule does_updTop) (simp_all add: frameOf_def)
qed

lemma quiet_logic [does_intros]:
  "does quiet (logic_Authorizer addr)" "does quiet (logic_AssetHolding addr aidx)" "does quiet (logic_AssetParams aidx)"
  "does quiet (logic_AppParams aidx)" "does quiet (logic_GetGlobal aidx key)" "does quiet (logic_SetGlobal aidx key val)"
  "does quiet (logic_DelGlobal aidx key)"
  unfolding logic_Authorizer_def logic_AssetHolding_def logic_AssetParams_def logic_AppParams_def logic_GetGlobal_def
    logic_SetGlobal_def logic_DelGlobal_def fetchAppCreator_def
  by (intro quiet_rules does_intros)+

text \<open>The runs of the interpreter with these parameters respect the relation.\<close>

definition vmRespects :: "(roundCowState \<Rightarrow> roundCowState \<Rightarrow> bool) \<Rightarrow> 'p logicVM \<Rightarrow> 'p \<Rightarrow> bool" where
  "vmRespects R vm params \<longleftrightarrow> (\<forall>program gi aidx s params' pass t. okState s \<longrightarrow>
     vm_EvalContract vm program gi aidx params s = (params', Ok (pass, t)) \<longrightarrow> okState t \<and> R s t)"

section \<open>What a program can do\<close>

text \<open>
  A program changes the ledger only through the operations of \<open>LedgerForLogic\<close>
  (\<open>applications.go\<close>): it reads accounts, assets, applications and keys, writes and deletes
  keys, and performs inner transactions. An inner call gets parameters of a smaller rank;
  in the interpreter the rank is the number of nested calls that are still allowed.
\<close>

inductive programRun :: "'p logicVM \<Rightarrow> ('p \<Rightarrow> nat) \<Rightarrow> nat \<Rightarrow> roundCowState \<Rightarrow> roundCowState \<Rightarrow> bool"
  for vm :: "'p logicVM" and rank :: "'p \<Rightarrow> nat" and n :: nat where
  run_done: "programRun vm rank n s s"
| run_AccountData: "Get addr True s = Ok (d, t) \<Longrightarrow> programRun vm rank n t u \<Longrightarrow> programRun vm rank n s u"
| run_Authorizer: "logic_Authorizer addr s = Ok (a, t) \<Longrightarrow> programRun vm rank n t u \<Longrightarrow> programRun vm rank n s u"
| run_AssetHolding: "logic_AssetHolding addr aidx s = Ok (h, t) \<Longrightarrow> programRun vm rank n t u \<Longrightarrow> programRun vm rank n s u"
| run_AssetParams: "logic_AssetParams aidx s = Ok (p, t) \<Longrightarrow> programRun vm rank n t u \<Longrightarrow> programRun vm rank n s u"
| run_AppParams: "logic_AppParams aidx s = Ok (q, t) \<Longrightarrow> programRun vm rank n t u \<Longrightarrow> programRun vm rank n s u"
| run_OptedIn: "allocated addr aidx False s = Ok (b, t) \<Longrightarrow> programRun vm rank n t u \<Longrightarrow> programRun vm rank n s u"
| run_GetLocal: "GetKey addr aidx False key idx s = Ok (v, t) \<Longrightarrow> programRun vm rank n t u \<Longrightarrow> programRun vm rank n s u"
| run_SetLocal: "SetKey addr aidx False key val idx s = Ok (x, t) \<Longrightarrow> programRun vm rank n t u \<Longrightarrow> programRun vm rank n s u"
| run_DelLocal: "DelKey addr aidx False key idx s = Ok (x, t) \<Longrightarrow> programRun vm rank n t u \<Longrightarrow> programRun vm rank n s u"
| run_GetGlobal: "logic_GetGlobal aidx key s = Ok (v, t) \<Longrightarrow> programRun vm rank n t u \<Longrightarrow> programRun vm rank n s u"
| run_SetGlobal: "logic_SetGlobal aidx key val s = Ok (x, t) \<Longrightarrow> programRun vm rank n t u \<Longrightarrow> programRun vm rank n s u"
| run_DelGlobal: "logic_DelGlobal aidx key s = Ok (x, t) \<Longrightarrow> programRun vm rank n t u \<Longrightarrow> programRun vm rank n s u"
| run_Perform: "Perform vm spec gi txn ad ep s = Ok (y, t) \<Longrightarrow> rank ep < n \<Longrightarrow> programRun vm rank n t u \<Longrightarrow> programRun vm rank n s u"

definition vmUsesLedger :: "'p logicVM \<Rightarrow> ('p \<Rightarrow> nat) \<Rightarrow> bool" where
  "vmUsesLedger vm rank \<longleftrightarrow> (\<forall>program gi aidx params s params' pass t.
     vm_EvalContract vm program gi aidx params s = (params', Ok (pass, t)) \<longrightarrow> programRun vm rank (rank params) s t)"

context ledger_policy
begin

lemma does_applications:
  "does R (createApplication ac creator ctr)" "does R (deleteApplication creator appIdx)"
  "does R (updateApplication ac creator appIdx)" "does R (optInApplication sender appIdx params)"
  "does R (closeOutApplication sender appIdx)"
  unfolding does_holds createApplication_def deleteApplication_def updateApplication_def optInApplication_def
    closeOutApplication_def Let_def
  by (intro allI holds_cases holds_Get_bind holds_bind [OF holds_Put_same] holds_Put_same
      holds_quiet_bind [OF does_apps(1)] holds_quiet_bind [OF does_apps(2)] holds_quiet does_apps;
      elim conjE; simp add: sameBalance_def)+

lemma StatefulEval_step:
  assumes "vmRespects R vm params" "okState s" "StatefulEval vm gi params aidx program s = (params', Ok (x, t))"
  shows "okState t \<and> R s t"
proof -
  obtain params1 r where v: "vm_EvalContract vm program gi aidx params (child s) = (params1, r)" by (cases "vm_EvalContract vm program gi aidx params (child s)")
  with assms(3) obtain pass calf where r: "r = Ok (pass, calf)"
    by (cases r) (auto simp: StatefulEval_def split: if_splits)
  have c: "okState calf" "R (child s) calf"
    using assms(1) v okState_child [OF assms(2)] unfolding vmRespects_def r by blast+
  show ?thesis
  proof (cases pass)
    case True
    then obtain u where u: "commitToParent calf = Ok (u, t)"
      using assms(3) v by (auto simp: StatefulEval_def r result_simps Let_def split: if_splits)
    show ?thesis
      using commit_step [OF c(2,1) assms(2) u] child_commit(2) [OF step_frame [OF c(2)] c(1) assms(2) u] by simp
  next
    case False
    then show ?thesis using assms(2,3) v refl by (auto simp: StatefulEval_def r)
  qed
qed

lemma does_runApproval:
  assumes "vmRespects R vm params"
  shows "does R (runApproval vm gi params appIdx program)"
proof (rule doesI)
  fix s x t
  assume s: "okState s" and r: "runApproval vm gi params appIdx program s = Ok (x, t)"
  then obtain p' y where "StatefulEval vm gi params appIdx program s = (p', Ok (y, t))"
    unfolding runApproval_def by (auto simp: result_simps split: prod.splits)
  then show "okState t \<and> R s t" by (rule StatefulEval_step [OF assms s])
qed

lemma does_runClearState:
  assumes "vmRespects R vm params"
  shows "does R (runClearState vm gi params appIdx program)"
proof (rule doesI)
  fix s x t
  assume s: "okState s" and r: "runClearState vm gi params appIdx program s = Ok (x, t)"
  obtain p' q where e: "StatefulEval vm gi params appIdx program s = (p', q)" by (cases "StatefulEval vm gi params appIdx program s")
  show "okState t \<and> R s t"
  proof (cases q)
    case (Ok z)
    then have "StatefulEval vm gi params appIdx program s = (p', Ok (fst z, t))"
      using r e by (cases z) (auto simp: runClearState_def)
    then show ?thesis by (rule StatefulEval_step [OF assms s])
  next
    case (Err er)
    then have "t = s" using r e by (cases er) (auto simp: runClearState_def)
    then show ?thesis using s refl by simp
  next
    case (Panic pa)
    then show ?thesis using r e by (auto simp: runClearState_def)
  qed
qed

lemma does_ApplicationCall:
  assumes "vmRespects R vm params"
  shows "does R (ApplicationCall vm ac header ad gi params ctr)"
proof -
  have fin: "does R (case apc_OnCompletion ac of
       NoOpOC \<Rightarrow> ret ()
     | OptInOC \<Rightarrow> ret ()
     | CloseOutOC \<Rightarrow> closeOutApplication (h_Sender header) appIdx
     | DeleteApplicationOC \<Rightarrow> deleteApplication creator appIdx
     | UpdateApplicationOC \<Rightarrow> updateApplication ac creator appIdx
     | _ \<Rightarrow> failWith (Errorf ''invalid application action''))" for appIdx creator
    by (cases "apc_OnCompletion ac") (simp_all add: does_applications does_basic)
  show ?thesis
    unfolding ApplicationCall_def
    by (intro does_rules does_applications does_runApproval [OF assms] does_runClearState [OF assms] fin
        does_quiet [OF quiet_getAppParams] does_quiet [OF does_Get])
qed

text \<open>The fee settles the account of the sender before its transaction is applied.\<close>

lemma does_Perform:
  assumes "vmRespects R vm ep"
  shows "does R (Perform vm spec gi txn ad ep)"
  unfolding does_holds
proof (intro allI)
  fix p l
  let ?hdr = "tx_Header txn"
  have kr: "holds p l (\<lambda>A. settled p l (A (h_Sender ?hdr))) R (case tx_Type txn of
        PaymentTx \<Rightarrow> andDo (Payment (tx_Payment txn) ?hdr ad) (\<lambda>ad. ret (ad, ep))
      | KeyRegistrationTx \<Rightarrow> andDo (Keyreg (tx_Keyreg txn) ?hdr spec (cow_round s)) (\<lambda>_. ret (ad, ep))
      | AssetConfigTx \<Rightarrow> andDo (AssetConfig (tx_AssetConfig txn) ?hdr ad (txnCounter s)) (\<lambda>ad. ret (ad, ep))
      | AssetTransferTx \<Rightarrow> andDo (AssetTransfer (tx_AssetTransfer txn) ?hdr ad) (\<lambda>ad. ret (ad, ep))
      | AssetFreezeTx \<Rightarrow> andDo (AssetFreeze (tx_AssetFreeze txn) ?hdr) (\<lambda>_. ret (ad, ep))
      | ApplicationCallTx \<Rightarrow> ApplicationCall vm (tx_ApplicationCall txn) ?hdr ad gi ep (txnCounter s)
      | _ \<Rightarrow> failWith (Errorf ''tx in AVM''))" for s ad
    by (cases "tx_Type txn")
      (simp_all add: holds_bind [OF holds_Keyreg] holds_bind holds_does holds_basic
        does_Payment does_AssetConfig does_AssetTransfer does_AssetFreeze does_ApplicationCall [OF assms])
  show "holds p l (\<lambda>_. True) R (Perform vm spec gi txn ad ep)"
    unfolding Perform_def Let_def
    by (rule holds_bind_post [OF holds_does [OF does_transfer] settles_Move], rule holds_prod,
      rule holds_bind_post [OF holds_does [OF does_Rekey] settles_Rekey],
      rule holds_quiet_bind [OF quiet_incTxnCount], rule holds_withState, rule kr)
qed

lemma does_step: "does R m \<Longrightarrow> m s = Ok (x, t) \<Longrightarrow> okState s \<Longrightarrow> (okState t \<Longrightarrow> okState u \<and> R t u) \<Longrightarrow> okState u \<and> R s u"
  using doesD [of R m s x t] trans by blast

lemma programRun_step:
  assumes "programRun vm rank n s u" "\<And>spec gi txn ad ep. rank ep < n \<Longrightarrow> does R (Perform vm spec gi txn ad ep)"
  shows "okState s \<Longrightarrow> okState u \<and> R s u"
  using assms(1)
proof (induction rule: programRun.induct)
  case (run_done s)
  then show ?case using refl by blast
next
  case (run_Perform spec gi txn ad ep s y t u)
  then show ?case by (intro does_step [OF assms(2) [OF run_Perform(2)] run_Perform(1)])
qed (rule does_step [OF does_quiet], rule does_intros, assumption+)+

text \<open>An interpreter that works on the ledger only through these operations respects the policy.\<close>

lemma vmUsesLedger_respects:
  assumes "vmUsesLedger vm rank"
  shows "vmRespects R vm params"
proof (induction "rank params" arbitrary: params rule: less_induct)
  case less
  have p: "does R (Perform vm spec gi txn ad ep)" if "rank ep < rank params" for spec gi txn ad ep
    by (rule does_Perform [OF less [OF that]])
  show ?case
    unfolding vmRespects_def
  proof (intro allI impI)
    fix program gi aidx s params' pass t
    assume s: "okState s" and "vm_EvalContract vm program gi aidx params s = (params', Ok (pass, t))"
    then have "programRun vm rank (rank params) s t" using assms unfolding vmUsesLedger_def by blast
    then show "okState t \<and> R s t" by (rule programRun_step [OF _ p s])
  qed
qed

end

end
