(* ===== verification/Ledger_Eval.thy ===== *)
theory Ledger_Eval
  imports Ledger_Application
begin

text \<open>
  The block evaluator (\<open>src/ledger/internal/eval.go\<close>): it starts from the header of a block
  and the ledger before it, applies transaction groups one by one, each on a child layer that
  is committed only if the whole group succeeds, and ends the block.

  The record \<open>evalEnv\<close> collects what the evaluator uses of other code: the consensus table,
  hashing and the lengths of encodings, the interpreter, the verifier of compact
  certificates and what the file system answers when a log file is opened.
\<close>

text \<open>\<^term>\<open>within\<close> adds the context of a formatted error.\<close>

definition within :: "string \<Rightarrow> ('s, 'a) act \<Rightarrow> ('s, 'a) act" where
  "within msg m = (\<lambda>s. map_result (Within msg) (\<lambda>x. x) (m s))"

section \<open>Equality of apply data\<close>

fun localsEqual :: "(u64, stateDelta) gomap \<Rightarrow> (u64, stateDelta) gomap \<Rightarrow> bool" where
  "localsEqual [] o2 = True"
| "localsEqual ((k, v) # ls) o2 =
     (case mget o2 k of None \<Rightarrow> False | Some ov \<Rightarrow> StateDelta_Equal ov v \<and> localsEqual ls o2)"

fun EvalDelta_Equal :: "(signedTxn \<Rightarrow> u8 list) \<Rightarrow> evalDelta \<Rightarrow> evalDelta \<Rightarrow> bool"
  and innerEqual :: "(signedTxn \<Rightarrow> u8 list) \<Rightarrow> signedTxnWithAD list \<Rightarrow> signedTxnWithAD list \<Rightarrow> bool"
  and ApplyData_Equal :: "(signedTxn \<Rightarrow> u8 list) \<Rightarrow> applyData \<Rightarrow> applyData \<Rightarrow> bool" where
  "EvalDelta_Equal enc (EvalDelta gd ld lg itx) (EvalDelta ogd old olg oitx) =
     (length ld = length old \<and> localsEqual ld old \<and> StateDelta_Equal gd ogd \<and> lg = olg \<and> innerEqual enc itx oitx)"
| "innerEqual enc [] [] = True"
| "innerEqual enc (SignedTxnWithAD stx ad # ts) (SignedTxnWithAD ostx oad # ots) =
     (enc stx = enc ostx \<and> ApplyData_Equal enc ad oad \<and> innerEqual enc ts ots)"
| "innerEqual enc _ _ = False"
| "ApplyData_Equal enc (ApplyData c a sr rr cr ed ca ap) (ApplyData oc oa osr orr ocr oed oca oap) =
     (c = oc \<and> a = oa \<and> sr = osr \<and> rr = orr \<and> cr = ocr \<and> ca = oca \<and> ap = oap \<and> EvalDelta_Equal enc ed oed)"

section \<open>State of the evaluator\<close>

record ledgerForEvaluator =
  le_cow :: ledgerForCowBase
  le_GenesisHash :: digest
  le_LatestTotals :: "(ledgerError, round \<times> accountTotals) result"
  le_CompactCertVoters :: "round \<Rightarrow> (ledgerError, (u8 list \<times> microNovas) option) result"
  le_RootDir :: string

record 'p evalEnv =
  ev_Consensus :: consensusTable
  ev_vm :: "'p logicVM"
  ev_verifyCert :: verifyCert
  ev_compactCertSender :: address
  ev_ID :: "transaction \<Rightarrow> txid"
  ev_HashTxn :: "transaction \<Rightarrow> digest"
  ev_HashGroup :: "digest list \<Rightarrow> digest"
  ev_Encode :: "signedTxn \<Rightarrow> u8 list"
  ev_EncodedLength :: "signedTxnInBlock \<Rightarrow> int"
  ev_payset :: paysetOps
  ev_hashHeader :: hashHeader
  ev_verifyPayset :: "signedTxn list list \<Rightarrow> blockHeader \<Rightarrow> (ledgerError, unit) result"
  ev_transactionLog :: logFile
  ev_addressLog :: logFile

record blockEvaluator =
  be_state :: roundCowState
  be_validate :: bool
  be_generate :: bool
  be_prevHeader :: blockHeader
  be_proto :: consensusParams
  be_genesisHash :: digest
  be_block :: block
  be_blockTxBytes :: int
  be_specials :: specialAddresses
  be_blockGenerated :: bool
  be_l :: ledgerForEvaluator
  be_maxTxnBytesPerBlock :: int
  be_rewardAddresses :: "address list"

record evaluatorOptions =
  eo_Validate :: bool
  eo_Generate :: bool
  eo_MaxTxnBytesPerBlock :: int
  eo_ProtoParams :: "consensusParams option"

section \<open>Starting a block\<close>

definition testnetGenesisHash :: digest where
  "testnetGenesisHash = 32742692837880903159880865331627754858522853715659795510592116759189929933346"

definition bankAddr :: address where
  "bankAddr = 22159437942146839742042243532860542130363201515710523244261468240769010518148"

definition workaroundOverspentRewards :: "blockHeader \<Rightarrow> digest \<Rightarrow> accountData \<Rightarrow> round \<Rightarrow> (roundCowState, accountData) act" where
  "workaroundOverspentRewards prevHeader genesisHash rewardPoolBalance headerRound =
     (if headerRound \<noteq> 1499995 \<and> headerRound \<noteq> 2926564 then ret rewardPoolBalance
      else if genesisHash \<noteq> testnetGenesisHash then ret rewardPoolBalance
      else
        andDo (within ''unable to move funds from testnet bank to incentive pool''
          (Move bankAddr (rs_RewardsPool (bh_RewardsState prevHeader)) 20000000000 None None)) (\<lambda>_.
        Get (rs_RewardsPool (bh_RewardsState prevHeader)) True))"

definition firstCompactCert :: "consensusParams \<Rightarrow> blockHeader \<Rightarrow> blockHeader \<Rightarrow> (ledgerError, round) result" where
  "firstCompactCert proto prevHeader hdr =
     (let nextRound = ccs_CompactCertNextRound (basicCert prevHeader) in
      if nextRound = 0 \<and> cp_CompactCertRounds proto \<noteq> 0 then
        andThen (RoundUpToMultipleOf (bh_Round hdr + cp_CompactCertVotersLookback proto) (cp_CompactCertRounds proto)) (\<lambda>votersRound.
        Ok (votersRound + cp_CompactCertRounds proto))
      else Ok nextRound)"

definition withdrawRewards :: "address \<Rightarrow> consensusParams \<Rightarrow> u64 \<Rightarrow> u64 \<Rightarrow> accountData \<Rightarrow> (roundCowState, unit) act" where
  "withdrawRewards poolAddr proto rewardUnits rewardsPerUnit poolOld =
     (let (owed, ot) = ot_Mul rewardUnits rewardsPerUnit \<lparr>Overflowed = False\<rparr>;
          (m, ot) = ot_SubA (ad_MicroNovas poolOld) owed ot in
      if Overflowed ot then failWith (Errorf ''overflowed subtracting reward unit'')
      else
        andDo (Put poolAddr (poolOld\<lparr>ad_MicroNovas := m\<rparr>)) (\<lambda>_.
        let (_, ot) = ot_SubA m (cp_MinBalance proto) ot in
        if Overflowed ot then failWith (Errorf ''overflowed subtracting rewards'')
        else ret ()))"

definition payRewards :: "blockHeader \<Rightarrow> blockHeader \<Rightarrow> digest \<Rightarrow> consensusParams \<Rightarrow> u64 \<Rightarrow> (roundCowState, unit) act" where
  "payRewards hdr prevHeader genesisHash proto rewardUnits =
     (let poolAddr = rs_RewardsPool (bh_RewardsState prevHeader);
          (rewardsPerUnit, ot) = ot_Sub (rs_RewardsLevel (bh_RewardsState hdr)) (rs_RewardsLevel (bh_RewardsState prevHeader)) \<lparr>Overflowed = False\<rparr> in
      if Overflowed ot then failWith (Errorf ''overflowed subtracting rewards levels'')
      else
        andDo (Get poolAddr True) (\<lambda>poolOld.
        andDo (workaroundOverspentRewards prevHeader genesisHash poolOld (bh_Round hdr)) (\<lambda>poolOld.
        withdrawRewards poolAddr proto rewardUnits rewardsPerUnit poolOld)))"

definition checkHeader ::
    "'p evalEnv \<Rightarrow> ledgerForEvaluator \<Rightarrow> blockHeader \<Rightarrow> blockHeader \<Rightarrow> consensusParams \<Rightarrow> microNovas \<Rightarrow> u64 \<Rightarrow> (ledgerError, unit) result" where
  "checkHeader env l hdr prevHeader proto poolBalance rewardUnits =
     andThen (map_result BlockErr (\<lambda>x. x) (PreCheck (ev_Consensus env) (ev_hashHeader env) hdr prevHeader)) (\<lambda>_.
     andThen (NextRewardsState (bh_RewardsState prevHeader) (bh_Round hdr) proto poolBalance rewardUnits) (\<lambda>expectedRewardsState.
     if bh_RewardsState hdr \<noteq> expectedRewardsState then Err (Errorf ''bad rewards state'')
     else if cp_SupportGenesisHash proto \<and> bh_GenesisHash hdr \<noteq> le_GenesisHash l then Err (Errorf ''wrong genesis hash'')
     else Ok ()))"

definition StartEvaluator ::
    "'p evalEnv \<Rightarrow> ledgerForEvaluator \<Rightarrow> blockHeader \<Rightarrow> evaluatorOptions \<Rightarrow> (ledgerError, blockEvaluator) result" where
  "StartEvaluator env l hdr opts =
     andThen (case eo_ProtoParams opts of
         Some proto \<Rightarrow> Ok proto
       | None \<Rightarrow>
           (case mget (ev_Consensus env) (us_CurrentProtocol (bh_UpgradeState hdr)) of
              None \<Rightarrow> Err (ProtocolError (us_CurrentProtocol (bh_UpgradeState hdr)))
            | Some proto \<Rightarrow> Ok proto)) (\<lambda>proto.
     let maxBytes = (if eo_MaxTxnBytesPerBlock opts \<le> 0 \<or> eo_MaxTxnBytesPerBlock opts > cp_MaxTxnBytesPerBlock proto
                     then cp_MaxTxnBytesPerBlock proto else eo_MaxTxnBytesPerBlock opts) in
     if bh_Round hdr = 0 then Err ErrRoundZero
     else
       andThen (map_result (Within ''can't evaluate block without previous header'') (\<lambda>x. x)
         (lf_BlockHdr (le_cow l) (bh_Round hdr - 1))) (\<lambda>prevHeader.
       case mget (ev_Consensus env) (us_CurrentProtocol (bh_UpgradeState prevHeader)) of
         None \<Rightarrow> Err (ProtocolError (us_CurrentProtocol (bh_UpgradeState prevHeader)))
       | Some prevProto \<Rightarrow>
           andThen (firstCompactCert proto prevHeader hdr) (\<lambda>compactCertNextRnd.
           let base = makeRoundCowBase (le_cow l) (bh_Round hdr - 1) (bh_TxnCounter prevHeader) compactCertNextRnd proto in
           andThen (le_LatestTotals l) (\<lambda>(latestRound, prevTotals).
           if latestRound \<noteq> bh_Round prevHeader then Err (ErrNonSequentialBlockEval (bh_Round hdr) latestRound)
           else
             andThen (lf_LookupWithoutRewards (le_cow l) (bh_Round prevHeader) (rs_RewardsPool (bh_RewardsState prevHeader))) (\<lambda>pool.
             andThen (WithUpdatedRewards pool prevProto (rs_RewardsLevel (bh_RewardsState prevHeader))) (\<lambda>incentivePoolData.
             andThen (if eo_Generate opts then
                 andThen (AccountTotals_RewardUnits prevTotals) (\<lambda>units.
                 andThen (NextRewardsState (bh_RewardsState prevHeader) (bh_Round hdr) proto (ad_MicroNovas incentivePoolData) units) (\<lambda>rs.
                 Ok (hdr\<lparr>bh_GenesisHash := if cp_SupportGenesisHash proto then le_GenesisHash l else bh_GenesisHash hdr,
                         bh_RewardsState := rs\<rparr>)))
               else Ok hdr) (\<lambda>blockHdr.
             let state = makeRoundCowState base blockHdr proto (bh_TimeStamp prevHeader) prevTotals in
             andThen (if eo_Validate opts then
                 andThen (AccountTotals_RewardUnits prevTotals) (\<lambda>units.
                 checkHeader env l blockHdr prevHeader proto (ad_MicroNovas incentivePoolData) units)
               else Ok ()) (\<lambda>_.
             andThen (AccountTotals_RewardUnits prevTotals) (\<lambda>units.
             andThen (payRewards blockHdr prevHeader (le_GenesisHash l) proto units state) (\<lambda>(_, state).
             Ok \<lparr>be_state = state, be_validate = eo_Validate opts, be_generate = eo_Generate opts, be_prevHeader = prevHeader,
                 be_proto = proto, be_genesisHash = le_GenesisHash l,
                 be_block = \<lparr>bl_BlockHeader = blockHdr, bl_Payset = []\<rparr>, be_blockTxBytes = 0,
                 be_specials = \<lparr>FeeSink = rs_FeeSink (bh_RewardsState hdr), RewardsPool = rs_RewardsPool (bh_RewardsState hdr)\<rparr>,
                 be_blockGenerated = False, be_l = l, be_maxTxnBytesPerBlock = maxBytes, be_rewardAddresses = []\<rparr>))))))))))"

section \<open>Testing a group\<close>

definition txnContext :: "'p evalEnv \<Rightarrow> block \<Rightarrow> explicitTxnContext" where
  "txnContext env b = \<lparr>tc_ExplicitRound = Block_Round b, tc_Proto = ConsensusProtocol (ev_Consensus env) b,
     tc_GenID = bh_GenesisID (bl_BlockHeader b), tc_GenHash = bh_GenesisHash (bl_BlockHeader b)\<rparr>"

definition leaseOf :: "txnHeader \<Rightarrow> txlease" where
  "leaseOf hdr = \<lparr>txl_Sender = h_Sender hdr, txl_Lease = h_Lease hdr\<rparr>"

definition TestTransaction :: "'p evalEnv \<Rightarrow> blockEvaluator \<Rightarrow> signedTxn \<Rightarrow> roundCowState \<Rightarrow> (ledgerError, unit) result" where
  "TestTransaction env eval txn cow =
     (let tx = st_Txn txn; hdr = tx_Header tx in
      andThen (map_result TxnErr (\<lambda>x. x) (Alive hdr (txnContext env (be_block eval)))) (\<lambda>_.
      andThen (map_result (\<lambda>e. Within ''malformed'' (TxnErr e)) (\<lambda>x. x) (WellFormed (ev_compactCertSender env) tx (be_specials eval) (be_proto eval))) (\<lambda>_.
      checkDup (h_FirstValid hdr) (h_LastValid hdr) (ev_ID env tx) (leaseOf hdr) cow)))"

definition withoutGroup :: "transaction \<Rightarrow> transaction" where
  "withoutGroup tx = tx\<lparr>tx_Header := (tx_Header tx)\<lparr>h_Group := 0\<rparr>\<rparr>"

definition groupHash :: "'p evalEnv \<Rightarrow> digest \<Rightarrow> nat \<Rightarrow> transaction \<Rightarrow> digest list \<Rightarrow> (ledgerError, digest list) result" where
  "groupHash env grp sz tx hashes =
     (let g = h_Group (tx_Header tx) in
      if g \<noteq> grp then Err (Errorf ''transactionGroup: inconsistent group values'')
      else if g \<noteq> 0 then Ok (hashes @ [ev_HashTxn env (withoutGroup tx)])
      else if sz > 1 then Err (Errorf ''transactionGroup: had zero Group but was submitted in a group'')
      else Ok hashes)"

definition checkGroup :: "'p evalEnv \<Rightarrow> digest \<Rightarrow> digest list \<Rightarrow> (ledgerError, unit) result" where
  "checkGroup env grp hashes =
     (if hashes \<noteq> [] \<and> grp \<noteq> ev_HashGroup env hashes then Err (Errorf ''transactionGroup: incomplete group'') else Ok ())"

fun testLoop :: "'p evalEnv \<Rightarrow> blockEvaluator \<Rightarrow> digest \<Rightarrow> nat \<Rightarrow> signedTxn list \<Rightarrow> digest list \<Rightarrow> roundCowState \<Rightarrow> (ledgerError, digest list) result" where
  "testLoop env eval grp sz [] hashes cow = Ok hashes"
| "testLoop env eval grp sz (txn # txns) hashes cow =
     andThen (TestTransaction env eval txn cow) (\<lambda>_.
     andThen (groupHash env grp sz (st_Txn txn) hashes) (\<lambda>hashes.
     testLoop env eval grp sz txns hashes cow))"

definition TestTransactionGroup :: "'p evalEnv \<Rightarrow> blockEvaluator \<Rightarrow> signedTxn list \<Rightarrow> (ledgerError, unit) result" where
  "TestTransactionGroup env eval txgroup =
     (case txgroup of
        [] \<Rightarrow> Ok ()
      | txn # _ \<Rightarrow>
          if int (length txgroup) > cp_MaxTxGroupSize (be_proto eval) then Err (Errorf ''group size exceeds maximum'')
          else
            let grp = h_Group (tx_Header (st_Txn txn)) in
            andThen (testLoop env eval grp (length txgroup) txgroup [] (child (be_state eval))) (\<lambda>hashes.
            checkGroup env grp hashes))"

section \<open>Applying a transaction\<close>

text \<open>
  \<open>IsZero\<close> compares with \<open>reflect.DeepEqual\<close>. Maps of the model have no nil value apart from the
  empty map, so an account whose last application map was emptied counts as zero here.
\<close>

definition AccountData_IsZero :: "accountData \<Rightarrow> bool" where
  "AccountData_IsZero u \<longleftrightarrow> u = zeroAccountData"

definition checkMinBalanceOf :: "'p evalEnv \<Rightarrow> blockEvaluator \<Rightarrow> u64 \<Rightarrow> address \<Rightarrow> (roundCowState, unit) act" where
  "checkMinBalanceOf env eval rewardlvl addr =
     (let rs = bh_RewardsState (bl_BlockHeader (be_block eval)) in
      if addr = rs_FeeSink rs \<or> addr = rs_RewardsPool rs \<or> addr = ev_compactCertSender env then ret ()
      else
        andDo (lookup addr) (\<lambda>data.
        if AccountData_IsZero data then ret ()
        else
          andDo (lift (WithUpdatedRewards data (be_proto eval) rewardlvl)) (\<lambda>dataNew.
          let effectiveMinBalance = AccountData_MinBalance dataNew (be_proto eval) in
          if ad_MicroNovas dataNew < effectiveMinBalance then failWith (Errorf ''account balance below min'')
          else if cp_MaximumMinimumBalance (be_proto eval) \<noteq> 0 \<and> effectiveMinBalance > cp_MaximumMinimumBalance (be_proto eval) then
            failWith (Errorf ''account would use too much space after this transaction'')
          else ret ())))"

fun checkMinBalances :: "'p evalEnv \<Rightarrow> blockEvaluator \<Rightarrow> u64 \<Rightarrow> address list \<Rightarrow> (roundCowState, unit) act" where
  "checkMinBalances env eval rewardlvl [] = ret ()"
| "checkMinBalances env eval rewardlvl (addr # addrs) =
     andDo (checkMinBalanceOf env eval rewardlvl addr) (\<lambda>_. checkMinBalances env eval rewardlvl addrs)"

definition checkMinBalance :: "'p evalEnv \<Rightarrow> blockEvaluator \<Rightarrow> (roundCowState, unit) act" where
  "checkMinBalance env eval = withState (\<lambda>cow. checkMinBalances env eval (rewardsLevel cow) (modifiedAccounts cow))"

fun payVoters :: "address \<Rightarrow> microNovas \<Rightarrow> address list \<Rightarrow> applyData \<Rightarrow> (roundCowState, applyData) act" where
  "payVoters sender reward [] ad = ret ad"
| "payVoters sender reward (addr # addrs) ad =
     andDo (Move sender addr reward (Some (apd_SenderRewards ad)) (Some (apd_ReceiverRewards ad))) (\<lambda>(sr, rr).
     payVoters sender reward addrs (setReceiverRewards rr (setSenderRewards sr ad)))"

definition payFee :: "blockEvaluator \<Rightarrow> txnHeader \<Rightarrow> (roundCowState, applyData) act" where
  "payFee eval hdr =
     (let certVoters = of_nat (length (be_rewardAddresses eval)) in
      if certVoters \<noteq> 0 then payVoters (h_Sender hdr) (h_Fee hdr div certVoters) (be_rewardAddresses eval) zeroApplyData
      else
        andDo (Move (h_Sender hdr) (FeeSink (be_specials eval)) (h_Fee hdr) (Some (apd_SenderRewards zeroApplyData)) None) (\<lambda>(sr, _).
        ret (setSenderRewards sr zeroApplyData)))"

text \<open>The line in the transaction log is written whether or not the payment succeeded.\<close>

definition transactionLog :: "'p evalEnv \<Rightarrow> blockEvaluator \<Rightarrow> bool" where
  "transactionLog env eval \<longleftrightarrow> le_RootDir (be_l eval) = [] \<or> ev_transactionLog env \<noteq> CannotOpen"

definition loggedPayment :: "'p evalEnv \<Rightarrow> blockEvaluator \<Rightarrow> transaction \<Rightarrow> applyData \<Rightarrow> (roundCowState, applyData) act" where
  "loggedPayment env eval tx ad = (\<lambda>s.
     case Payment (tx_Payment tx) (tx_Header tx) ad s of
       Panic p \<Rightarrow> Panic p
     | r \<Rightarrow> if transactionLog env eval then r else Panic (Fatal ''error opening file''))"

definition applyByType ::
    "'p evalEnv \<Rightarrow> blockEvaluator \<Rightarrow> transaction \<Rightarrow> applyData \<Rightarrow> nat \<Rightarrow> u64 \<Rightarrow> 'p \<Rightarrow> (roundCowState, applyData \<times> 'p) act" where
  "applyByType env eval tx ad gi ctr ep =
     (let hdr = tx_Header tx in
      case tx_Type tx of
        PaymentTx \<Rightarrow> andDo (loggedPayment env eval tx ad) (\<lambda>ad. ret (ad, ep))
      | KeyRegistrationTx \<Rightarrow>
          withState (\<lambda>s. andDo (Keyreg (tx_Keyreg tx) hdr (be_specials eval) (cow_round s)) (\<lambda>_. ret (ad, ep)))
      | AssetConfigTx \<Rightarrow> andDo (AssetConfig (tx_AssetConfig tx) hdr ad ctr) (\<lambda>ad. ret (ad, ep))
      | AssetTransferTx \<Rightarrow> andDo (AssetTransfer (tx_AssetTransfer tx) hdr ad) (\<lambda>ad. ret (ad, ep))
      | AssetFreezeTx \<Rightarrow> andDo (AssetFreeze (tx_AssetFreeze tx) hdr) (\<lambda>_. ret (ad, ep))
      | ApplicationCallTx \<Rightarrow> ApplicationCall (ev_vm env) (tx_ApplicationCall tx) hdr ad gi ep ctr
      | AddressPrintTx \<Rightarrow> andDo (AddressPrint (ev_addressLog env)) (\<lambda>_. ret (ad, ep))
      | CompactCertTx \<Rightarrow>
          if be_validate eval \<or> be_generate eval then
            andDo (compactCert (ev_Consensus env) (ev_verifyCert env) (tx_CompactCert tx) (h_FirstValid hdr) (be_validate eval)) (\<lambda>_. ret (ad, ep))
          else ret (ad, ep)
      | UnknownTx _ \<Rightarrow> failWith (Errorf ''unknown transaction type''))"

definition trimApplyData :: "consensusParams \<Rightarrow> applyData \<Rightarrow> applyData" where
  "trimApplyData params ad =
     (let ad = (if \<not> cp_RewardsInApplyData params
                then setCloseRewards (Some 0) (setReceiverRewards (Some 0) (setSenderRewards (Some 0) ad)) else ad)
      in if cp_MaxInnerTransactions params = 0 then setConfigAsset 0 (setApplicationID 0 ad) else ad)"

definition applyTransaction ::
    "'p evalEnv \<Rightarrow> blockEvaluator \<Rightarrow> transaction \<Rightarrow> 'p \<Rightarrow> nat \<Rightarrow> u64 \<Rightarrow> (roundCowState, applyData \<times> 'p) act" where
  "applyTransaction env eval tx ep gi ctr = withState (\<lambda>s.
     andDo (payFee eval (tx_Header tx)) (\<lambda>ad.
     andDo (Rekey tx) (\<lambda>_.
     andDo (applyByType env eval tx ad gi ctr ep) (\<lambda>(ad, ep).
     ret (trimApplyData (cow_proto s) ad, vm_RecordAD (ev_vm env) gi ad ep)))))"

definition checkTransaction :: "'p evalEnv \<Rightarrow> blockEvaluator \<Rightarrow> signedTxn \<Rightarrow> (roundCowState, unit) act" where
  "checkTransaction env eval txn =
     (let tx = st_Txn txn; hdr = tx_Header tx in
      andDo (lift (map_result TxnErr (\<lambda>x. x) (Alive hdr (txnContext env (be_block eval))))) (\<lambda>_.
      andDo (withState (\<lambda>cow. lift (checkDup (h_FirstValid hdr) (h_LastValid hdr) (ev_ID env tx) (leaseOf hdr) cow))) (\<lambda>_.
      andDo (lookup (h_Sender hdr)) (\<lambda>acctdata.
      let correctAuthorizer = (if ad_AuthAddr acctdata = 0 then h_Sender hdr else ad_AuthAddr acctdata) in
      if Authorizer txn \<noteq> correctAuthorizer then failWith (Errorf ''transaction should have been authorized by another address'')
      else ret ()))))"

definition checkApplyData :: "'p evalEnv \<Rightarrow> blockEvaluator \<Rightarrow> applyData \<Rightarrow> applyData \<Rightarrow> (ledgerError, unit) result" where
  "checkApplyData env eval ad applyData =
     (if be_validate eval \<and> \<not> be_generate eval then
        if cp_ApplyData (be_proto eval) then
          (if ApplyData_Equal (ev_Encode env) ad applyData then Ok () else Err (Errorf ''applyData mismatch''))
        else (if ApplyData_Equal (ev_Encode env) ad zeroApplyData then Ok () else Err (Errorf ''applyData not supported''))
      else Ok ())"

definition eval_transaction ::
    "'p evalEnv \<Rightarrow> blockEvaluator \<Rightarrow> signedTxn \<Rightarrow> 'p \<Rightarrow> nat \<Rightarrow> applyData \<Rightarrow> (roundCowState, signedTxnInBlock \<times> 'p) act" where
  "eval_transaction env eval txn ep gi ad =
     andDo (if be_validate eval then checkTransaction env eval txn else ret ()) (\<lambda>_.
     andDo (within ''transaction'' (withState (\<lambda>cow. applyTransaction env eval (st_Txn txn) ep gi (txnCounter cow)))) (\<lambda>(applyData, ep).
     andDo (lift (checkApplyData env eval ad applyData)) (\<lambda>_.
     andDo (lift (map_result CodingErr (\<lambda>x. x) (EncodeSignedTxn (ev_Consensus env) (bl_BlockHeader (be_block eval)) txn applyData))) (\<lambda>txib.
     andDo (if be_validate eval \<or> be_generate eval then within ''transaction'' (checkMinBalance env eval) else ret ()) (\<lambda>_.
     (\<lambda>cow. Ok ((txib, ep), addTx (st_Txn txn) (ev_ID env (st_Txn txn)) cow)))))))"

section \<open>Transaction groups\<close>

fun groupTxns ::
    "'p evalEnv \<Rightarrow> blockEvaluator \<Rightarrow> digest \<Rightarrow> nat \<Rightarrow> nat \<Rightarrow> signedTxnWithAD list \<Rightarrow> 'p \<Rightarrow> signedTxnInBlock list \<Rightarrow> int \<Rightarrow> digest list
     \<Rightarrow> (roundCowState, signedTxnInBlock list \<times> int \<times> digest list) act" where
  "groupTxns env eval grp sz gi [] ep txibs bytes hashes = ret (txibs, bytes, hashes)"
| "groupTxns env eval grp sz gi (txad # txads) ep txibs bytes hashes =
     andDo (eval_transaction env eval (sw_SignedTxn txad) ep gi (sw_ApplyData txad)) (\<lambda>(txib, ep).
     let bytes = (if be_validate eval then bytes + ev_EncodedLength env txib else bytes) in
     if be_validate eval \<and> be_blockTxBytes eval + bytes > be_maxTxnBytesPerBlock eval then failWith ErrNoSpace
     else
       andDo (lift (groupHash env grp sz (st_Txn (sw_SignedTxn txad)) hashes)) (\<lambda>hashes.
       groupTxns env eval grp sz (gi + 1) txads ep (txibs @ [txib]) bytes hashes))"

definition TransactionGroup :: "'p evalEnv \<Rightarrow> signedTxnWithAD list \<Rightarrow> blockEvaluator \<Rightarrow> (ledgerError, blockEvaluator) result" where
  "TransactionGroup env txgroup eval =
     (case txgroup of
        [] \<Rightarrow> Ok eval
      | txad # _ \<Rightarrow>
          if int (length txgroup) > cp_MaxTxGroupSize (be_proto eval) then Err (Errorf ''group size exceeds maximum'')
          else
            let grp = h_Group (tx_Header (st_Txn (sw_SignedTxn txad)));
                ep = vm_NewEvalParams (ev_vm env) txgroup (be_proto eval) (be_specials eval) in
            andThen (groupTxns env eval grp (length txgroup) 0 txgroup ep [] 0 [] (child (be_state eval))) (\<lambda>((txibs, bytes, hashes), cow).
            andThen (checkGroup env grp hashes) (\<lambda>_.
            andThen (commitToParent cow) (\<lambda>(_, state).
            Ok (eval\<lparr>be_block := (be_block eval)\<lparr>bl_Payset := bl_Payset (be_block eval) @ txibs\<rparr>,
                     be_blockTxBytes := be_blockTxBytes eval + bytes, be_state := state\<rparr>)))))"

section \<open>The end of a block\<close>

text \<open>An operation of the state, run from the evaluator.\<close>

definition onState :: "(roundCowState, 'a) act \<Rightarrow> (blockEvaluator, 'a) act" where
  "onState m = (\<lambda>eval. andThen (m (be_state eval)) (\<lambda>(x, s). Ok (x, eval\<lparr>be_state := s\<rparr>)))"

definition be_header :: "blockEvaluator \<Rightarrow> blockHeader" where
  "be_header eval = bl_BlockHeader (be_block eval)"

definition updHeader :: "(blockHeader \<Rightarrow> blockHeader) \<Rightarrow> (blockEvaluator, unit) act" where
  "updHeader f = (\<lambda>eval. Ok ((), eval\<lparr>be_block := (be_block eval)\<lparr>bl_BlockHeader := f (bl_BlockHeader (be_block eval))\<rparr>\<rparr>))"

definition compactCertVotersAndTotal :: "blockEvaluator \<Rightarrow> (ledgerError, u8 list \<times> microNovas) result" where
  "compactCertVotersAndTotal eval =
     (let rounds = cp_CompactCertRounds (be_proto eval); rnd = Block_Round (be_block eval) in
      if rounds = 0 then Ok ([], 0)
      else if rnd mod rounds \<noteq> 0 then Ok ([], 0)
      else
        andThen (le_CompactCertVoters (be_l eval) (round_SubSaturate rnd (cp_CompactCertVotersLookback (be_proto eval)))) (\<lambda>voters.
        case voters of None \<Rightarrow> Ok ([], 0) | Some (root, totalWeight) \<Rightarrow> Ok (root, totalWeight)))"

definition isExpired :: "round \<Rightarrow> accountData \<Rightarrow> bool" where
  "isExpired currentRound acctData \<longleftrightarrow> ad_Status acctData = Online \<and> ad_VoteLastValid acctData < currentRound"

fun expiredLoop :: "accountDeltas \<Rightarrow> round \<Rightarrow> int \<Rightarrow> address list \<Rightarrow> address list \<Rightarrow> ('e, address list) result" where
  "expiredLoop accts currentRound maxExpired [] expired = Ok expired"
| "expiredLoop accts currentRound maxExpired (accountAddr # addrs) expired =
     (if int (length expired) < maxExpired then
        andThen (AccountDeltas_Get accts accountAddr) (\<lambda>(acctDelta, found).
        expiredLoop accts currentRound maxExpired addrs
          (if found \<and> isExpired currentRound acctDelta then expired @ [accountAddr] else expired))
      else Ok expired)"

definition generateExpiredOnlineAccountsList :: "(blockEvaluator, unit) act" where
  "generateExpiredOnlineAccountsList = withState (\<lambda>eval.
     if \<not> be_generate eval then ret ()
     else
       let accts = sd_Accts (rc_mods (cow_top (be_state eval))) in
       andDo (lift (expiredLoop accts (Block_Round (be_block eval)) (cp_MaxProposedExpiredOnlineAccounts (be_proto eval))
         (ModifiedAccounts accts) (bh_ExpiredParticipationAccounts (be_header eval)))) (\<lambda>expired.
       updHeader (\<lambda>h. h\<lparr>bh_ExpiredParticipationAccounts := expired\<rparr>)))"

fun validateLoop :: "round \<Rightarrow> address list \<Rightarrow> address list \<Rightarrow> (roundCowState, unit) act" where
  "validateLoop currentRound addressSet [] = ret ()"
| "validateLoop currentRound addressSet (accountAddr # addrs) =
     (if accountAddr \<in> set addressSet then failWith (Errorf ''duplicate address found'')
      else
        andDo (within ''endOfBlock was unable to retrieve account'' (lookup accountAddr)) (\<lambda>acctData.
        if ad_Status acctData \<noteq> Online then failWith (Errorf ''endOfBlock found an account that was not online'')
        else if \<not> ad_VoteLastValid acctData < currentRound then failWith (Errorf ''endOfBlock found a round not less than current round'')
        else validateLoop currentRound (accountAddr # addressSet) addrs))"

definition validateExpiredOnlineAccounts :: "(blockEvaluator, unit) act" where
  "validateExpiredOnlineAccounts = withState (\<lambda>eval.
     if \<not> be_validate eval then ret ()
     else
       let expired = bh_ExpiredParticipationAccounts (be_header eval) in
       if int (length expired) > cp_MaxProposedExpiredOnlineAccounts (be_proto eval) then
         failWith (Errorf ''length of expired accounts was greater than expected'')
       else onState (validateLoop (Block_Round (be_block eval)) [] expired))"

fun resetLoop :: "address list \<Rightarrow> (roundCowState, unit) act" where
  "resetLoop [] = ret ()"
| "resetLoop (accountAddr # addrs) =
     andDo (within ''resetExpiredOnlineAccountsParticipationKeys was unable to retrieve account'' (lookup accountAddr)) (\<lambda>acctData.
     andDo (Put accountAddr (ClearOnlineState acctData)) (\<lambda>_. resetLoop addrs))"

definition resetExpiredOnlineAccountsParticipationKeys :: "(blockEvaluator, unit) act" where
  "resetExpiredOnlineAccountsParticipationKeys = withState (\<lambda>eval.
     let expired = bh_ExpiredParticipationAccounts (be_header eval) in
     if int (length expired) > cp_MaxProposedExpiredOnlineAccounts (be_proto eval) then
       failWith (Errorf ''length of expired accounts was greater than expected'')
     else onState (resetLoop expired))"

definition expectedTxnCount :: "blockEvaluator \<Rightarrow> u64" where
  "expectedTxnCount eval = (if cp_TxnCounter (be_proto eval) then txnCounter (be_state eval) else 0)"

definition generateCommitments :: "'p evalEnv \<Rightarrow> (blockEvaluator, unit) act" where
  "generateCommitments env = withState (\<lambda>eval.
     andDo (lift (map_result BlockErr (\<lambda>x. x) (PaysetCommit (ev_Consensus env) (ev_payset env) (be_block eval)))) (\<lambda>root.
     andDo (updHeader (\<lambda>h. h\<lparr>bh_TxnRoot := root, bh_TxnCounter := expectedTxnCount eval\<rparr>)) (\<lambda>_.
     andDo generateExpiredOnlineAccountsList (\<lambda>_.
     if cp_CompactCertRounds (be_proto eval) > 0 then
       andDo (lift (compactCertVotersAndTotal eval)) (\<lambda>(voters, totalWeight).
       updHeader (\<lambda>h. h\<lparr>bh_CompactCert := [(CompactCertBasic,
         \<lparr>ccs_CompactCertVoters = voters, ccs_CompactCertVotersTotal = totalWeight,
          ccs_CompactCertNextRound = compactCertNext (be_state eval)\<rparr>)]\<rparr>))
     else ret ()))))"

definition checkCommitments :: "'p evalEnv \<Rightarrow> (blockEvaluator, unit) act" where
  "checkCommitments env = withState (\<lambda>eval.
     let hdr = be_header eval; cert = basicCert hdr in
     andDo (lift (map_result BlockErr (\<lambda>x. x) (PaysetCommit (ev_Consensus env) (ev_payset env) (be_block eval)))) (\<lambda>txnRoot.
     if txnRoot \<noteq> bh_TxnRoot hdr then failWith (Errorf ''txn root wrong'')
     else if bh_TxnCounter hdr \<noteq> expectedTxnCount eval then failWith (Errorf ''txn count wrong'')
     else
       andDo (lift (compactCertVotersAndTotal eval)) (\<lambda>(expectedVoters, expectedVotersWeight).
       if ccs_CompactCertVoters cert \<noteq> expectedVoters then failWith (Errorf ''CompactCertVoters wrong'')
       else if ccs_CompactCertVotersTotal cert \<noteq> expectedVotersWeight then failWith (Errorf ''CompactCertVotersTotal wrong'')
       else if ccs_CompactCertNextRound cert \<noteq> compactCertNext (be_state eval) then failWith (Errorf ''CompactCertNextRound wrong'')
       else if \<exists>ccType \<in> set (map fst (bh_CompactCert hdr)). ccType \<noteq> CompactCertBasic then failWith (Errorf ''CompactCertType unexpected'')
       else ret ())))"

text \<open>
  \<open>OptimizeAllocatedMemory\<close>, called between the expired accounts and the commitments, copies
  slices and maps to smaller ones with the same contents and has no counterpart here.
\<close>

definition endOfBlock :: "'p evalEnv \<Rightarrow> (blockEvaluator, unit) act" where
  "endOfBlock env = withState (\<lambda>eval.
     andDo (if be_generate eval then generateCommitments env else ret ()) (\<lambda>_.
     andDo validateExpiredOnlineAccounts (\<lambda>_.
     andDo resetExpiredOnlineAccountsParticipationKeys (\<lambda>_.
     andDo (if be_validate eval then checkCommitments env else ret ()) (\<lambda>_.
     onState CalculateTotals)))))"

definition pushLayer :: "roundCowLayer \<Rightarrow> roundCowState \<Rightarrow> roundCowState" where
  "pushLayer cb s = s\<lparr>cow_top := cb, cow_parents := cow_top s # cow_parents s\<rparr>"

text \<open>
  \<open>GenerateBlock\<close> sets \<open>blockGenerated\<close> before it looks up the protocol, so that a failed
  lookup also leaves the flag set; the model returns the evaluator only on success.
\<close>

definition GenerateBlock :: "'p evalEnv \<Rightarrow> (blockEvaluator, block \<times> ledgerDelta) act" where
  "GenerateBlock env = withState (\<lambda>eval.
     if \<not> be_generate eval then (\<lambda>_. Panic (LogPanic ''GenerateBlock() called but generate is false''))
     else if be_blockGenerated eval then failWith (Errorf ''GenerateBlock already called on this BlockEvaluator'')
     else
       andDo (endOfBlock env) (\<lambda>_.
       andDo (onState deltas) (\<lambda>delta. withState (\<lambda>eval.
       case mget (ev_Consensus env) (us_CurrentProtocol (bh_UpgradeState (be_header eval))) of
         None \<Rightarrow> failWith (Errorf ''unknown consensus version'')
       | Some proto \<Rightarrow> (\<lambda>eval. Ok ((be_block eval, delta),
           eval\<lparr>be_blockGenerated := True,
                be_state := pushLayer (makeRoundCowLayer (be_header eval) proto (bh_TimeStamp (be_prevHeader eval))
                  (sd_Totals (rc_mods (cow_top (be_state eval))))) (be_state eval)\<rparr>))))))"

section \<open>Evaluating a block\<close>

text \<open>
  \<open>loadAccounts\<close> reads the accounts a group names before the group is evaluated. Its workers
  read the ledger, which does not change meanwhile, so the order of their reads shows only in
  which of several errors comes first; the model reads in the order of the addresses.
\<close>

definition txnAddresses :: "transaction \<Rightarrow> address list" where
  "txnAddresses tx =
     [h_Sender (tx_Header tx), pay_Receiver (tx_Payment tx), pay_CloseRemainderTo (tx_Payment tx),
      ax_AssetSender (tx_AssetTransfer tx), ax_AssetReceiver (tx_AssetTransfer tx),
      ax_AssetCloseTo (tx_AssetTransfer tx), af_FreezeAccount (tx_AssetFreeze tx)] @
     elems (apc_Accounts (tx_ApplicationCall tx))"

definition groupAddresses :: "signedTxnWithAD list \<Rightarrow> address list \<Rightarrow> address list" where
  "groupAddresses g feeSink =
     filter (\<lambda>a. a \<noteq> 0) (concat (map (txnAddresses \<circ> st_Txn \<circ> sw_SignedTxn) g) @ feeSink)"

fun loadBalances :: "ledgerForCowBase \<Rightarrow> round \<Rightarrow> address list \<Rightarrow> (ledgerError, balanceRecord list) result" where
  "loadBalances l rnd [] = Ok []"
| "loadBalances l rnd (addr # addrs) =
     andThen (lf_LookupWithoutRewards l rnd addr) (\<lambda>acctData.
     andThen (loadBalances l rnd addrs) (\<lambda>brs.
     Ok (\<lparr>br_Addr = addr, br_AccountData = acctData\<rparr> # brs)))"

definition fillAccounts :: "balanceRecord list \<Rightarrow> blockEvaluator \<Rightarrow> blockEvaluator" where
  "fillAccounts balances eval =
     (let s = be_state eval; base = cow_base s in
      eval\<lparr>be_state := s\<lparr>cow_base := base\<lparr>cb_accounts :=
        fold (\<lambda>br. mput (br_Addr br) (br_AccountData br)) balances (cb_accounts base)\<rparr>\<rparr>\<rparr>)"

fun evalGroups :: "'p evalEnv \<Rightarrow> round \<Rightarrow> address list \<Rightarrow> signedTxnWithAD list list \<Rightarrow> blockEvaluator \<Rightarrow> (ledgerError, blockEvaluator) result" where
  "evalGroups env rnd feeSink [] eval = Ok eval"
| "evalGroups env rnd feeSink (g # gs) eval =
     andThen (loadBalances (le_cow (be_l eval)) rnd (groupAddresses g feeSink)) (\<lambda>balances.
     andThen (TransactionGroup env g (fillAccounts balances eval)) (\<lambda>eval.
     evalGroups env rnd [] gs eval))"

fun allAlive :: "explicitTxnContext \<Rightarrow> signedTxn list \<Rightarrow> (ledgerError, unit) result" where
  "allAlive ctx [] = Ok ()"
| "allAlive ctx (txn # txns) =
     andThen (map_result TxnErr (\<lambda>x. x) (Alive (tx_Header (st_Txn txn)) ctx)) (\<lambda>_. allAlive ctx txns)"

definition validator_run :: "'p evalEnv \<Rightarrow> block \<Rightarrow> signedTxnWithAD list list \<Rightarrow> (ledgerError, unit) result" where
  "validator_run env b groups =
     andThen (allAlive (txnContext env b) (map sw_SignedTxn (concat groups))) (\<lambda>_.
     ev_verifyPayset env (map (map sw_SignedTxn) groups) (bl_BlockHeader b))"

text \<open>
  The signatures are verified beside the evaluation and an error of either ends it; the model
  asks for the verdict after the last group.
\<close>

definition Eval ::
    "'p evalEnv \<Rightarrow> ledgerForEvaluator \<Rightarrow> block \<Rightarrow> bool \<Rightarrow> address list \<Rightarrow> (ledgerError, ledgerDelta \<times> blockEvaluator) result" where
  "Eval env l blk validate certVoteAddresses =
     andThen (StartEvaluator env l (bl_BlockHeader blk)
       \<lparr>eo_Validate = validate, eo_Generate = False, eo_MaxTxnBytesPerBlock = 0, eo_ProtoParams = None\<rparr>) (\<lambda>eval.
     andThen (map_result CodingErr (\<lambda>x. x) (DecodePaysetGroups (ev_Consensus env) blk)) (\<lambda>paysetgroups.
     if validate \<and> mget (ev_Consensus env) (us_CurrentProtocol (bh_UpgradeState (bl_BlockHeader blk))) = None then
       Err (ProtocolError (us_CurrentProtocol (bh_UpgradeState (bl_BlockHeader blk))))
     else
       andThen (evalGroups env (Block_Round blk - 1) [rs_FeeSink (bh_RewardsState (bl_BlockHeader blk))] paysetgroups
         (eval\<lparr>be_rewardAddresses := certVoteAddresses\<rparr>)) (\<lambda>eval.
       andThen (endOfBlock env eval) (\<lambda>(_, eval).
       andThen (if validate then validator_run env blk paysetgroups else Ok ()) (\<lambda>_.
       andThen (onState deltas eval) Ok)))))"

end
