(* ===== verification/Ledger_Block.thy ===== *)
theory Ledger_Block
  imports Ledger_Eval
begin

text \<open>
  The steps of the evaluator respect every policy: each transaction, whoever gets its fee,
  and each group.
\<close>

section \<open>Rules\<close>

lemma within_Ok [act_simps]: "within msg m s = Ok r \<longleftrightarrow> m s = Ok r"
  by (cases "m s") (simp_all add: within_def)

lemma does_within: "does R m \<Longrightarrow> does R (within msg m)"
  unfolding does_def within_Ok .

lemma holds_within: "holds p l P R m \<Longrightarrow> holds p l P R (within msg m)"
  unfolding holds_def within_Ok .

lemma post_ret: "(\<And>A. P A \<Longrightarrow> Q A) \<Longrightarrow> holds p l P (\<lambda>s t. Q (acct t)) (ret x)"
  by (rule holdsI) (simp add: act_simps)

section \<open>Reading and noting\<close>

lemma quiet_checkMinBalance: "does quiet (checkMinBalance env eval)"
proof -
  have one: "does quiet (checkMinBalanceOf env eval level addr)" for level addr
    unfolding checkMinBalanceOf_def by (intro quiet_rules does_lookup)
  have "does quiet (checkMinBalances env eval level addrs)" for level addrs
    by (induction addrs) (simp_all only: checkMinBalances.simps, (intro quiet_rules one | assumption)+)
  then show ?thesis unfolding checkMinBalance_def by (intro quiet_rules)
qed

lemma quiet_checkTransaction: "does quiet (checkTransaction env eval txn)"
  unfolding checkTransaction_def by (intro quiet_rules does_lookup)

text \<open>What a transaction leaves in the layer beside its effects.\<close>

definition noted :: "transaction \<Rightarrow> txid \<Rightarrow> roundCowLayer \<Rightarrow> roundCowLayer" where
  "noted tx txid cb = cb\<lparr>rc_txnCount := rc_txnCount cb + 1, rc_mods := (rc_mods cb)\<lparr>
     sd_Txids := mput txid (h_LastValid (tx_Header tx)) (sd_Txids (rc_mods cb)),
     sd_Txleases := (if h_Lease (tx_Header tx) \<noteq> 0
       then mput (leaseOf (tx_Header tx)) (h_LastValid (tx_Header tx)) (sd_Txleases (rc_mods cb)) else sd_Txleases (rc_mods cb))\<rparr>\<rparr>"

lemma addTx_eq: "addTx tx txid = updTop (noted tx txid)"
  by (simp add: fun_eq_iff addTx_def updTop_def updMods_def incTxnCount_def noted_def leaseOf_def Let_def)

lemma quiet_addTx: "does quiet (\<lambda>s. Ok (x, addTx tx txid s))"
  unfolding addTx_eq by (rule does_updTop) (auto simp: noted_def frameOf_def idsOf_def map_simps)

lemma quiet_compactCert: "does quiet (compactCert tbl ver cert atRound validate)"
proof (rule doesI)
  fix s x t
  assume s: "okState s" and c: "compactCert tbl ver cert atRound validate s = Ok (x, t)"
  then obtain r where "t = setCompactCertNext r s" by (auto simp: compactCert_def Let_def result_simps split: if_splits)
  then show "okState t \<and> quiet s t" unfolding setCompactCertNext_def by (simp add: quiet_updMods [OF s])
qed

section \<open>Fees\<close>

context ledger_policy
begin

lemma does_payVoters: "does R (payVoters sender reward addrs ad)"
  by (induction addrs arbitrary: ad) (simp_all only: payVoters.simps, (intro does_rules does_transfer | assumption)+)

lemma settles_payVoters:
  "holds p l (\<lambda>A. addrs = [] \<longrightarrow> settled p l (A sender)) (\<lambda>s t. settled p l (acct t sender)) (payVoters sender reward addrs ad)"
proof (induction addrs arbitrary: ad)
  case Nil
  show ?case unfolding payVoters.simps by (rule post_ret) simp
next
  case (Cons a addrs)
  show ?case
    unfolding payVoters.simps
    by (rule post_bind [OF does_transfer settles_Move]) (auto intro: holds_weaken [OF Cons.IH] split: prod.split)
qed

lemma does_payFee: "does R (payFee eval hdr)"
  unfolding payFee_def by (intro does_rules does_payVoters does_transfer)

lemma settles_payFee: "holds p l P (\<lambda>s t. settled p l (acct t (h_Sender hdr))) (payFee eval hdr)"
proof (cases "of_nat (length (be_rewardAddresses eval)) = (0 :: u64)")
  case True
  have "holds p l P (\<lambda>s t. settled p l (acct t (h_Sender hdr)))
      (andDo (Move (h_Sender hdr) (FeeSink (be_specials eval)) (h_Fee hdr) (Some (apd_SenderRewards zeroApplyData)) None)
        (\<lambda>(sr, _). ret (setSenderRewards sr zeroApplyData)))"
    by (rule post_bind [OF does_transfer settles_Move]) (auto intro: post_ret split: prod.split)
  then show ?thesis by (simp add: payFee_def True)
next
  case False
  then have "be_rewardAddresses eval \<noteq> []" by auto
  then show ?thesis
    using False by (simp add: payFee_def) (rule holds_weaken [OF settles_payVoters], simp)
qed

lemma does_loggedPayment: "does R (loggedPayment env eval tx ad)"
proof (rule doesI)
  fix s x t
  assume s: "okState s" and m: "loggedPayment env eval tx ad s = Ok (x, t)"
  have "Payment (tx_Payment tx) (tx_Header tx) ad s = Ok (x, t)"
    using m by (auto simp: loggedPayment_def split: result.splits if_splits)
  then show "okState t \<and> R s t" by (rule doesD [OF does_Payment s])
qed

lemma holds_applyByType:
  assumes "vmRespects R (ev_vm env) ep"
  shows "holds p l (\<lambda>A. settled p l (A (h_Sender (tx_Header tx)))) R (applyByType env eval tx ad gi ctr ep)"
  unfolding applyByType_def Let_def
  by (cases "tx_Type tx")
    (simp_all only: txType.case, (intro holds_withState holds_bind [OF holds_Keyreg] holds_basic
      holds_bind holds_if holds_does [OF does_loggedPayment] holds_does [OF does_AssetConfig]
      holds_does [OF does_AssetTransfer] holds_does [OF does_AssetFreeze] holds_does [OF does_ApplicationCall [OF assms]]
      holds_quiet [OF quiet_AddressPrint] holds_quiet [OF quiet_compactCert])+)

lemma does_applyTransaction:
  assumes "vmRespects R (ev_vm env) ep"
  shows "does R (applyTransaction env eval tx ep gi ctr)"
  unfolding does_holds applyTransaction_def
  by (intro allI, rule holds_withState, rule holds_bind_post [OF holds_does [OF does_payFee] settles_payFee],
      rule holds_bind_post [OF holds_does [OF does_Rekey] settles_Rekey],
      rule holds_bind [OF holds_applyByType [OF assms]], intro holds_cases)

lemma does_eval_transaction:
  assumes "vmRespects R (ev_vm env) ep"
  shows "does R (eval_transaction env eval txn ep gi ad)"
  unfolding eval_transaction_def
  by (intro does_rules does_within does_applyTransaction assms does_quiet [OF quiet_checkTransaction]
      does_quiet [OF quiet_checkMinBalance] does_quiet [OF quiet_addTx])

lemma does_groupTxns:
  assumes "\<And>ep. vmRespects R (ev_vm env) ep"
  shows "does R (groupTxns env eval grp sz gi txads ep txibs bytes hashes)"
  by (induction txads arbitrary: gi ep txibs bytes hashes)
    (simp_all only: groupTxns.simps, (intro does_rules does_eval_transaction assms | assumption)+)

end

section \<open>Groups\<close>

text \<open>A group that is not empty runs on a child of the state, which is then committed.\<close>

lemma TransactionGroup_Ok:
  assumes "TransactionGroup env txgroup eval = Ok eval'" "txgroup \<noteq> []"
  obtains ep txibs bytes hashes cow u t where
    "groupTxns env eval (h_Group (tx_Header (st_Txn (sw_SignedTxn (hd txgroup))))) (length txgroup) 0 txgroup ep [] 0 []
       (child (be_state eval)) = Ok ((txibs, bytes, hashes), cow)"
    "commitToParent cow = Ok (u, t)"
    "eval' = eval\<lparr>be_block := (be_block eval)\<lparr>bl_Payset := bl_Payset (be_block eval) @ txibs\<rparr>,
       be_blockTxBytes := be_blockTxBytes eval + bytes, be_state := t\<rparr>"
    "checkGroup env (h_Group (tx_Header (st_Txn (sw_SignedTxn (hd txgroup))))) hashes = Ok ()"
    "int (length txgroup) \<le> cp_MaxTxGroupSize (be_proto eval)"
  using assms unfolding TransactionGroup_def Let_def
  by (auto simp: result_simps neq_Nil_conv split: if_splits prod.splits)

context ledger_policy
begin

lemma TransactionGroup_step:
  assumes "\<And>ep. vmRespects R (ev_vm env) ep" "okState (be_state eval)" "TransactionGroup env txgroup eval = Ok eval'"
  shows "okState (be_state eval') \<and> R (be_state eval) (be_state eval')"
proof (cases "txgroup = []")
  case True
  then show ?thesis using assms(2,3) refl by (simp add: TransactionGroup_def)
next
  case False
  let ?s = "be_state eval"
  obtain ep txibs bytes hashes cow u t where
    g: "groupTxns env eval (h_Group (tx_Header (st_Txn (sw_SignedTxn (hd txgroup))))) (length txgroup) 0 txgroup ep [] 0 []
       (child ?s) = Ok ((txibs, bytes, hashes), cow)"
    and c: "commitToParent cow = Ok (u, t)" and e: "be_state eval' = t"
    by (rule TransactionGroup_Ok [OF assms(3) False]) simp
  have cow: "okState cow" "R (child ?s) cow"
    using doesD [OF does_groupTxns [OF assms(1)] okState_child [OF assms(2)] g] by simp_all
  show ?thesis
    using commit_step [OF cow(2,1) assms(2) c] child_commit(2) [OF step_frame [OF cow(2)] cow(1) assms(2) c] by (simp add: e)
qed

end

end
