(* ===== verification/Ledger_Totals.thy ===== *)
theory Ledger_Totals
  imports Ledger_Block
begin

text \<open>
  The totals the ledger keeps beside the accounts. At the end of a block the evaluator takes
  the old record of every changed account out of the totals and puts the new one in; here the
  result is shown to be the totals of all accounts. Paying the rewards of a round takes from
  the pool what the rise of the reward level gives the other accounts.
\<close>

section \<open>All accounts\<close>

definition accountsOf :: "(address \<Rightarrow> accountData) \<Rightarrow> accountData multiset" where
  "accountsOf A = image_mset A (mset_set UNIV)"

lemma accountsOf_split: "accountsOf A = add_mset (A a) (image_mset A (mset_set (UNIV - {a})))"
proof -
  have "mset_set (UNIV :: address set) = add_mset a (mset_set (UNIV - {a}))" by (rule mset_set.remove) simp_all
  then show ?thesis by (simp add: accountsOf_def)
qed

lemma accountsOf_upd: "accountsOf (A(a := d)) = add_mset d (image_mset A (mset_set (UNIV - {a})))"
proof -
  have "image_mset (A(a := d)) (mset_set (UNIV - {a})) = image_mset A (mset_set (UNIV - {a}))"
    by (rule image_mset_cong) (auto simp: elem_mset_set)
  then show ?thesis by (simp add: accountsOf_split [of "A(a := d)" a])
qed

lemma sumOver_accountsOf: "sumOver f A = (\<Sum>u \<in># accountsOf A. f u)"
  by (simp add: sumOver_def accountsOf_def sum_unfold_sum_mset image_mset.compositionality comp_def)

lemma totalsMatch_replace:
  assumes "DelAccount proto (A a) at ot = Ok (at1, ot1)" "AddAccount proto d at1 ot1 = Ok (at', ot')" "\<not> Overflowed ot'"
    "cp_RewardUnit proto \<noteq> 0" "totalsMatch proto at (accountsOf A)"
  shows "totalsMatch proto at' (accountsOf (A(a := d)))" "at_RewardsLevel at' = at_RewardsLevel at" "\<not> Overflowed ot"
proof -
  from AddAccount_Ok [OF assms(2-4)] have o: "\<not> Overflowed ot1" and l: "at_RewardsLevel at' = at_RewardsLevel at1"
    by (metis, metis statusField_set(2))
  from DelAccount_Ok [OF assms(1) o assms(4)] show "\<not> Overflowed ot" "at_RewardsLevel at' = at_RewardsLevel at"
    unfolding l by (metis, metis statusField_set(2))
  show "totalsMatch proto at' (accountsOf (A(a := d)))"
    unfolding accountsOf_upd
    by (rule totalsMatch_add [OF assms(2-4) totalsMatch_del [OF assms(1) o assms(4)]])
      (rule assms(5) [unfolded accountsOf_split [of A a]])
qed

section \<open>The totals at the end of a block\<close>

definition accountIn :: "roundCowLayer list \<Rightarrow> roundCowBase \<Rightarrow> address \<Rightarrow> accountData" where
  "accountIn cbs b a = (case viewIn cbs b a of Ok d \<Rightarrow> d | _ \<Rightarrow> zeroAccountData)"

abbreviation overlay :: "balanceRecord list \<Rightarrow> (address \<Rightarrow> accountData) \<Rightarrow> address \<Rightarrow> accountData" where
  "overlay brs A \<equiv> fold (\<lambda>br A. A(br_Addr br := br_AccountData br)) brs A"

lemma overflow_sticky:
  assumes "totalsLoop cbs proto brs at ot b = Ok ((at', ot'), b')" "\<not> Overflowed ot'" "cp_RewardUnit proto \<noteq> 0"
  shows "\<not> Overflowed ot"
  using assms(1)
proof (induction brs arbitrary: at ot b)
  case Nil
  then show ?case using assms(2) by (simp add: act_simps)
next
  case (Cons br brs)
  from Cons.prems obtain d b1 at1 ot1 at2 ot2 where
    d: "DelAccount proto d at ot = (Ok (at1, ot1) :: (ledgerError, accountTotals \<times> overflowTracker) result)"
    and a: "AddAccount proto (br_AccountData br) at1 ot1 = (Ok (at2, ot2) :: (ledgerError, accountTotals \<times> overflowTracker) result)"
    and r: "totalsLoop cbs proto brs at2 ot2 b1 = Ok ((at', ot'), b')"
    by (auto simp: result_simps split: result.splits prod.splits)
  show ?case using DelAccount_Ok [OF d _ assms(3)] AddAccount_Ok [OF a Cons.IH [OF r] assms(3)] by metis
qed

lemma totalsLoop_match:
  assumes "totalsLoop cbs proto brs at ot b = Ok ((at', ot'), b')" "\<not> Overflowed ot'" "cp_RewardUnit proto \<noteq> 0"
    "\<forall>cb \<in> set cbs. deltasOK (sd_Accts (rc_mods cb))" "distinct (map br_Addr brs)"
    "totalsMatch proto at (accountsOf A)" "\<forall>br \<in> set brs. A (br_Addr br) = accountIn cbs b (br_Addr br)"
  shows "totalsMatch proto at' (accountsOf (overlay brs A)) \<and> at_RewardsLevel at' = at_RewardsLevel at \<and> baseEq b b'"
  using assms(1,5-7)
proof (induction brs arbitrary: at ot b A)
  case Nil
  then show ?case by (simp add: act_simps)
next
  case (Cons br brs)
  from Cons.prems(1) obtain d b1 at1 ot1 at2 ot2 where l: "lookupIn cbs (br_Addr br) b = Ok (d, b1)"
    and d: "DelAccount proto d at ot = (Ok (at1, ot1) :: (ledgerError, accountTotals \<times> overflowTracker) result)"
    and a: "AddAccount proto (br_AccountData br) at1 ot1 = (Ok (at2, ot2) :: (ledgerError, accountTotals \<times> overflowTracker) result)"
    and r: "totalsLoop cbs proto brs at2 ot2 b1 = Ok ((at', ot'), b')"
    by (auto simp: result_simps split: result.splits prod.splits)
  have v: "viewIn cbs b (br_Addr br) = Ok d" "baseEq b b1" using lookupIn_Ok [OF assms(4) l] by simp_all
  have "A (br_Addr br) = d" using Cons.prems(4) v(1) by (simp add: accountIn_def)
  note m = totalsMatch_replace [OF d [folded this] a overflow_sticky [OF r assms(2,3)] assms(3) Cons.prems(3)]
  have ne: "\<forall>br' \<in> set brs. br_Addr br' \<noteq> br_Addr br" using Cons.prems(2) by (fastforce simp: image_iff)
  have "\<forall>br' \<in> set brs. (A(br_Addr br := br_AccountData br)) (br_Addr br') = accountIn cbs b1 (br_Addr br')"
    using Cons.prems(4) ne viewIn_baseEq [OF v(2), of cbs] by (simp add: accountIn_def)
  from Cons.IH [OF r _ m(1) this] Cons.prems(2) m(2) baseEq_trans [OF v(2)] show ?case by auto
qed

lemma overlay_find:
  "distinct (map br_Addr brs) \<Longrightarrow>
   overlay brs A a = (case find (\<lambda>br. br_Addr br = a) brs of None \<Rightarrow> A a | Some br \<Rightarrow> br_AccountData br)"
proof (induction brs arbitrary: A)
  case (Cons br brs)
  have "find (\<lambda>b. br_Addr b = br_Addr br) brs = None"
    using Cons.prems by (auto simp: find_None_iff image_iff)
  then show ?case using Cons by (auto split: option.splits)
qed simp

lemma acct_overlay:
  assumes "cowOK s"
  shows "acct s = overlay (acd_accts (sd_Accts (rc_mods (cow_top s)))) (accountIn (cow_parents s) (cow_base s))"
proof -
  have "distinct (map br_Addr (acd_accts (sd_Accts (rc_mods (cow_top s)))))"
    using assms by (simp add: cowOK_def layers_def deltasOK_def ModifiedAccounts_def)
  from overlay_find [OF this] show ?thesis
    by (auto simp: fun_eq_iff acct_def view_def layers_def deltasGet_def accountIn_def split: option.splits)
qed

text \<open>The accounts before the block, seen from its layer.\<close>

definition before :: "roundCowState \<Rightarrow> address \<Rightarrow> accountData" where
  "before s = accountIn (cow_parents s) (cow_base s)"

definition basesBelow :: "u64 \<Rightarrow> (address \<Rightarrow> accountData) \<Rightarrow> bool" where
  "basesBelow level A \<longleftrightarrow> (\<forall>a. ad_RewardsBase (A a) \<le> level)"

definition prevTotalsOK :: "roundCowState \<Rightarrow> bool" where
  "prevTotalsOK s \<longleftrightarrow> (let at = rc_prevTotals (cow_top s) in
     totalsMatch (cow_proto s) at (accountsOf (before s)) \<and> basesBelow (at_RewardsLevel at) (before s))"

lemma ApplyRewards_level:
  assumes "ApplyRewards level at ot = (at', ot')" "\<not> Overflowed ot'"
  shows "at_RewardsLevel at \<le> level"
proof -
  obtain on ot1 off where on: "applyRewards (level - at_RewardsLevel at) (at_Online at) (snd (ot_Sub level (at_RewardsLevel at) ot)) = (on, ot1)"
    and off: "applyRewards (level - at_RewardsLevel at) (at_Offline at) ot1 = (off, ot')"
    using assms(1) by (auto simp: ApplyRewards_def Let_def ot_Sub_eq split: prod.splits)
  have "\<not> Overflowed (snd (ot_Sub level (at_RewardsLevel at) ot))"
    by (rule applyRewards_exact(3) [OF on applyRewards_exact(3) [OF off assms(2)]])
  then show ?thesis by (auto simp: ot_Sub_eq not_less word_le_nat_alt split: if_splits)
qed

lemma applied_totals:
  assumes "okState s" "prevTotalsOK s"
    "ApplyRewards (rewardsLevel s) (rc_prevTotals (cow_top s)) \<lparr>Overflowed = False\<rparr> = (at, ot)" "\<not> Overflowed ot"
  shows "totalsMatch (cow_proto s) at (accountsOf (before s))" "at_RewardsLevel at = rewardsLevel s"
proof -
  have "\<forall>u \<in># accountsOf (before s). unat (ad_RewardsBase u) \<le> unat (at_RewardsLevel (rc_prevTotals (cow_top s)))"
    using assms(2) by (auto simp: prevTotalsOK_def Let_def basesBelow_def accountsOf_def word_le_nat_alt)
  then show "totalsMatch (cow_proto s) at (accountsOf (before s))"
    using totalsMatch_rewards [OF assms(3,4)] assms(2) by (simp add: prevTotalsOK_def Let_def)
  show "at_RewardsLevel at = rewardsLevel s"
    using assms(3) by (auto simp: ApplyRewards_def Let_def split: prod.splits)
qed

lemma loop_totals:
  assumes "okState s" "prevTotalsOK s"
    "ApplyRewards (rewardsLevel s) (rc_prevTotals (cow_top s)) \<lparr>Overflowed = False\<rparr> = (at1, ot1)"
    "totalsLoop (cow_parents s) (cow_proto s) (acd_accts (sd_Accts (rc_mods (cow_top s)))) at1 ot1 (cow_base s) = Ok ((at, ot), b)"
    "\<not> Overflowed ot"
  shows "totalsMatch (cow_proto s) at (accountsOf (acct s))" "at_RewardsLevel at = rewardsLevel s" "baseEq (cow_base s) b"
    "at_RewardsLevel (rc_prevTotals (cow_top s)) \<le> rewardsLevel s"
proof -
  have c: "cowOK s" "cp_RewardUnit (cow_proto s) \<noteq> 0" using assms(1) by (simp_all add: okState_def)
  note o = overflow_sticky [OF assms(4,5) c(2)]
  note at1 = applied_totals [OF assms(1-3) o]
  show "at_RewardsLevel (rc_prevTotals (cow_top s)) \<le> rewardsLevel s" by (rule ApplyRewards_level [OF assms(3) o])
  have par: "\<forall>cb \<in> set (cow_parents s). deltasOK (sd_Accts (rc_mods cb))"
    "distinct (map br_Addr (acd_accts (sd_Accts (rc_mods (cow_top s)))))"
    using c(1) by (simp_all add: cowOK_def layers_def deltasOK_def ModifiedAccounts_def)
  show "totalsMatch (cow_proto s) at (accountsOf (acct s))" "at_RewardsLevel at = rewardsLevel s" "baseEq (cow_base s) b"
    using totalsLoop_match [OF assms(4,5) c(2) par at1(1)] at1(2) acct_overlay [OF c(1)] by (simp_all add: before_def)
qed

lemma CalculateTotals_Ok:
  assumes "okState s" "prevTotalsOK s" "CalculateTotals s = Ok (u, t)"
  shows "totalsMatch (cow_proto t) (sd_Totals (rc_mods (cow_top t))) (accountsOf (acct t))"
    "at_RewardsLevel (sd_Totals (rc_mods (cow_top t))) = rewardsLevel t" "okState t" "quiet s t"
    "at_RewardsLevel (rc_prevTotals (cow_top s)) \<le> rewardsLevel s"
proof -
  let ?cb = "cow_top s"
  obtain at1 ot1 where r: "ApplyRewards (rewardsLevel s) (rc_prevTotals ?cb) \<lparr>Overflowed = False\<rparr> = (at1, ot1)" by fastforce
  obtain at ot b where
    l: "totalsLoop (cow_parents s) (cow_proto s) (acd_accts (sd_Accts (rc_mods ?cb))) at1 ot1 (cow_base s) = Ok ((at, ot), b)"
    and o: "\<not> Overflowed ot" and t: "t = updMods (\<lambda>m. m\<lparr>sd_Totals := at\<rparr>) (s\<lparr>cow_base := b\<rparr>)"
    using assms(3) r unfolding CalculateTotals_def Let_def
    by (auto simp: act_simps rewardsLevel_def cow_proto_def split: if_splits prod.splits)
  note m = loop_totals [OF assms(1,2) r l o]
  show "at_RewardsLevel (rc_prevTotals ?cb) \<le> rewardsLevel s" by (rule m)
  have e: "cowEq s (s\<lparr>cow_base := b\<rparr>)" using m(3) by (simp add: cowEq_def)
  note q = quiet_cowEq [OF assms(1) e]
  have q2: "okState t \<and> quiet (s\<lparr>cow_base := b\<rparr>) t" unfolding t by (rule quiet_updMods) (simp_all add: q)
  show q3: "okState t" "quiet s t" using q q2 qt.trans by blast+
  then have a: "acct t = acct s" "cow_proto t = cow_proto s" "rewardsLevel t = rewardsLevel s"
    by (simp_all add: quiet_def sameFrame_simps)
  show "totalsMatch (cow_proto t) (sd_Totals (rc_mods (cow_top t))) (accountsOf (acct t))"
    "at_RewardsLevel (sd_Totals (rc_mods (cow_top t))) = rewardsLevel t"
    using m(1,2) by (simp_all only: a) (simp_all add: t updMods_def)
qed

section \<open>Reward bases\<close>

text \<open>No account has claimed rewards of a level that has not been reached.\<close>

definition keepsBases :: "roundCowState \<Rightarrow> roundCowState \<Rightarrow> bool" where
  "keepsBases s t \<longleftrightarrow> sameFrame s t \<and> (basesBelow (rewardsLevel s) (acct s) \<longrightarrow> basesBelow (rewardsLevel s) (acct t))"

lemma claimed_base: "ad_RewardsBase (claimed p l u) = (if ad_Status u = NotParticipating then ad_RewardsBase u else l)"
  by (simp add: claimed_def)

lemma basesBelow_upd: "basesBelow l A \<Longrightarrow> ad_RewardsBase d \<le> l \<Longrightarrow> basesBelow l (A(a := d))"
  by (simp add: basesBelow_def)

lemma basesBelow_claimed: "basesBelow l A \<Longrightarrow> ad_RewardsBase ((claimed p l (A a))\<lparr>ad_MicroNovas := m\<rparr>) \<le> l"
  by (simp add: basesBelow_def claimed_base)

lemma basesBelow_moved: "basesBelow l A \<Longrightarrow> basesBelow l (moved p l from to amt A)"
  unfolding moved_def Let_def by (intro basesBelow_upd basesBelow_claimed)

lemma bases_Put:
  "okState s \<Longrightarrow> (basesBelow (rewardsLevel s) (acct s) \<Longrightarrow> ad_RewardsBase d \<le> rewardsLevel s) \<Longrightarrow> keepsBases s (putAcct a d s)"
  by (simp add: keepsBases_def acct_putAcct okState_def basesBelow_upd)

lemma bases_same: "sameBalance d (acct s a) \<Longrightarrow> basesBelow (rewardsLevel s) (acct s) \<Longrightarrow> ad_RewardsBase d \<le> rewardsLevel s"
  by (simp add: basesBelow_def sameBalance_def)

interpretation bases: ledger_policy keepsBases
proof unfold_locales
  show "keepsBases s s" for s by (simp add: keepsBases_def)
  show "keepsBases s t \<Longrightarrow> keepsBases t u \<Longrightarrow> keepsBases s u" for s t u
    by (auto simp: keepsBases_def sameFrame_simps intro: sameFrame_trans)
  show "quiet s t \<Longrightarrow> keepsBases s t" for s t by (simp add: quiet_def keepsBases_def)
  show "keepsBases s t \<Longrightarrow> sameFrame s t" for s t by (simp add: keepsBases_def)
  have same: "okState s \<Longrightarrow> sameBalance d (acct s a) \<Longrightarrow> keepsBases s (putAcct a d s)" for s d a
    using bases_Put [of s d a] bases_same [of d s a] by blast
  show "okState s \<Longrightarrow> sameBalance d (acct s a) \<Longrightarrow> keepsBases s (putAcct a d s)" for s d a by (rule same)
  show "okState s \<Longrightarrow> sameBalance d (acct s a) \<Longrightarrow> keepsBases s (putAcct a d s)" for s d a by (rule same)
  show "okState s \<Longrightarrow> keepsBases s (putAcct a zeroAccountData s)" for s a
    by (rule bases_Put) (simp_all add: zeroAccountData_def)
  show "does keepsBases (Move from to amt fr tr)" for "from" to amt fr tr
  proof (rule doesI)
    fix s x t
    assume s: "okState s" and m: "Move from to amt fr tr s = Ok (x, t)"
    have "acct t = moved (cow_proto s) (rewardsLevel s) from to amt (acct s)" using Move_Ok(1) [OF _ _ m] s by (simp add: okState_def)
    then show "okState t \<and> keepsBases s t"
      using doesD [OF does_Move s m] by (simp add: keepsMoney_def keepsBases_def basesBelow_moved)
  qed
  show "keepsBases (child s) c \<Longrightarrow> okState c \<Longrightarrow> okState s \<Longrightarrow> commitToParent c = Ok (u, t) \<Longrightarrow> keepsBases s t" for s c u t
    using child_commit(1,3) [of s c u t] by (simp add: keepsBases_def child_view)
qed

section \<open>Rewards of a round\<close>

lemma Get_claimed:
  assumes "Get a True s = Ok (d, t)" "okState s"
  shows "cowEq s t" "claimable (cow_proto s) (rewardsLevel s) (acct s a)" "d = claimed (cow_proto s) (rewardsLevel s) (acct s a)"
proof -
  obtain u where u: "lookup a s = Ok (u, t)"
    "(WithUpdatedRewards u (cow_proto s) (rewardsLevel s) :: (ledgerError, accountData) result) = Ok d"
    using assms(1) unfolding Get_def withState_def andDo_Ok_iff by (auto simp: act_simps)
  have e: "acct s a = u" "cowEq s t" using lookup_view [OF _ u(1)] assms(2) by (simp_all add: okState_def)
  show "cowEq s t" by (rule e)
  show "claimable (cow_proto s) (rewardsLevel s) (acct s a)" "d = claimed (cow_proto s) (rewardsLevel s) (acct s a)"
    using u(2) assms(2) e(1) by (auto simp: WithUpdatedRewards_eq okState_def split: if_splits)
qed

text \<open>The pool's record that the rewards are taken from is its claimed record in a state with the same money.\<close>

lemma pool_record:
  assumes "andDo (Get pool True) (\<lambda>old. workaroundOverspentRewards prev gh old rnd) s = Ok (d, t)" "okState s"
    "pool = rs_RewardsPool (bh_RewardsState prev)"
  shows "okState t" "keepsMoney s t" "keepsBases s t"
    "claimable (cow_proto t) (rewardsLevel t) (acct t pool)" "d = claimed (cow_proto t) (rewardsLevel t) (acct t pool)"
proof -
  obtain old s1 where g: "Get pool True s = Ok (old, s1)" and w: "workaroundOverspentRewards prev gh old rnd s1 = Ok (d, t)"
    using assms(1) unfolding andDo_Ok_iff by blast
  note g1 = Get_claimed [OF g assms(2)]
  have s1: "okState s1" "quiet s s1" using quiet_cowEq [OF assms(2) g1(1)] by simp_all
  have "okState t \<and> keepsMoney s t \<and> keepsBases s t \<and> claimable (cow_proto t) (rewardsLevel t) (acct t pool) \<and>
      d = claimed (cow_proto t) (rewardsLevel t) (acct t pool)"
  proof (cases "t = s1 \<and> d = old")
    case True
    then show ?thesis
      using s1 g1(2,3) quiet_keepsMoney bases.quiet_step [OF assms(2)] by (simp add: cowEq_simps [OF g1(1)])
  next
    case False
    then obtain y s2 where m: "Move bankAddr pool 20000000000 None None s1 = Ok (y, s2)" and h: "Get pool True s2 = Ok (d, t)"
      using w assms(3) by (auto simp: workaroundOverspentRewards_def act_simps split: if_splits)
    have s2: "okState s2" "keepsMoney s1 s2" "keepsBases s1 s2"
      using doesD [OF does_Move s1(1) m] doesD [OF bases.does_transfer s1(1) m] by simp_all
    note h1 = Get_claimed [OF h s2(1)]
    have t: "okState t" "quiet s2 t" using quiet_cowEq [OF s2(1) h1(1)] by simp_all
    have "keepsMoney s t" "keepsBases s t"
      using quiet_keepsMoney [OF s1(2)] quiet_keepsMoney [OF t(2)] s2(2,3) km.trans
        bases.quiet_step [OF assms(2) s1(2)] bases.quiet_step [OF s2(1) t(2)] bases.trans by blast+
    then show ?thesis using t(1) h1(2,3) by (simp add: cowEq_simps [OF h1(1)])
  qed
  then show "okState t" "keepsMoney s t" "keepsBases s t"
    "claimable (cow_proto t) (rewardsLevel t) (acct t pool)" "d = claimed (cow_proto t) (rewardsLevel t) (acct t pool)" by simp_all
qed

lemma withdrawRewards_Ok:
  assumes "withdrawRewards pool proto units n d s = Ok (u, t)"
  shows "unat units * unat n < 2 ^ 64" "unat (units * n) \<le> unat (ad_MicroNovas d)"
    "Put pool (d\<lparr>ad_MicroNovas := ad_MicroNovas d - units * n\<rparr>) s = Ok ((), t)"
  using assms unfolding withdrawRewards_def Let_def
  by (auto simp: act_simps ot_simps not_less split: if_splits)

lemma payRewards_eq:
  "payRewards hdr prev gh proto units =
     (let l = rs_RewardsLevel (bh_RewardsState hdr); l0 = rs_RewardsLevel (bh_RewardsState prev); pool = rs_RewardsPool (bh_RewardsState prev) in
      if unat l < unat l0 then failWith (Errorf ''overflowed subtracting rewards levels'')
      else andDo (Get pool True) (\<lambda>old. andDo (workaroundOverspentRewards prev gh old (bh_Round hdr)) (withdrawRewards pool proto units (l - l0))))"
  by (simp add: payRewards_def Let_def ot_simps)

lemma payRewards_Ok:
  assumes "payRewards hdr prev gh proto units s = Ok (u, t)" "okState s" "rewardsLevel s = rs_RewardsLevel (bh_RewardsState hdr)"
  shows "okState t" "sameFrame s t" "keepsBases s t"
    "moneyOf t + unat units * (unat (rewardsLevel s) - unat (rs_RewardsLevel (bh_RewardsState prev))) = moneyOf s"
    "unat (rs_RewardsLevel (bh_RewardsState prev)) \<le> unat (rewardsLevel s)"
proof -
  let ?k = "rs_RewardsLevel (bh_RewardsState prev)" and ?l = "rewardsLevel s"
  let ?pool = "rs_RewardsPool (bh_RewardsState prev)"
  have le: "unat ?k \<le> unat ?l" and "andDo (Get ?pool True) (\<lambda>old. andDo (workaroundOverspentRewards prev gh old (bh_Round hdr))
      (withdrawRewards ?pool proto units (?l - ?k))) s = Ok (u, t)"
    using assms(1) unfolding payRewards_eq Let_def assms(3) by (auto simp: failWith_def not_less split: if_splits)
  then obtain d s1 where p: "andDo (Get ?pool True) (\<lambda>old. workaroundOverspentRewards prev gh old (bh_Round hdr)) s = Ok (d, s1)"
    and w: "withdrawRewards ?pool proto units (?l - ?k) d s1 = Ok (u, t)"
    unfolding andDo_Ok_iff by blast
  define m where m: "m = ad_MicroNovas d - units * (?l - ?k)"
  note f = withdrawRewards_Ok [OF w]
  have t: "Put ?pool (d\<lparr>ad_MicroNovas := m\<rparr>) s1 = Ok ((), t)" unfolding m by (rule f)
  note r = pool_record [OF p assms(2) HOL.refl]
  show "unat ?k \<le> unat ?l" by (rule le)
  have ok1: "cowOK s1" using r(1) by (simp add: okState_def)
  have t: "t = putAcct ?pool (d\<lparr>ad_MicroNovas := m\<rparr>) s1" using t ok1 by (simp add: Put_eq)
  have fr: "sameFrame s s1" using r(2) by (simp add: keepsMoney_def)
  show "okState t" unfolding t by (rule okState_frame [OF r(1) sameFrame_putAcct putAcct_view(2) [OF ok1]])
  show "sameFrame s t" unfolding t by (rule sameFrame_trans [OF fr sameFrame_putAcct])
  have "keepsBases s1 t" unfolding t r(5) by (rule bases_Put [OF r(1)]) (rule basesBelow_claimed)
  then show "keepsBases s t" by (rule bases.trans [OF r(3)])
  let ?W = "worth (cow_proto s1) (rewardsLevel s1)"
  have d: "unat (?l - ?k) = unat ?l - unat ?k" using le by (simp add: unat_sub word_le_nat_alt)
  have "unat m + unat units * (unat ?l - unat ?k) = ?W (acct s1 ?pool)"
    using f r(4) claimed_Money [OF r(4)] unfolding m r(5) d by (simp add: unat_sub word_le_nat_alt unat_mul_no_overflow d)
  moreover have "?W (d\<lparr>ad_MicroNovas := m\<rparr>) = unat m" unfolding r(5) by (rule worth_claimed_set)
  moreover have "moneyOf t + ?W (acct s1 ?pool) = moneyOf s1 + ?W (d\<lparr>ad_MicroNovas := m\<rparr>)"
    unfolding moneyOf_def t sameFrame_simps(1,2) [OF sameFrame_putAcct] by (rule cow.sum_write [OF ok1])
  ultimately show "moneyOf t + unat units * (unat ?l - unat ?k) = moneyOf s"
    using r(2) by (simp add: keepsMoney_def)
qed

end
