(* ===== verification/Ledger_Blocks.thy ===== *)
theory Ledger_Blocks
  imports Ledger_Totals
begin

text \<open>
  Whole blocks. If the totals of the ledger are those of its accounts before a block, then
  the totals in the delta of the block are those of the accounts after it, and no money is
  made or lost.
\<close>

section \<open>Starting\<close>

lemma map_result_Ok_iff: "map_result f g r = Ok y \<longleftrightarrow> (\<exists>x. r = Ok x \<and> y = g x)"
  by (cases r) auto

lemma StartEvaluator_Ok:
  assumes "StartEvaluator env l hdr opts = Ok eval" "\<not> eo_Generate opts" "eo_ProtoParams opts = None"
  obtains proto prevHeader nextCert latest totals units where
    "mget (ev_Consensus env) (us_CurrentProtocol (bh_UpgradeState hdr)) = Some proto"
    "le_LatestTotals l = Ok (latest, totals)" "AccountTotals_RewardUnits totals = (Ok units :: (ledgerError, u64) result)"
    "lf_BlockHdr (le_cow l) (bh_Round hdr - 1) = Ok prevHeader"
    "payRewards hdr prevHeader (le_GenesisHash l) proto units
       (makeRoundCowState (makeRoundCowBase (le_cow l) (bh_Round hdr - 1) (bh_TxnCounter prevHeader) nextCert proto)
         hdr proto (bh_TimeStamp prevHeader) totals) = Ok ((), be_state eval)"
    "be_l eval = l" "be_proto eval = proto" "be_validate eval = eo_Validate opts" "\<not> be_generate eval"
    "be_block eval = \<lparr>bl_BlockHeader = hdr, bl_Payset = []\<rparr>" "bh_Round hdr \<noteq> 0" "latest = bh_Round prevHeader"
  using assms unfolding StartEvaluator_def Let_def
  by (auto simp: result_simps map_result_Ok_iff split: option.splits if_splits prod.splits)

text \<open>The accounts of the ledger at a round; an address the ledger cannot read counts as empty.\<close>

definition ledgerAt :: "ledgerForEvaluator \<Rightarrow> round \<Rightarrow> address \<Rightarrow> accountData" where
  "ledgerAt l rnd a = (case lf_LookupWithoutRewards (le_cow l) rnd a of Ok d \<Rightarrow> d | _ \<Rightarrow> zeroAccountData)"

definition startState :: "ledgerForEvaluator \<Rightarrow> blockHeader \<Rightarrow> consensusParams \<Rightarrow> blockHeader \<Rightarrow> round \<Rightarrow> accountTotals \<Rightarrow> roundCowState" where
  "startState l hdr proto prevHeader nextCert totals =
     makeRoundCowState (makeRoundCowBase (le_cow l) (bh_Round hdr - 1) (bh_TxnCounter prevHeader) nextCert proto)
       hdr proto (bh_TimeStamp prevHeader) totals"

lemma startState_simps:
  "acct (startState l hdr proto prev nc totals) = ledgerAt l (bh_Round hdr - 1)"
  "cowOK (startState l hdr proto prev nc totals)"
  "cow_proto (startState l hdr proto prev nc totals) = proto"
  "rewardsLevel (startState l hdr proto prev nc totals) = rs_RewardsLevel (bh_RewardsState hdr)"
  "baseView (cow_base (startState l hdr proto prev nc totals)) = lf_LookupWithoutRewards (le_cow l) (bh_Round hdr - 1)"
  "rc_prevTotals (cow_top (startState l hdr proto prev nc totals)) = totals"
  "cow_parents (startState l hdr proto prev nc totals) = []"
  by (simp_all add: startState_def makeRoundCowState_def makeRoundCowLayer_def makeRoundCowBase_def cowOK_def layers_def
      MakeStateDelta_def deltasOK_empty cow_proto_def rewardsLevel_def fun_eq_iff ledgerAt_def acct_def view_def baseView_def
      split: result.splits)

text \<open>What a state in the same frame as the first state of a block knows of the ledger.\<close>

lemma sameFrame_start:
  assumes "sameFrame (startState l hdr proto prev nc totals) s"
  shows "before s = ledgerAt l (bh_Round hdr - 1)" "rc_prevTotals (cow_top s) = totals" "cow_parents s = []"
    "baseView (cow_base s) = lf_LookupWithoutRewards (le_cow l) (bh_Round hdr - 1)"
  using assms
  by (auto simp: sameFrame_def startState_simps baseEq_def frameOf_def before_def accountIn_def ledgerAt_def fun_eq_iff split: result.splits)

section \<open>Loading accounts\<close>

lemma loadBalances_Ok:
  "loadBalances l rnd addrs = Ok brs \<Longrightarrow> br \<in> set brs \<Longrightarrow> lf_LookupWithoutRewards l rnd (br_Addr br) = Ok (br_AccountData br)"
  by (induction addrs arbitrary: brs) (auto simp: result_simps)

lemma baseEq_fill:
  assumes "\<forall>br \<in> set brs. baseView b (br_Addr br) = Ok (br_AccountData br)"
  shows "baseEq b (b\<lparr>cb_accounts := fold (\<lambda>br. mput (br_Addr br) (br_AccountData br)) brs (cb_accounts b)\<rparr>)"
  using assms
proof (induction brs arbitrary: b)
  case Nil
  then show ?case by (simp add: baseEq_def)
next
  case (Cons br brs)
  let ?b = "b\<lparr>cb_accounts := mput (br_Addr br) (br_AccountData br) (cb_accounts b)\<rparr>"
  have e: "baseEq b ?b" using Cons.prems by (auto simp: baseEq_def baseView_def fun_eq_iff map_simps split: option.splits if_splits)
  then have "\<forall>br \<in> set brs. baseView ?b (br_Addr br) = Ok (br_AccountData br)" using Cons.prems by (simp add: baseEq_def)
  from Cons.IH [OF this] show ?case by (simp add: baseEq_trans [OF e])
qed

lemma fillAccounts_quiet:
  assumes "loadBalances l rnd addrs = Ok brs" "baseView (cow_base (be_state eval)) = lf_LookupWithoutRewards l rnd" "okState (be_state eval)"
  shows "okState (be_state (fillAccounts brs eval)) \<and> quiet (be_state eval) (be_state (fillAccounts brs eval))"
proof -
  have "\<forall>br \<in> set brs. baseView (cow_base (be_state eval)) (br_Addr br) = Ok (br_AccountData br)"
    using loadBalances_Ok [OF assms(1)] assms(2) by simp
  from baseEq_fill [OF this] have "cowEq (be_state eval) (be_state (fillAccounts brs eval))"
    by (simp add: cowEq_def fillAccounts_def Let_def)
  then show ?thesis by (rule quiet_cowEq [OF assms(3)])
qed

text \<open>What stays fixed while a block is evaluated.\<close>

definition fixedOf :: "blockEvaluator \<Rightarrow> ledgerForEvaluator \<times> consensusParams \<times> bool \<times> bool \<times> blockHeader \<times> address list" where
  "fixedOf eval = (be_l eval, be_proto eval, be_validate eval, be_generate eval, bl_BlockHeader (be_block eval), be_rewardAddresses eval)"

lemma TransactionGroup_fixed: "TransactionGroup env txgroup eval = Ok eval' \<Longrightarrow> fixedOf eval' = fixedOf eval"
  by (auto simp: fixedOf_def TransactionGroup_def Let_def result_simps split: list.splits if_splits prod.splits)

lemma fillAccounts_fixed [simp]: "fixedOf (fillAccounts brs eval) = fixedOf eval"
  by (simp add: fixedOf_def fillAccounts_def Let_def)

lemma evalGroups_fixed: "evalGroups env rnd feeSink groups eval = Ok eval' \<Longrightarrow> fixedOf eval' = fixedOf eval"
  by (induction groups arbitrary: feeSink eval) (auto simp: result_simps dest!: TransactionGroup_fixed)

context ledger_policy
begin

lemma evalGroups_step:
  assumes "\<And>ep. vmRespects R (ev_vm env) ep" "evalGroups env rnd feeSink groups eval = Ok eval'"
    "okState (be_state eval)" "baseView (cow_base (be_state eval)) = lf_LookupWithoutRewards (le_cow (be_l eval)) rnd"
  shows "okState (be_state eval') \<and> R (be_state eval) (be_state eval')"
  using assms(2-4)
proof (induction groups arbitrary: feeSink eval)
  case Nil
  then show ?case using refl by simp
next
  case (Cons g gs)
  then obtain brs eval1 where b: "loadBalances (le_cow (be_l eval)) rnd (groupAddresses g feeSink) = Ok brs"
    and g: "TransactionGroup env g (fillAccounts brs eval) = Ok eval1" and r: "evalGroups env rnd [] gs eval1 = Ok eval'"
    by (auto simp: result_simps)
  let ?f = "fillAccounts brs eval"
  have f: "okState (be_state ?f)" "quiet (be_state eval) (be_state ?f)"
    using fillAccounts_quiet [OF b Cons.prems(3,2)] by simp_all
  have s1: "okState (be_state eval1)" "R (be_state ?f) (be_state eval1)"
    using TransactionGroup_step [OF assms(1) f(1) g] by simp_all
  have R1: "R (be_state eval) (be_state eval1)" using trans [OF quiet_step [OF Cons.prems(2) f(2)] s1(2)] .
  have "baseView (cow_base (be_state eval1)) = lf_LookupWithoutRewards (le_cow (be_l eval1)) rnd"
    using step_frame [OF R1] Cons.prems(3) TransactionGroup_fixed [OF g] by (simp add: sameFrame_def baseEq_def fixedOf_def fillAccounts_def Let_def)
  from Cons.IH [OF r s1(1) this] show ?case using trans [OF R1] by blast
qed

end

section \<open>Ending\<close>

lemma onState_Ok_iff: "onState m eval = Ok (x, eval') \<longleftrightarrow> (\<exists>s. m (be_state eval) = Ok (x, s) \<and> eval' = eval\<lparr>be_state := s\<rparr>)"
  by (auto simp: onState_def result_simps)

lemma quiet_validateLoop: "does quiet (validateLoop rnd seen addrs)"
  by (induction addrs arbitrary: seen)
    (simp_all only: validateLoop.simps, (intro quiet_rules does_within does_lookup | assumption)+)

lemma validateExpired_Ok:
  assumes "validateExpiredOnlineAccounts eval = Ok (u, eval')" "okState (be_state eval)"
  obtains s where "eval' = eval\<lparr>be_state := s\<rparr>" "okState s" "quiet (be_state eval) s"
proof (cases "be_validate eval")
  case True
  then obtain s where s: "validateLoop (Block_Round (be_block eval)) [] (bh_ExpiredParticipationAccounts (be_header eval)) (be_state eval) = Ok (u, s)"
    "eval' = eval\<lparr>be_state := s\<rparr>"
    using assms(1) by (auto simp: validateExpiredOnlineAccounts_def withState_def Let_def onState_Ok_iff failWith_def split: if_splits)
  show thesis using that [OF s(2)] doesD [OF quiet_validateLoop assms(2) s(1)] by simp
next
  case False
  then have "eval' = eval" using assms(1) by (simp add: validateExpiredOnlineAccounts_def withState_def act_simps)
  then show thesis using that [of "be_state eval"] assms(2) qt.refl by simp
qed

lemma resetExpired_Ok:
  assumes "resetExpiredOnlineAccountsParticipationKeys eval = Ok (u, eval')"
  obtains s where "resetLoop (bh_ExpiredParticipationAccounts (be_header eval)) (be_state eval) = Ok (u, s)" "eval' = eval\<lparr>be_state := s\<rparr>"
  using assms by (auto simp: resetExpiredOnlineAccountsParticipationKeys_def withState_def Let_def onState_Ok_iff failWith_def split: if_splits)

lemma checkCommitments_Ok: "checkCommitments env eval = Ok (u, eval') \<Longrightarrow> eval' = eval"
  by (auto simp: checkCommitments_def withState_def Let_def act_simps split: if_splits prod.splits)

lemma endOfBlock_Ok:
  assumes "endOfBlock env eval = Ok (u, eval')" "\<not> be_generate eval" "okState (be_state eval)"
  obtains s s' t where "quiet (be_state eval) s" "okState s"
    "resetLoop (bh_ExpiredParticipationAccounts (be_header eval)) s = Ok ((), s')"
    "CalculateTotals s' = Ok ((), t)" "eval' = eval\<lparr>be_state := t\<rparr>"
proof -
  obtain e1 e2 e3 where v: "validateExpiredOnlineAccounts eval = Ok ((), e1)"
    and r: "resetExpiredOnlineAccountsParticipationKeys e1 = Ok ((), e2)"
    and c: "(if be_validate eval then checkCommitments env else ret ()) e2 = Ok ((), e3)"
    and t: "onState CalculateTotals e3 = Ok (u, eval')"
    using assms(1,2) by (auto simp: endOfBlock_def withState_def act_simps)
  obtain s where s: "e1 = eval\<lparr>be_state := s\<rparr>" "okState s" "quiet (be_state eval) s"
    by (rule validateExpired_Ok [OF v assms(3)])
  obtain s' where s': "resetLoop (bh_ExpiredParticipationAccounts (be_header e1)) (be_state e1) = Ok ((), s')" "e2 = e1\<lparr>be_state := s'\<rparr>"
    by (rule resetExpired_Ok [OF r])
  have e3: "e3 = e2" using c checkCommitments_Ok by (cases "be_validate eval") (auto simp: act_simps)
  obtain w where w: "CalculateTotals s' = Ok (u, w)" "eval' = eval\<lparr>be_state := w\<rparr>"
    using t by (auto simp: onState_Ok_iff e3 s'(2) s(1))
  show thesis by (rule that [OF s(3,2)]) (use s'(1) w in \<open>simp_all add: s(1) be_header_def\<close>)
qed

lemma andDo_within: "andDo (within msg m) f s = Ok (x, t) \<longleftrightarrow> andDo m f s = Ok (x, t)"
  by (simp add: andDo_Ok_iff within_Ok)

text \<open>A read of an account followed by a write of it.\<close>

lemma update_step:
  assumes "okState s" "cowEq s s1" "andDo (Put a d) g s1 = Ok (x, t)" "ad_RewardsBase d = ad_RewardsBase (acct s a)"
  shows "g () (putAcct a d s1) = Ok (x, t)" "okState (putAcct a d s1)" "keepsBases s (putAcct a d s1)"
proof -
  have s1: "okState s1" "quiet s s1" using quiet_cowEq [OF assms(1,2)] by simp_all
  then have ok: "cowOK s1" by (simp add: okState_def)
  show "g () (putAcct a d s1) = Ok (x, t)" using put_step [OF assms(3) ok] by blast
  show "okState (putAcct a d s1)" by (rule okState_frame [OF s1(1) sameFrame_putAcct putAcct_view(2) [OF ok]])
  have "keepsBases s1 (putAcct a d s1)"
    by (rule bases_Put [OF s1(1)]) (simp add: basesBelow_def assms(4) flip: cowEq_simps(2) [OF assms(2)])
  then show "keepsBases s (putAcct a d s1)" by (rule bases.trans [OF bases.quiet_step [OF assms(1) s1(2)]])
qed

lemma bases_resetLoop: "does keepsBases (resetLoop addrs)"
proof (induction addrs)
  case Nil
  show ?case unfolding resetLoop.simps by (rule bases.does_basic)
next
  case (Cons a addrs)
  show ?case
  proof (rule doesI)
    fix s x t
    assume s: "okState s" and "resetLoop (a # addrs) s = Ok (x, t)"
    then have m: "andDo (lookup a) (\<lambda>d. andDo (Put a (ClearOnlineState d)) (\<lambda>_. resetLoop addrs)) s = Ok (x, t)"
      by (simp add: andDo_within)
    have ok: "cowOK s" using s by (simp add: okState_def)
    obtain s1 where s1: "cowEq s s1"
      and p: "andDo (Put a (ClearOnlineState (acct s a))) (\<lambda>_. resetLoop addrs) s1 = Ok (x, t)"
      by (rule lookup_step [OF m ok])
    note u = update_step [OF s s1 p]
    show "okState t \<and> keepsBases s t"
      using doesD [OF Cons.IH u(2,1)] u(3) bases.trans by (simp add: ClearOnlineState_def)
  qed
qed

section \<open>The delta of a block\<close>

text \<open>Writing the stores of applications back changes no balance.\<close>

definition sameBalances :: "(address \<Rightarrow> accountData) \<Rightarrow> (address \<Rightarrow> accountData) \<Rightarrow> bool" where
  "sameBalances A B \<longleftrightarrow> (\<forall>a. sameBalance (B a) (A a) \<and> ad_Status (B a) = ad_Status (A a))"

lemma applyStorageDelta_balance:
  "applyStorageDelta d aapp st = Ok d' \<Longrightarrow> sameBalance d' d \<and> ad_Status d' = ad_Status d"
  by (auto simp: applyStorageDelta_def sameBalance_def split: if_splits option.splits)

lemma applyStorageDeltas_balance:
  "applyStorageDeltas sts d = Ok d' \<Longrightarrow> sameBalance d' d \<and> ad_Status d' = ad_Status d"
proof (induction sts arbitrary: d)
  case Nil
  then show ?case by (simp add: sameBalance_def)
next
  case (Cons p sts)
  obtain aapp st where p: "p = (aapp, st)" by (cases p)
  from Cons.prems obtain d1 where "applyStorageDelta d aapp st = Ok d1" "applyStorageDeltas sts d1 = Ok d'"
    by (auto simp: p split: result.splits)
  then show ?case using Cons.IH applyStorageDelta_balance by (fastforce simp: sameBalance_def)
qed

lemma sum_status_cong:
  assumes "\<And>a. ad_Status (B a) = ad_Status (A a)" "\<And>a. f (B a) = f (A a)"
  shows "(\<Sum>u \<in># withStatus st (accountsOf B). f u) = (\<Sum>u \<in># withStatus st (accountsOf A). f u)"
proof -
  have "(\<Sum>u \<in># withStatus st (image_mset B M). f u) = (\<Sum>u \<in># withStatus st (image_mset A M). f u)" for M
    using assms by (induction M) auto
  then show ?thesis by (simp add: accountsOf_def)
qed

lemma sameBalances_totals:
  assumes "sameBalances A B"
  shows "totalsMatch proto at (accountsOf B) = totalsMatch proto at (accountsOf A)"
proof -
  have b: "sameBalance (B a) (A a)" "ad_Status (B a) = ad_Status (A a)" for a using assms unfolding sameBalances_def by blast+
  have w: "worth proto l (B a) = worth proto l (A a)" for a l by (rule worth_same [OF b])
  have r: "rewardUnitsOf proto (B a) = rewardUnitsOf proto (A a)" for a using b(1) by (simp add: rewardUnitsOf_def sameBalance_def)
  show ?thesis unfolding totalsMatch_def sum_status_cong [OF b(2) w] sum_status_cong [OF b(2) r] ..
qed

lemma deltasLoop_Ok:
  assumes "deltasLoop sds s = Ok (x, t)" "okState s"
  shows "okState t \<and> sameFrame s t \<and> sameBalances (acct s) (acct t) \<and> sd_Totals (rc_mods (cow_top t)) = sd_Totals (rc_mods (cow_top s))"
  using assms
proof (induction sds arbitrary: s)
  case Nil
  then show ?case by (simp add: act_simps sameBalances_def sameBalance_def)
next
  case (Cons p sds)
  obtain a smap where p: "p = (a, smap)" by (cases p)
  have ok: "cowOK s" using Cons.prems(2) by (simp add: okState_def)
  have "andDo (lookup a) (\<lambda>d. andDo (lift (applyStorageDeltas smap d)) (\<lambda>d. andDo (Put a d) (\<lambda>_. deltasLoop sds))) s = Ok (x, t)"
    using Cons.prems(1) by (auto simp: p andDo_Ok_iff split: result.splits)
  then obtain s1 where s1: "cowEq s s1"
    and "andDo (lift (applyStorageDeltas smap (acct s a))) (\<lambda>d. andDo (Put a d) (\<lambda>_. deltasLoop sds)) s1 = Ok (x, t)"
    by (rule lookup_step [OF _ ok])
  then obtain d where d: "applyStorageDeltas smap (acct s a) = Ok d" and m: "andDo (Put a d) (\<lambda>_. deltasLoop sds) s1 = Ok (x, t)"
    by (auto elim: lift_step)
  have b: "sameBalance d (acct s a)" "ad_Status d = ad_Status (acct s a)" using applyStorageDeltas_balance [OF d] by simp_all
  note u = update_step [OF Cons.prems(2) s1 m]
  have base: "ad_RewardsBase d = ad_RewardsBase (acct s a)" using b(1) by (simp add: sameBalance_def)
  note u = u [OF base]
  have ok1: "cowOK s1" using ok by (simp add: cowEq_simps [OF s1])
  have "acct (putAcct a d s1) = (acct s)(a := d)" by (simp add: acct_putAcct [OF ok1] cowEq_simps [OF s1])
  moreover have "sd_Totals (rc_mods (cow_top (putAcct a d s1))) = sd_Totals (rc_mods (cow_top s))"
    using s1 by (simp add: putAcct_def updMods_def cowEq_def)
  ultimately show ?case
    using Cons.IH [OF u(1,2)] u(3) b sameFrame_trans by (auto simp: sameBalances_def sameBalance_def keepsBases_def)
qed

lemma deltas_Ok:
  assumes "deltas s = Ok (delta, t)" "okState s"
  shows "okState t" "sameFrame s t" "sameBalances (acct s) (acct t)" "sd_Totals delta = sd_Totals (rc_mods (cow_top s))"
    "delta = rc_mods (cow_top t)"
proof -
  have "deltasLoop (rc_sdeltas (cow_top s)) s = Ok ((), t)" "delta = rc_mods (cow_top t)"
    using assms(1) by (auto simp: deltas_def andDo_Ok_iff)
  then show "okState t" "sameFrame s t" "sameBalances (acct s) (acct t)" "sd_Totals delta = sd_Totals (rc_mods (cow_top s))"
    "delta = rc_mods (cow_top t)"
    using deltasLoop_Ok [OF _ assms(2)] by auto
qed

section \<open>The money of a block\<close>

lemma sum_by_status:
  "(\<Sum>u \<in># M. f u) = (\<Sum>u \<in># withStatus Online M. f u) + (\<Sum>u \<in># withStatus Offline M. f u) + (\<Sum>u \<in># withStatus NotParticipating M. f u)"
proof (induction M)
  case (add u M)
  then show ?case by (cases "ad_Status u") (simp_all add: ac_simps)
qed simp

lemma All_sum:
  assumes "totalsMatch proto at (accountsOf A)" "(AccountTotals_All at :: (ledgerError, microNovas) result) = Ok x"
  shows "unat x = sumOver (worth proto (at_RewardsLevel at)) A"
proof -
  have m: "unat (ac_Money (statusField st at)) = (\<Sum>u \<in># withStatus st (accountsOf A). worth proto (at_RewardsLevel at) u)" for st
    using assms(1) by (simp add: totalsMatch_def)
  have "unat x = unat (ac_Money (at_NotParticipating at)) + (unat (ac_Money (at_Online at)) + unat (ac_Money (at_Offline at)))"
    using assms(2)
    by (auto simp: AccountTotals_All_def Participating_def OAddA_def OAdd_eq Let_def unat_add_u64 split: if_splits)
  then show ?thesis
    using m [of Online] m [of Offline] m [of NotParticipating]
    by (simp add: sumOver_accountsOf sum_by_status [of _ "accountsOf A"] statusField_def)
qed

lemma CalculateTotals_All:
  assumes "CalculateTotals s = Ok (u, t)"
  obtains x where "(AccountTotals_All (sd_Totals (rc_mods (cow_top t))) :: (ledgerError, microNovas) result) = Ok x"
    "(AccountTotals_All (rc_prevTotals (cow_top s)) :: (ledgerError, microNovas) result) = Ok x"
  using assms unfolding CalculateTotals_def Let_def
  by (auto simp: act_simps updMods_def split: if_splits prod.splits)

section \<open>The ledger from block to block\<close>

definition ledgerInv :: "consensusParams \<Rightarrow> accountTotals \<Rightarrow> (address \<Rightarrow> accountData) \<Rightarrow> bool" where
  "ledgerInv proto totals A \<longleftrightarrow> totalsMatch proto totals (accountsOf A) \<and> basesBelow (at_RewardsLevel totals) A"

definition applyDelta :: "accountDeltas \<Rightarrow> (address \<Rightarrow> accountData) \<Rightarrow> address \<Rightarrow> accountData" where
  "applyDelta ad A a = (case deltasGet ad a of Some d \<Rightarrow> d | None \<Rightarrow> A a)"

lemma acct_applyDelta:
  assumes "sameFrame (startState l hdr proto prev nc totals) s"
  shows "acct s = applyDelta (sd_Accts (rc_mods (cow_top s))) (ledgerAt l (bh_Round hdr - 1))"
  using sameFrame_start(3,4) [OF assms]
  by (auto simp: fun_eq_iff acct_def view_def layers_def applyDelta_def ledgerAt_def split: option.splits result.splits)

lemma Eval_Ok:
  assumes "Eval env l blk validate certs = Ok (delta, eval)"
  obtains eval0 groups eval1 eval2 where
    "StartEvaluator env l (bl_BlockHeader blk)
       \<lparr>eo_Validate = validate, eo_Generate = False, eo_MaxTxnBytesPerBlock = 0, eo_ProtoParams = None\<rparr> = Ok eval0"
    "DecodePaysetGroups (ev_Consensus env) blk = Ok groups"
    "evalGroups env (Block_Round blk - 1) [rs_FeeSink (bh_RewardsState (bl_BlockHeader blk))] groups
       (eval0\<lparr>be_rewardAddresses := certs\<rparr>) = Ok eval1"
    "endOfBlock env eval1 = Ok ((), eval2)" "onState deltas eval2 = Ok (delta, eval)"
  using assms unfolding Eval_def
  by (auto simp: result_simps map_result_Ok_iff split: if_splits)

text \<open>The state at the end of the groups of a block, and the state after the end of the block.\<close>

lemma Eval_states:
  assumes "Eval env l blk validate certs = Ok (delta, eval)" "vmUsesLedger (ev_vm env) rank"
    "mget (ev_Consensus env) (us_CurrentProtocol (bh_UpgradeState (bl_BlockHeader blk))) = Some proto" "cp_RewardUnit proto \<noteq> 0"
    "le_LatestTotals l = Ok (latest, totals)"
  obtains prev nc s t where
    "okState s" "keepsBases (startState l (bl_BlockHeader blk) proto prev nc totals) s" "CalculateTotals s = Ok ((), t)"
    "deltas t = Ok (delta, be_state eval)"
proof -
  obtain eval0 groups eval1 eval2 where
    st: "StartEvaluator env l (bl_BlockHeader blk)
       \<lparr>eo_Validate = validate, eo_Generate = False, eo_MaxTxnBytesPerBlock = 0, eo_ProtoParams = None\<rparr> = Ok eval0"
    and gr: "evalGroups env (Block_Round blk - 1) [rs_FeeSink (bh_RewardsState (bl_BlockHeader blk))] groups
       (eval0\<lparr>be_rewardAddresses := certs\<rparr>) = Ok eval1"
    and en: "endOfBlock env eval1 = Ok ((), eval2)" and de: "onState deltas eval2 = Ok (delta, eval)"
    by (rule Eval_Ok [OF assms(1)])
  obtain prev nc units where
    pay: "payRewards (bl_BlockHeader blk) prev (le_GenesisHash l) proto units (startState l (bl_BlockHeader blk) proto prev nc totals) = Ok ((), be_state eval0)"
    and e0: "be_l eval0 = l" "\<not> be_generate eval0"
    by (rule StartEvaluator_Ok [OF st]) (use assms(3,5) in \<open>simp_all add: startState_def\<close>)
  let ?s = "startState l (bl_BlockHeader blk) proto prev nc totals"
  have ok: "okState ?s" using assms(4) by (simp add: okState_def startState_simps)
  note p = payRewards_Ok(1-3) [OF pay ok startState_simps(4)]
  have v: "baseView (cow_base (be_state (eval0\<lparr>be_rewardAddresses := certs\<rparr>))) =
      lf_LookupWithoutRewards (le_cow (be_l (eval0\<lparr>be_rewardAddresses := certs\<rparr>))) (Block_Round blk - 1)"
    using sameFrame_start(4) [OF p(2)] e0(1) by (simp add: Block_Round_def)
  have e1: "okState (be_state eval1)" "keepsBases (be_state eval0) (be_state eval1)" "\<not> be_generate eval1"
    using bases.evalGroups_step [OF bases.vmUsesLedger_respects [OF assms(2)] gr _ v] p(1) evalGroups_fixed [OF gr] e0(2)
    by (simp_all add: fixedOf_def)
  obtain s s' t where q: "quiet (be_state eval1) s" "okState s"
    and r: "resetLoop (bh_ExpiredParticipationAccounts (be_header eval1)) s = Ok ((), s')"
    and c: "CalculateTotals s' = Ok ((), t)" and e2: "eval2 = eval1\<lparr>be_state := t\<rparr>"
    by (rule endOfBlock_Ok [OF en e1(3,1)])
  have s': "okState s'" "keepsBases s s'" using doesD [OF bases_resetLoop q(2) r] by simp_all
  have "keepsBases ?s s'"
    using bases.trans [OF p(3) bases.trans [OF e1(2) bases.trans [OF bases.quiet_step [OF e1(1) q(1)] s'(2)]]] .
  moreover have "deltas t = Ok (delta, be_state eval)" using de by (auto simp: onState_Ok_iff e2)
  ultimately show thesis using that s'(1) c by blast
qed

end
