(* ===== verification/Ledger_Sums.thy ===== *)
theory Ledger_Sums
  imports Ledger_Blocks
begin

text \<open>
  At the end of a block \<open>CalculateTotals\<close> compares the money of all accounts with what it was.
  The lemmas show that the comparison cannot fail: rewards come out of the pool, transactions
  move money, and accounts whose keys expired only change from online to offline.
\<close>

section \<open>Expired accounts\<close>

lemma money_resetLoop:
  assumes "resetLoop addrs s = Ok (x, t)" "okState s" "\<forall>a \<in> set addrs. ad_Status (acct s a) \<noteq> NotParticipating"
  shows "okState t \<and> keepsMoney s t"
  using assms
proof (induction addrs arbitrary: s)
  case Nil
  then show ?case using km.refl by (simp add: act_simps)
next
  case (Cons a addrs)
  have ok: "cowOK s" using Cons.prems(2) by (simp add: okState_def)
  have "andDo (lookup a) (\<lambda>d. andDo (Put a (ClearOnlineState d)) (\<lambda>_. resetLoop addrs)) s = Ok (x, t)"
    using Cons.prems(1) by (simp add: andDo_within)
  then obtain s1 where s1: "cowEq s s1"
    and p: "andDo (Put a (ClearOnlineState (acct s a))) (\<lambda>_. resetLoop addrs) s1 = Ok (x, t)"
    by (rule lookup_step [OF _ ok])
  have q: "okState s1" "quiet s s1" using quiet_cowEq [OF Cons.prems(2) s1] by simp_all
  let ?d = "ClearOnlineState (acct s a)"
  have r: "resetLoop addrs (putAcct a ?d s1) = Ok (x, t)" using p q(1) by (simp add: andDo_Ok_iff Put_eq okState_def)
  have acct: "acct s1 = acct s" by (simp add: cowEq_simps [OF s1])
  have "worth (cow_proto s1) (rewardsLevel s1) ?d = worth (cow_proto s1) (rewardsLevel s1) (acct s1 a)"
    using Cons.prems(3) acct by (simp add: worth_def rewardsDue_def ClearOnlineState_def)
  from put_money [OF q(1) this] have m: "okState (putAcct a ?d s1)" "keepsMoney s1 (putAcct a ?d s1)" by simp_all
  have "\<forall>b \<in> set addrs. ad_Status (acct (putAcct a ?d s1) b) \<noteq> NotParticipating"
    using Cons.prems(3) q(1) by (simp add: acct_putAcct okState_def acct ClearOnlineState_def)
  from Cons.IH [OF r m(1) this] show ?case using quiet_keepsMoney [OF q(2)] m(2) km.trans by blast
qed

lemma validateLoop_Online:
  assumes "validateLoop rnd seen addrs s = Ok (x, t)" "cowOK s"
  shows "\<forall>a \<in> set addrs. isExpired rnd (acct s a)" "distinct addrs" "set addrs \<inter> set seen = {}"
proof -
  have "(\<forall>a \<in> set addrs. isExpired rnd (acct s a)) \<and> distinct addrs \<and> set addrs \<inter> set seen = {}"
    using assms
  proof (induction addrs arbitrary: seen s)
    case Nil
    then show ?case by simp
  next
    case (Cons a addrs)
    have m: "andDo (lookup a) (\<lambda>d. if ad_Status d \<noteq> Online then failWith (Errorf ''endOfBlock found an account that was not online'')
        else if \<not> ad_VoteLastValid d < rnd then failWith (Errorf ''endOfBlock found a round not less than current round'')
        else validateLoop rnd (a # seen) addrs) s = Ok (x, t)" and new: "a \<notin> set seen"
      using Cons.prems(1) by (simp_all add: andDo_within failWith_def split: if_splits)
    obtain s1 where s1: "cowEq s s1" "cowOK s1" "acct s1 = acct s"
      and r: "validateLoop rnd (a # seen) addrs s1 = Ok (x, t)" "isExpired rnd (acct s a)"
      by (rule lookup_step [OF m Cons.prems(2)]) (auto simp: failWith_def isExpired_def split: if_splits)
    from Cons.IH [OF r(1) s1(2)] r(2) new show ?case by (auto simp: s1(3))
  qed
  then show "\<forall>a \<in> set addrs. isExpired rnd (acct s a)" "distinct addrs" "set addrs \<inter> set seen = {}" by simp_all
qed

section \<open>The comparison\<close>

definition sumChanged :: ledgerError where
  "sumChanged = Errorf ''roundCowState: CalculateTotals sum of money changed''"

lemma andThen_case: "andThen r f = (case r of Ok x \<Rightarrow> f x | Err e \<Rightarrow> Err e | Panic p \<Rightarrow> Panic p)"
  by (cases r) simp_all

lemma account_noErr: "DelAccount p d at ot \<noteq> Err e" "AddAccount p d at ot \<noteq> Err e"
  by (auto simp: DelAccount_def AddAccount_def Money_def WithUpdatedRewards_def RewardUnits_def Let_def andThen_case
      split: if_splits result.splits prod.splits)

lemma All_noErr: "AccountTotals_All at \<noteq> Err e"
  by (auto simp: AccountTotals_All_def Participating_def Let_def andThen_case split: if_splits result.splits prod.splits)

lemma totalsLoop_Err:
  "totalsLoop cbs proto brs at ot b = Err e \<Longrightarrow> e = Errorf ''roundCowState.CalculateTotals unable to load account data''"
  by (induction brs arbitrary: at ot b)
    (auto simp: ret_def andThen_case account_noErr split: result.splits prod.splits)

lemma CalculateTotals_sumChanged:
  assumes "CalculateTotals s = Err sumChanged"
  obtains at1 ot1 at ot b new old where
    "ApplyRewards (rewardsLevel s) (rc_prevTotals (cow_top s)) \<lparr>Overflowed = False\<rparr> = (at1, ot1)"
    "totalsLoop (cow_parents s) (cow_proto s) (acd_accts (sd_Accts (rc_mods (cow_top s)))) at1 ot1 (cow_base s) = Ok ((at, ot), b)"
    "\<not> Overflowed ot" "(AccountTotals_All at :: (ledgerError, microNovas) result) = Ok new"
    "(AccountTotals_All (rc_prevTotals (cow_top s)) :: (ledgerError, microNovas) result) = Ok old" "new \<noteq> old"
proof -
  let ?cb = "cow_top s"
  let ?brs = "acd_accts (sd_Accts (rc_mods ?cb))"
  obtain at1 ot1 where r: "ApplyRewards (rewardsLevel s) (rc_prevTotals ?cb) \<lparr>Overflowed = False\<rparr> = (at1, ot1)" by fastforce
  show thesis
  proof (cases "totalsLoop (cow_parents s) (cow_proto s) ?brs at1 ot1 (cow_base s)")
    case (Ok z)
    obtain at ot b where z: "z = ((at, ot), b)" by (cases z) auto
    show thesis
      using assms r Ok that [OF r Ok [unfolded z]] unfolding CalculateTotals_def Let_def
      by (auto simp: z sumChanged_def andDo_def andThen_case onBase_def lift_def failWith_def rewardsLevel_def cow_proto_def
          All_noErr split: if_splits result.splits)
  next
    case (Err e)
    then show thesis
      using assms r totalsLoop_Err [OF Err] unfolding CalculateTotals_def Let_def
      by (auto simp: sumChanged_def andDo_def andThen_case onBase_def rewardsLevel_def cow_proto_def split: if_splits)
  next
    case (Panic q)
    then show thesis
      using assms r unfolding CalculateTotals_def Let_def
      by (auto simp: sumChanged_def andDo_def andThen_case onBase_def rewardsLevel_def cow_proto_def split: if_splits)
  qed
qed

lemma sum_unchanged:
  assumes "okState s" "prevTotalsOK s"
    "moneyOf s = sumOver (worth (cow_proto s) (at_RewardsLevel (rc_prevTotals (cow_top s)))) (before s)"
  shows "CalculateTotals s \<noteq> Err sumChanged"
proof
  assume "CalculateTotals s = Err sumChanged"
  then obtain at1 ot1 at ot b new old where
    r: "ApplyRewards (rewardsLevel s) (rc_prevTotals (cow_top s)) \<lparr>Overflowed = False\<rparr> = (at1, ot1)"
    and l: "totalsLoop (cow_parents s) (cow_proto s) (acd_accts (sd_Accts (rc_mods (cow_top s)))) at1 ot1 (cow_base s) = Ok ((at, ot), b)"
    and o: "\<not> Overflowed ot" and n: "(AccountTotals_All at :: (ledgerError, microNovas) result) = Ok new"
    and old: "(AccountTotals_All (rc_prevTotals (cow_top s)) :: (ledgerError, microNovas) result) = Ok old" "new \<noteq> old"
    by (rule CalculateTotals_sumChanged)
  have c: "cowOK s" "cp_RewardUnit (cow_proto s) \<noteq> 0" using assms(1) by (simp_all add: okState_def)
  note m = loop_totals [OF assms(1,2) r l o]
  have "unat new = moneyOf s" using All_sum [OF m(1) n] m(2) by (simp add: moneyOf_def)
  moreover have "unat old = moneyOf s"
    using All_sum [of "cow_proto s" _ "before s", OF _ old(1)] assms(2,3) by (simp add: prevTotalsOK_def Let_def)
  ultimately show False using old(2) by (simp add: word_unat_eq_iff)
qed

section \<open>Rewards\<close>

lemma sum_worth_rewards:
  assumes "ledgerInv proto totals A" "at_RewardsLevel totals \<le> level" "(AccountTotals_RewardUnits totals :: (ledgerError, u64) result) = Ok units"
  shows "sumOver (worth proto level) A =
    sumOver (worth proto (at_RewardsLevel totals)) A + unat units * (unat level - unat (at_RewardsLevel totals))"
proof -
  let ?M = "accountsOf A" and ?k = "at_RewardsLevel totals"
  have b: "\<forall>u \<in># ?M. unat (ad_RewardsBase u) \<le> unat ?k"
    using assms(1) by (auto simp: ledgerInv_def basesBelow_def accountsOf_def word_le_nat_alt)
  have le: "unat ?k \<le> unat level" using assms(2) by (simp add: word_le_nat_alt)
  have on: "(\<Sum>u \<in># withStatus Online ?M. worth proto level u) = (\<Sum>u \<in># withStatus Online ?M. worth proto ?k u)
      + (\<Sum>u \<in># withStatus Online ?M. rewardUnitsOf proto u) * (unat level - unat ?k)"
    by (rule sum_worth_level [OF b le]) simp
  have off: "(\<Sum>u \<in># withStatus Offline ?M. worth proto level u) = (\<Sum>u \<in># withStatus Offline ?M. worth proto ?k u)
      + (\<Sum>u \<in># withStatus Offline ?M. rewardUnitsOf proto u) * (unat level - unat ?k)"
    by (rule sum_worth_level [OF b le]) simp
  have ru: "unat (ac_RewardUnits (statusField st totals)) = (\<Sum>u \<in># withStatus st ?M. rewardUnitsOf proto u)" for st
    using assms(1) by (simp add: ledgerInv_def totalsMatch_def)
  have "unat units = (\<Sum>u \<in># withStatus Online ?M. rewardUnitsOf proto u) + (\<Sum>u \<in># withStatus Offline ?M. rewardUnitsOf proto u)"
    using assms(3) ru [of Online] ru [of Offline]
    by (auto simp: AccountTotals_RewardUnits_def OAdd_eq Let_def unat_add_u64 statusField_def split: if_splits)
  then show ?thesis
    unfolding sumOver_accountsOf sum_by_status [of _ ?M] on off sum_worth_fixed [of proto level ?M ?k]
    by (simp add: algebra_simps)
qed

lemma started_money:
  assumes "payRewards hdr prev gh proto units (startState l hdr proto prev nc totals) = Ok (u, t)" "cp_RewardUnit proto \<noteq> 0"
    "ledgerInv proto totals (ledgerAt l (bh_Round hdr - 1))" "(AccountTotals_RewardUnits totals :: (ledgerError, u64) result) = Ok units"
    "rs_RewardsLevel (bh_RewardsState prev) = at_RewardsLevel totals"
  shows "okState t" "sameFrame (startState l hdr proto prev nc totals) t"
    "moneyOf t = sumOver (worth proto (at_RewardsLevel totals)) (ledgerAt l (bh_Round hdr - 1))"
proof -
  let ?s = "startState l hdr proto prev nc totals"
  have ok: "okState ?s" using assms(2) by (simp add: okState_def startState_simps)
  note p = payRewards_Ok [OF assms(1) ok startState_simps(4)]
  show "okState t" "sameFrame ?s t" by (rule p)+
  have "at_RewardsLevel totals \<le> rewardsLevel ?s" using p(5) assms(5) by (simp add: word_le_nat_alt)
  from sum_worth_rewards [OF assms(3) this assms(4)]
  show "moneyOf t = sumOver (worth proto (at_RewardsLevel totals)) (ledgerAt l (bh_Round hdr - 1))"
    using p(4) assms(5) by (simp add: moneyOf_def startState_simps)
qed

text \<open>A block's state after its groups and its expired accounts.\<close>

lemma groups_money:
  assumes "vmUsesLedger (ev_vm env) rank" "StartEvaluator env l hdr opts = Ok eval0" "\<not> eo_Generate opts" "eo_ProtoParams opts = None"
    "mget (ev_Consensus env) (us_CurrentProtocol (bh_UpgradeState hdr)) = Some proto" "cp_RewardUnit proto \<noteq> 0"
    "le_LatestTotals l = Ok (latest, totals)" "ledgerInv proto totals (ledgerAt l (bh_Round hdr - 1))"
    "\<And>prev. lf_BlockHdr (le_cow l) (bh_Round hdr - 1) = Ok prev \<Longrightarrow> rs_RewardsLevel (bh_RewardsState prev) = at_RewardsLevel totals"
    "evalGroups env (bh_Round hdr - 1) feeSink groups (eval0\<lparr>be_rewardAddresses := certs\<rparr>) = Ok eval1"
  obtains prev nc where "okState (be_state eval1)" "sameFrame (startState l hdr proto prev nc totals) (be_state eval1)"
    "moneyOf (be_state eval1) = sumOver (worth proto (at_RewardsLevel totals)) (ledgerAt l (bh_Round hdr - 1))"
    "be_validate eval1 = eo_Validate opts"
proof -
  obtain prev nc units where
    pay: "payRewards hdr prev (le_GenesisHash l) proto units (startState l hdr proto prev nc totals) = Ok ((), be_state eval0)"
    and e0: "be_l eval0 = l" "be_validate eval0 = eo_Validate opts"
    and u: "(AccountTotals_RewardUnits totals :: (ledgerError, u64) result) = Ok units" "lf_BlockHdr (le_cow l) (bh_Round hdr - 1) = Ok prev"
    by (rule StartEvaluator_Ok [OF assms(2-4)]) (use assms(5,7) in \<open>simp_all add: startState_def\<close>)
  note st = started_money [OF pay assms(6,8) u(1) assms(9) [OF u(2)]]
  have v: "baseView (cow_base (be_state (eval0\<lparr>be_rewardAddresses := certs\<rparr>))) =
      lf_LookupWithoutRewards (le_cow (be_l (eval0\<lparr>be_rewardAddresses := certs\<rparr>))) (bh_Round hdr - 1)"
    using sameFrame_start(4) [OF st(2)] e0(1) by simp
  have g: "okState (be_state eval1)" "keepsMoney (be_state eval0) (be_state eval1)"
    using money.evalGroups_step [OF money.vmUsesLedger_respects [OF assms(1)] assms(10) _ v] st(1) by simp_all
  show thesis
    by (rule that [OF g(1)], rule sameFrame_trans [OF st(2)])
      (use g(2) st(3) evalGroups_fixed [OF assms(10)] e0(2) in \<open>simp_all add: keepsMoney_def fixedOf_def\<close>)
qed

end
