(* ===== verification/Ledger_Samples.thy ===== *)
theory Ledger_Samples
  imports Ledger_Blocks
begin

text \<open>A small ledger, a block with one payment and an interpreter, on which the theorems are applied.\<close>

definition plainParams :: consensusParams where
  "plainParams = zeroParams\<lparr>cp_RewardUnit := 1000000, cp_MinBalance := 1000, cp_MaxTxGroupSize := 16,
     cp_MaxTxnBytesPerBlock := 1000, cp_SupportSignedTxnInBlock := True, cp_ApplyData := True, cp_RewardsInApplyData := True,
     cp_TxnCounter := True, cp_MaxTimestampIncrement := 25, cp_SupportTransactionLeases := True,
     cp_PaysetCommit := PaysetCommitFlat\<rparr>"

definition plainTable :: consensusTable where
  "plainTable = [(''p'', plainParams)]"

text \<open>The interpreter approves every program and changes nothing.\<close>

definition plainVM :: "unit logicVM" where
  "plainVM = \<lparr>vm_NewEvalParams = (\<lambda>_ _ _. ()), vm_EvalContract = (\<lambda>_ _ _ _ s. ((), Ok (True, s))),
     vm_CheckContract = (\<lambda>_ _. Ok ()), vm_RecordAD = (\<lambda>_ _ _. ()), vm_TxnEvalDelta = (\<lambda>_ _. zeroEvalDelta),
     vm_Txn = (\<lambda>_ _. zeroTransaction)\<rparr>"

definition plainID :: "transaction \<Rightarrow> txid" where
  "plainID tx = h_Sender (tx_Header tx)"

definition plainEnv :: "unit evalEnv" where
  "plainEnv = \<lparr>ev_Consensus = plainTable, ev_vm = plainVM, ev_verifyCert = (\<lambda>_ _ _. Err (Errorf ''no certificates'')),
     ev_compactCertSender = 99, ev_ID = plainID, ev_HashTxn = plainID, ev_HashGroup = sum_list, ev_Encode = (\<lambda>_. []),
     ev_EncodedLength = (\<lambda>_. 100), ev_payset = sampleOps, ev_hashHeader = sampleHash, ev_verifyPayset = (\<lambda>_ _. Ok ()),
     ev_transactionLog = Opened, ev_addressLog = Opened\<rparr>"

definition plainRewards :: rewardsState where
  "plainRewards = zeroRewardsState\<lparr>rs_FeeSink := 1, rs_RewardsPool := 2, rs_RewardsRate := 8, rs_RewardsRecalculationRound := 500000\<rparr>"

definition plainPrev :: blockHeader where
  "plainPrev = \<lparr>bh_Round = 6, bh_Branch = 0, bh_Seed = 0, bh_TxnRoot = 0, bh_TimeStamp = 1000,
     bh_GenesisID = ''test'', bh_GenesisHash = 0, bh_RewardsState = plainRewards,
     bh_UpgradeState = \<lparr>us_CurrentProtocol = ''p'', us_NextProtocol = [],
       us_NextProtocolApprovals = 0, us_NextProtocolVoteBefore = 0, us_NextProtocolSwitchOn = 0\<rparr>,
     bh_UpgradeVote = zeroUpgradeVote, bh_TxnCounter = 40, bh_CompactCert = [], bh_ExpiredParticipationAccounts = []\<rparr>"

definition plainHeader :: blockHeader where
  "plainHeader = plainPrev\<lparr>bh_Round := 7, bh_Branch := 7, bh_TxnRoot := 3, bh_TimeStamp := 1010,
     bh_RewardsState := plainRewards\<lparr>rs_RewardsLevel := 1\<rparr>, bh_TxnCounter := 41\<rparr>"

definition plainAccount :: "status \<Rightarrow> microNovas \<Rightarrow> accountData" where
  "plainAccount st m = zeroAccountData\<lparr>ad_Status := st, ad_MicroNovas := m\<rparr>"

definition plainAccounts :: "address \<Rightarrow> accountData" where
  "plainAccounts = (\<lambda>_. zeroAccountData)(1 := plainAccount NotParticipating 1000000, 2 := plainAccount NotParticipating 10000000,
     5 := plainAccount Online 5000000, 6 := plainAccount Offline 3000000)"

definition plainTotals :: accountTotals where
  "plainTotals = \<lparr>at_Online = \<lparr>ac_Money = 5000000, ac_RewardUnits = 5\<rparr>, at_Offline = \<lparr>ac_Money = 3000000, ac_RewardUnits = 3\<rparr>,
     at_NotParticipating = \<lparr>ac_Money = 11000000, ac_RewardUnits = 11\<rparr>, at_RewardsLevel = 0\<rparr>"

definition plainLedger :: ledgerForEvaluator where
  "plainLedger = \<lparr>le_cow = \<lparr>lf_BlockHdr = (\<lambda>_. Ok plainPrev), lf_CheckDup = (\<lambda>_ _ _ _ _ _. Ok ()),
       lf_LookupWithoutRewards = (\<lambda>_ a. Ok (plainAccounts a)), lf_GetCreatorForRound = (\<lambda>_ _ _. Ok (0, False))\<rparr>,
     le_GenesisHash = 0, le_LatestTotals = Ok (6, plainTotals), le_CompactCertVoters = (\<lambda>_. Ok None), le_RootDir = []\<rparr>"

definition plainPayment :: signedTxn where
  "plainPayment = zeroSignedTxn\<lparr>st_Txn := zeroTransaction\<lparr>tx_Type := PaymentTx,
     tx_Header := zeroHeader\<lparr>h_Sender := 5, h_Fee := 1000, h_FirstValid := 1, h_LastValid := 1001\<rparr>,
     tx_Payment := zeroPayment\<lparr>pay_Receiver := 6, pay_Amount := 100\<rparr>\<rparr>\<rparr>"

definition plainBlock :: block where
  "plainBlock = \<lparr>bl_BlockHeader = plainHeader, bl_Payset = [\<lparr>stib_SignedTxnWithAD =
     SignedTxnWithAD plainPayment (ApplyData 0 0 5 3 0 zeroEvalDelta 0 0), stib_HasGenesisID = False, stib_HasGenesisHash = False\<rparr>]\<rparr>"

fun isOk :: "('e, 'a) result \<Rightarrow> bool" where
  "isOk (Ok _) = True" | "isOk _ = False"

lemma plain_run: "isOk (Eval plainEnv plainLedger plainBlock True [])"
  by code_simp

lemma isOk_iff: "isOk r \<longleftrightarrow> (\<exists>x. r = Ok x)"
  by (cases r) simp_all

lemma plainVM_usesLedger: "vmUsesLedger plainVM (\<lambda>_. 0)"
  unfolding vmUsesLedger_def plainVM_def by (auto intro: run_done)

lemma totalsMatch_zero:
  "totalsMatch proto at (add_mset zeroAccountData M) \<Longrightarrow> totalsMatch proto at M"
  by (auto simp: totalsMatch_def rewardUnitsOf_def split: if_splits) (simp_all add: zeroAccountData_def)

lemma totalsMatch_new:
  assumes "totalsMatch proto at (accountsOf A)" "A a = zeroAccountData" "AddAccount proto d at \<lparr>Overflowed = False\<rparr> = Ok (at', ot')"
    "\<not> Overflowed ot'" "cp_RewardUnit proto \<noteq> 0"
  shows "totalsMatch proto at' (accountsOf (A(a := d)))"
  unfolding accountsOf_upd
  by (rule totalsMatch_add [OF assms(3-5)], rule totalsMatch_zero) (use assms(1,2) accountsOf_split [of A a] in simp)

lemma sum_const_zero: "f zeroAccountData = 0 \<Longrightarrow> (\<Sum>u \<in># withStatus st (accountsOf (\<lambda>_. zeroAccountData)). f u) = (0 :: nat)"
proof -
  assume f: "f zeroAccountData = 0"
  have "(\<Sum>u \<in># withStatus st (image_mset (\<lambda>_. zeroAccountData) M). f u) = 0" for M :: "address multiset"
    using f by (induction M) simp_all
  then show ?thesis by (simp add: accountsOf_def)
qed

lemma totalsMatch_empty: "totalsMatch proto zeroTotals (accountsOf (\<lambda>_. zeroAccountData))"
proof -
  have "rewardUnitsOf proto zeroAccountData = 0" by (simp add: rewardUnitsOf_def zeroAccountData_def)
  then show ?thesis
    by (simp add: totalsMatch_def sum_const_zero) (auto simp: zeroTotals_def statusField_def split: status.splits)
qed

lemma plain_inv: "ledgerInv plainParams plainTotals plainAccounts"
proof -
  let ?ot = "\<lparr>Overflowed = False\<rparr>"
  let ?t = "\<lambda>on off np. \<lparr>at_Online = on, at_Offline = off, at_NotParticipating = np, at_RewardsLevel = 0\<rparr>"
  let ?c = "\<lambda>m u. \<lparr>ac_Money = m, ac_RewardUnits = u\<rparr>"
  note m0 = totalsMatch_empty [of plainParams]
  have u: "cp_RewardUnit plainParams \<noteq> 0" "\<not> Overflowed ?ot" by (simp_all add: plainParams_def)
  have a1: "AddAccount plainParams (plainAccount NotParticipating 1000000) zeroTotals ?ot
      = (Ok (?t (?c 0 0) (?c 0 0) (?c 1000000 1), ?ot) :: (unit, accountTotals \<times> overflowTracker) result)" by code_simp
  note m1 = totalsMatch_new [OF m0 HOL.refl a1 u(2,1), of 1]
  have a2: "AddAccount plainParams (plainAccount NotParticipating 10000000) (?t (?c 0 0) (?c 0 0) (?c 1000000 1)) ?ot
      = (Ok (?t (?c 0 0) (?c 0 0) (?c 11000000 11), ?ot) :: (unit, accountTotals \<times> overflowTracker) result)" by code_simp
  note m2 = totalsMatch_new [OF m1 _ a2 u(2,1), of 2]
  have a3: "AddAccount plainParams (plainAccount Online 5000000) (?t (?c 0 0) (?c 0 0) (?c 11000000 11)) ?ot
      = (Ok (?t (?c 5000000 5) (?c 0 0) (?c 11000000 11), ?ot) :: (unit, accountTotals \<times> overflowTracker) result)" by code_simp
  note m3 = totalsMatch_new [OF m2 _ a3 u(2,1), of 5]
  have a4: "AddAccount plainParams (plainAccount Offline 3000000) (?t (?c 5000000 5) (?c 0 0) (?c 11000000 11)) ?ot
      = (Ok (?t (?c 5000000 5) (?c 3000000 3) (?c 11000000 11), ?ot) :: (unit, accountTotals \<times> overflowTracker) result)" by code_simp
  note m4 = totalsMatch_new [OF m3 _ a4 u(2,1), of 6]
  have "totalsMatch plainParams plainTotals (accountsOf plainAccounts)"
    unfolding plainTotals_def plainAccounts_def by (rule m4) simp_all
  moreover have "basesBelow (at_RewardsLevel plainTotals) plainAccounts"
    by (simp add: basesBelow_def plainAccounts_def plainTotals_def plainAccount_def zeroAccountData_def)
  ultimately show ?thesis by (simp add: ledgerInv_def)
qed

end
