(* ===== verification/Ledger_Theorems.thy ===== *)
theory Ledger_Theorems
  imports Ledger_Sums Ledger_Samples
begin

text \<open>The properties of the block evaluator, each with the instance it is applied to.\<close>

section \<open>Totals and money\<close>

lemma Eval_ledger:
  assumes "vmUsesLedger (ev_vm env) rank"
    "mget (ev_Consensus env) (us_CurrentProtocol (bh_UpgradeState (bl_BlockHeader blk))) = Some proto" "cp_RewardUnit proto \<noteq> 0"
    "le_LatestTotals l = Ok (latest, totals)" "ledgerInv proto totals (ledgerAt l (bh_Round (bl_BlockHeader blk) - 1))"
    "Eval env l blk validate certs = Ok (delta, eval)"
    "A = ledgerAt l (bh_Round (bl_BlockHeader blk) - 1)" "B = applyDelta (sd_Accts delta) A"
  shows "ledgerInv proto (sd_Totals delta) B"
    "sumOver (worth proto (at_RewardsLevel (sd_Totals delta))) B = sumOver (worth proto (at_RewardsLevel totals)) A"
proof -
  let ?hdr = "bl_BlockHeader blk"
  obtain prev nc s t where s: "okState s" "keepsBases (startState l ?hdr proto prev nc totals) s"
    and c: "CalculateTotals s = Ok ((), t)" and d: "deltas t = Ok (delta, be_state eval)"
    by (rule Eval_states [OF assms(6,1-4)])
  let ?s = "startState l ?hdr proto prev nc totals"
  have f: "sameFrame ?s s" using s(2) by (simp add: keepsBases_def)
  have pr: "cow_proto s = proto" "rewardsLevel s = rs_RewardsLevel (bh_RewardsState ?hdr)"
    using sameFrame_simps [OF f] by (simp_all add: startState_simps)
  have p: "prevTotalsOK s"
    using assms(5) sameFrame_start [OF f] pr by (simp add: prevTotalsOK_def ledgerInv_def Let_def)
  note ct = CalculateTotals_Ok [OF s(1) p c]
  note dt = deltas_Ok [OF d ct(3)]
  have ft: "sameFrame s t" "acct t = acct s" using ct(4) by (simp_all add: quiet_def)
  have B: "acct (be_state eval) = B"
    using acct_applyDelta [OF sameFrame_trans [OF f sameFrame_trans [OF ft(1) dt(2)]]] dt(5) assms(7,8) by simp
  have prt: "cow_proto t = proto" "rewardsLevel t = rewardsLevel s" using sameFrame_simps [OF ft(1)] pr by simp_all
  have lvl: "at_RewardsLevel (sd_Totals delta) = rewardsLevel s" using ct(2) dt(4) prt by simp
  have m: "totalsMatch proto (sd_Totals delta) (accountsOf B)"
    using sameBalances_totals [OF dt(3)] ct(1) dt(4) prt B by simp
  have "basesBelow (rewardsLevel s) (acct ?s)"
    using assms(5) ct(5) sameFrame_start(2) [OF f] by (auto simp: startState_simps ledgerInv_def basesBelow_def intro: order_trans)
  then have "basesBelow (rewardsLevel s) (acct s)"
    using s(2) pr(2) by (simp add: keepsBases_def startState_simps)
  then have b: "basesBelow (rewardsLevel s) B"
    using dt(3) ft(2) unfolding B by (simp add: sameBalances_def sameBalance_def basesBelow_def)
  show "ledgerInv proto (sd_Totals delta) B" using m b lvl by (simp add: ledgerInv_def)
  obtain x where x: "(AccountTotals_All (sd_Totals (rc_mods (cow_top t))) :: (ledgerError, microNovas) result) = Ok x"
    "(AccountTotals_All (rc_prevTotals (cow_top s)) :: (ledgerError, microNovas) result) = Ok x"
    by (rule CalculateTotals_All [OF c])
  have "unat x = sumOver (worth proto (at_RewardsLevel (sd_Totals delta))) B"
    using All_sum [OF m] x(1) dt(4) by simp
  moreover have "unat x = sumOver (worth proto (at_RewardsLevel totals)) A"
    using All_sum [of proto totals A x] x(2) sameFrame_start(2) [OF f] assms(5,7) by (simp add: ledgerInv_def)
  ultimately show "sumOver (worth proto (at_RewardsLevel (sd_Totals delta))) B = sumOver (worth proto (at_RewardsLevel totals)) A" by simp
qed

text \<open>
  C1. A block leaves the totals of the ledger right. Suppose that before the block the totals
  of each status are the sums over the accounts with that status of their money, with the
  rewards they are owed, and of their reward units, and that no account has claimed rewards of
  a level not yet reached. If the evaluation of the block succeeds, then the same holds of the
  totals in its delta and of the accounts with the delta applied, and the money of all
  accounts together is what it was. The interpreter may do whatever the interface of the
  ledger lets a program do.
\<close>

theorem Eval_keeps_ledger:
  assumes "vmUsesLedger (ev_vm env) rank"
    "mget (ev_Consensus env) (us_CurrentProtocol (bh_UpgradeState (bl_BlockHeader blk))) = Some proto" "cp_RewardUnit proto \<noteq> 0"
    "le_LatestTotals l = Ok (latest, totals)" "A = ledgerAt l (Block_Round blk - 1)" "ledgerInv proto totals A"
    "Eval env l blk validate certs = Ok (delta, eval)" "B = applyDelta (sd_Accts delta) A"
  shows "ledgerInv proto (sd_Totals delta) B \<and>
    sumOver (worth proto (at_RewardsLevel (sd_Totals delta))) B = sumOver (worth proto (at_RewardsLevel totals)) A"
  using Eval_ledger [OF assms(1-4) _ assms(7) _ assms(8)] assms(5,6) by (simp add: Block_Round_def)

theorem Eval_keeps_ledger_witness:
  "\<exists>delta eval. Eval plainEnv plainLedger plainBlock True [] = Ok (delta, eval) \<and>
     ledgerInv plainParams (sd_Totals delta) (applyDelta (sd_Accts delta) plainAccounts) \<and>
     sumOver (worth plainParams (at_RewardsLevel (sd_Totals delta))) (applyDelta (sd_Accts delta) plainAccounts) =
       sumOver (worth plainParams 0) plainAccounts"
proof -
  obtain delta eval where e: "Eval plainEnv plainLedger plainBlock True [] = Ok (delta, eval)"
    using plain_run by (auto simp: isOk_iff)
  have vm: "vmUsesLedger (ev_vm plainEnv) (\<lambda>_. 0)" using plainVM_usesLedger by (simp add: plainEnv_def)
  have p: "mget (ev_Consensus plainEnv) (us_CurrentProtocol (bh_UpgradeState (bl_BlockHeader plainBlock))) = Some plainParams"
    "cp_RewardUnit plainParams \<noteq> 0" "le_LatestTotals plainLedger = Ok (6, plainTotals)"
    by (simp_all add: plainEnv_def plainTable_def plainBlock_def plainHeader_def plainPrev_def plainParams_def plainLedger_def)
  have a: "plainAccounts = ledgerAt plainLedger (Block_Round plainBlock - 1)"
    by (simp add: fun_eq_iff ledgerAt_def plainLedger_def)
  from Eval_keeps_ledger [OF vm p a plain_inv e HOL.refl] e show ?thesis by (auto simp: plainTotals_def)
qed

text \<open>
  C5. The check at the end of a block that the money of all accounts is unchanged cannot fail.
  Start a validating evaluation on a ledger whose totals are right and whose reward level is
  that of the previous header, apply any groups, and reset the accounts whose keys expired:
  \<open>CalculateTotals\<close> does not report that the sum of money changed, whoever receives the fees.
\<close>

theorem sum_never_changes:
  assumes "vmUsesLedger (ev_vm env) rank" "StartEvaluator env l hdr opts = Ok eval0" "\<not> eo_Generate opts" "eo_ProtoParams opts = None"
    "eo_Validate opts" "mget (ev_Consensus env) (us_CurrentProtocol (bh_UpgradeState hdr)) = Some proto" "cp_RewardUnit proto \<noteq> 0"
    "le_LatestTotals l = Ok (latest, totals)" "ledgerInv proto totals (ledgerAt l (bh_Round hdr - 1))"
    "\<And>prev. lf_BlockHdr (le_cow l) (bh_Round hdr - 1) = Ok prev \<Longrightarrow> rs_RewardsLevel (bh_RewardsState prev) = at_RewardsLevel totals"
    "evalGroups env (bh_Round hdr - 1) feeSink groups (eval0\<lparr>be_rewardAddresses := certs\<rparr>) = Ok eval1"
    "validateExpiredOnlineAccounts eval1 = Ok ((), eval2)" "resetExpiredOnlineAccountsParticipationKeys eval2 = Ok ((), eval3)"
  shows "CalculateTotals (be_state eval3) \<noteq> Err sumChanged"
proof -
  obtain prev nc where g: "okState (be_state eval1)" "sameFrame (startState l hdr proto prev nc totals) (be_state eval1)"
    "moneyOf (be_state eval1) = sumOver (worth proto (at_RewardsLevel totals)) (ledgerAt l (bh_Round hdr - 1))"
    "be_validate eval1 = eo_Validate opts"
    by (rule groups_money [OF assms(1-4,6-11)])
  obtain s where v: "validateLoop (Block_Round (be_block eval1)) [] (bh_ExpiredParticipationAccounts (be_header eval1)) (be_state eval1) = Ok ((), s)"
    and e2: "eval2 = eval1\<lparr>be_state := s\<rparr>"
    using assms(12) g(4) assms(5) by (auto simp: validateExpiredOnlineAccounts_def withState_def Let_def onState_Ok_iff failWith_def split: if_splits)
  have s: "okState s" "quiet (be_state eval1) s" using doesD [OF quiet_validateLoop g(1) v] by simp_all
  have on: "\<forall>a \<in> set (bh_ExpiredParticipationAccounts (be_header eval1)). ad_Status (acct s a) \<noteq> NotParticipating"
    using validateLoop_Online(1) [OF v] g(1) s(2) by (simp add: okState_def isExpired_def quiet_def)
  obtain t where r: "resetLoop (bh_ExpiredParticipationAccounts (be_header eval2)) (be_state eval2) = Ok ((), t)" and e3: "eval3 = eval2\<lparr>be_state := t\<rparr>"
    by (rule resetExpired_Ok [OF assms(13)])
  have t: "okState t" "keepsMoney s t"
    using money_resetLoop [of "bh_ExpiredParticipationAccounts (be_header eval1)" s "()" t] r s(1) on by (simp_all add: e2 be_header_def)
  have f: "sameFrame (startState l hdr proto prev nc totals) t"
    using g(2) s(2) t(2) sameFrame_trans unfolding quiet_def keepsMoney_def by blast
  have pr: "cow_proto t = proto" using sameFrame_simps(2) [OF f] by (simp add: startState_simps)
  have "moneyOf t = moneyOf (be_state eval1)"
    using quiet_keepsMoney [OF s(2)] t(2) by (simp add: keepsMoney_def)
  then have "CalculateTotals t \<noteq> Err sumChanged"
    using sum_unchanged [OF t(1)] g(3) assms(9) sameFrame_start [OF f] pr by (simp add: prevTotalsOK_def ledgerInv_def Let_def)
  then show ?thesis by (simp add: e3)
qed

theorem sum_never_changes_witness:
  "\<exists>eval0 groups eval1 eval2 eval3. StartEvaluator plainEnv plainLedger plainHeader
       \<lparr>eo_Validate = True, eo_Generate = False, eo_MaxTxnBytesPerBlock = 0, eo_ProtoParams = None\<rparr> = Ok eval0 \<and>
     DecodePaysetGroups plainTable plainBlock = Ok groups \<and>
     evalGroups plainEnv 6 [1] groups (eval0\<lparr>be_rewardAddresses := []\<rparr>) = Ok eval1 \<and>
     validateExpiredOnlineAccounts eval1 = Ok ((), eval2) \<and> resetExpiredOnlineAccountsParticipationKeys eval2 = Ok ((), eval3) \<and>
     CalculateTotals (be_state eval3) \<noteq> Err sumChanged"
proof -
  obtain delta eval where e: "Eval plainEnv plainLedger plainBlock True [] = Ok (delta, eval)"
    using plain_run by (auto simp: isOk_iff)
  let ?opts = "\<lparr>eo_Validate = True, eo_Generate = False, eo_MaxTxnBytesPerBlock = 0, eo_ProtoParams = None\<rparr>"
  have h: "bl_BlockHeader plainBlock = plainHeader" "Block_Round plainBlock - 1 = 6" "bh_Round plainHeader - 1 = 6"
    "rs_FeeSink (bh_RewardsState plainHeader) = 1" "ev_Consensus plainEnv = plainTable"
    by (simp_all add: plainBlock_def plainHeader_def plainPrev_def Block_Round_def plainRewards_def plainEnv_def)
  obtain eval0 groups eval1 eval4 where st: "StartEvaluator plainEnv plainLedger plainHeader ?opts = Ok eval0"
    and gr: "DecodePaysetGroups plainTable plainBlock = Ok groups" "evalGroups plainEnv 6 [1] groups (eval0\<lparr>be_rewardAddresses := []\<rparr>) = Ok eval1"
    and en: "endOfBlock plainEnv eval1 = Ok ((), eval4)"
    by (rule Eval_Ok [OF e, unfolded h])
  have ng: "\<not> be_generate eval1"
    using StartEvaluator_Ok [OF st] evalGroups_fixed [OF gr(2)] by (simp add: fixedOf_def)
  obtain eval2 eval3 where ex: "validateExpiredOnlineAccounts eval1 = Ok ((), eval2)" "resetExpiredOnlineAccountsParticipationKeys eval2 = Ok ((), eval3)"
    using en ng by (auto simp: endOfBlock_def withState_def act_simps)
  have vm: "vmUsesLedger (ev_vm plainEnv) (\<lambda>_. 0)" using plainVM_usesLedger by (simp add: plainEnv_def)
  have p: "mget (ev_Consensus plainEnv) (us_CurrentProtocol (bh_UpgradeState plainHeader)) = Some plainParams"
    "cp_RewardUnit plainParams \<noteq> 0" "le_LatestTotals plainLedger = Ok (6, plainTotals)"
    by (simp_all add: plainEnv_def plainTable_def plainHeader_def plainPrev_def plainParams_def plainLedger_def)
  have i: "ledgerInv plainParams plainTotals (ledgerAt plainLedger (bh_Round plainHeader - 1))"
    using plain_inv by (simp add: ledgerAt_def [abs_def] plainLedger_def)
  have l: "rs_RewardsLevel (bh_RewardsState prev) = at_RewardsLevel plainTotals"
    if "lf_BlockHdr (le_cow plainLedger) (bh_Round plainHeader - 1) = Ok prev" for prev
    using that by (auto simp: plainLedger_def plainPrev_def plainRewards_def plainTotals_def zeroRewardsState_def)
  have "CalculateTotals (be_state eval3) \<noteq> Err sumChanged"
    by (rule sum_never_changes [OF vm st _ _ _ p i l gr(2) [folded h(3)] ex]) simp_all
  then show ?thesis using st gr ex by blast
qed

end
