(* ===== verification/Ledger_Replay.thy ===== *)
theory Ledger_Replay
  imports Ledger_Samples
begin

text \<open>
  A transaction is applied once. The layer of a block remembers the identifiers of its
  transactions, no operation forgets one, and a validating evaluator refuses an identifier
  that a layer or the ledger knows.
\<close>

section \<open>No operation forgets a transaction\<close>

definition remembers :: "roundCowState \<Rightarrow> roundCowState \<Rightarrow> bool" where
  "remembers s t \<longleftrightarrow> sameFrame s t \<and> ids s \<subseteq> ids t"

interpretation rm: step_relation remembers
  by unfold_locales (auto simp: remembers_def intro: sameFrame_trans)

lemma quiet_remembers: "quiet s t \<Longrightarrow> remembers s t"
  by (simp add: quiet_def remembers_def)

lemma remembers_put:
  assumes "okState s"
  shows "okState (putAcct a d s) \<and> remembers s (putAcct a d s)"
proof -
  have "okState (putAcct a d s)"
    by (rule okState_frame [OF assms sameFrame_putAcct putAcct_view(2)]) (use assms in \<open>simp add: okState_def\<close>)
  moreover have "ids (putAcct a d s) = ids s" by (simp add: ids_def idsOf_def putAcct_def updMods_def)
  ultimately show ?thesis by (simp add: remembers_def)
qed

lemma does_remembers_Put: "does remembers (Put a d)"
  by (rule doesI) (use remembers_put in \<open>auto simp: Put_eq okState_def\<close>)

lemmas remembers_rules = rm.does_basic rm.does_andDo rm.does_if rm.does_option rm.does_prod rm.does_let rm.does_withState

lemma does_remembers_Move: "does remembers (Move from to amt fr tr)"
proof -
  have l: "does remembers (lookup a)" for a by (rule does_mono [OF does_lookup quiet_remembers])
  show ?thesis unfolding Move_def by (intro remembers_rules l does_remembers_Put)
qed

lemma mputAll_keys: "{k. mget (mputAll kvs m) k \<noteq> None} = fst ` set kvs \<union> {k. mget m k \<noteq> None}"
  unfolding mputAll_def
  by (induction kvs arbitrary: m) (auto simp: map_simps split: prod.splits if_splits)

lemma mget_keys: "{k. mget m k \<noteq> None} = fst ` set m"
  by (induction m) (auto simp: map_simps split: prod.splits if_splits)

lemma commit_ids:
  assumes "sameFrame (child s) c" "cowOK c" "commitToParent c = Ok (u, t)"
  shows "ids t = ids s \<union> ids c"
proof -
  obtain p ps sds where p: "cow_parents c = p # ps"
    and t: "t = c\<lparr>cow_top := mergedLayer p (cow_top c) sds, cow_parents := ps\<rparr>"
    using commitToParent_Ok [OF assms(2,3)] by metis
  have "noCache p = noCache (cow_top s)" using assms(1) by (simp add: sameFrame_def child_def p)
  then have "rc_mods p = rc_mods (cow_top s)" by (metis noCache_sel(1))
  then have m: "sd_Txids (rc_mods (cow_top t)) = mputAll (sd_Txids (rc_mods (cow_top c))) (sd_Txids (rc_mods (cow_top s)))"
    by (simp add: t mergedLayer_def)
  show ?thesis unfolding ids_def idsOf_def m mputAll_keys mget_keys [of "sd_Txids (rc_mods (cow_top c))"] by (rule Un_commute)
qed

interpretation seen: ledger_policy remembers
proof unfold_locales
  show "quiet s t \<Longrightarrow> remembers s t" for s t by (rule quiet_remembers)
  show "remembers s t \<Longrightarrow> sameFrame s t" for s t by (simp add: remembers_def)
  show "okState s \<Longrightarrow> remembers s (putAcct a d s)" for s a d by (simp add: remembers_put)
  show "okState s \<Longrightarrow> remembers s (putAcct a d s)" for s a d by (simp add: remembers_put)
  show "okState s \<Longrightarrow> remembers s (putAcct a zeroAccountData s)" for s a by (simp add: remembers_put)
  show "does remembers (Move from to amt fr tr)" for "from" to amt fr tr by (rule does_remembers_Move)
  show "remembers (child s) c \<Longrightarrow> okState c \<Longrightarrow> okState s \<Longrightarrow> commitToParent c = Ok (u, t) \<Longrightarrow> remembers s t" for s c u t
    using child_commit(1) [of s c u t] commit_ids [of s c u t] by (simp add: remembers_def okState_def)
qed

section \<open>A transaction that is applied is new\<close>

abbreviation idOf :: "'p evalEnv \<Rightarrow> signedTxnWithAD \<Rightarrow> txid" where
  "idOf env w \<equiv> ev_ID env (st_Txn (sw_SignedTxn w))"

definition knownIds :: "roundCowState \<Rightarrow> txid set" where
  "knownIds s = (\<Union>cb \<in> set (layers s). idsOf (rc_mods cb))"

definition ledgerAccepts :: "'p evalEnv \<Rightarrow> roundCowBase \<Rightarrow> signedTxnWithAD \<Rightarrow> bool" where
  "ledgerAccepts env b w \<longleftrightarrow> (let hdr = tx_Header (st_Txn (sw_SignedTxn w)) in
     lf_CheckDup (cb_l b) (cb_proto b) (cb_rnd b + 1) (h_FirstValid hdr) (h_LastValid hdr) (idOf env w) (leaseOf hdr) = Ok ())"

lemma checkDup_new:
  assumes "checkDup fv lv txid txl s = Ok u"
  shows "txid \<notin> knownIds s" "base_checkDup fv lv txid txl (cow_base s) = Ok u"
proof -
  have "checkDupIn cbs fv lv txid txl b = Ok u \<Longrightarrow>
      txid \<notin> (\<Union>cb \<in> set cbs. idsOf (rc_mods cb)) \<and> base_checkDup fv lv txid txl b = Ok u" for cbs b
    by (induction cbs) (auto simp: idsOf_def split: if_splits)
  from this [OF assms [unfolded checkDup_def]]
  show "txid \<notin> knownIds s" "base_checkDup fv lv txid txl (cow_base s) = Ok u" by (simp_all add: knownIds_def)
qed

lemma knownIds_remembers:
  assumes "remembers s t"
  shows "knownIds s \<subseteq> knownIds t"
proof -
  have n: "idsOf (rc_mods (noCache cb)) = idsOf (rc_mods cb)" for cb by (simp only: noCache_sel)
  have "map noCache (cow_parents t) = map noCache (cow_parents s)" using assms by (simp only: remembers_def sameFrame_def)
  from arg_cong [OF this, of "\<lambda>cbs. \<Union>cb \<in> set cbs. idsOf (rc_mods cb)"]
  have "(\<Union>cb \<in> set (cow_parents t). idsOf (rc_mods cb)) = (\<Union>cb \<in> set (cow_parents s). idsOf (rc_mods cb))"
    by (simp only: set_map image_image n)
  then show ?thesis using assms by (auto simp: knownIds_def layers_def remembers_def ids_def)
qed

lemma ledgerAccepts_frame: "sameFrame s t \<Longrightarrow> ledgerAccepts env (cow_base t) = ledgerAccepts env (cow_base s)"
  by (simp add: sameFrame_def baseEq_def ledgerAccepts_def fun_eq_iff)

lemma eval_transaction_new:
  assumes "\<And>ep. vmRespects remembers (ev_vm env) ep" "eval_transaction env eval (sw_SignedTxn w) ep gi ad s = Ok (x, t)"
    "be_validate eval" "okState s"
  shows "okState t" "remembers s t" "idOf env w \<notin> knownIds s" "idOf env w \<in> ids t" "ledgerAccepts env (cow_base s) w"
proof -
  show r: "okState t" "remembers s t" using doesD [OF seen.does_eval_transaction [OF assms(1)] assms(4,2)] by simp_all
  let ?txn = "sw_SignedTxn w"
  obtain s1 where c: "checkTransaction env eval ?txn s = Ok ((), s1)" and t: "\<exists>s2. t = addTx (st_Txn ?txn) (idOf env w) s2"
    using assms(2,3) unfolding eval_transaction_def by (auto simp: act_simps split: prod.splits)
  show "idOf env w \<in> ids t" using t by (auto simp: addTx_eq updTop_def noted_def ids_def idsOf_def map_simps)
  have d: "checkDup (h_FirstValid (tx_Header (st_Txn ?txn))) (h_LastValid (tx_Header (st_Txn ?txn))) (idOf env w)
      (leaseOf (tx_Header (st_Txn ?txn))) s = Ok ()"
    using c unfolding checkTransaction_def Let_def by (auto simp: act_simps withState_def)
  show "idOf env w \<notin> knownIds s" by (rule checkDup_new [OF d])
  show "ledgerAccepts env (cow_base s) w"
    using checkDup_new(2) [OF d] by (simp add: ledgerAccepts_def Let_def base_checkDup_def)
qed

lemma groupTxns_new:
  assumes "\<And>ep. vmRespects remembers (ev_vm env) ep" "be_validate eval"
    "groupTxns env eval grp sz gi txads ep txibs bytes hashes s = Ok (x, t)" "okState s"
  shows "distinct (map (idOf env) txads) \<and> set (map (idOf env) txads) \<inter> knownIds s = {} \<and>
    set (map (idOf env) txads) \<subseteq> ids t \<and> list_all (ledgerAccepts env (cow_base s)) txads"
  using assms(3,4)
proof (induction txads arbitrary: gi ep txibs bytes hashes s)
  case Nil
  then show ?case by simp
next
  case (Cons w txads)
  from Cons.prems(1) obtain y s1 where e: "eval_transaction env eval (sw_SignedTxn w) ep gi (sw_ApplyData w) s = Ok (y, s1)"
    and k: "(case y of (txib, ep) \<Rightarrow>
       let bytes = (if be_validate eval then bytes + ev_EncodedLength env txib else bytes) in
       if be_validate eval \<and> be_blockTxBytes eval + bytes > be_maxTxnBytesPerBlock eval then failWith ErrNoSpace
       else andDo (lift (groupHash env grp sz (st_Txn (sw_SignedTxn w)) hashes)) (\<lambda>hashes.
         groupTxns env eval grp sz (gi + 1) txads ep (txibs @ [txib]) bytes hashes)) s1 = Ok (x, t)"
    unfolding groupTxns.simps andDo_Ok_iff by blast
  note n = eval_transaction_new [OF assms(1) e assms(2) Cons.prems(2)]
  obtain gi' ep' txibs' bytes' hashes' where r: "groupTxns env eval grp sz gi' txads ep' txibs' bytes' hashes' s1 = Ok (x, t)"
    using k by (cases y) (auto simp: Let_def act_simps split: if_splits)
  note ih = Cons.IH [OF r n(1)]
  have "remembers s1 t" using doesD [OF seen.does_groupTxns [OF assms(1)] n(1) r] by simp
  then have "ids s1 \<subseteq> ids t" by (simp add: remembers_def)
  moreover have "ids s1 \<subseteq> knownIds s1" by (auto simp: ids_def knownIds_def layers_def)
  moreover have "ledgerAccepts env (cow_base s1) = ledgerAccepts env (cow_base s)"
    using n(2) by (simp add: remembers_def ledgerAccepts_frame)
  ultimately show ?case using ih n(3-5) knownIds_remembers [OF n(2)] by auto
qed

lemma knownIds_child: "knownIds (child s) = knownIds s"
  by (simp add: knownIds_def layers_def child_def childLayer_def idsOf_def MakeStateDelta_def)

lemma ids_known: "ids s \<subseteq> knownIds s"
  by (auto simp: ids_def knownIds_def layers_def)

text \<open>What the transactions of a list are, before and after they are applied.\<close>

definition appliedOnce :: "'p evalEnv \<Rightarrow> signedTxnWithAD list \<Rightarrow> roundCowState \<Rightarrow> roundCowState \<Rightarrow> bool" where
  "appliedOnce env ws s t \<longleftrightarrow> distinct (map (idOf env) ws) \<and> idOf env ` set ws \<inter> knownIds s = {} \<and>
     idOf env ` set ws \<subseteq> ids t \<and> list_all (ledgerAccepts env (cow_base s)) ws"

lemma appliedOnce_append:
  assumes "appliedOnce env ws s1 s2" "appliedOnce env vs s2 t" "remembers s s1" "remembers s1 s2" "remembers s2 t"
  shows "appliedOnce env (ws @ vs) s t"
proof -
  have b: "ledgerAccepts env (cow_base s1) = ledgerAccepts env (cow_base s)" "ledgerAccepts env (cow_base s2) = ledgerAccepts env (cow_base s)"
    using assms(3,4) ledgerAccepts_frame [of s s1 env] ledgerAccepts_frame [of s1 s2 env] by (simp_all add: remembers_def)
  have i: "ids s2 \<subseteq> ids t" using assms(5) by (simp add: remembers_def)
  have k: "knownIds s \<subseteq> knownIds s1" "knownIds s1 \<subseteq> knownIds s2" "ids s2 \<subseteq> knownIds s2"
    using knownIds_remembers assms(3,4) ids_known by blast+
  have w: "distinct (map (idOf env) ws)" "idOf env ` set ws \<inter> knownIds s1 = {}" "idOf env ` set ws \<subseteq> ids s2" "list_all (ledgerAccepts env (cow_base s)) ws"
    and v: "distinct (map (idOf env) vs)" "idOf env ` set vs \<inter> knownIds s2 = {}" "idOf env ` set vs \<subseteq> ids t" "list_all (ledgerAccepts env (cow_base s)) vs"
    using assms(1,2) unfolding appliedOnce_def b by blast+
  have "idOf env ` set ws \<inter> idOf env ` set vs = {}" using w(3) v(2) k(3) by blast
  moreover have "idOf env ` (set ws \<union> set vs) \<inter> knownIds s = {}" using w(2) v(2) k(1,2) unfolding image_Un by blast
  moreover have "idOf env ` (set ws \<union> set vs) \<subseteq> ids t" using w(3) v(3) i unfolding image_Un by blast
  ultimately show ?thesis using w(1,4) v(1,4) unfolding appliedOnce_def by (simp only: map_append distinct_append set_map set_append list_all_append)
qed

lemma TransactionGroup_new:
  assumes "\<And>ep. vmRespects remembers (ev_vm env) ep" "be_validate eval" "okState (be_state eval)"
    "TransactionGroup env txgroup eval = Ok eval'"
  shows "appliedOnce env txgroup (be_state eval) (be_state eval')"
proof (cases "txgroup = []")
  case False
  let ?s = "be_state eval"
  obtain ep txibs bytes hashes cow u t where
    g: "groupTxns env eval (h_Group (tx_Header (st_Txn (sw_SignedTxn (hd txgroup))))) (length txgroup) 0 txgroup ep [] 0 []
       (child ?s) = Ok ((txibs, bytes, hashes), cow)"
    and c: "commitToParent cow = Ok (u, t)" and e: "be_state eval' = t"
    by (rule TransactionGroup_Ok [OF assms(4) False]) simp
  have cow: "okState cow" "remembers (child ?s) cow"
    using doesD [OF seen.does_groupTxns [OF assms(1)] okState_child [OF assms(3)] g] by simp_all
  have "ids t = ids ?s \<union> ids cow"
    by (rule commit_ids [OF _ _ c]) (use cow in \<open>simp_all add: remembers_def okState_def\<close>)
  moreover have "cow_base (child ?s) = cow_base ?s" by (simp add: child_def)
  ultimately show ?thesis
    using groupTxns_new [OF assms(1,2) g okState_child [OF assms(3)]] unfolding appliedOnce_def e knownIds_child
    by (simp only: set_map) blast
qed (simp add: appliedOnce_def)

lemma evalGroups_new:
  assumes "\<And>ep. vmRespects remembers (ev_vm env) ep" "evalGroups env rnd feeSink groups eval = Ok eval'" "be_validate eval"
    "okState (be_state eval)" "baseView (cow_base (be_state eval)) = lf_LookupWithoutRewards (le_cow (be_l eval)) rnd"
  shows "appliedOnce env (concat groups) (be_state eval) (be_state eval')"
  using assms(2-5)
proof (induction groups arbitrary: feeSink eval)
  case Nil
  then show ?case by (simp add: appliedOnce_def)
next
  case (Cons g gs)
  then obtain brs eval1 where b: "loadBalances (le_cow (be_l eval)) rnd (groupAddresses g feeSink) = Ok brs"
    and g: "TransactionGroup env g (fillAccounts brs eval) = Ok eval1" and r: "evalGroups env rnd [] gs eval1 = Ok eval'"
    by (auto simp: result_simps)
  let ?f = "fillAccounts brs eval"
  have f: "okState (be_state ?f)" "remembers (be_state eval) (be_state ?f)"
    using fillAccounts_quiet [OF b Cons.prems(4,3)] quiet_remembers by simp_all
  have fx: "be_l ?f = be_l eval" "be_validate ?f = be_validate eval"
    using fillAccounts_fixed [of brs eval] by (simp_all add: fixedOf_def)
  have s1: "okState (be_state eval1)" "remembers (be_state ?f) (be_state eval1)"
    using seen.TransactionGroup_step [OF assms(1) f(1) g] by simp_all
  have e1: "be_validate eval1" "be_l eval1 = be_l eval"
    using TransactionGroup_fixed [OF g] Cons.prems(2) fx by (simp_all add: fixedOf_def)
  have v: "baseView (cow_base (be_state eval1)) = lf_LookupWithoutRewards (le_cow (be_l eval1)) rnd"
    using seen.step_frame [OF rm.trans [OF f(2) s1(2)]] Cons.prems(4) e1(2) by (simp add: sameFrame_def baseEq_def)
  have t: "remembers (be_state eval1) (be_state eval')"
    using seen.evalGroups_step [OF assms(1) r s1(1) v] by simp
  show ?case
    using appliedOnce_append [OF TransactionGroup_new [OF assms(1) _ f(1) g] Cons.IH [OF r e1(1) s1(1) v] f(2) s1(2) t]
      Cons.prems(2) fx(2) by simp
qed

section \<open>The end of a block\<close>

lemma does_remembers_resetLoop: "does remembers (resetLoop addrs)"
proof -
  have l: "does remembers (lookup a)" for a by (rule does_mono [OF does_lookup quiet_remembers])
  show ?thesis
    by (induction addrs) (simp_all only: resetLoop.simps, (intro remembers_rules does_within l does_remembers_Put | assumption)+)
qed

lemma totalsLoop_baseEq:
  assumes "totalsLoop cbs proto brs at ot b = Ok (x, b')" "\<forall>cb \<in> set cbs. deltasOK (sd_Accts (rc_mods cb))"
  shows "baseEq b b'"
  using assms(1)
proof (induction brs arbitrary: at ot b)
  case Nil
  then show ?case by (simp add: act_simps)
next
  case (Cons br brs)
  from Cons.prems obtain d b1 at1 ot1 where l: "lookupIn cbs (br_Addr br) b = Ok (d, b1)" and r: "totalsLoop cbs proto brs at1 ot1 b1 = Ok (x, b')"
    by (auto simp: result_simps split: result.splits prod.splits)
  show ?case using lookupIn_Ok [OF assms(2) l] Cons.IH [OF r] baseEq_trans by blast
qed

lemma CalculateTotals_quiet:
  assumes "CalculateTotals s = Ok (u, t)" "okState s"
  shows "okState t \<and> quiet s t"
proof -
  let ?cb = "cow_top s"
  obtain at1 ot1 at ot b where
    l: "totalsLoop (cow_parents s) (rc_proto ?cb) (acd_accts (sd_Accts (rc_mods ?cb))) at1 ot1 (cow_base s) = Ok ((at, ot), b)"
    and t: "t = updMods (\<lambda>m. m\<lparr>sd_Totals := at\<rparr>) (s\<lparr>cow_base := b\<rparr>)"
    using assms(1) unfolding CalculateTotals_def Let_def by (auto simp: act_simps split: if_splits prod.splits)
  have "\<forall>cb \<in> set (cow_parents s). deltasOK (sd_Accts (rc_mods cb))"
    using assms(2) by (simp add: okState_def cowOK_def layers_def)
  then have e: "cowEq s (s\<lparr>cow_base := b\<rparr>)" using totalsLoop_baseEq [OF l] by (simp add: cowEq_def)
  note q = quiet_cowEq [OF assms(2) e]
  have "okState t \<and> quiet (s\<lparr>cow_base := b\<rparr>) t" unfolding t by (rule quiet_updMods) (simp_all add: q)
  then show ?thesis using q qt.trans by blast
qed

lemma deltasLoop_ids: "deltasLoop sds s = Ok (x, t) \<Longrightarrow> okState s \<Longrightarrow> ids s \<subseteq> ids t"
proof (induction sds arbitrary: s)
  case Nil
  then show ?case by (simp add: act_simps)
next
  case (Cons p sds)
  obtain a smap where p: "p = (a, smap)" by (cases p)
  have l: "does remembers (lookup b)" for b by (rule does_mono [OF does_lookup quiet_remembers])
  obtain d d' s1 s2 where s1: "lookup a s = Ok (d, s1)" and s2: "Put a d' s1 = Ok ((), s2)" and r: "deltasLoop sds s2 = Ok (x, t)"
    using Cons.prems(1) by (auto simp: p act_simps split: result.splits)
  have o1: "okState s1" "remembers s s1" using doesD [OF l Cons.prems(2) s1] by simp_all
  have "okState s2" "remembers s1 s2" using doesD [OF does_remembers_Put o1(1) s2] by simp_all
  then show ?case using Cons.IH [OF r] o1(2) by (auto simp: remembers_def)
qed

lemma Eval_appliedOnce:
  assumes "Eval env l blk True certs = Ok (delta, eval)" "vmUsesLedger (ev_vm env) rank"
    "mget (ev_Consensus env) (us_CurrentProtocol (bh_UpgradeState (bl_BlockHeader blk))) = Some proto" "cp_RewardUnit proto \<noteq> 0"
    "DecodePaysetGroups (ev_Consensus env) blk = Ok groups"
  obtains s where "appliedOnce env (concat groups) s (be_state eval)" "delta = rc_mods (cow_top (be_state eval))"
    "cb_l (cow_base s) = le_cow l" "cb_proto (cow_base s) = proto" "cb_rnd (cow_base s) = Block_Round blk - 1"
proof -
  let ?hdr = "bl_BlockHeader blk"
  obtain eval0 eval1 eval2 where
    st: "StartEvaluator env l ?hdr \<lparr>eo_Validate = True, eo_Generate = False, eo_MaxTxnBytesPerBlock = 0, eo_ProtoParams = None\<rparr> = Ok eval0"
    and gr: "evalGroups env (Block_Round blk - 1) [rs_FeeSink (bh_RewardsState ?hdr)] groups (eval0\<lparr>be_rewardAddresses := certs\<rparr>) = Ok eval1"
    and en: "endOfBlock env eval1 = Ok ((), eval2)" and de: "onState deltas eval2 = Ok (delta, eval)"
    by (rule Eval_Ok [OF assms(1)]) (use assms(5) in simp)
  obtain prev nc totals units where
    pay: "payRewards ?hdr prev (le_GenesisHash l) proto units (startState l ?hdr proto prev nc totals) = Ok ((), be_state eval0)"
    and e0: "be_l eval0 = l" "\<not> be_generate eval0" "be_validate eval0"
    by (rule StartEvaluator_Ok [OF st]) (use assms(3) in \<open>simp_all add: startState_def\<close>)
  let ?s = "startState l ?hdr proto prev nc totals"
  have ok: "okState ?s" using assms(4) by (simp add: okState_def startState_simps)
  note p = payRewards_Ok(1,2) [OF pay ok startState_simps(4)]
  let ?e0 = "eval0\<lparr>be_rewardAddresses := certs\<rparr>"
  have v: "baseView (cow_base (be_state ?e0)) = lf_LookupWithoutRewards (le_cow (be_l ?e0)) (Block_Round blk - 1)"
    using sameFrame_start(4) [OF p(2)] e0(1) by (simp add: Block_Round_def)
  have vm: "vmRespects remembers (ev_vm env) ep" for ep by (rule seen.vmUsesLedger_respects [OF assms(2)])
  have once: "appliedOnce env (concat groups) (be_state eval0) (be_state eval1)"
    using evalGroups_new [OF vm gr _ _ v] e0(3) p(1) by simp
  have e1: "okState (be_state eval1)" "\<not> be_generate eval1"
    using seen.evalGroups_step [OF vm gr _ v] p(1) evalGroups_fixed [OF gr] e0(2) by (simp_all add: fixedOf_def)
  obtain s s' t where q: "quiet (be_state eval1) s" "okState s"
    and r: "resetLoop (bh_ExpiredParticipationAccounts (be_header eval1)) s = Ok ((), s')"
    and c: "CalculateTotals s' = Ok ((), t)" and e2: "eval2 = eval1\<lparr>be_state := t\<rparr>"
    by (rule endOfBlock_Ok [OF en e1(2,1)])
  have d: "deltasLoop (rc_sdeltas (cow_top t)) t = Ok ((), be_state eval)" "delta = rc_mods (cow_top (be_state eval))"
    using de by (auto simp: onState_Ok_iff e2 deltas_def andDo_Ok_iff)
  have s': "okState s'" "remembers s s'" using doesD [OF does_remembers_resetLoop q(2) r] by simp_all
  note ct = CalculateTotals_quiet [OF c s'(1)]
  have "ids (be_state eval1) \<subseteq> ids (be_state eval)"
    using q(1) s'(2) ct deltasLoop_ids [OF d(1)] by (auto simp: quiet_def remembers_def)
  then have "appliedOnce env (concat groups) (be_state eval0) (be_state eval)" using once unfolding appliedOnce_def by blast
  moreover have "baseEq (cow_base ?s) (cow_base (be_state eval0))" using p(2) by (simp add: sameFrame_def)
  ultimately show thesis
    using that d(2) by (simp add: baseEq_def startState_def makeRoundCowState_def makeRoundCowBase_def Block_Round_def)
qed

text \<open>
  C4. No transaction is applied twice. If a validating evaluation of a block succeeds, then the
  identifiers of the transactions of its payset are pairwise different, the ledger accepts
  each of them as new at the round of the block, lease included, and the delta of the block
  records each, so that a later block is refused it. Programs may run inner transactions.
\<close>

theorem Eval_applies_once:
  assumes "Eval env l blk True certs = Ok (delta, eval)" "vmUsesLedger (ev_vm env) rank"
    "mget (ev_Consensus env) (us_CurrentProtocol (bh_UpgradeState (bl_BlockHeader blk))) = Some proto" "cp_RewardUnit proto \<noteq> 0"
    "DecodePaysetGroups (ev_Consensus env) blk = Ok groups" "txns = map (\<lambda>w. st_Txn (sw_SignedTxn w)) (concat groups)"
  shows "distinct (map (ev_ID env) txns) \<and> set (map (ev_ID env) txns) \<subseteq> set (map fst (sd_Txids delta)) \<and>
    list_all (\<lambda>tx. lf_CheckDup (le_cow l) proto (Block_Round blk) (h_FirstValid (tx_Header tx)) (h_LastValid (tx_Header tx))
      (ev_ID env tx) (leaseOf (tx_Header tx)) = Ok ()) txns"
proof -
  obtain s where o: "appliedOnce env (concat groups) s (be_state eval)" and d: "delta = rc_mods (cow_top (be_state eval))"
    and b: "cb_l (cow_base s) = le_cow l" "cb_proto (cow_base s) = proto" "cb_rnd (cow_base s) = Block_Round blk - 1"
    by (rule Eval_appliedOnce [OF assms(1-5)])
  have "ids (be_state eval) = fst ` set (sd_Txids delta)" unfolding ids_def idsOf_def mget_keys d ..
  then show ?thesis
    using o unfolding appliedOnce_def assms(6) ledgerAccepts_def [abs_def] Let_def b
    by (simp only: list.map_comp o_def set_map image_image list.pred_map diff_add_cancel HOL.simp_thms)
qed

theorem Eval_applies_once_witness:
  "\<exists>delta eval. Eval plainEnv plainLedger plainBlock True [] = Ok (delta, eval) \<and> 5 \<in> set (map fst (sd_Txids delta))"
proof -
  obtain delta eval where e: "Eval plainEnv plainLedger plainBlock True [] = Ok (delta, eval)"
    using plain_run by (auto simp: isOk_iff)
  have vm: "vmUsesLedger (ev_vm plainEnv) (\<lambda>_. 0)" using plainVM_usesLedger by (simp add: plainEnv_def)
  have p: "mget (ev_Consensus plainEnv) (us_CurrentProtocol (bh_UpgradeState (bl_BlockHeader plainBlock))) = Some plainParams"
    "cp_RewardUnit plainParams \<noteq> 0"
    by (simp_all add: plainEnv_def plainTable_def plainBlock_def plainHeader_def plainPrev_def plainParams_def)
  have g: "DecodePaysetGroups (ev_Consensus plainEnv) plainBlock = Ok [[SignedTxnWithAD plainPayment (ApplyData 0 0 5 3 0 zeroEvalDelta 0 0)]]"
    by code_simp
  from Eval_applies_once [OF e vm p g HOL.refl] have "plainID (st_Txn plainPayment) \<in> set (map fst (sd_Txids delta))"
    by (simp add: plainEnv_def)
  then show ?thesis using e by (simp add: plainID_def plainPayment_def zeroSignedTxn_def zeroTransaction_def zeroHeader_def)
qed

end
