(* ===== verification/Agreement_Types.thy ===== *)
theory Agreement_Types
  imports Bookkeeping_Block
begin

text \<open>
  The data of the agreement protocol (\<open>src/agreement\<close>): steps and their thresholds
  (\<open>types.go\<close>), proposal-values and proposals (\<open>proposal.go\<close>), votes (\<open>vote.go\<close>), bundles
  (\<open>bundle.go\<close>), messages (\<open>message.go\<close>), the events that the state machines exchange
  (\<open>events.go\<close>) and the actions they request (\<open>actions.go\<close>).

  \<^item> Keys, signatures and VRF proofs are words of their bytes; the zero word is the zero value.
  \<^item> The Go type \<open>eventType\<close> is split into one enumeration per event struct, holding the
    tags that the code puts into that struct; the interface type \<open>event\<close> is the datatype
    \<open>event\<close>. A type assertion on an event is a case distinction whose other branch panics.
  \<^item> An error carried by an event or an action is the constant part of its text
    (\<open>serializableError\<close>, where \<open>None\<close> is nil).
\<close>

text \<open>
  The state machines return no Go errors. Of the two errors of their models, \<open>OutOfFuel\<close> is an
  exhausted bound on the recursion of the player, and \<open>NoReturn\<close> is a call of
  \<open>lowestOutput\<close> that loops forever.
\<close>

datatype agreement_error = OutOfFuel | NoReturn

section \<open>Steps\<close>

type_synonym step = u64
type_synonym period = u64

definition propose :: step where "propose = 0"
definition soft :: step where "soft = 1"
definition cert :: step where "cert = 2"
definition next_step :: step where "next_step = 3"
definition late :: step where "late = 253"
definition redo :: step where "redo = 254"
definition down :: step where "down = 255"

lemmas step_defs = propose_def soft_def cert_def next_step_def late_def redo_def down_def

text \<open>Durations in nanoseconds (\<open>config.Protocol\<close>).\<close>

definition SmallLambda :: duration where "SmallLambda = 2000000000"
definition BigLambda :: duration where "BigLambda = 15000000000"

definition deadlineTimeout :: duration where "deadlineTimeout = BigLambda + SmallLambda"
definition partitionStep :: step where "partitionStep = next_step + 3"
definition recoveryExtraTimeout :: duration where "recoveryExtraTimeout = SmallLambda"

definition FilterTimeout :: "consensusTable \<Rightarrow> period \<Rightarrow> consensusVersion \<Rightarrow> duration" where
  "FilterTimeout tbl p v =
     (if p = 0 then cp_AgreementFilterTimeoutPeriod0 (consensusAt tbl v)
      else cp_AgreementFilterTimeout (consensusAt tbl v))"

text \<open>The loop of \<open>nextVoteRanges\<close> runs once for every step after \<open>next\<close>.\<close>

fun nextVoteLoop :: "nat \<Rightarrow> duration \<times> duration \<times> duration \<Rightarrow> duration \<times> duration \<times> duration" where
  "nextVoteLoop 0 st = st"
| "nextVoteLoop (Suc n) (extra, lower, upper) =
     (let extra = extra * 2; lower = upper; upper = lower + extra
      in nextVoteLoop n (extra, lower, upper))"

definition nextVoteRanges :: "step \<Rightarrow> duration \<times> duration" where
  "nextVoteRanges s =
     (let extra = recoveryExtraTimeout; lower = deadlineTimeout; upper = lower + extra;
          (extra, lower, upper) = nextVoteLoop (unat s - unat next_step) (extra, lower, upper)
      in (lower, upper))"

definition reachesQuorum :: "step \<Rightarrow> consensusParams \<Rightarrow> u64 \<Rightarrow> bool" where
  "reachesQuorum s proto weight =
     (if s = propose then False
      else if s = soft then weight \<ge> cp_SoftCommitteeThreshold proto
      else if s = cert then weight \<ge> cp_CertCommitteeThreshold proto
      else if s = late then weight \<ge> cp_LateCommitteeThreshold proto
      else if s = redo then weight \<ge> cp_RedoCommitteeThreshold proto
      else if s = down then weight \<ge> cp_DownCommitteeThreshold proto
      else weight \<ge> cp_NextCommitteeThreshold proto)"

definition threshold :: "step \<Rightarrow> consensusParams \<Rightarrow> u64" where
  "threshold s proto =
     (if s = propose then 0
      else if s = soft then cp_SoftCommitteeThreshold proto
      else if s = cert then cp_CertCommitteeThreshold proto
      else if s = late then cp_LateCommitteeThreshold proto
      else if s = redo then cp_RedoCommitteeThreshold proto
      else if s = down then cp_DownCommitteeThreshold proto
      else cp_NextCommitteeThreshold proto)"


lemma reachesQuorum_threshold: "reachesQuorum s proto w \<longleftrightarrow> s \<noteq> propose \<and> threshold s proto \<le> w"
  by (simp add: reachesQuorum_def threshold_def)

lemma reachesQuorum_mono: "reachesQuorum s proto w \<Longrightarrow> w \<le> w' \<Longrightarrow> reachesQuorum s proto w'"
  by (auto simp: reachesQuorum_threshold)

section \<open>Proposals, credentials, votes\<close>

type_synonym vrfProof = "640 word"
type_synonym vrfOutput = "512 word"
type_synonym signature = "512 word"

record proposalValue =
  pv_OriginalPeriod :: period
  pv_OriginalProposer :: address
  pv_BlockDigest :: digest
  pv_EncodingDigest :: digest

definition bottom :: proposalValue where
  "bottom = \<lparr>pv_OriginalPeriod = 0, pv_OriginalProposer = 0, pv_BlockDigest = 0, pv_EncodingDigest = 0\<rparr>"

record oneTimeSignature =
  ots_Sig :: signature
  ots_PK :: bytes32
  ots_PKSigOld :: signature
  ots_PK2 :: bytes32
  ots_PK1Sig :: signature
  ots_PK2Sig :: signature

record unauthenticatedCredential =
  uc_Proof :: vrfProof

record hashableCredential =
  hc_RawOut :: vrfOutput
  hc_Member :: address
  hc_Iter :: u64

record credential =
  cr_Weight :: u64
  cr_VrfOut :: digest
  cr_DomainSeparationEnabled :: bool
  cr_Hashable :: hashableCredential
  cr_Unauthenticated :: unauthenticatedCredential

record rawVote =
  rv_Sender :: address
  rv_Round :: round
  rv_Period :: period
  rv_Step :: step
  rv_Proposal :: proposalValue

record unauthenticatedVote =
  uvt_R :: rawVote
  uvt_Cred :: unauthenticatedCredential
  uvt_Sig :: oneTimeSignature

record vote =
  vt_R :: rawVote
  vt_Cred :: credential
  vt_Sig :: oneTimeSignature

record unauthenticatedEquivocationVote =
  uev_Sender :: address
  uev_Round :: round
  uev_Period :: period
  uev_Step :: step
  uev_Cred :: unauthenticatedCredential
  uev_Proposals :: "proposalValue \<times> proposalValue"
  uev_Sigs :: "oneTimeSignature \<times> oneTimeSignature"

record equivocationVote =
  ev_Sender :: address
  ev_Round :: round
  ev_Period :: period
  ev_Step :: step
  ev_Cred :: credential
  ev_Proposals :: "proposalValue \<times> proposalValue"
  ev_Sigs :: "oneTimeSignature \<times> oneTimeSignature"

definition vote_u :: "vote \<Rightarrow> unauthenticatedVote" where
  "vote_u v = \<lparr>uvt_R = vt_R v, uvt_Cred = cr_Unauthenticated (vt_Cred v), uvt_Sig = vt_Sig v\<rparr>"

definition v0 :: "equivocationVote \<Rightarrow> vote" where
  "v0 pair = \<lparr>vt_R = \<lparr>rv_Sender = ev_Sender pair, rv_Round = ev_Round pair, rv_Period = ev_Period pair,
     rv_Step = ev_Step pair, rv_Proposal = fst (ev_Proposals pair)\<rparr>, vt_Cred = ev_Cred pair,
     vt_Sig = fst (ev_Sigs pair)\<rparr>"

definition v1 :: "equivocationVote \<Rightarrow> vote" where
  "v1 pair = \<lparr>vt_R = \<lparr>rv_Sender = ev_Sender pair, rv_Round = ev_Round pair, rv_Period = ev_Period pair,
     rv_Step = ev_Step pair, rv_Proposal = snd (ev_Proposals pair)\<rparr>, vt_Cred = ev_Cred pair,
     vt_Sig = snd (ev_Sigs pair)\<rparr>"

record unauthenticatedProposal =
  up_Block :: block
  up_SeedProof :: vrfProof
  up_OriginalPeriod :: period
  up_OriginalProposer :: address

text \<open>A validated proposal; the second field is the validator's handle on the block.\<close>

record proposal =
  pp_Unauthenticated :: unauthenticatedProposal
  pp_ve :: "block option"

section \<open>Bundles\<close>

record voteAuthenticator =
  va_Sender :: address
  va_Cred :: unauthenticatedCredential
  va_Sig :: oneTimeSignature

record equivocationVoteAuthenticator =
  eva_Sender :: address
  eva_Cred :: unauthenticatedCredential
  eva_Sigs :: "oneTimeSignature \<times> oneTimeSignature"
  eva_Proposals :: "proposalValue \<times> proposalValue"

record unauthenticatedBundle =
  ub_Round :: round
  ub_Period :: period
  ub_Step :: step
  ub_Proposal :: proposalValue
  ub_Votes :: "voteAuthenticator list"
  ub_EquivocationVotes :: "equivocationVoteAuthenticator list"

type_synonym certificate = unauthenticatedBundle

record verifiedBundle =
  bd_U :: unauthenticatedBundle
  bd_Votes :: "vote list"
  bd_EquivocationVotes :: "equivocationVote list"

text \<open>The two conversions of \<open>bundle.go\<close> from a bundle to a certificate.\<close>

definition bundle_Certificate :: "unauthenticatedBundle \<Rightarrow> ('e, certificate) result" where
  "bundle_Certificate b =
     (if ub_Step b \<noteq> cert then Panic (LogPanic ''bundle.Certificate: expected step=cert'')
      else if ub_Proposal b = bottom then Panic (LogPanic ''bundle.Certificate: bottom-bundle'')
      else Ok b)"

section \<open>Messages\<close>

type_synonym messageHandle = "nat option"
type_synonym serializableError = "string option"

datatype tag = NoTag | AgreementVoteTag | VoteBundleTag | ProposalPayloadTag

record compoundMessage =
  cm_Vote :: unauthenticatedVote
  cm_Proposal :: unauthenticatedProposal

record message =
  m_MessageHandle :: messageHandle
  m_Tag :: tag
  m_Vote :: vote
  m_Proposal :: proposal
  m_Bundle :: verifiedBundle
  m_UnauthenticatedVote :: unauthenticatedVote
  m_UnauthenticatedProposal :: unauthenticatedProposal
  m_UnauthenticatedBundle :: unauthenticatedBundle
  m_CompoundMessage :: compoundMessage

section \<open>Events\<close>

record consensusVersionView =
  cvv_Err :: serializableError
  cvv_Version :: consensusVersion

datatype messageType = votePresent | payloadPresent | bundlePresent | voteVerified | payloadVerified | bundleVerified

datatype messageEvent = MessageEvent (me_T: messageType) (me_Input: message) (me_Err: serializableError)
  (me_TaskIndex: int) (me_Tail: "messageEvent option") (me_Cancelled: bool) (me_Proto: consensusVersionView)

record freshnessData =
  fd_PlayerRound :: round
  fd_PlayerPeriod :: period
  fd_PlayerStep :: step
  fd_PlayerLastConcluding :: step

record timeoutEvent =
  to_Fast :: bool
  to_RandomEntropy :: u64
  to_Round :: round
  to_Proto :: consensusVersionView

record proposalAcceptedEvent =
  pa_Round :: round
  pa_Period :: period
  pa_Proposal :: proposalValue
  pa_Payload :: proposal
  pa_PayloadOk :: bool

datatype payloadType = payloadRejected | payloadPipelined | payloadAccepted

record payloadProcessedEvent =
  ppe_T :: payloadType
  ppe_Round :: round
  ppe_Period :: period
  ppe_Pinned :: bool
  ppe_Proposal :: proposalValue
  ppe_UnauthenticatedPayload :: unauthenticatedProposal
  ppe_Vote :: vote
  ppe_Err :: serializableError

datatype filteredType = voteFiltered | voteMalformed | bundleFiltered | bundleMalformed | payloadMalformed

record stagingValueEvent =
  sv_Round :: round
  sv_Period :: period
  sv_Proposal :: proposalValue
  sv_Payload :: proposal
  sv_Committable :: bool

record pinnedValueEvent =
  pin_Round :: round
  pin_Proposal :: proposalValue
  pin_Payload :: proposal
  pin_PayloadOK :: bool

datatype thresholdType = noThreshold | softThreshold | certThreshold | nextThreshold

record thresholdEvent =
  th_T :: thresholdType
  th_Round :: round
  th_Period :: period
  th_Step :: step
  th_Proposal :: proposalValue
  th_Bundle :: unauthenticatedBundle
  th_Proto :: consensusVersion

record nextThresholdStatusEvent =
  nts_Bottom :: bool
  nts_Proposal :: proposalValue

record checkpointEvent =
  ck_Round :: round
  ck_Period :: period
  ck_Step :: step
  ck_Err :: serializableError

datatype event =
    EmptyEvent
  | MessageEv messageEvent
  | FilterableMessageEv messageEvent freshnessData
  | RoundInterruptionEv round consensusVersionView
  | TimeoutEv timeoutEvent
  | NewRoundEv
  | NewPeriodEv period proposalValue
  | VoteAcceptedEv vote consensusVersion
  | ProposalAcceptedEv proposalAcceptedEvent
  | ProposalFrozenEv proposalValue
  | CommittableEv proposalValue vote
  | PayloadProcessedEv payloadProcessedEvent
  | FilteredEv filteredType serializableError
  | StagingValueEv stagingValueEvent
  | PinnedValueEv pinnedValueEvent
  | ThresholdEv thresholdEvent
  | VoteFilterRequestEv rawVote
  | FilteredStepEv
  | NextThresholdStatusRequestEv
  | NextThresholdStatusEv nextThresholdStatusEvent
  | FreshestBundleRequestEv
  | FreshestBundleEv bool thresholdEvent
  | DumpVotesRequestEv
  | DumpVotesEv "unauthenticatedVote list"
  | CheckpointEv checkpointEvent

text \<open>The test \<open>e.t() == none\<close>.\<close>

definition isNone :: "event \<Rightarrow> bool" where
  "isNone e = (case e of EmptyEvent \<Rightarrow> True | ThresholdEv th \<Rightarrow> th_T th = noThreshold | _ \<Rightarrow> False)"

definition ConsensusRound :: "messageEvent \<Rightarrow> round" where
  "ConsensusRound e =
     (case me_T e of
        votePresent \<Rightarrow> rv_Round (uvt_R (m_UnauthenticatedVote (me_Input e)))
      | voteVerified \<Rightarrow> rv_Round (uvt_R (m_UnauthenticatedVote (me_Input e)))
      | payloadPresent \<Rightarrow> Block_Round (up_Block (m_UnauthenticatedProposal (me_Input e)))
      | payloadVerified \<Rightarrow> Block_Round (up_Block (m_UnauthenticatedProposal (me_Input e)))
      | bundlePresent \<Rightarrow> ub_Round (m_UnauthenticatedBundle (me_Input e))
      | bundleVerified \<Rightarrow> ub_Round (m_UnauthenticatedBundle (me_Input e)))"

section \<open>Zero values\<close>

definition zeroSig :: oneTimeSignature where
  "zeroSig = \<lparr>ots_Sig = 0, ots_PK = 0, ots_PKSigOld = 0, ots_PK2 = 0, ots_PK1Sig = 0, ots_PK2Sig = 0\<rparr>"

definition zeroCredential :: credential where
  "zeroCredential = \<lparr>cr_Weight = 0, cr_VrfOut = 0, cr_DomainSeparationEnabled = False,
     cr_Hashable = \<lparr>hc_RawOut = 0, hc_Member = 0, hc_Iter = 0\<rparr>, cr_Unauthenticated = \<lparr>uc_Proof = 0\<rparr>\<rparr>"

definition zeroRawVote :: rawVote where
  "zeroRawVote = \<lparr>rv_Sender = 0, rv_Round = 0, rv_Period = 0, rv_Step = 0, rv_Proposal = bottom\<rparr>"

definition zeroVote :: vote where
  "zeroVote = \<lparr>vt_R = zeroRawVote, vt_Cred = zeroCredential, vt_Sig = zeroSig\<rparr>"

definition zeroUnauthenticatedVote :: unauthenticatedVote where
  "zeroUnauthenticatedVote = vote_u zeroVote"

definition zeroBundle :: unauthenticatedBundle where
  "zeroBundle = \<lparr>ub_Round = 0, ub_Period = 0, ub_Step = 0, ub_Proposal = bottom, ub_Votes = [],
     ub_EquivocationVotes = []\<rparr>"

definition zeroUpgradeState :: upgradeState where
  "zeroUpgradeState = \<lparr>us_CurrentProtocol = [], us_NextProtocol = [], us_NextProtocolApprovals = 0,
     us_NextProtocolVoteBefore = 0, us_NextProtocolSwitchOn = 0\<rparr>"

definition zeroBlock :: block where
  "zeroBlock = \<lparr>bl_BlockHeader = \<lparr>bh_Round = 0, bh_Branch = 0, bh_Seed = 0, bh_TxnRoot = 0, bh_TimeStamp = 0,
     bh_GenesisID = [], bh_GenesisHash = 0, bh_RewardsState = zeroRewardsState,
     bh_UpgradeState = zeroUpgradeState, bh_UpgradeVote = zeroUpgradeVote, bh_TxnCounter = 0,
     bh_CompactCert = [], bh_ExpiredParticipationAccounts = []\<rparr>, bl_Payset = []\<rparr>"

definition zeroUnauthenticatedProposal :: unauthenticatedProposal where
  "zeroUnauthenticatedProposal = \<lparr>up_Block = zeroBlock, up_SeedProof = 0, up_OriginalPeriod = 0,
     up_OriginalProposer = 0\<rparr>"

definition zeroProposal :: proposal where
  "zeroProposal = \<lparr>pp_Unauthenticated = zeroUnauthenticatedProposal, pp_ve = None\<rparr>"

definition zeroCompoundMessage :: compoundMessage where
  "zeroCompoundMessage = \<lparr>cm_Vote = zeroUnauthenticatedVote, cm_Proposal = zeroUnauthenticatedProposal\<rparr>"

definition zeroMessage :: message where
  "zeroMessage = \<lparr>m_MessageHandle = None, m_Tag = NoTag, m_Vote = zeroVote, m_Proposal = zeroProposal,
     m_Bundle = \<lparr>bd_U = zeroBundle, bd_Votes = [], bd_EquivocationVotes = []\<rparr>,
     m_UnauthenticatedVote = zeroUnauthenticatedVote,
     m_UnauthenticatedProposal = zeroUnauthenticatedProposal,
     m_UnauthenticatedBundle = zeroBundle, m_CompoundMessage = zeroCompoundMessage\<rparr>"

definition zeroVersionView :: consensusVersionView where
  "zeroVersionView = \<lparr>cvv_Err = None, cvv_Version = []\<rparr>"

definition zeroThreshold :: thresholdEvent where
  "zeroThreshold = \<lparr>th_T = noThreshold, th_Round = 0, th_Period = 0, th_Step = 0, th_Proposal = bottom,
     th_Bundle = zeroBundle, th_Proto = []\<rparr>"

definition zeroPayloadProcessed :: payloadProcessedEvent where
  "zeroPayloadProcessed = \<lparr>ppe_T = payloadRejected, ppe_Round = 0, ppe_Period = 0, ppe_Pinned = False,
     ppe_Proposal = bottom, ppe_UnauthenticatedPayload = zeroUnauthenticatedProposal,
     ppe_Vote = zeroVote, ppe_Err = None\<rparr>"

section \<open>Actions\<close>

datatype networkActionType = ignore | broadcast | relay | disconnect | broadcastVotes

record networkAction =
  na_T :: networkActionType
  na_Tag :: tag
  na_h :: messageHandle
  na_UnauthenticatedVote :: unauthenticatedVote
  na_UnauthenticatedBundle :: unauthenticatedBundle
  na_CompoundMessage :: compoundMessage
  na_UnauthenticatedVotes :: "unauthenticatedVote list"
  na_Err :: serializableError

datatype cryptoActionType = verifyVote | verifyPayload | verifyBundle

record cryptoAction =
  ca_T :: cryptoActionType
  ca_M :: message
  ca_Round :: round
  ca_Period :: period
  ca_Step :: step
  ca_Pinned :: bool
  ca_TaskIndex :: int

datatype pseudonodeActionType = attest | assemble | repropose

record pseudonodeAction =
  psn_T :: pseudonodeActionType
  psn_Round :: round
  psn_Period :: period
  psn_Step :: step
  psn_Proposal :: proposalValue

datatype action =
    NoopAction
  | NetworkAction networkAction
  | CryptoAction cryptoAction
  | EnsureAction proposal certificate
  | StageDigestAction certificate
  | RezeroAction round
  | PseudonodeAction pseudonodeAction
  | CheckpointAction checkpointEvent

definition persistent :: "action \<Rightarrow> bool" where
  "persistent a = (case a of PseudonodeAction p \<Rightarrow> psn_T p = attest | _ \<Rightarrow> False)"

definition zeroNetworkAction :: "networkActionType \<Rightarrow> networkAction" where
  "zeroNetworkAction t = \<lparr>na_T = t, na_Tag = NoTag, na_h = None,
     na_UnauthenticatedVote = zeroUnauthenticatedVote, na_UnauthenticatedBundle = zeroBundle,
     na_CompoundMessage = zeroCompoundMessage, na_UnauthenticatedVotes = [], na_Err = None\<rparr>"

definition ignoreAction :: "messageEvent \<Rightarrow> serializableError \<Rightarrow> action" where
  "ignoreAction e err = NetworkAction ((zeroNetworkAction ignore)
     \<lparr>na_Err := err, na_h := m_MessageHandle (me_Input e)\<rparr>)"

definition disconnectAction :: "messageEvent \<Rightarrow> serializableError \<Rightarrow> action" where
  "disconnectAction e err = NetworkAction ((zeroNetworkAction disconnect)
     \<lparr>na_Err := err, na_h := m_MessageHandle (me_Input e)\<rparr>)"

text \<open>
  The payload \<open>o interface{}\<close> of \<open>broadcastAction\<close> and \<open>relayAction\<close>, one constructor
  for each tag.
\<close>

datatype outgoing = OutVote unauthenticatedVote | OutBundle unauthenticatedBundle | OutPayload compoundMessage

definition loadPayload :: "outgoing \<Rightarrow> networkAction \<Rightarrow> networkAction" where
  "loadPayload out a =
     (case out of
        OutVote v \<Rightarrow> a\<lparr>na_Tag := AgreementVoteTag, na_UnauthenticatedVote := v\<rparr>
      | OutBundle b \<Rightarrow> a\<lparr>na_Tag := VoteBundleTag, na_UnauthenticatedBundle := b\<rparr>
      | OutPayload c \<Rightarrow> a\<lparr>na_Tag := ProposalPayloadTag, na_CompoundMessage := c\<rparr>)"

definition broadcastAction :: "outgoing \<Rightarrow> action" where
  "broadcastAction out = NetworkAction (loadPayload out (zeroNetworkAction broadcast))"

definition relayAction :: "messageEvent \<Rightarrow> outgoing \<Rightarrow> action" where
  "relayAction e out = NetworkAction (loadPayload out
     ((zeroNetworkAction relay)\<lparr>na_h := m_MessageHandle (me_Input e)\<rparr>))"

definition zeroCryptoAction :: "cryptoActionType \<Rightarrow> message \<Rightarrow> cryptoAction" where
  "zeroCryptoAction t m = \<lparr>ca_T = t, ca_M = m, ca_Round = 0, ca_Period = 0, ca_Step = 0,
     ca_Pinned = False, ca_TaskIndex = 0\<rparr>"

definition verifyVoteAction :: "messageEvent \<Rightarrow> round \<Rightarrow> period \<Rightarrow> int \<Rightarrow> action" where
  "verifyVoteAction e r p taskIndex = CryptoAction ((zeroCryptoAction verifyVote (me_Input e))
     \<lparr>ca_Round := r, ca_Period := p, ca_TaskIndex := taskIndex\<rparr>)"

definition verifyPayloadAction :: "messageEvent \<Rightarrow> round \<Rightarrow> period \<Rightarrow> bool \<Rightarrow> action" where
  "verifyPayloadAction e r p pinned = CryptoAction ((zeroCryptoAction verifyPayload (me_Input e))
     \<lparr>ca_Round := r, ca_Period := p, ca_Pinned := pinned\<rparr>)"

definition verifyBundleAction :: "messageEvent \<Rightarrow> round \<Rightarrow> period \<Rightarrow> step \<Rightarrow> action" where
  "verifyBundleAction e r p s = CryptoAction ((zeroCryptoAction verifyBundle (me_Input e))
     \<lparr>ca_Round := r, ca_Period := p, ca_Step := s\<rparr>)"

section \<open>Recovery timeouts\<close>

lemma nextVoteLoop_closed:
  "nextVoteLoop n (e, l, l + e) = (e * 2 ^ n, l + e * (2 ^ n - 1), l + e * (2 ^ n - 1) + e * 2 ^ n)"
proof (induction n arbitrary: e l)
  case 0
  then show ?case by simp
next
  case (Suc n)
  have "nextVoteLoop (Suc n) (e, l, l + e) = nextVoteLoop n (e * 2, l + e, (l + e) + e * 2)"
    by (simp add: Let_def)
  then show ?case unfolding Suc.IH by (simp add: algebra_simps)
qed

text \<open>Up to step 34 the interval of a step has the doubling length and no deadline overflows \<open>int64\<close>.\<close>

lemma nextVoteRanges_exact:
  assumes "unat s = 3 + k" "k \<le> 31"
  shows "unat (fst (nextVoteRanges s)) = 15000000000 + 2000000000 * 2 ^ k"
    and "unat (snd (nextVoteRanges s)) = 15000000000 + 2000000000 * 2 ^ (k + 1)"
    and "unat (snd (nextVoteRanges s)) < 2 ^ 63"
proof -
  have r: "nextVoteRanges s = (17000000000 + 2000000000 * (2 ^ k - 1),
      17000000000 + 2000000000 * (2 ^ k - 1) + 2000000000 * 2 ^ k)"
    using nextVoteLoop_closed [of k 2000000000 17000000000] assms(1)
    by (simp add: nextVoteRanges_def Let_def recoveryExtraTimeout_def deadlineTimeout_def BigLambda_def
        SmallLambda_def step_defs)
  have "(2 :: nat) ^ k \<le> 2 ^ 31" using assms(2) by (intro power_increasing) simp_all
  then have b: "2000000000 * 2 ^ k \<le> 2000000000 * (2 :: nat) ^ 31" by simp
  have l: "fst (nextVoteRanges s) = of_nat (15000000000 + 2000000000 * 2 ^ k)"
    unfolding r by (simp add: algebra_simps)
  have u: "snd (nextVoteRanges s) = of_nat (15000000000 + 2000000000 * 2 ^ (k + 1))"
    unfolding r by (simp add: algebra_simps)
  show "unat (fst (nextVoteRanges s)) = 15000000000 + 2000000000 * 2 ^ k"
    unfolding l using b by (subst unat_of_nat) simp
  show su: "unat (snd (nextVoteRanges s)) = 15000000000 + 2000000000 * 2 ^ (k + 1)"
    unfolding u using b by (subst unat_of_nat) simp
  show "unat (snd (nextVoteRanges s)) < 2 ^ 63"
    unfolding su using b by simp
qed

section \<open>Properties\<close>










text \<open>
  C17. The recovery timeouts double: for the first 32 recovery steps the interval in which a
  node votes has the length of the previous one doubled, starts where that one ends, and
  its end is still a positive \<open>int64\<close> duration. In step 14, the example of the source, the
  interval is \<open>2 ^ 11\<close> times the first one, not \<open>2 ^ 8\<close> times as its comment says.
\<close>

theorem nextVoteRanges_double:
  assumes "unat s = 3 + k" "k \<le> 31"
  shows "unat (fst (nextVoteRanges s)) = 15000000000 + 2000000000 * 2 ^ k \<and>
    unat (snd (nextVoteRanges s)) = 15000000000 + 2000000000 * 2 ^ (k + 1) \<and>
    unat (snd (nextVoteRanges s)) < 2 ^ 63"
  using nextVoteRanges_exact [OF assms] by simp

theorem nextVoteRanges_double_witness: "unat (snd (nextVoteRanges 5)) = 31000000000"
  using nextVoteRanges_double [of 5 2] by simp

end
