(* ===== verification/Vote_Tracker.thy ===== *)
theory Vote_Tracker
  imports Agreement_Types
begin

text \<open>
  The vote machine of one step (\<open>src/agreement/voteTracker.go\<close>) and the construction of
  bundles (\<open>makeBundle\<close> of \<open>src/agreement/bundle.go\<close>).

  A tracker counts the weight behind every proposal-value and the weight of the senders seen
  to equivocate, whose votes count for every value. It emits one threshold event when a value
  reaches the quorum of the step, with a bundle of votes that proves it. The code iterates
  over maps; the model iterates over the association lists, in the order they have.

  The lemmas give the invariant of a tracker (its counters are the weights of disjoint sets
  of senders), its preservation by every vote, and that the bundle built when a value reaches
  the quorum is a quorum itself: distinct senders, no more of them than the threshold, and
  enough weight.
\<close>

section \<open>Sorting and cutting\<close>

text \<open>\<open>sort.SliceStable\<close> for a comparison function.\<close>

fun insertBy :: "('a \<Rightarrow> 'a \<Rightarrow> bool) \<Rightarrow> 'a \<Rightarrow> 'a list \<Rightarrow> 'a list" where
  "insertBy lt x [] = [x]"
| "insertBy lt x (y # ys) = (if lt y x then y # insertBy lt x ys else x # y # ys)"

definition sliceStable :: "('a \<Rightarrow> 'a \<Rightarrow> bool) \<Rightarrow> 'a list \<Rightarrow> 'a list" where
  "sliceStable lt xs = foldr (insertBy lt) xs []"

text \<open>
  The loop that adds weights until the quorum is reached or the slice ends; it returns the
  elements passed and the weight.
\<close>

fun takeUntil :: "(u64 \<Rightarrow> bool) \<Rightarrow> ('a \<Rightarrow> u64) \<Rightarrow> 'a list \<Rightarrow> u64 \<Rightarrow> 'a list \<times> u64" where
  "takeUntil quorum wt [] weight = ([], weight)"
| "takeUntil quorum wt (x # xs) weight =
     (if quorum weight then ([], weight)
      else let (ys, weight') = takeUntil quorum wt xs (weight + wt x) in (x # ys, weight'))"

section \<open>Bundles\<close>

definition voteAuth :: "vote \<Rightarrow> voteAuthenticator" where
  "voteAuth v = \<lparr>va_Sender = rv_Sender (uvt_R (vote_u v)), va_Cred = uvt_Cred (vote_u v), va_Sig = vt_Sig v\<rparr>"

definition equivocationAuth :: "equivocationVote \<Rightarrow> equivocationVoteAuthenticator" where
  "equivocationAuth ev = \<lparr>eva_Sender = ev_Sender ev, eva_Cred = cr_Unauthenticated (ev_Cred ev),
     eva_Sigs = ev_Sigs ev, eva_Proposals = ev_Proposals ev\<rparr>"

abbreviation voteWeight :: "vote \<Rightarrow> u64" where
  "voteWeight v \<equiv> cr_Weight (vt_Cred v)"

abbreviation pairWeight :: "equivocationVote \<Rightarrow> u64" where
  "pairWeight ev \<equiv> cr_Weight (ev_Cred ev)"

abbreviation voteProposal :: "vote \<Rightarrow> proposalValue" where
  "voteProposal v \<equiv> rv_Proposal (vt_R v)"

abbreviation voteSender :: "vote \<Rightarrow> address" where
  "voteSender v \<equiv> rv_Sender (vt_R v)"

definition makeBundle ::
    "consensusParams \<Rightarrow> proposalValue \<Rightarrow> vote list \<Rightarrow> equivocationVote list \<Rightarrow> (agreement_error, unauthenticatedBundle) result" where
  "makeBundle proto targetProposal votes equivocationVotes =
     (case votes of
        [] \<Rightarrow> Panic (LogPanic ''makeBundle: no votes present in bundle'')
      | v # _ \<Rightarrow>
          let stp = rv_Step (vt_R v) in
          if list_ex (\<lambda>v. voteProposal v \<noteq> targetProposal) votes
          then Panic (LogPanic ''makeBundle: invalid vote passed into function'')
          else
            let (packed, packedSoFar) = takeUntil (reachesQuorum stp proto) voteWeight votes 0;
                (packedPairs, packedSoFar) =
                  takeUntil (reachesQuorum stp proto) pairWeight equivocationVotes packedSoFar
            in if \<not> reachesQuorum stp proto packedSoFar
               then Panic (LogPanic ''not enough votes to generate bundle'')
               else Ok \<lparr>ub_Round = rv_Round (vt_R v), ub_Period = rv_Period (vt_R v),
                        ub_Step = rv_Step (vt_R v), ub_Proposal = targetProposal,
                        ub_Votes = map voteAuth packed,
                        ub_EquivocationVotes = map equivocationAuth packedPairs\<rparr>)"

section \<open>The tracker\<close>

record proposalVoteCounter =
  pvc_Count :: u64
  pvc_Votes :: "(address, vote) gomap"

record voteTracker =
  vtr_Voters :: "(address, vote) gomap"
  vtr_Counts :: "(proposalValue, proposalVoteCounter) gomap"
  vtr_Equivocators :: "(address, equivocationVote) gomap"
  vtr_EquivocatorsCount :: u64

definition zeroCounter :: proposalVoteCounter where
  "zeroCounter = \<lparr>pvc_Count = 0, pvc_Votes = []\<rparr>"

definition zeroTracker :: voteTracker where
  "zeroTracker = \<lparr>vtr_Voters = [], vtr_Counts = [], vtr_Equivocators = [], vtr_EquivocatorsCount = 0\<rparr>"

definition tracker_count :: "voteTracker \<Rightarrow> proposalValue \<Rightarrow> u64" where
  "tracker_count tracker proposal =
     pvc_Count (mgetd zeroCounter (vtr_Counts tracker) proposal) + vtr_EquivocatorsCount tracker"

fun overLoop ::
    "consensusParams \<Rightarrow> step \<Rightarrow> voteTracker \<Rightarrow> proposalValue list \<Rightarrow> proposalValue \<Rightarrow> bool
     \<Rightarrow> (agreement_error, proposalValue \<times> bool) result" where
  "overLoop proto stp tracker [] res ok = Ok (res, ok)"
| "overLoop proto stp tracker (proposal # ps) res ok =
     (if reachesQuorum stp proto (tracker_count tracker proposal)
      then if ok then Panic (LogPanic ''voteTracker: more than value reached a threhsold in a given step'')
           else overLoop proto stp tracker ps proposal True
      else overLoop proto stp tracker ps res ok)"

definition overThreshold ::
    "consensusParams \<Rightarrow> step \<Rightarrow> voteTracker \<Rightarrow> (agreement_error, proposalValue \<times> bool) result" where
  "overThreshold proto stp tracker = overLoop proto stp tracker (map fst (vtr_Counts tracker)) bottom False"

definition votesBefore :: "vote \<Rightarrow> vote \<Rightarrow> bool" where
  "votesBefore a b = (voteWeight a > voteWeight b \<or> voteWeight a = voteWeight b \<and> voteSender a > voteSender b)"

definition pairsBefore :: "equivocationVote \<Rightarrow> equivocationVote \<Rightarrow> bool" where
  "pairsBefore a b = (pairWeight a > pairWeight b \<or> pairWeight a = pairWeight b \<and> ev_Sender a > ev_Sender b)"

definition genBundle ::
    "consensusParams \<Rightarrow> voteTracker \<Rightarrow> proposalVoteCounter \<Rightarrow> (agreement_error, unauthenticatedBundle) result" where
  "genBundle proto tracker proposalVotes =
     (case sliceStable votesBefore (map snd (pvc_Votes proposalVotes)) of
        [] \<Rightarrow> Panic IndexOutOfRange
      | first # rest \<Rightarrow>
          let (votes, weight) = takeUntil (reachesQuorum (rv_Step (vt_R first)) proto) voteWeight (first # rest) 0 in
          case votes of
            [] \<Rightarrow> Panic IndexOutOfRange
          | v # _ \<Rightarrow>
              let equiPairs = sliceStable pairsBefore (map snd (vtr_Equivocators tracker));
                  (equiPairs, weight) = takeUntil (reachesQuorum (rv_Step (vt_R v)) proto) pairWeight equiPairs weight
              in makeBundle proto (voteProposal v) votes equiPairs)"

text \<open>A first vote of a sender.\<close>

definition addVote :: "vote \<Rightarrow> voteTracker \<Rightarrow> voteTracker" where
  "addVote v tracker =
     (let proposalVote = mgetd zeroCounter (vtr_Counts tracker) (voteProposal v);
          proposalVote = \<lparr>pvc_Count = pvc_Count proposalVote + voteWeight v,
                          pvc_Votes = mput (voteSender v) v (pvc_Votes proposalVote)\<rparr>
      in tracker\<lparr>vtr_Voters := mput (voteSender v) v (vtr_Voters tracker),
                 vtr_Counts := mput (voteProposal v) proposalVote (vtr_Counts tracker)\<rparr>)"

text \<open>A second vote of a sender for a different value; \<open>oldVote\<close> is the first one.\<close>

definition addEquivocation :: "vote \<Rightarrow> vote \<Rightarrow> voteTracker \<Rightarrow> voteTracker" where
  "addEquivocation oldVote v tracker =
     (let old = mgetd zeroCounter (vtr_Counts tracker) (voteProposal oldVote);
          counts = (if pvc_Count old \<le> voteWeight oldVote
                    then mdel (voteProposal oldVote) (vtr_Counts tracker)
                    else mput (voteProposal oldVote)
                           \<lparr>pvc_Count = pvc_Count old - voteWeight oldVote,
                            pvc_Votes = mdel (voteSender v) (pvc_Votes old)\<rparr> (vtr_Counts tracker));
          pair = \<lparr>ev_Sender = voteSender oldVote, ev_Round = rv_Round (vt_R oldVote),
                  ev_Period = rv_Period (vt_R oldVote), ev_Step = rv_Step (vt_R oldVote),
                  ev_Cred = vt_Cred oldVote, ev_Proposals = (voteProposal oldVote, voteProposal v),
                  ev_Sigs = (vt_Sig oldVote, vt_Sig v)\<rparr>
      in tracker\<lparr>vtr_Counts := counts,
                 vtr_Equivocators := mput (voteSender v) pair (vtr_Equivocators tracker),
                 vtr_Voters := mdel (voteSender v) (vtr_Voters tracker)\<rparr>)"

definition thresholdTypeOf :: "step \<Rightarrow> thresholdType" where
  "thresholdTypeOf stp = (if stp = soft then softThreshold else if stp = cert then certThreshold else nextThreshold)"

text \<open>What follows the update: emit an event if the quorum was reached by this vote.\<close>

definition emitThreshold ::
    "consensusParams \<Rightarrow> consensusVersion \<Rightarrow> vote \<Rightarrow> bool \<Rightarrow> voteTracker \<Rightarrow> (agreement_error, voteTracker \<times> thresholdEvent) result" where
  "emitThreshold proto ver v overBefore tracker =
     andThen (overThreshold proto (rv_Step (vt_R v)) tracker) (\<lambda>(prop, overAfter).
     if overBefore \<or> \<not> overAfter then Ok (tracker, zeroThreshold)
     else andThen (genBundle proto tracker (mgetd zeroCounter (vtr_Counts tracker) prop)) (\<lambda>b.
       Ok (tracker, \<lparr>th_T = thresholdTypeOf (rv_Step (vt_R v)), th_Round = rv_Round (vt_R v),
                     th_Period = rv_Period (vt_R v), th_Step = rv_Step (vt_R v), th_Proposal = prop,
                     th_Bundle = b, th_Proto = ver\<rparr>)))"

definition acceptVote ::
    "consensusTable \<Rightarrow> voteTracker \<Rightarrow> vote \<Rightarrow> consensusVersion \<Rightarrow> (agreement_error, voteTracker \<times> thresholdEvent) result" where
  "acceptVote tbl tracker v ver =
     (let proto = consensusAt tbl ver; sender = voteSender v; stp = rv_Step (vt_R v) in
      if mget (vtr_Equivocators tracker) sender \<noteq> None then Ok (tracker, zeroThreshold)
      else andThen (overThreshold proto stp tracker) (\<lambda>(_, overBefore).
        case mget (vtr_Voters tracker) sender of
          None \<Rightarrow> emitThreshold proto ver v overBefore (addVote v tracker)
        | Some oldVote \<Rightarrow>
            if voteProposal oldVote = voteProposal v then Ok (tracker, zeroThreshold)
            else
              let tracker = tracker\<lparr>vtr_EquivocatorsCount := vtr_EquivocatorsCount tracker + voteWeight v\<rparr> in
              if reachesQuorum stp proto (vtr_EquivocatorsCount tracker)
              then Panic (LogPanic ''too many equivocators for step'')
              else
                let tracker = addEquivocation oldVote v tracker in
                if vtr_Voters tracker = [] then Ok (tracker, zeroThreshold)
                else emitThreshold proto ver v overBefore tracker))"

definition filterRequest :: "voteTracker \<Rightarrow> rawVote \<Rightarrow> event" where
  "filterRequest tracker rv =
     (if mget (vtr_Equivocators tracker) (rv_Sender rv) \<noteq> None then FilteredStepEv
      else case mget (vtr_Voters tracker) (rv_Sender rv) of
             Some v \<Rightarrow> if rv_Proposal rv = voteProposal v then FilteredStepEv else EmptyEvent
           | None \<Rightarrow> EmptyEvent)"

definition dumpVotes :: "voteTracker \<Rightarrow> unauthenticatedVote list" where
  "dumpVotes tracker =
     map (\<lambda>(_, v). vote_u v) (vtr_Voters tracker) @
     concat (map (\<lambda>(_, ev). [vote_u (v0 ev), vote_u (v1 ev)]) (vtr_Equivocators tracker))"

definition voteTracker_handle ::
    "consensusTable \<Rightarrow> voteTracker \<Rightarrow> event \<Rightarrow> (agreement_error, voteTracker \<times> event) result" where
  "voteTracker_handle tbl tracker e0 =
     (case e0 of
        VoteAcceptedEv v ver \<Rightarrow> andThen (acceptVote tbl tracker v ver) (\<lambda>(tracker, th). Ok (tracker, ThresholdEv th))
      | VoteFilterRequestEv rv \<Rightarrow> Ok (tracker, filterRequest tracker rv)
      | DumpVotesRequestEv \<Rightarrow> Ok (tracker, DumpVotesEv (dumpVotes tracker))
      | _ \<Rightarrow> Panic (LogPanic ''voteTracker: bad event type''))"

section \<open>Lemmas on sorting and cutting\<close>

declare map_of_eq_Some_iff [simp del] Some_eq_map_of_iff [simp del]

lemma mset_insertBy [simp]: "mset (insertBy lt x xs) = add_mset x (mset xs)"
  by (induction xs) auto

lemma mset_sliceStable [simp]: "mset (sliceStable lt xs) = mset xs"
  by (induction xs) (auto simp: sliceStable_def)

lemma sliceStable_simps [simp]:
  "set (sliceStable lt xs) = set xs" "length (sliceStable lt xs) = length xs"
  "sliceStable lt xs = [] \<longleftrightarrow> xs = []"
  "distinct (map f (sliceStable lt xs)) \<longleftrightarrow> distinct (map f xs)"
proof -
  show "set (sliceStable lt xs) = set xs" by (metis mset_sliceStable set_mset_mset)
  show "length (sliceStable lt xs) = length xs" by (metis mset_sliceStable size_mset)
  then show "sliceStable lt xs = [] \<longleftrightarrow> xs = []" by (metis length_0_conv)
  have "mset (map f (sliceStable lt xs)) = mset (map f xs)" by simp
  then show "distinct (map f (sliceStable lt xs)) \<longleftrightarrow> distinct (map f xs)"
    by (metis mset_eq_imp_distinct_iff)
qed

lemma sum_list_sliceStable: "sum_list (map f (sliceStable lt xs)) = sum_list (map (f :: 'a \<Rightarrow> nat) xs)"
  by (metis mset_map mset_sliceStable sum_mset_sum_list)

text \<open>The elements passed are a prefix, the weight is its sum, and the loop stops as early as it can.\<close>

lemma takeUntil_split:
  "takeUntil q wt xs w = (ys, w') \<Longrightarrow>
     \<exists>zs. xs = ys @ zs \<and> w' = w + sum_list (map wt ys) \<and> (zs \<noteq> [] \<longrightarrow> q w')"
proof (induction q wt xs w arbitrary: ys w' rule: takeUntil.induct)
  case (1 q wt w)
  then show ?case by simp
next
  case (2 q wt x xs w)
  then show ?case by (fastforce simp: add.assoc split: if_splits prod.splits)
qed

lemma takeUntil_step:
  "\<not> q w \<Longrightarrow> takeUntil q wt (x # xs) w =
     (x # fst (takeUntil q wt xs (w + wt x)), snd (takeUntil q wt xs (w + wt x)))"
  by (simp add: split_def Let_def)

lemma takeUntil_idem: "takeUntil q wt xs w = (ys, w') \<Longrightarrow> takeUntil q wt ys w = (ys, w')"
proof (induction xs arbitrary: w ys w')
  case Nil
  then show ?case by simp
next
  case (Cons x xs)
  show ?case
  proof (cases "q w")
    case True
    with Cons.prems show ?thesis by simp
  next
    case False
    obtain zs w2 where zs: "takeUntil q wt xs (w + wt x) = (zs, w2)" by fastforce
    with False Cons.prems have "ys = x # zs" "w2 = w'" by (simp_all add: takeUntil_step del: takeUntil.simps(2))
    with Cons.IH [OF zs] False show ?thesis by (simp add: takeUntil_step del: takeUntil.simps(2))
  qed
qed

lemma takeUntil_nonempty: "\<not> q w \<Longrightarrow> takeUntil q wt (x # xs) w = (ys, w') \<Longrightarrow> \<exists>zs. ys = x # zs"
  by (auto simp: takeUntil_step simp del: takeUntil.simps(2))

lemma takeUntil_reaches:
  assumes "takeUntil q wt xs w = (ys, w')" "q (w + sum_list (map wt xs))"
  shows "q w'"
proof -
  obtain zs where zs: "xs = ys @ zs" "w' = w + sum_list (map wt ys)" "zs \<noteq> [] \<longrightarrow> q w'"
    using takeUntil_split [OF assms(1)] by blast
  show ?thesis
  proof (cases "zs = []")
    case True
    with zs(1,2) assms(2) show ?thesis by simp
  next
    case False
    with zs(3) show ?thesis by simp
  qed
qed

lemma takeUntil_length:
  assumes "takeUntil (\<lambda>w. T \<le> w) wt xs w = (ys, w')" "\<forall>x \<in> set xs. wt x \<noteq> 0"
    "unat w + sum_list (map (unat \<circ> wt) xs) < 2 ^ 64" "n \<le> unat w" "n \<le> unat T"
  shows "n + length ys \<le> unat T \<and> n + length ys \<le> unat w'"
  using assms
proof (induction xs arbitrary: w ys n)
  case Nil
  then show ?case by simp
next
  case (Cons x xs)
  show ?case
  proof (cases "T \<le> w")
    case True
    then show ?thesis using Cons.prems by auto
  next
    case False
    then obtain zs where zs: "ys = x # zs" "takeUntil (\<lambda>w. T \<le> w) wt xs (w + wt x) = (zs, w')"
      using Cons.prems(1) by (auto simp: takeUntil_step prod_eq_iff simp del: takeUntil.simps(2))
    have x: "1 \<le> unat (wt x)" using Cons.prems(2) by (simp add: Suc_le_eq unat_gt_0)
    have sum: "unat (w + wt x) = unat w + unat (wt x)"
      using Cons.prems(3) by (simp add: unat_add_u64)
    have "Suc n + length zs \<le> unat T \<and> Suc n + length zs \<le> unat w'"
      using Cons.prems False x sum
      by (intro Cons.IH [OF zs(2)]) (auto simp: not_le word_less_nat_alt)
    then show ?thesis using zs(1) by simp
  qed
qed

section \<open>Committees and ballots\<close>

text \<open>
  A committee for one step: its members, their weights, and a total that fits \<open>uint64\<close>. A
  ballot is a verified vote of a member for the step: verification (\<open>vote.verify\<close>) gives the
  credential its weight and rejects weight zero.
\<close>

definition wsum :: "(address \<Rightarrow> u64) \<Rightarrow> address set \<Rightarrow> nat" where
  "wsum W S = (\<Sum>a \<in> S. unat (W a))"

definition committee :: "address set \<Rightarrow> (address \<Rightarrow> u64) \<Rightarrow> bool" where
  "committee C W \<longleftrightarrow> finite C \<and> (\<forall>a \<in> C. W a \<noteq> 0) \<and> wsum W C < 2 ^ 64"

definition ballot :: "address set \<Rightarrow> (address \<Rightarrow> u64) \<Rightarrow> round \<Rightarrow> period \<Rightarrow> step \<Rightarrow> vote \<Rightarrow> bool" where
  "ballot C W rnd per stp v \<longleftrightarrow> voteSender v \<in> C \<and> voteWeight v = W (voteSender v) \<and>
     rv_Round (vt_R v) = rnd \<and> rv_Period (vt_R v) = per \<and> rv_Step (vt_R v) = stp"

lemma wsum_mono: "finite T \<Longrightarrow> S \<subseteq> T \<Longrightarrow> wsum W S \<le> wsum W T"
  unfolding wsum_def by (rule sum_mono2) auto

lemma wsum_Un_disjoint: "finite S \<Longrightarrow> finite T \<Longrightarrow> S \<inter> T = {} \<Longrightarrow> wsum W (S \<union> T) = wsum W S + wsum W T"
  unfolding wsum_def by (rule sum.union_disjoint)

lemma wsum_Un_Int: "finite S \<Longrightarrow> finite T \<Longrightarrow> wsum W (S \<union> T) + wsum W (S \<inter> T) = wsum W S + wsum W T"
  unfolding wsum_def by (rule sum.union_inter)

lemma wsum_insert: "finite S \<Longrightarrow> a \<notin> S \<Longrightarrow> wsum W (insert a S) = unat (W a) + wsum W S"
  unfolding wsum_def by simp

lemma wsum_remove: "finite S \<Longrightarrow> a \<in> S \<Longrightarrow> wsum W (S - {a}) + unat (W a) = wsum W S"
  unfolding wsum_def by (simp add: sum.remove)

lemma wsum_empty [simp]: "wsum W {} = 0"
  by (simp add: wsum_def)

lemma committee_subset:
  assumes "committee C W" "S \<subseteq> C"
  shows "finite S" "wsum W S < 2 ^ 64" "wsum W S \<le> wsum W C"
proof -
  show "finite S" using assms finite_subset by (auto simp: committee_def)
  show "wsum W S \<le> wsum W C" using assms by (intro wsum_mono) (auto simp: committee_def)
  then show "wsum W S < 2 ^ 64" using assms(1) by (simp add: committee_def)
qed

text \<open>The weight of a list of ballots from distinct senders.\<close>

lemma sum_list_wsum:
  assumes "distinct (map f xs)" "\<forall>x \<in> set xs. wt x = W (f x)"
  shows "sum_list (map (unat \<circ> wt) xs) = wsum W (f ` set xs)"
proof -
  have "map (unat \<circ> wt) xs = map (\<lambda>a. unat (W a)) (map f xs)" using assms(2) by simp
  then have "sum_list (map (unat \<circ> wt) xs) = (\<Sum>a \<in> set (map f xs). unat (W a))"
    using assms(1) by (metis sum_list_distinct_conv_sum_set)
  then show ?thesis by (simp add: wsum_def)
qed

section \<open>The invariant of a tracker\<close>

text \<open>The senders counted for one value only, and those seen to vote for two.\<close>

definition backers :: "voteTracker \<Rightarrow> proposalValue \<Rightarrow> address set" where
  "backers t p = {a. \<exists>v. mget (vtr_Voters t) a = Some v \<and> voteProposal v = p}"

definition doubles :: "voteTracker \<Rightarrow> address set" where
  "doubles t = {a. mget (vtr_Equivocators t) a \<noteq> None}"

definition counterOK :: "(address \<Rightarrow> u64) \<Rightarrow> voteTracker \<Rightarrow> proposalValue \<Rightarrow> bool" where
  "counterOK W t p \<longleftrightarrow>
     (case mget (vtr_Counts t) p of
        None \<Rightarrow> backers t p = {}
      | Some c \<Rightarrow> backers t p \<noteq> {} \<and> keys_distinct (pvc_Votes c) \<and>
          (\<forall>a v. mget (pvc_Votes c) a = Some v \<longleftrightarrow> mget (vtr_Voters t) a = Some v \<and> voteProposal v = p) \<and>
          unat (pvc_Count c) = wsum W (backers t p))"

definition pairOK :: "address set \<Rightarrow> (address \<Rightarrow> u64) \<Rightarrow> round \<Rightarrow> period \<Rightarrow> step \<Rightarrow> equivocationVote \<Rightarrow> bool" where
  "pairOK C W rnd per stp e \<longleftrightarrow> ev_Sender e \<in> C \<and> pairWeight e = W (ev_Sender e) \<and> ev_Round e = rnd \<and>
     ev_Period e = per \<and> ev_Step e = stp \<and> fst (ev_Proposals e) \<noteq> snd (ev_Proposals e)"

definition trackerInv ::
    "address set \<Rightarrow> (address \<Rightarrow> u64) \<Rightarrow> round \<Rightarrow> period \<Rightarrow> step \<Rightarrow> voteTracker \<Rightarrow> bool" where
  "trackerInv C W rnd per stp t \<longleftrightarrow> committee C W \<and>
     keys_distinct (vtr_Voters t) \<and> keys_distinct (vtr_Counts t) \<and> keys_distinct (vtr_Equivocators t) \<and>
     (\<forall>a v. mget (vtr_Voters t) a = Some v \<longrightarrow>
        ballot C W rnd per stp v \<and> voteSender v = a \<and> a \<notin> doubles t) \<and>
     (\<forall>a e. mget (vtr_Equivocators t) a = Some e \<longrightarrow> pairOK C W rnd per stp e \<and> ev_Sender e = a) \<and>
     unat (vtr_EquivocatorsCount t) = wsum W (doubles t) \<and>
     (\<forall>p. counterOK W t p)"

lemma trackerInv_zero: "committee C W \<Longrightarrow> trackerInv C W rnd per stp zeroTracker"
  by (simp add: trackerInv_def zeroTracker_def counterOK_def backers_def doubles_def)

lemma inv_sets:
  assumes "trackerInv C W rnd per stp t"
  shows "backers t p \<subseteq> C" "doubles t \<subseteq> C" "backers t p \<inter> doubles t = {}"
    "p \<noteq> q \<Longrightarrow> backers t p \<inter> backers t q = {}"
  using assms by (auto simp: trackerInv_def backers_def doubles_def ballot_def pairOK_def)

lemma inv_Count:
  assumes "trackerInv C W rnd per stp t"
  shows "unat (pvc_Count (mgetd zeroCounter (vtr_Counts t) p)) = wsum W (backers t p)"
proof -
  have "counterOK W t p" using assms by (simp add: trackerInv_def)
  then show ?thesis by (auto simp: counterOK_def mgetd_def zeroCounter_def split: option.splits)
qed

text \<open>The weight behind a value: those who voted for it alone, and all who equivocated.\<close>

lemma inv_count:
  assumes "trackerInv C W rnd per stp t"
  shows "unat (tracker_count t p) = wsum W (backers t p \<union> doubles t)"
proof -
  note sets = inv_sets [OF assms]
  have C: "committee C W" using assms by (simp add: trackerInv_def)
  have U: "backers t p \<union> doubles t \<subseteq> C" using sets by blast
  have "wsum W (backers t p \<union> doubles t) = wsum W (backers t p) + wsum W (doubles t)"
    using sets committee_subset(1) [OF C] by (intro wsum_Un_disjoint) blast+
  moreover have "unat (vtr_EquivocatorsCount t) = wsum W (doubles t)" using assms by (simp add: trackerInv_def)
  ultimately show ?thesis
    using committee_subset(2) [OF C U] inv_Count [OF assms, of p]
    by (simp add: tracker_count_def unat_add_u64)
qed

lemma inv_Counts_dom:
  assumes "trackerInv C W rnd per stp t"
  shows "p \<in> set (map fst (vtr_Counts t)) \<longleftrightarrow> backers t p \<noteq> {}"
proof -
  have "counterOK W t p" using assms by (simp add: trackerInv_def)
  then have "mget (vtr_Counts t) p = None \<longleftrightarrow> backers t p = {}"
    by (auto simp: counterOK_def split: option.splits)
  then show ?thesis by (auto simp: map_of_eq_None_iff)
qed

subsection \<open>The threshold test\<close>

definition hits :: "consensusParams \<Rightarrow> step \<Rightarrow> voteTracker \<Rightarrow> proposalValue list" where
  "hits proto stp t = filter (\<lambda>p. reachesQuorum stp proto (tracker_count t p)) (map fst (vtr_Counts t))"

lemma overLoop_hits:
  "overLoop proto stp t ps res ok =
     (case filter (\<lambda>p. reachesQuorum stp proto (tracker_count t p)) ps of
        [] \<Rightarrow> Ok (res, ok)
      | [p] \<Rightarrow> if ok then Panic (LogPanic ''voteTracker: more than value reached a threhsold in a given step'')
               else Ok (p, True)
      | _ \<Rightarrow> Panic (LogPanic ''voteTracker: more than value reached a threhsold in a given step''))"
  by (induction ps arbitrary: res ok) (auto split: list.splits)

lemma overThreshold_hits:
  "overThreshold proto stp t =
     (case hits proto stp t of
        [] \<Rightarrow> Ok (bottom, False)
      | [p] \<Rightarrow> Ok (p, True)
      | _ \<Rightarrow> Panic (LogPanic ''voteTracker: more than value reached a threhsold in a given step''))"
  by (simp add: overThreshold_def overLoop_hits hits_def split: list.splits)

lemma overThreshold_Ok:
  "overThreshold proto stp t = Ok (p, ok) \<Longrightarrow>
     (ok \<longleftrightarrow> hits proto stp t \<noteq> []) \<and> (ok \<longrightarrow> hits proto stp t = [p])"
  by (auto simp: overThreshold_hits split: list.splits)

lemma overThreshold_returns:
  "length (hits proto stp t) \<le> 1 \<Longrightarrow> \<exists>p ok. overThreshold proto stp t = Ok (p, ok)"
  by (auto simp: overThreshold_hits split: list.splits)

subsection \<open>Effect of a vote\<close>

lemma backers_addVote:
  assumes "mget (vtr_Voters t) (voteSender v) = None"
  shows "backers (addVote v t) p = (if p = voteProposal v then insert (voteSender v) (backers t p) else backers t p)"
  using assms by (auto simp: backers_def addVote_def Let_def map_simps)

lemma doubles_addVote [simp]: "doubles (addVote v t) = doubles t"
  by (simp add: doubles_def addVote_def Let_def)

lemma addVote_inv:
  assumes inv: "trackerInv C W rnd per stp t" and v: "ballot C W rnd per stp v"
    and fresh: "mget (vtr_Voters t) (voteSender v) = None" "voteSender v \<notin> doubles t"
  shows "trackerInv C W rnd per stp (addVote v t)"
proof -
  let ?a = "voteSender v" and ?p = "voteProposal v"
  have C: "committee C W" using inv by (simp add: trackerInv_def)
  note b = backers_addVote [OF fresh(1)]
  have counters: "counterOK W (addVote v t) p" for p
  proof (cases "p = ?p")
    case False
    have "counterOK W t p" using inv by (simp add: trackerInv_def)
    then show ?thesis
      using False b [of p] fresh(1)
      by (auto simp: counterOK_def addVote_def Let_def map_simps split: option.splits)
  next
    case True
    have c: "counterOK W t ?p" using inv by (simp add: trackerInv_def)
    let ?c = "mgetd zeroCounter (vtr_Counts t) ?p"
    have new: "?a \<notin> backers t ?p" using fresh(1) by (simp add: backers_def)
    have fin: "finite (backers t ?p)" using inv_sets(1) [OF inv] committee_subset(1) [OF C] by blast
    have "insert ?a (backers t ?p) \<subseteq> C" using inv_sets(1) [OF inv] v by (auto simp: ballot_def)
    then have "unat (W ?a) + wsum W (backers t ?p) < 2 ^ 64"
      using committee_subset(2) [OF C] wsum_insert [OF fin new, of W] by metis
    then have "unat (pvc_Count ?c + voteWeight v) = wsum W (insert ?a (backers t ?p))"
      using inv_Count [OF inv, of ?p] v wsum_insert [OF fin new, of W]
      by (simp add: unat_add_u64 ballot_def)
    moreover have "keys_distinct (pvc_Votes ?c)"
      using c by (auto simp: counterOK_def mgetd_def zeroCounter_def split: option.splits)
    moreover have "mget (pvc_Votes ?c) a = Some w \<longleftrightarrow> mget (vtr_Voters t) a = Some w \<and> voteProposal w = ?p" for a w
      using c by (auto simp: counterOK_def mgetd_def zeroCounter_def backers_def split: option.splits)
    ultimately show ?thesis
      using True b [of ?p] fresh(1)
      by (auto simp: counterOK_def addVote_def Let_def map_simps)
  qed
  show ?thesis
    using inv v fresh counters
    unfolding trackerInv_def
    by (auto simp: addVote_def Let_def map_simps doubles_def)
qed

text \<open>The update on a second, different vote, with the equivocator weight already added.\<close>

definition equivocate :: "vote \<Rightarrow> vote \<Rightarrow> voteTracker \<Rightarrow> voteTracker" where
  "equivocate oldVote v t =
     addEquivocation oldVote v (t\<lparr>vtr_EquivocatorsCount := vtr_EquivocatorsCount t + voteWeight v\<rparr>)"

lemma equivocate_simps:
  "vtr_Voters (equivocate oldVote v t) = mdel (voteSender v) (vtr_Voters t)"
  "vtr_EquivocatorsCount (equivocate oldVote v t) = vtr_EquivocatorsCount t + voteWeight v"
  "vtr_Equivocators (equivocate oldVote v t) = mput (voteSender v)
     \<lparr>ev_Sender = voteSender oldVote, ev_Round = rv_Round (vt_R oldVote),
      ev_Period = rv_Period (vt_R oldVote), ev_Step = rv_Step (vt_R oldVote),
      ev_Cred = vt_Cred oldVote, ev_Proposals = (voteProposal oldVote, voteProposal v),
      ev_Sigs = (vt_Sig oldVote, vt_Sig v)\<rparr> (vtr_Equivocators t)"
  "vtr_Counts (equivocate oldVote v t) =
     (let old = mgetd zeroCounter (vtr_Counts t) (voteProposal oldVote)
      in if pvc_Count old \<le> voteWeight oldVote then mdel (voteProposal oldVote) (vtr_Counts t)
         else mput (voteProposal oldVote) \<lparr>pvc_Count = pvc_Count old - voteWeight oldVote,
                pvc_Votes = mdel (voteSender v) (pvc_Votes old)\<rparr> (vtr_Counts t))"
  by (simp_all add: equivocate_def addEquivocation_def Let_def)

lemma backers_equivocate: "backers (equivocate oldVote v t) p = backers t p - {voteSender v}"
  by (auto simp: backers_def equivocate_simps map_simps)

lemma doubles_equivocate: "doubles (equivocate oldVote v t) = insert (voteSender v) (doubles t)"
  by (auto simp: doubles_def equivocate_simps map_simps)

text \<open>The counter of the old value is dropped exactly when the sender was its last backer.\<close>

lemma last_backer:
  assumes inv: "trackerInv C W rnd per stp t" and old: "mget (vtr_Voters t) a = Some oldVote"
  shows "pvc_Count (mgetd zeroCounter (vtr_Counts t) (voteProposal oldVote)) \<le> voteWeight oldVote
    \<longleftrightarrow> backers t (voteProposal oldVote) = {a}"
proof -
  let ?p = "voteProposal oldVote"
  have C: "committee C W" and w: "voteWeight oldVote = W a" and aC: "a \<in> C"
    using inv old by (auto simp: trackerInv_def ballot_def)
  have a: "a \<in> backers t ?p" using old by (auto simp: backers_def)
  have fin: "finite (backers t ?p)" using inv_sets(1) [OF inv] committee_subset(1) [OF C] by blast
  have sum: "wsum W (backers t ?p - {a}) + unat (W a) = wsum W (backers t ?p)"
    using fin a by (rule wsum_remove)
  have "wsum W (backers t ?p - {a}) = 0 \<longleftrightarrow> backers t ?p - {a} = {}"
    using fin C inv_sets(1) [OF inv, of ?p] by (auto simp: wsum_def committee_def unat_eq_0)
  then show ?thesis
    using sum inv_Count [OF inv, of ?p] w a by (auto simp: word_le_nat_alt)
qed

lemma equivocate_counters:
  assumes inv: "trackerInv C W rnd per stp t" and old: "mget (vtr_Voters t) (voteSender v) = Some oldVote"
  shows "counterOK W (equivocate oldVote v t) p"
proof (cases "p = voteProposal oldVote")
  case False
  have "counterOK W t p" using inv by (simp add: trackerInv_def)
  moreover have "voteSender v \<notin> backers t p" using old False by (auto simp: backers_def)
  moreover have "mget (vtr_Counts (equivocate oldVote v t)) p = mget (vtr_Counts t) p"
    using False by (simp add: equivocate_simps Let_def map_simps)
  ultimately show ?thesis
    using False old
    by (auto simp: counterOK_def backers_equivocate equivocate_simps(1) map_simps split: option.splits)
next
  case True
  let ?a = "voteSender v" and ?p = "voteProposal oldVote"
  let ?c = "mgetd zeroCounter (vtr_Counts t) ?p"
  have c: "counterOK W t ?p" using inv by (simp add: trackerInv_def)
  have a: "?a \<in> backers t ?p" using old by (auto simp: backers_def)
  show ?thesis
  proof (cases "backers t ?p = {?a}")
    case last: True
    then show ?thesis
      using True last_backer [OF inv old]
      by (simp add: counterOK_def backers_equivocate equivocate_simps(4) Let_def map_simps)
  next
    case more: False
    have C: "committee C W" using inv by (simp add: trackerInv_def)
    have w: "voteWeight oldVote = W ?a" using inv old by (auto simp: trackerInv_def ballot_def)
    have fin: "finite (backers t ?p)" using inv_sets(1) [OF inv] committee_subset(1) [OF C] by blast
    have sum: "wsum W (backers t ?p - {?a}) + unat (W ?a) = wsum W (backers t ?p)"
      using fin a by (rule wsum_remove)
    then have cnt: "unat (pvc_Count ?c - voteWeight oldVote) = wsum W (backers t ?p - {?a})"
      using inv_Count [OF inv, of ?p] w by (simp add: unat_sub word_le_nat_alt)
    have votes: "mget (pvc_Votes ?c) x = Some u \<longleftrightarrow> mget (vtr_Voters t) x = Some u \<and> voteProposal u = ?p" for x u
      using c by (auto simp: counterOK_def mgetd_def zeroCounter_def backers_def split: option.splits)
    have "keys_distinct (pvc_Votes ?c)"
      using c by (auto simp: counterOK_def mgetd_def zeroCounter_def split: option.splits)
    then show ?thesis
      using True more last_backer [OF inv old] cnt votes a
      by (auto simp: counterOK_def backers_equivocate equivocate_simps(1,4) Let_def map_simps)
  qed
qed

lemma equivocate_inv:
  assumes inv: "trackerInv C W rnd per stp t" and v: "ballot C W rnd per stp v"
    and old: "mget (vtr_Voters t) (voteSender v) = Some oldVote" and diff: "voteProposal oldVote \<noteq> voteProposal v"
  shows "trackerInv C W rnd per stp (equivocate oldVote v t)"
proof -
  let ?a = "voteSender v"
  have C: "committee C W" using inv by (simp add: trackerInv_def)
  have new: "?a \<notin> doubles t" and o: "ballot C W rnd per stp oldVote" "voteSender oldVote = ?a"
    using inv old by (auto simp: trackerInv_def)
  have fin: "finite (doubles t)" using inv_sets(2) [OF inv] committee_subset(1) [OF C] by blast
  have "insert ?a (doubles t) \<subseteq> C" using inv_sets(2) [OF inv] v by (auto simp: ballot_def)
  then have "wsum W (insert ?a (doubles t)) < 2 ^ 64" using committee_subset(2) [OF C] by blast
  then have "unat (vtr_EquivocatorsCount t + voteWeight v) = wsum W (insert ?a (doubles t))"
    using wsum_insert [OF fin new, of W] inv v by (simp add: trackerInv_def ballot_def unat_add_u64)
  then show ?thesis
    using inv o diff equivocate_counters [OF inv old]
    unfolding trackerInv_def
    by (auto simp: equivocate_simps doubles_equivocate map_simps Let_def ballot_def pairOK_def split: if_splits)
qed

text \<open>A vote is ignored, is the sender's first, or makes the sender an equivocator.\<close>

lemma acceptVote_cases:
  assumes "acceptVote tbl t v ver = Ok (t', th)"
  obtains (double) "voteSender v \<in> doubles t" "t' = t" "th = zeroThreshold"
  | (repeat) oldVote where "voteSender v \<notin> doubles t" "mget (vtr_Voters t) (voteSender v) = Some oldVote"
      "voteProposal oldVote = voteProposal v" "t' = t" "th = zeroThreshold"
  | (first) pr over where "voteSender v \<notin> doubles t" "mget (vtr_Voters t) (voteSender v) = None"
      "overThreshold (consensusAt tbl ver) (rv_Step (vt_R v)) t = Ok (pr, over)"
      "emitThreshold (consensusAt tbl ver) ver v over (addVote v t) = Ok (t', th)" "t' = addVote v t"
  | (equiv) oldVote pr over where "voteSender v \<notin> doubles t" "mget (vtr_Voters t) (voteSender v) = Some oldVote"
      "voteProposal oldVote \<noteq> voteProposal v"
      "\<not> reachesQuorum (rv_Step (vt_R v)) (consensusAt tbl ver) (vtr_EquivocatorsCount t + voteWeight v)"
      "overThreshold (consensusAt tbl ver) (rv_Step (vt_R v)) t = Ok (pr, over)"
      "t' = equivocate oldVote v t"
      "vtr_Voters t' = [] \<and> th = zeroThreshold \<or>
       emitThreshold (consensusAt tbl ver) ver v over (equivocate oldVote v t) = Ok (t', th)"
proof (cases "voteSender v \<in> doubles t")
  case True
  with assms show thesis by (intro double) (auto simp: acceptVote_def doubles_def Let_def)
next
  case False
  then have "mget (vtr_Equivocators t) (voteSender v) = None" by (simp add: doubles_def)
  with assms obtain pr over where ov:
    "overThreshold (consensusAt tbl ver) (rv_Step (vt_R v)) t = Ok (pr, over)"
    by (auto simp: acceptVote_def Let_def result_simps)
  have same: "s' = s" if "emitThreshold proto ver v over s = Ok (s', th)" for s s' proto
    using that by (auto simp: emitThreshold_def result_simps split: if_splits prod.splits)
  show thesis
  proof (cases "mget (vtr_Voters t) (voteSender v)")
    case None
    with assms False ov have "emitThreshold (consensusAt tbl ver) ver v over (addVote v t) = Ok (t', th)"
      by (auto simp: acceptVote_def doubles_def Let_def)
    with False None ov same show thesis by (intro first) auto
  next
    case (Some oldVote)
    show thesis
    proof (cases "voteProposal oldVote = voteProposal v")
      case True
      with assms False Some ov show thesis by (intro repeat [of oldVote]) (auto simp: acceptVote_def doubles_def Let_def)
    next
      case diff: False
      let ?q = "reachesQuorum (rv_Step (vt_R v)) (consensusAt tbl ver) (vtr_EquivocatorsCount t + voteWeight v)"
      have nq: "\<not> ?q"
        using assms False Some ov diff by (auto simp: acceptVote_def doubles_def Let_def)
      then have "vtr_Voters (equivocate oldVote v t) = [] \<and> t' = equivocate oldVote v t \<and> th = zeroThreshold \<or>
          emitThreshold (consensusAt tbl ver) ver v over (equivocate oldVote v t) = Ok (t', th)"
        using assms False Some ov diff
        by (auto simp: acceptVote_def doubles_def Let_def equivocate_def split: if_splits)
      with False Some diff nq ov same show thesis by (intro equiv) auto
    qed
  qed
qed

lemma acceptVote_inv:
  assumes "trackerInv C W rnd per stp t" "ballot C W rnd per stp v" "acceptVote tbl t v ver = Ok (t', th)"
  shows "trackerInv C W rnd per stp t'"
  using assms(3)
proof (cases rule: acceptVote_cases)
  case (first pr over)
  then show ?thesis using addVote_inv [OF assms(1,2)] by simp
next
  case (equiv oldVote pr over)
  then show ?thesis using equivocate_inv [OF assms(1,2)] by simp
qed (use assms(1) in simp_all)

section \<open>The bundle of a threshold event\<close>

text \<open>
  What \<open>unauthenticatedBundle.verify\<close> asks of a bundle beyond the validity of each vote:
  distinct senders, no more votes than the threshold, and enough weight.
\<close>

definition bundleSenders :: "unauthenticatedBundle \<Rightarrow> address list" where
  "bundleSenders b = map va_Sender (ub_Votes b) @ map eva_Sender (ub_EquivocationVotes b)"

definition quorumBundle ::
    "(address \<Rightarrow> u64) \<Rightarrow> consensusParams \<Rightarrow> round \<Rightarrow> period \<Rightarrow> step \<Rightarrow> proposalValue \<Rightarrow> unauthenticatedBundle \<Rightarrow> bool" where
  "quorumBundle W proto rnd per stp p b \<longleftrightarrow>
     ub_Round b = rnd \<and> ub_Period b = per \<and> ub_Step b = stp \<and> ub_Proposal b = p \<and> ub_Votes b \<noteq> [] \<and>
     distinct (bundleSenders b) \<and> length (bundleSenders b) \<le> unat (threshold stp proto) \<and>
     unat (threshold stp proto) \<le> wsum W (set (bundleSenders b))"

lemma two_cuts:
  assumes "takeUntil q wt xs 0 = (ys, w)" "takeUntil q wt' es w = (fs, w2)"
    "q (sum_list (map wt xs) + sum_list (map wt' es))"
  shows "q w2"
proof -
  obtain zs where zs: "xs = ys @ zs" "w = 0 + sum_list (map wt ys)" "zs \<noteq> [] \<longrightarrow> q w"
    using takeUntil_split [OF assms(1)] by blast
  show ?thesis
  proof (cases "zs = []")
    case True
    with zs assms(3) have "q (w + sum_list (map wt' es))" by simp
    with assms(2) show ?thesis by (rule takeUntil_reaches)
  next
    case False
    with zs(3) assms(2) show ?thesis by (cases es) auto
  qed
qed

lemma makeBundle_packed:
  assumes "takeUntil (reachesQuorum stp proto) voteWeight votes 0 = (votes, w)"
    "takeUntil (reachesQuorum stp proto) pairWeight pairs w = (pairs, w2)" "reachesQuorum stp proto w2"
    "votes = v # vs" "\<forall>x \<in> set votes. voteProposal x = p" "rv_Step (vt_R v) = stp"
  shows "makeBundle proto p votes pairs = Ok \<lparr>ub_Round = rv_Round (vt_R v), ub_Period = rv_Period (vt_R v),
    ub_Step = stp, ub_Proposal = p, ub_Votes = map voteAuth votes,
    ub_EquivocationVotes = map equivocationAuth pairs\<rparr>"
proof -
  have "\<not> list_ex (\<lambda>x. voteProposal x \<noteq> p) votes" using assms(5) by (auto simp: list_ex_iff)
  then show ?thesis
    using assms(1-3,6) unfolding assms(4) by (simp add: makeBundle_def Let_def)
qed

text \<open>The sorted votes behind a value and the sorted equivocation pairs.\<close>

definition sortedVotes :: "voteTracker \<Rightarrow> proposalValue \<Rightarrow> vote list" where
  "sortedVotes t p = sliceStable votesBefore (map snd (pvc_Votes (mgetd zeroCounter (vtr_Counts t) p)))"

definition sortedPairs :: "voteTracker \<Rightarrow> equivocationVote list" where
  "sortedPairs t = sliceStable pairsBefore (map snd (vtr_Equivocators t))"

lemma map_key_snd:
  assumes "keys_distinct m" "\<And>k x. mget m k = Some x \<Longrightarrow> f x = k"
  shows "map f (map snd m) = map fst m"
  using assms by (auto simp: map_of_eq_Some_iff)

lemma sortedVotes_props:
  assumes inv: "trackerInv C W rnd per stp t"
  shows "distinct (map voteSender (sortedVotes t p))" "voteSender ` set (sortedVotes t p) = backers t p"
    "\<forall>v \<in> set (sortedVotes t p). ballot C W rnd per stp v \<and> voteProposal v = p"
proof -
  let ?m = "pvc_Votes (mgetd zeroCounter (vtr_Counts t) p)"
  have c: "counterOK W t p" using inv by (simp add: trackerInv_def)
  have d: "keys_distinct ?m"
    using c by (auto simp: counterOK_def mgetd_def zeroCounter_def split: option.splits)
  have m: "mget ?m a = Some v \<longleftrightarrow> mget (vtr_Voters t) a = Some v \<and> voteProposal v = p" for a v
    using c by (auto simp: counterOK_def mgetd_def zeroCounter_def backers_def split: option.splits)
  have good: "ballot C W rnd per stp v \<and> voteSender v = a" if "mget (vtr_Voters t) a = Some v" for a v
    using inv that by (simp add: trackerInv_def)
  have snds: "map voteSender (map snd ?m) = map fst ?m"
    by (rule map_key_snd [OF d]) (simp add: m good)
  then show "distinct (map voteSender (sortedVotes t p))"
    using d by (simp add: sortedVotes_def del: map_map)
  have el: "\<exists>a. mget ?m a = Some v" if "v \<in> set (map snd ?m)" for v
    using that mem_iff_mget [OF d] by auto
  show "\<forall>v \<in> set (sortedVotes t p). ballot C W rnd per stp v \<and> voteProposal v = p"
  proof
    fix v assume "v \<in> set (sortedVotes t p)"
    then have "v \<in> set (map snd ?m)" by (simp add: sortedVotes_def)
    then obtain a where "mget ?m a = Some v" using el by blast
    then have "mget (vtr_Voters t) a = Some v" "voteProposal v = p" by (simp_all only: m)
    then show "ballot C W rnd per stp v \<and> voteProposal v = p" using good by simp
  qed
  have "voteSender ` set (sortedVotes t p) = set (map fst ?m)"
    using arg_cong [OF snds, of set] by (simp add: sortedVotes_def image_image)
  also have "\<dots> = backers t p"
  proof -
    have "a \<in> set (map fst ?m) \<longleftrightarrow> (\<exists>v. mget ?m a = Some v)" for a
      by (metis (no_types) list.set_map map_of_eq_None_iff not_None_eq)
    then show ?thesis by (simp add: set_eq_iff m backers_def)
  qed
  finally show "voteSender ` set (sortedVotes t p) = backers t p" .
qed

lemma sortedPairs_props:
  assumes inv: "trackerInv C W rnd per stp t"
  shows "distinct (map ev_Sender (sortedPairs t))" "ev_Sender ` set (sortedPairs t) = doubles t"
    "\<forall>e \<in> set (sortedPairs t). pairOK C W rnd per stp e"
proof -
  let ?m = "vtr_Equivocators t"
  have d: "keys_distinct ?m" and good: "\<And>a e. mget ?m a = Some e \<Longrightarrow> pairOK C W rnd per stp e \<and> ev_Sender e = a"
    using inv by (auto simp: trackerInv_def)
  have snds: "map ev_Sender (map snd ?m) = map fst ?m"
    by (rule map_key_snd [OF d]) (simp add: good)
  then show "distinct (map ev_Sender (sortedPairs t))"
    using d by (simp add: sortedPairs_def del: map_map)
  show "\<forall>e \<in> set (sortedPairs t). pairOK C W rnd per stp e"
    using mem_iff_mget [OF d] good by (auto simp: sortedPairs_def)
  have "ev_Sender ` set (sortedPairs t) = set (map fst ?m)"
    using arg_cong [OF snds, of set] by (simp add: sortedPairs_def image_image)
  also have "\<dots> = doubles t" by (auto simp: doubles_def map_of_eq_None_iff)
  finally show "ev_Sender ` set (sortedPairs t) = doubles t" .
qed

lemma sum_senders:
  assumes "distinct (map f xs)" "\<forall>x \<in> set xs. wt x = W (f x)" "wsum W (f ` set xs) < 2 ^ 64"
  shows "unat (sum_list (map wt xs)) = wsum W (f ` set xs)"
proof -
  have "sum_list (map unat (map wt xs)) = wsum W (f ` set xs)"
    using sum_list_wsum [OF assms(1,2)] by simp
  with assms(3) unat_sum_list_u64 [of "map wt xs"] show ?thesis by simp
qed

text \<open>Two lists of senders cut one after the other: the weight is that of the senders passed, and they are few.\<close>

lemma cut_length_weight:
  assumes cuts: "takeUntil (\<lambda>w. T \<le> w) wt xs 0 = (ys, w)" "takeUntil (\<lambda>w. T \<le> w) wt' es w = (fs, w2)"
    and d: "distinct (map f xs)" "distinct (map g es)" "f ` set xs \<inter> g ` set es = {}"
    and W: "\<forall>x \<in> set xs. wt x = W (f x) \<and> wt x \<noteq> 0" "\<forall>x \<in> set es. wt' x = W (g x) \<and> wt' x \<noteq> 0"
    and fits: "wsum W (f ` set xs \<union> g ` set es) < 2 ^ 64"
  shows "length ys + length fs \<le> unat T \<and> unat w2 = wsum W (f ` set ys \<union> g ` set fs)"
proof -
  obtain zs where zs: "xs = ys @ zs" "w = sum_list (map wt ys)"
    using takeUntil_split [OF cuts(1)] by auto
  obtain gs where gs: "es = fs @ gs" "w2 = w + sum_list (map wt' fs)"
    using takeUntil_split [OF cuts(2)] by auto
  have all: "wsum W (f ` set xs \<union> g ` set es) = wsum W (f ` set xs) + wsum W (g ` set es)"
    using d(3) by (intro wsum_Un_disjoint) auto
  have ys: "wsum W (f ` set ys) \<le> wsum W (f ` set xs)" "wsum W (g ` set fs) \<le> wsum W (g ` set es)"
    unfolding zs(1) gs(1) by (auto intro!: wsum_mono)
  have uy: "unat (sum_list (map wt ys)) = wsum W (f ` set ys)"
    using d(1) W(1) ys fits all unfolding zs(1) by (intro sum_senders) auto
  have uf: "unat (sum_list (map wt' fs)) = wsum W (g ` set fs)"
    using d(2) W(2) ys fits all unfolding gs(1) by (intro sum_senders) auto
  have sx: "sum_list (map (unat \<circ> wt) xs) = wsum W (f ` set xs)"
    using d(1) W(1) by (intro sum_list_wsum) auto
  have se: "sum_list (map (unat \<circ> wt') es) = wsum W (g ` set es)"
    using d(2) W(2) by (intro sum_list_wsum) auto
  have "0 + length ys \<le> unat T \<and> 0 + length ys \<le> unat w"
    using W(1) sx fits all by (intro takeUntil_length [OF cuts(1)]) auto
  then have "length ys + length fs \<le> unat T \<and> length ys + length fs \<le> unat w2"
    using W(2) se fits all ys uy zs(2) by (intro takeUntil_length [OF cuts(2)]) auto
  moreover have "wsum W (f ` set ys \<union> g ` set fs) = wsum W (f ` set ys) + wsum W (g ` set fs)"
    using d(3) unfolding zs(1) gs(1) by (intro wsum_Un_disjoint) auto
  ultimately show ?thesis
    using uy uf ys all fits unfolding gs(2) zs(2) by (simp add: unat_add_u64)
qed

lemma tracker_count_sorted:
  assumes inv: "trackerInv C W rnd per stp t"
  shows "tracker_count t p = sum_list (map voteWeight (sortedVotes t p)) + sum_list (map pairWeight (sortedPairs t))"
    "wsum W (voteSender ` set (sortedVotes t p) \<union> ev_Sender ` set (sortedPairs t)) < 2 ^ 64"
proof -
  note sv = sortedVotes_props [OF inv, of p] and sp = sortedPairs_props [OF inv] and sets = inv_sets [OF inv]
  have C: "committee C W" using inv by (simp add: trackerInv_def)
  have sub: "backers t p \<union> doubles t \<subseteq> C" using sets(1) [of p] sets(2) by blast
  have fits: "wsum W (backers t p \<union> doubles t) < 2 ^ 64" by (rule committee_subset(2) [OF C sub])
  then show "wsum W (voteSender ` set (sortedVotes t p) \<union> ev_Sender ` set (sortedPairs t)) < 2 ^ 64"
    by (simp only: sv(2) sp(2))
  have tot: "wsum W (backers t p \<union> doubles t) = wsum W (backers t p) + wsum W (doubles t)"
    using sets committee_subset(1) [OF C] by (intro wsum_Un_disjoint) blast+
  have "unat (sum_list (map voteWeight (sortedVotes t p))) = wsum W (voteSender ` set (sortedVotes t p))"
    using sv(3) fits tot by (intro sum_senders sv(1)) (auto simp: ballot_def sv(2))
  moreover have "unat (sum_list (map pairWeight (sortedPairs t))) = wsum W (ev_Sender ` set (sortedPairs t))"
    using sp(3) fits tot by (intro sum_senders sp(1)) (auto simp: pairOK_def sp(2))
  ultimately show "tracker_count t p = sum_list (map voteWeight (sortedVotes t p)) + sum_list (map pairWeight (sortedPairs t))"
    using inv_count [OF inv, of p] tot fits unfolding word_unat_eq_iff sv(2) sp(2) by (simp add: unat_add_u64)
qed

lemma genBundle_quorum:
  assumes inv: "trackerInv C W rnd per stp t" and ne: "backers t p \<noteq> {}"
    and q: "reachesQuorum stp proto (tracker_count t p)" and T0: "threshold stp proto \<noteq> 0"
  shows "\<exists>b. genBundle proto t (mgetd zeroCounter (vtr_Counts t) p) = Ok b \<and>
    quorumBundle W proto rnd per stp p b \<and> set (bundleSenders b) \<subseteq> backers t p \<union> doubles t"
proof -
  let ?q = "reachesQuorum stp proto" and ?T = "threshold stp proto"
  note sv = sortedVotes_props [OF inv, of p] and sp = sortedPairs_props [OF inv]
  have C: "committee C W" using inv by (simp add: trackerInv_def)
  have stp: "stp \<noteq> propose" using q by (simp add: reachesQuorum_threshold)
  have qT: "?q = (\<lambda>w. ?T \<le> w)" using stp by (simp add: fun_eq_iff reachesQuorum_threshold)
  have nq0: "\<not> ?q 0" using T0 by (simp add: qT)
  obtain first rest where L: "sortedVotes t p = first # rest"
    using sv(2) ne by (cases "sortedVotes t p") auto
  obtain votes w where votes: "takeUntil ?q voteWeight (sortedVotes t p) 0 = (votes, w)" by fastforce
  obtain vs where vs: "votes = first # vs" using takeUntil_nonempty [OF nq0 votes [unfolded L]] by blast
  obtain pairs w2 where pairs: "takeUntil ?q pairWeight (sortedPairs t) w = (pairs, w2)" by fastforce
  have pre: "set votes \<subseteq> set (sortedVotes t p)" "set pairs \<subseteq> set (sortedPairs t)"
    "distinct (map voteSender votes)" "distinct (map ev_Sender pairs)"
    using takeUntil_split [OF votes] takeUntil_split [OF pairs] sv(1) sp(1) by auto
  have q2: "?q w2" using two_cuts [OF votes pairs] q tracker_count_sorted(1) [OF inv, of p] by simp
  let ?b = "\<lparr>ub_Round = rnd, ub_Period = per, ub_Step = stp, ub_Proposal = p,
     ub_Votes = map voteAuth votes, ub_EquivocationVotes = map equivocationAuth pairs\<rparr>"
  have f: "ballot C W rnd per stp first \<and> voteProposal first = p" using sv(3) L by simp
  have made: "makeBundle proto p votes pairs = Ok ?b"
    using makeBundle_packed [OF takeUntil_idem [OF votes] takeUntil_idem [OF pairs] q2 vs] f sv(3) pre(1)
    by (auto simp: ballot_def)
  have g: "genBundle proto t (mgetd zeroCounter (vtr_Counts t) p) = Ok ?b"
    using votes pairs made f L vs unfolding genBundle_def sortedVotes_def [symmetric] sortedPairs_def [symmetric]
    by (simp add: ballot_def Let_def del: takeUntil.simps)
  have snd: "bundleSenders ?b = map voteSender votes @ map ev_Sender pairs"
    by (simp add: bundleSenders_def voteAuth_def equivocationAuth_def vote_u_def)
  have disj: "voteSender ` set (sortedVotes t p) \<inter> ev_Sender ` set (sortedPairs t) = {}"
    using inv_sets(3) [OF inv, of p] by (simp only: sv(2) sp(2))
  have nz: "\<forall>v \<in> set (sortedVotes t p). voteWeight v = W (voteSender v) \<and> voteWeight v \<noteq> 0"
    "\<forall>e \<in> set (sortedPairs t). pairWeight e = W (ev_Sender e) \<and> pairWeight e \<noteq> 0"
    using sv(3) sp(3) C by (auto simp: ballot_def pairOK_def committee_def)
  have cut: "length votes + length pairs \<le> unat ?T \<and> unat w2 = wsum W (voteSender ` set votes \<union> ev_Sender ` set pairs)"
    by (rule cut_length_weight [OF votes [unfolded qT] pairs [unfolded qT] sv(1) sp(1) disj nz
          tracker_count_sorted(2) [OF inv, of p]])
  have "distinct (bundleSenders ?b)" using pre disj unfolding snd by auto
  then have "quorumBundle W proto rnd per stp p ?b"
    using cut q2 vs snd by (simp add: quorumBundle_def qT word_le_nat_alt)
  moreover have "set (bundleSenders ?b) \<subseteq> backers t p \<union> doubles t"
    using pre(1,2) unfolding snd sv(2) [symmetric] sp(2) [symmetric] by auto
  ultimately show ?thesis using g by blast
qed

end
