(* ===== verification/Vote_Tracker_Runs.thy ===== *)
theory Vote_Tracker_Runs
  imports Vote_Tracker
begin

text \<open>
  Runs of the vote machine of one step, related to the set of votes delivered to it: the
  counts do not depend on the order of delivery, the threshold event comes at most once and
  exactly when the votes reach the quorum, the bundle it carries is a quorum, and the machine
  does not panic while the weight of the equivocators stays within the bound that the
  protocol assumes.
\<close>

section \<open>Runs of a tracker\<close>

text \<open>
  The votes delivered so far, read as a set: a sender is a cheater if it voted for two values,
  and loyal to a value if it voted for that value only. The votes of the cheaters support
  every value.
\<close>

definition votedFor :: "vote set \<Rightarrow> address \<Rightarrow> proposalValue set" where
  "votedFor V a = voteProposal ` {v \<in> V. voteSender v = a}"

definition cheaters :: "vote set \<Rightarrow> address set" where
  "cheaters V = {a. \<forall>p. \<not> votedFor V a \<subseteq> {p}}"

definition loyal :: "vote set \<Rightarrow> proposalValue \<Rightarrow> address set" where
  "loyal V p = {a. votedFor V a = {p}}"

definition support :: "(address \<Rightarrow> u64) \<Rightarrow> vote set \<Rightarrow> proposalValue \<Rightarrow> nat" where
  "support W V p = wsum W (loyal V p \<union> cheaters V)"

definition tracks :: "vote set \<Rightarrow> voteTracker \<Rightarrow> bool" where
  "tracks V t \<longleftrightarrow> doubles t = cheaters V \<and> (\<forall>p. backers t p = loyal V p)"

lemma votedFor_insert:
  "votedFor (insert v V) a = (if a = voteSender v then insert (voteProposal v) (votedFor V a) else votedFor V a)"
  by (auto simp: votedFor_def)

lemma cheaters_insert:
  "a \<in> cheaters (insert v V) \<longleftrightarrow>
     (if a = voteSender v then votedFor V a \<noteq> {} \<and> votedFor V a \<noteq> {voteProposal v} else a \<in> cheaters V)"
  by (simp add: cheaters_def votedFor_insert subset_singleton_iff)

lemma loyal_insert:
  "a \<in> loyal (insert v V) p \<longleftrightarrow>
     (if a = voteSender v then p = voteProposal v \<and> (votedFor V a = {} \<or> votedFor V a = {p}) else a \<in> loyal V p)"
  by (auto simp: loyal_def votedFor_insert)

lemma votedFor_cases:
  obtains (none) "votedFor V a = {}" | (cheats) "a \<in> cheaters V" | (one) p where "a \<in> loyal V p"
  using that by (auto simp: cheaters_def loyal_def subset_singleton_iff)

lemma insert_double:
  assumes "voteSender v \<in> cheaters V"
  shows "cheaters (insert v V) = cheaters V" "loyal (insert v V) p = loyal V p"
proof -
  have n: "votedFor V (voteSender v) \<noteq> {}" "\<And>q. votedFor V (voteSender v) \<noteq> {q}"
    using assms by (simp_all add: cheaters_def subset_singleton_iff)
  show "cheaters (insert v V) = cheaters V"
  proof (rule set_eqI)
    fix a show "a \<in> cheaters (insert v V) \<longleftrightarrow> a \<in> cheaters V"
      using assms n by (cases "a = voteSender v") (simp_all add: cheaters_insert)
  qed
  show "loyal (insert v V) p = loyal V p"
  proof (rule set_eqI)
    fix a show "a \<in> loyal (insert v V) p \<longleftrightarrow> a \<in> loyal V p"
      using n by (cases "a = voteSender v") (simp_all add: loyal_insert, simp add: loyal_def)
  qed
qed

lemma insert_one:
  assumes "voteSender v \<in> loyal V q"
  shows "cheaters (insert v V) = (if q = voteProposal v then cheaters V else insert (voteSender v) (cheaters V))"
    "loyal (insert v V) p = (if q = voteProposal v then loyal V p else loyal V p - {voteSender v})"
proof -
  have e: "votedFor V (voteSender v) = {q}" using assms by (simp add: loyal_def)
  then have n: "voteSender v \<notin> cheaters V" unfolding cheaters_def by blast
  show "cheaters (insert v V) = (if q = voteProposal v then cheaters V else insert (voteSender v) (cheaters V))"
  proof (rule set_eqI)
    fix a show "a \<in> cheaters (insert v V) \<longleftrightarrow>
        a \<in> (if q = voteProposal v then cheaters V else insert (voteSender v) (cheaters V))"
      using n e by (cases "a = voteSender v") (simp_all add: cheaters_insert)
  qed
  show "loyal (insert v V) p = (if q = voteProposal v then loyal V p else loyal V p - {voteSender v})"
  proof (rule set_eqI)
    fix a show "a \<in> loyal (insert v V) p \<longleftrightarrow>
        a \<in> (if q = voteProposal v then loyal V p else loyal V p - {voteSender v})"
      using e assms by (cases "a = voteSender v"; cases "p = q"; simp add: loyal_insert) (auto simp: loyal_def)
  qed
qed

lemma insert_new:
  assumes "votedFor V (voteSender v) = {}"
  shows "cheaters (insert v V) = cheaters V"
    "loyal (insert v V) p = (if p = voteProposal v then insert (voteSender v) (loyal V p) else loyal V p)"
proof -
  have n: "voteSender v \<notin> cheaters V" "\<And>p. voteSender v \<notin> loyal V p"
    using assms by (simp_all add: cheaters_def loyal_def)
  show "cheaters (insert v V) = cheaters V"
  proof (rule set_eqI)
    fix a show "a \<in> cheaters (insert v V) \<longleftrightarrow> a \<in> cheaters V"
      using n assms by (cases "a = voteSender v") (simp_all add: cheaters_insert)
  qed
  show "loyal (insert v V) p = (if p = voteProposal v then insert (voteSender v) (loyal V p) else loyal V p)"
  proof (rule set_eqI)
    fix a show "a \<in> loyal (insert v V) p \<longleftrightarrow>
        a \<in> (if p = voteProposal v then insert (voteSender v) (loyal V p) else loyal V p)"
      using n assms by (cases "a = voteSender v") (simp_all add: loyal_insert)
  qed
qed

lemma tracks_zero: "tracks {} zeroTracker"
  by (simp add: tracks_def cheaters_def loyal_def votedFor_def doubles_def backers_def zeroTracker_def)

lemma tracks_step:
  assumes "tracks V t" "acceptVote tbl t v ver = Ok (t', th)"
  shows "tracks (insert v V) t'"
  using assms(2)
proof (cases rule: acceptVote_cases)
  case double
  then show ?thesis using assms(1) insert_double [of v V] by (simp add: tracks_def)
next
  case (repeat oldVote)
  then have "voteSender v \<in> backers t (voteProposal v)" by (auto simp: backers_def)
  then show ?thesis using repeat assms(1) insert_one [of v V "voteProposal v"] by (simp add: tracks_def)
next
  case (first pr over)
  have "voteSender v \<notin> backers t p" for p using first(2) by (simp add: backers_def)
  then have "votedFor V (voteSender v) = {}"
    using assms(1) first(1) votedFor_cases [of V "voteSender v"] by (auto simp: tracks_def)
  then show ?thesis
    using first assms(1) insert_new [of V v] by (simp add: tracks_def backers_addVote)
next
  case (equiv oldVote pr over)
  have "voteSender v \<in> loyal V (voteProposal oldVote)"
    using equiv(2) assms(1) by (auto simp: tracks_def backers_def)
  then show ?thesis
    using equiv(3,6) assms(1) insert_one [of v V "voteProposal oldVote"]
    by (simp add: tracks_def backers_equivocate doubles_equivocate)
qed

subsection \<open>The event\<close>

lemma hits_iff:
  assumes "trackerInv C W rnd per stp t"
  shows "p \<in> set (hits proto stp t) \<longleftrightarrow>
    backers t p \<noteq> {} \<and> stp \<noteq> propose \<and> unat (threshold stp proto) \<le> wsum W (backers t p \<union> doubles t)"
  using inv_Counts_dom [OF assms, of p] inv_count [OF assms, of p]
  by (auto simp: hits_def reachesQuorum_threshold word_le_nat_alt)

text \<open>A quorum, once reached, is not lost: a backer who equivocates still counts.\<close>

lemma hits_addVote:
  assumes inv: "trackerInv C W rnd per stp t" and v: "ballot C W rnd per stp v"
    and fresh: "mget (vtr_Voters t) (voteSender v) = None" "voteSender v \<notin> doubles t"
    and p: "p \<in> set (hits proto stp t)"
  shows "p \<in> set (hits proto stp (addVote v t))"
proof -
  have inv': "trackerInv C W rnd per stp (addVote v t)" by (rule addVote_inv [OF inv v fresh])
  have C: "committee C W" using inv by (simp add: trackerInv_def)
  have sub: "backers t p \<subseteq> backers (addVote v t) p" by (auto simp: backers_addVote [OF fresh(1)])
  then have "wsum W (backers t p \<union> doubles t) \<le> wsum W (backers (addVote v t) p \<union> doubles (addVote v t))"
    using inv_sets(1,2) [OF inv'] committee_subset(1) [OF C] by (intro wsum_mono) (auto intro: finite_UnI)
  then show ?thesis using p sub by (auto simp: hits_iff [OF inv] hits_iff [OF inv'])
qed

lemma hits_equivocate:
  assumes inv: "trackerInv C W rnd per stp t" and v: "ballot C W rnd per stp v"
    and old: "mget (vtr_Voters t) (voteSender v) = Some oldVote" "voteProposal oldVote \<noteq> voteProposal v"
    and nq: "\<not> reachesQuorum stp proto (vtr_EquivocatorsCount t + voteWeight v)"
    and p: "p \<in> set (hits proto stp t)"
  shows "p \<in> set (hits proto stp (equivocate oldVote v t))"
proof -
  let ?t = "equivocate oldVote v t" and ?a = "voteSender v"
  have inv': "trackerInv C W rnd per stp ?t" by (rule equivocate_inv [OF inv v old])
  have C: "committee C W" using inv by (simp add: trackerInv_def)
  have fin: "finite (backers ?t p \<union> doubles ?t)"
    using inv_sets(1,2) [OF inv'] committee_subset(1) [OF C] by (auto intro: finite_UnI)
  have sub: "backers t p \<union> doubles t \<subseteq> backers ?t p \<union> doubles ?t"
    by (auto simp: backers_equivocate doubles_equivocate)
  have more: "wsum W (backers t p \<union> doubles t) \<le> wsum W (backers ?t p \<union> doubles ?t)"
    by (rule wsum_mono [OF fin sub])
  have "wsum W (doubles ?t) < unat (threshold stp proto)"
    using nq p inv' by (simp add: hits_iff [OF inv] trackerInv_def equivocate_simps(2)
        reachesQuorum_threshold word_le_nat_alt not_le)
  then have "backers ?t p \<noteq> {}" using p more by (auto simp: hits_iff [OF inv])
  then show ?thesis using p more by (simp add: hits_iff [OF inv] hits_iff [OF inv'])
qed

text \<open>What a threshold event promises its receiver.\<close>

definition soundThreshold ::
    "(address \<Rightarrow> u64) \<Rightarrow> consensusParams \<Rightarrow> consensusVersion \<Rightarrow> round \<Rightarrow> period \<Rightarrow> step \<Rightarrow> proposalValue \<Rightarrow> thresholdEvent \<Rightarrow> bool" where
  "soundThreshold W proto ver rnd per stp p th \<longleftrightarrow>
     th_T th = thresholdTypeOf stp \<and> th_Round th = rnd \<and> th_Period th = per \<and> th_Step th = stp \<and>
     th_Proposal th = p \<and> th_Proto th = ver \<and> quorumBundle W proto rnd per stp p (th_Bundle th)"

lemma thresholdTypeOf_some [simp]: "thresholdTypeOf stp \<noteq> noThreshold"
  by (simp add: thresholdTypeOf_def)

lemma emitThreshold_spec:
  assumes inv: "trackerInv C W rnd per stp t" and v: "ballot C W rnd per stp v"
    and e: "emitThreshold proto ver v over t = Ok (t', th)" and T0: "threshold stp proto \<noteq> 0"
  shows "length (hits proto stp t) \<le> 1"
    "if over \<or> hits proto stp t = [] then th = zeroThreshold
     else soundThreshold W proto ver rnd per stp (hd (hits proto stp t)) th"
proof -
  have stp: "rv_Step (vt_R v) = stp" using v by (simp add: ballot_def)
  obtain pr ok where o: "overThreshold proto stp t = Ok (pr, ok)"
    using e stp by (auto simp: emitThreshold_def result_simps)
  note h = overThreshold_Ok [OF o]
  then show "length (hits proto stp t) \<le> 1" by (cases ok) auto
  show "if over \<or> hits proto stp t = [] then th = zeroThreshold
     else soundThreshold W proto ver rnd per stp (hd (hits proto stp t)) th"
  proof (cases "over \<or> hits proto stp t = []")
    case True
    then show ?thesis using e o h stp by (auto simp: emitThreshold_def)
  next
    case False
    then have hp: "hits proto stp t = [pr]" and ok: ok using h by auto
    then have "pr \<in> set (hits proto stp t)" by simp
    then have "backers t pr \<noteq> {}" "reachesQuorum stp proto (tracker_count t pr)"
      using hits_iff [OF inv, of pr proto] by (simp_all add: hits_def)
    then obtain b where b: "genBundle proto t (mgetd zeroCounter (vtr_Counts t) pr) = Ok b"
      "quorumBundle W proto rnd per stp pr b"
      using genBundle_quorum [OF inv _ _ T0] by blast
    with e o ok False stp v have "th = \<lparr>th_T = thresholdTypeOf stp, th_Round = rnd, th_Period = per,
        th_Step = stp, th_Proposal = pr, th_Bundle = b, th_Proto = ver\<rparr>"
      by (simp add: emitThreshold_def ballot_def)
    with b False hp show ?thesis by (simp add: soundThreshold_def)
  qed
qed

text \<open>
  One vote: no event if the quorum was reached before or is not reached now, otherwise the
  sound event; and the values with a quorum stay.
\<close>

lemma acceptVote_event:
  assumes inv: "trackerInv C W rnd per stp t" and v: "ballot C W rnd per stp v"
    and a: "acceptVote tbl t v ver = Ok (t', th)" and T0: "threshold stp (consensusAt tbl ver) \<noteq> 0"
    and h1: "length (hits (consensusAt tbl ver) stp t) \<le> 1"
  shows "length (hits (consensusAt tbl ver) stp t') \<le> 1 \<and>
    set (hits (consensusAt tbl ver) stp t) \<subseteq> set (hits (consensusAt tbl ver) stp t') \<and>
    (if hits (consensusAt tbl ver) stp t \<noteq> [] \<or> hits (consensusAt tbl ver) stp t' = [] then th = zeroThreshold
     else soundThreshold W (consensusAt tbl ver) ver rnd per stp (hd (hits (consensusAt tbl ver) stp t')) th)"
proof -
  let ?proto = "consensusAt tbl ver"
  have stp: "rv_Step (vt_R v) = stp" using v by (simp add: ballot_def)
  have inv': "trackerInv C W rnd per stp t'" by (rule acceptVote_inv [OF inv v a])
  from a show ?thesis
  proof (cases rule: acceptVote_cases)
    case (first pr over)
    have sub: "set (hits ?proto stp t) \<subseteq> set (hits ?proto stp t')"
      using hits_addVote [OF inv v first(2,1)] first(5) by blast
    have over: "over \<longleftrightarrow> hits ?proto stp t \<noteq> []" using overThreshold_Ok first(3) stp by blast
    have e: "emitThreshold ?proto ver v over t' = Ok (t', th)" using first(4,5) by simp
    show ?thesis using emitThreshold_spec [OF inv' v e T0] sub over by simp
  next
    case (equiv oldVote pr over)
    have sub: "set (hits ?proto stp t) \<subseteq> set (hits ?proto stp t')"
      using hits_equivocate [OF inv v equiv(2,3)] equiv(4,6) stp by blast
    have over: "over \<longleftrightarrow> hits ?proto stp t \<noteq> []" using overThreshold_Ok equiv(5) stp by blast
    from equiv(7) show ?thesis
    proof
      assume empty: "vtr_Voters t' = [] \<and> th = zeroThreshold"
      then have "backers t' p = {}" for p by (simp add: backers_def)
      then have "p \<notin> set (hits ?proto stp t')" for p by (simp add: hits_iff [OF inv'])
      then have "hits ?proto stp t' = []" by (metis list.set_intros(1) neq_Nil_conv)
      then show ?thesis using sub empty by simp
    next
      assume "emitThreshold ?proto ver v over (equivocate oldVote v t) = Ok (t', th)"
      then have e: "emitThreshold ?proto ver v over t' = Ok (t', th)" using equiv(6) by simp
      show ?thesis using emitThreshold_spec [OF inv' v e T0] sub over by simp
    qed
  qed (use h1 in simp_all)
qed

text \<open>The state of a run: the tracker tracks the votes delivered, and the answers are right.\<close>

definition delivered :: "consensusVersion \<Rightarrow> vote list \<Rightarrow> event list" where
  "delivered ver vs = map (\<lambda>v. VoteAcceptedEv v ver) vs"

abbreviation emitted :: "event list \<Rightarrow> event list" where
  "emitted outs \<equiv> filter (\<lambda>e. \<not> isNone e) outs"

definition answersOK ::
    "(address \<Rightarrow> u64) \<Rightarrow> consensusParams \<Rightarrow> consensusVersion \<Rightarrow> round \<Rightarrow> period \<Rightarrow> step \<Rightarrow> proposalValue list \<Rightarrow> event list \<Rightarrow> bool" where
  "answersOK W proto ver rnd per stp hs outs \<longleftrightarrow>
     (if hs = [] then emitted outs = []
      else \<exists>th. emitted outs = [ThresholdEv th] \<and> soundThreshold W proto ver rnd per stp (hd hs) th)"

lemma run_tracker:
  assumes "runs (voteTracker_handle tbl) zeroTracker (delivered ver vs) = Ok (t, outs)"
    "committee C W" "\<forall>v \<in> set vs. ballot C W rnd per stp v" "threshold stp (consensusAt tbl ver) \<noteq> 0"
  shows "trackerInv C W rnd per stp t \<and> tracks (set vs) t \<and> length (hits (consensusAt tbl ver) stp t) \<le> 1 \<and>
    answersOK W (consensusAt tbl ver) ver rnd per stp (hits (consensusAt tbl ver) stp t) outs"
  using assms(1,3)
proof (induction vs arbitrary: t outs rule: rev_induct)
  case Nil
  then have "t = zeroTracker" "outs = []" by (simp_all add: delivered_def)
  moreover have "hits proto stp zeroTracker = []" for proto by (simp add: hits_def zeroTracker_def)
  ultimately show ?case
    using trackerInv_zero [OF assms(2)] tracks_zero by (simp add: answersOK_def)
next
  case (snoc v vs)
  let ?proto = "consensusAt tbl ver"
  from snoc.prems(1) obtain s os out where
    r: "runs (voteTracker_handle tbl) zeroTracker (delivered ver vs) = Ok (s, os)"
    and h: "voteTracker_handle tbl s (VoteAcceptedEv v ver) = Ok (t, out)" and outs: "outs = os @ [out]"
    unfolding delivered_def map_append list.map runs_snoc by blast
  from h obtain th where a: "acceptVote tbl s v ver = Ok (t, th)" and out: "out = ThresholdEv th"
    by (auto simp: voteTracker_handle_def result_simps)
  have IH: "trackerInv C W rnd per stp s" "tracks (set vs) s" "length (hits ?proto stp s) \<le> 1"
    "answersOK W ?proto ver rnd per stp (hits ?proto stp s) os"
    using snoc.IH [OF r] snoc.prems(2) by simp_all
  have v: "ballot C W rnd per stp v" using snoc.prems(2) by simp
  note ev = acceptVote_event [OF IH(1) v a assms(4) IH(3)]
  have "answersOK W ?proto ver rnd per stp (hits ?proto stp t) outs"
  proof (cases "hits ?proto stp s = []")
    case True
    then show ?thesis
      using ev IH(4) by (auto simp: answersOK_def outs out isNone_def soundThreshold_def zeroThreshold_def split: if_splits)
  next
    case False
    then obtain p where p: "hits ?proto stp s = [p]" using IH(3) by (cases "hits ?proto stp s") auto
    then have "hits ?proto stp t = [p]" using ev by (cases "hits ?proto stp t") auto
    then show ?thesis
      using ev IH(4) p by (simp add: answersOK_def outs out isNone_def zeroThreshold_def)
  qed
  then show ?case
    using acceptVote_inv [OF IH(1) v a] tracks_step [OF IH(2) a] ev by simp
qed

subsection \<open>Absence of panics\<close>

text \<open>
  The protocol assumes that only members of a set \<open>D\<close> of the committee equivocate, that
  the others vote for one value \<open>h\<close> each, and that the committee is small against twice the
  threshold.
\<close>

definition faultBound :: "address set \<Rightarrow> (address \<Rightarrow> u64) \<Rightarrow> u64 \<Rightarrow> address set \<Rightarrow> bool" where
  "faultBound C W T D \<longleftrightarrow> D \<subseteq> C \<and> wsum W D < unat T \<and> wsum W C + wsum W D < 2 * unat T"

definition keepsWord :: "address set \<Rightarrow> (address \<Rightarrow> proposalValue) \<Rightarrow> vote \<Rightarrow> bool" where
  "keepsWord D h v \<longleftrightarrow> voteSender v \<in> D \<or> voteProposal v = h (voteSender v)"

definition safeTracker ::
    "address set \<Rightarrow> (address \<Rightarrow> u64) \<Rightarrow> round \<Rightarrow> period \<Rightarrow> step \<Rightarrow> u64 \<Rightarrow> address set \<Rightarrow> (address \<Rightarrow> proposalValue) \<Rightarrow> voteTracker \<Rightarrow> bool" where
  "safeTracker C W rnd per stp T D h t \<longleftrightarrow> trackerInv C W rnd per stp t \<and> faultBound C W T D \<and>
     doubles t \<subseteq> D \<and> (\<forall>a v. mget (vtr_Voters t) a = Some v \<longrightarrow> keepsWord D h v)"

lemma one_quorum:
  assumes inv: "trackerInv C W rnd per stp t" and D: "faultBound C W (threshold stp proto) D" "doubles t \<subseteq> D"
    and pq: "p \<in> set (hits proto stp t)" "q \<in> set (hits proto stp t)"
  shows "p = q"
proof (rule ccontr)
  assume "p \<noteq> q"
  have C: "committee C W" using inv by (simp add: trackerInv_def)
  note sets = inv_sets [OF inv] and fin = committee_subset(1) [OF C]
  let ?d = "doubles t" and ?bp = "backers t p" and ?bq = "backers t q"
  have f: "finite ?bp" "finite ?bq" "finite ?d" using sets fin by blast+
  have b: "wsum W (?bp \<union> ?d) = wsum W ?bp + wsum W ?d" "wsum W (?bq \<union> ?d) = wsum W ?bq + wsum W ?d"
    using f sets(3) by (simp_all add: wsum_Un_disjoint)
  have bq: "?bp \<inter> ?bq = {}" using sets(4) \<open>p \<noteq> q\<close> by blast
  have "wsum W (?bp \<union> ?bq \<union> ?d) = wsum W (?bp \<union> ?bq) + wsum W ?d"
    using f sets(3) [of p] sets(3) [of q] by (intro wsum_Un_disjoint) auto
  also have "wsum W (?bp \<union> ?bq) = wsum W ?bp + wsum W ?bq" using f bq by (simp add: wsum_Un_disjoint)
  finally have "wsum W ?bp + wsum W ?bq + wsum W ?d \<le> wsum W C"
    using committee_subset(3) [OF C, of "?bp \<union> ?bq \<union> ?d"] sets(1) [of p] sets(1) [of q] sets(2) by simp
  moreover have "wsum W ?d \<le> wsum W D"
    using D fin by (intro wsum_mono) (auto simp: faultBound_def)
  ultimately show False
    using D(1) pq b by (simp add: hits_iff [OF inv] faultBound_def)
qed

lemma all_equal_short:
  assumes "distinct xs" "\<And>x y. x \<in> set xs \<Longrightarrow> y \<in> set xs \<Longrightarrow> x = y"
  shows "length xs \<le> 1"
proof (rule ccontr)
  assume "\<not> length xs \<le> 1"
  then have l: "0 < length xs" "1 < length xs" by linarith+
  have "xs ! 0 = xs ! 1" by (rule assms(2) [OF nth_mem [OF l(1)] nth_mem [OF l(2)]])
  then show False using nth_eq_iff_index_eq [OF assms(1) l] by simp
qed

lemma safe_hits:
  assumes "safeTracker C W rnd per stp (threshold stp proto) D h t"
  shows "length (hits proto stp t) \<le> 1"
proof -
  have "keys_distinct (vtr_Counts t)" using assms unfolding safeTracker_def trackerInv_def by blast
  then have "distinct (hits proto stp t)" unfolding hits_def by (rule distinct_filter)
  moreover have "p = q" if "p \<in> set (hits proto stp t)" "q \<in> set (hits proto stp t)" for p q
    using assms one_quorum [OF _ _ _ that] unfolding safeTracker_def by blast
  ultimately show ?thesis by (rule all_equal_short)
qed

lemma emitThreshold_returns:
  assumes inv: "trackerInv C W rnd per stp t" and v: "ballot C W rnd per stp v"
    and T0: "threshold stp proto \<noteq> 0" and h: "length (hits proto stp t) \<le> 1"
  shows "\<exists>th. emitThreshold proto ver v over t = Ok (t, th)"
proof -
  have stp: "rv_Step (vt_R v) = stp" using v by (simp add: ballot_def)
  obtain pr ok where o: "overThreshold proto stp t = Ok (pr, ok)" using overThreshold_returns [OF h] by blast
  show ?thesis
  proof (cases "over \<or> \<not> ok")
    case True
    then show ?thesis using o stp by (simp add: emitThreshold_def)
  next
    case False
    then have "pr \<in> set (hits proto stp t)" using overThreshold_Ok [OF o] by simp
    then have "backers t pr \<noteq> {}" "reachesQuorum stp proto (tracker_count t pr)"
      using hits_iff [OF inv, of pr proto] by (simp_all add: hits_def)
    then obtain b where "genBundle proto t (mgetd zeroCounter (vtr_Counts t) pr) = Ok b"
      using genBundle_quorum [OF inv _ _ T0] by blast
    then show ?thesis using o stp False by (simp add: emitThreshold_def)
  qed
qed

lemma safe_addVote:
  assumes "safeTracker C W rnd per stp T D h t" "ballot C W rnd per stp v" "keepsWord D h v"
    "mget (vtr_Voters t) (voteSender v) = None" "voteSender v \<notin> doubles t"
  shows "safeTracker C W rnd per stp T D h (addVote v t)"
proof -
  have "trackerInv C W rnd per stp (addVote v t)"
    using assms addVote_inv unfolding safeTracker_def by blast
  moreover have "vtr_Voters (addVote v t) = mput (voteSender v) v (vtr_Voters t)"
    by (simp add: addVote_def Let_def)
  ultimately show ?thesis using assms(1,3) by (auto simp: safeTracker_def map_simps)
qed

lemma safe_equivocate:
  assumes s: "safeTracker C W rnd per stp T D h t" and v: "ballot C W rnd per stp v" "keepsWord D h v"
    and old: "mget (vtr_Voters t) (voteSender v) = Some oldVote" "voteProposal oldVote \<noteq> voteProposal v"
  shows "safeTracker C W rnd per stp T D h (equivocate oldVote v t)"
    "unat (vtr_EquivocatorsCount t + voteWeight v) < unat T"
proof -
  let ?t = "equivocate oldVote v t"
  have inv: "trackerInv C W rnd per stp t" and D: "faultBound C W T D" "doubles t \<subseteq> D"
    and k: "keepsWord D h oldVote" using s old(1) by (auto simp: safeTracker_def)
  have "voteSender oldVote = voteSender v" using inv old(1) by (simp add: trackerInv_def)
  then have a: "voteSender v \<in> D" using k v(2) old(2) by (auto simp: keepsWord_def)
  have inv': "trackerInv C W rnd per stp ?t" by (rule equivocate_inv [OF inv v(1) old])
  have sub: "doubles ?t \<subseteq> D" using D(2) a by (simp add: doubles_equivocate)
  have "vtr_Voters ?t = mdel (voteSender v) (vtr_Voters t)" by (rule equivocate_simps(1))
  then show "safeTracker C W rnd per stp T D h ?t"
    using s inv' sub by (auto simp: safeTracker_def map_simps)
  have "wsum W (doubles ?t) \<le> wsum W D"
    using sub D(1) inv committee_subset(1) by (intro wsum_mono) (auto simp: faultBound_def trackerInv_def)
  then show "unat (vtr_EquivocatorsCount t + voteWeight v) < unat T"
    using inv' D(1) by (simp add: trackerInv_def equivocate_simps(2) faultBound_def)
qed

lemma acceptVote_safe:
  assumes s: "safeTracker C W rnd per stp (threshold stp (consensusAt tbl ver)) D h t"
    and v: "ballot C W rnd per stp v" "keepsWord D h v"
  shows "\<exists>t' th. acceptVote tbl t v ver = Ok (t', th) \<and>
    safeTracker C W rnd per stp (threshold stp (consensusAt tbl ver)) D h t'"
proof -
  let ?proto = "consensusAt tbl ver" and ?T = "threshold stp (consensusAt tbl ver)"
  have T0: "?T \<noteq> 0" using s by (auto simp: safeTracker_def faultBound_def)
  have stp: "rv_Step (vt_R v) = stp" using v by (simp add: ballot_def)
  obtain pr over where o: "overThreshold ?proto stp t = Ok (pr, over)"
    using overThreshold_returns [OF safe_hits [OF s]] by blast
  consider (double) "voteSender v \<in> doubles t"
    | (first) "voteSender v \<notin> doubles t" "mget (vtr_Voters t) (voteSender v) = None"
    | (again) oldVote where "voteSender v \<notin> doubles t" "mget (vtr_Voters t) (voteSender v) = Some oldVote"
    by (cases "mget (vtr_Voters t) (voteSender v)") auto
  then show ?thesis
  proof cases
    case double
    then show ?thesis using s by (auto simp: acceptVote_def Let_def doubles_def)
  next
    case first
    have s': "safeTracker C W rnd per stp ?T D h (addVote v t)" by (rule safe_addVote [OF s v first(2,1)])
    then have "trackerInv C W rnd per stp (addVote v t)" by (simp add: safeTracker_def)
    then obtain th where "emitThreshold ?proto ver v over (addVote v t) = Ok (addVote v t, th)"
      using emitThreshold_returns [OF _ v(1) T0 safe_hits [OF s']] by blast
    then show ?thesis using first o stp s' by (simp add: acceptVote_def Let_def doubles_def)
  next
    case (again oldVote)
    show ?thesis
    proof (cases "voteProposal oldVote = voteProposal v")
      case True
      then show ?thesis using again o stp s by (simp add: acceptVote_def Let_def doubles_def)
    next
      case False
      note s' = safe_equivocate [OF s v again(2) False]
      have inv': "trackerInv C W rnd per stp (equivocate oldVote v t)" using s'(1) by (simp add: safeTracker_def)
      obtain th where "emitThreshold ?proto ver v over (equivocate oldVote v t) = Ok (equivocate oldVote v t, th)"
        using emitThreshold_returns [OF inv' v(1) T0 safe_hits [OF s'(1)]] by blast
      moreover have "\<not> reachesQuorum stp ?proto (vtr_EquivocatorsCount t + voteWeight v)"
        using s'(2) by (simp add: reachesQuorum_threshold word_le_nat_alt)
      ultimately show ?thesis
        using again False o stp s'(1) by (simp add: acceptVote_def Let_def doubles_def flip: equivocate_def)
    qed
  qed
qed

subsection \<open>The tracker as a machine\<close>

text \<open>
  The events that the components above send to a tracker: votes of its step from members of
  the committee, filter requests and requests for the votes it holds.
\<close>

definition trackerEvent ::
    "address set \<Rightarrow> (address \<Rightarrow> u64) \<Rightarrow> round \<Rightarrow> period \<Rightarrow> step \<Rightarrow> consensusVersion \<Rightarrow> address set \<Rightarrow> (address \<Rightarrow> proposalValue) \<Rightarrow> event \<Rightarrow> bool" where
  "trackerEvent C W rnd per stp ver D h e =
     (case e of
        VoteAcceptedEv v ver' \<Rightarrow> ver' = ver \<and> ballot C W rnd per stp v \<and> keepsWord D h v
      | VoteFilterRequestEv _ \<Rightarrow> True
      | DumpVotesRequestEv \<Rightarrow> True
      | _ \<Rightarrow> False)"

lemma handle_safe:
  assumes s: "safeTracker C W rnd per stp (threshold stp (consensusAt tbl ver)) D h t"
    and e: "trackerEvent C W rnd per stp ver D h e"
  shows "\<exists>t' out. voteTracker_handle tbl t e = Ok (t', out) \<and>
    safeTracker C W rnd per stp (threshold stp (consensusAt tbl ver)) D h t'"
proof (cases e)
  case (VoteAcceptedEv v ver')
  then have "ver' = ver" "ballot C W rnd per stp v" "keepsWord D h v" using e by (simp_all add: trackerEvent_def)
  with acceptVote_safe [OF s] VoteAcceptedEv show ?thesis by (fastforce simp: voteTracker_handle_def)
qed (use s e in \<open>auto simp: voteTracker_handle_def trackerEvent_def\<close>)

interpretation tracker: total_machine "voteTracker_handle tbl"
  "trackerEvent C W rnd per stp ver D h"
  "safeTracker C W rnd per stp (threshold stp (consensusAt tbl ver)) D h"
  for tbl C W rnd per stp ver D h
proof
  fix t e t' out
  assume "safeTracker C W rnd per stp (threshold stp (consensusAt tbl ver)) D h t"
    "trackerEvent C W rnd per stp ver D h e" "voteTracker_handle tbl t e = Ok (t', out)"
  with handle_safe show "safeTracker C W rnd per stp (threshold stp (consensusAt tbl ver)) D h t'" by fastforce
next
  fix t e
  assume "safeTracker C W rnd per stp (threshold stp (consensusAt tbl ver)) D h t"
    "trackerEvent C W rnd per stp ver D h e"
  with handle_safe show "\<exists>r. voteTracker_handle tbl t e = Ok r" by blast
qed

lemma safe_zero: "committee C W \<Longrightarrow> faultBound C W T D \<Longrightarrow> safeTracker C W rnd per stp T D h zeroTracker"
  using trackerInv_zero [of C W rnd per stp] by (simp add: safeTracker_def) (simp add: zeroTracker_def doubles_def)

text \<open>A filter request is granted exactly when the vote would change nothing.\<close>

lemma filterRequest_exact:
  assumes s: "safeTracker C W rnd per stp (threshold stp (consensusAt tbl ver)) D h t"
    and v: "ballot C W rnd per stp v" "keepsWord D h v"
  shows "filterRequest t (vt_R v) = FilteredStepEv \<longleftrightarrow> acceptVote tbl t v ver = Ok (t, zeroThreshold)"
proof
  have stp: "rv_Step (vt_R v) = stp" using v by (simp add: ballot_def)
  assume "filterRequest t (vt_R v) = FilteredStepEv"
  then consider "voteSender v \<in> doubles t"
    | old where "voteSender v \<notin> doubles t" "mget (vtr_Voters t) (voteSender v) = Some old" "voteProposal old = voteProposal v"
    by (auto simp: filterRequest_def doubles_def split: if_splits option.splits)
  then show "acceptVote tbl t v ver = Ok (t, zeroThreshold)"
  proof cases
    case 1
    then show ?thesis by (auto simp: acceptVote_def Let_def doubles_def)
  next
    case 2
    then show ?thesis
      using overThreshold_returns [OF safe_hits [OF s]] stp by (auto simp: acceptVote_def Let_def doubles_def)
  qed
next
  assume a: "acceptVote tbl t v ver = Ok (t, zeroThreshold)"
  from a show "filterRequest t (vt_R v) = FilteredStepEv"
  proof (cases rule: acceptVote_cases)
    case double
    then show ?thesis by (simp add: filterRequest_def doubles_def)
  next
    case (repeat oldVote)
    then show ?thesis by (simp add: filterRequest_def)
  next
    case (first pr over)
    then have "voteSender v \<in> backers t (voteProposal v)" using backers_addVote [OF first(2), of "voteProposal v"] by auto
    then show ?thesis using first(2) by (simp add: backers_def)
  next
    case (equiv oldVote pr over)
    then have "voteSender v \<in> doubles t" using doubles_equivocate [of oldVote v t] by auto
    then show ?thesis using equiv(1) by simp
  qed
qed

section \<open>Properties\<close>

text \<open>Three members of weight 1000 each vote for one value in the soft step of the current protocol.\<close>

definition sampleVote :: "address \<Rightarrow> vote" where
  "sampleVote a = zeroVote\<lparr>vt_R := zeroRawVote\<lparr>rv_Sender := a, rv_Step := soft\<rparr>,
     vt_Cred := zeroCredential\<lparr>cr_Weight := 1000\<rparr>\<rparr>"

definition sampleVotes :: "vote list" where
  "sampleVotes = [sampleVote 1, sampleVote 2, sampleVote 3]"

lemma sample_setting:
  "committee {1, 2, 3} (\<lambda>_. 1000)"
  "faultBound {1, 2, 3} (\<lambda>_. 1000) (threshold soft (consensusAt Consensus ConsensusCurrentVersion)) {}"
  "\<forall>v \<in> set sampleVotes. ballot {1, 2, 3} (\<lambda>_. 1000) 0 0 soft v \<and> keepsWord {} (\<lambda>_. bottom) v"
  "threshold soft (consensusAt Consensus ConsensusCurrentVersion) \<noteq> 0" "soft \<noteq> propose"
  by (simp_all add: committee_def faultBound_def wsum_def current_version threshold_def step_defs version_params
      sampleVotes_def sampleVote_def ballot_def keepsWord_def zeroVote_def zeroRawVote_def)

lemma delivered_good:
  "\<forall>v \<in> set vs. ballot C W rnd per stp v \<and> keepsWord D h v \<Longrightarrow> list_all (trackerEvent C W rnd per stp ver D h) (delivered ver vs)"
  by (auto simp: list_all_iff delivered_def trackerEvent_def)

text \<open>
  C2. Votes of one step may arrive in any order and any number of times. If only members of a
  set \<open>D\<close> vote for two values, \<open>D\<close> weighs less than the threshold, and the committee and \<open>D\<close>
  together weigh less than twice the threshold, then the vote machine handles all of them
  without a panic, and the weight it counts for each value is the weight of the senders that
  voted for that value only plus that of the senders that voted for several.
\<close>

theorem voteTracker_counts_support:
  assumes "committee C W" "faultBound C W (threshold stp (consensusAt tbl ver)) D"
    "\<forall>v \<in> set vs. ballot C W rnd per stp v \<and> keepsWord D h v"
  shows "\<exists>t outs. runs (voteTracker_handle tbl) zeroTracker (delivered ver vs) = Ok (t, outs) \<and>
    (\<forall>p. unat (tracker_count t p) = support W (set vs) p)"
proof -
  have T0: "threshold stp (consensusAt tbl ver) \<noteq> 0" using assms(2) by (auto simp: faultBound_def)
  obtain t outs where r: "runs (voteTracker_handle tbl) zeroTracker (delivered ver vs) = Ok (t, outs)"
    using tracker.runs_total [OF safe_zero [OF assms(1,2)] delivered_good [OF assms(3)]] by fastforce
  then have "trackerInv C W rnd per stp t" "tracks (set vs) t"
    using run_tracker [OF r assms(1) _ T0] assms(3) by blast+
  with inv_count have "\<forall>p. unat (tracker_count t p) = support W (set vs) p"
    unfolding support_def tracks_def by metis
  with r show ?thesis by blast
qed

theorem voteTracker_counts_support_witness:
  "\<exists>t outs. runs (voteTracker_handle Consensus) zeroTracker (delivered ConsensusCurrentVersion sampleVotes) = Ok (t, outs) \<and>
    (\<forall>p. unat (tracker_count t p) = support (\<lambda>_. 1000) (set sampleVotes) p)"
  by (rule voteTracker_counts_support [OF sample_setting(1-3)])

text \<open>
  C3. A step's vote machine emits one threshold event if the votes delivered to it give some
  value a quorum, and none otherwise. The event names that value and carries a bundle for it:
  votes of that round, period and step by distinct members, no more than the threshold of
  them, with a total weight of at least the threshold.
\<close>

theorem voteTracker_emits_once:
  assumes "runs (voteTracker_handle tbl) zeroTracker (delivered ver vs) = Ok (t, outs)"
    "committee C W" "\<forall>v \<in> set vs. ballot C W rnd per stp v" "threshold stp (consensusAt tbl ver) \<noteq> 0" "stp \<noteq> propose"
  shows "if \<exists>p. loyal (set vs) p \<noteq> {} \<and> unat (threshold stp (consensusAt tbl ver)) \<le> support W (set vs) p
    then \<exists>th. emitted outs = [ThresholdEv th] \<and>
      loyal (set vs) (th_Proposal th) \<noteq> {} \<and>
      unat (threshold stp (consensusAt tbl ver)) \<le> support W (set vs) (th_Proposal th) \<and>
      soundThreshold W (consensusAt tbl ver) ver rnd per stp (th_Proposal th) th
    else emitted outs = []"
proof -
  let ?proto = "consensusAt tbl ver"
  note r = run_tracker [OF assms(1-4)]
  then have q: "p \<in> set (hits ?proto stp t) \<longleftrightarrow>
      loyal (set vs) p \<noteq> {} \<and> unat (threshold stp ?proto) \<le> support W (set vs) p" for p
    using hits_iff [of C W rnd per stp t p ?proto] assms(5) unfolding support_def tracks_def by metis
  show ?thesis
  proof (cases "hits ?proto stp t = []")
    case True
    then have "\<nexists>p. loyal (set vs) p \<noteq> {} \<and> unat (threshold stp ?proto) \<le> support W (set vs) p"
      using q by (metis empty_iff list.set(1))
    then show ?thesis using r True by (simp only: answersOK_def if_False if_True refl)
  next
    case False
    then have h: "hd (hits ?proto stp t) \<in> set (hits ?proto stp t)" by simp
    obtain th where th: "emitted outs = [ThresholdEv th]"
      "soundThreshold W ?proto ver rnd per stp (hd (hits ?proto stp t)) th"
      using r False unfolding answersOK_def by auto
    then have "th_Proposal th = hd (hits ?proto stp t)" by (simp add: soundThreshold_def)
    with th h q show ?thesis by (metis (no_types, lifting))
  qed
qed

theorem voteTracker_emits_once_witness:
  "\<exists>t outs. runs (voteTracker_handle Consensus) zeroTracker (delivered ConsensusCurrentVersion sampleVotes) = Ok (t, outs) \<and>
    length (emitted outs) = 1"
proof -
  obtain t outs where r: "runs (voteTracker_handle Consensus) zeroTracker (delivered ConsensusCurrentVersion sampleVotes) = Ok (t, outs)"
    using tracker.runs_total [OF safe_zero [OF sample_setting(1,2)] delivered_good [OF sample_setting(3)]] by fastforce
  let ?V = "set sampleVotes"
  have "\<forall>v \<in> ?V. ballot {1, 2, 3} (\<lambda>_. 1000) 0 0 soft v" using sample_setting(3) by blast
  note e = voteTracker_emits_once [OF r sample_setting(1) this sample_setting(4,5)]
  have v: "votedFor ?V a = (if a \<in> {1, 2, 3} then {bottom} else {})" for a
  proof -
    have "voteSender (sampleVote b) = b" "voteProposal (sampleVote b) = bottom" for b
      by (simp_all add: sampleVote_def zeroVote_def zeroRawVote_def)
    moreover have "votedFor {} b = {}" for b by (simp add: votedFor_def)
    ultimately show ?thesis by (simp add: sampleVotes_def votedFor_insert)
  qed
  have "loyal ?V bottom = {1, 2, 3}" "cheaters ?V = {}" by (auto simp: loyal_def cheaters_def v)
  then have "\<exists>p. loyal ?V p \<noteq> {} \<and> unat (threshold soft (consensusAt Consensus ConsensusCurrentVersion)) \<le> support (\<lambda>_. 1000) ?V p"
    by (intro exI [of _ bottom])
      (simp add: support_def wsum_def current_version threshold_def step_defs version_params)
  with e r show ?thesis by (simp only: if_True) fastforce
qed

text \<open>
  C11. Whatever sequence of votes, filter requests and vote dumps reaches a vote machine, within
  the same bound on the equivocators, a filter request is granted exactly when delivering
  the vote would change nothing and emit nothing.
\<close>

theorem voteTracker_filter_exact:
  assumes "committee C W" "faultBound C W (threshold stp (consensusAt tbl ver)) D"
    "list_all (trackerEvent C W rnd per stp ver D h) evs"
    "runs (voteTracker_handle tbl) zeroTracker evs = Ok (t, outs)"
    "ballot C W rnd per stp v" "keepsWord D h v"
  shows "voteTracker_handle tbl t (VoteFilterRequestEv (vt_R v)) = Ok (t, FilteredStepEv) \<longleftrightarrow>
    voteTracker_handle tbl t (VoteAcceptedEv v ver) = Ok (t, ThresholdEv zeroThreshold)"
proof -
  have "safeTracker C W rnd per stp (threshold stp (consensusAt tbl ver)) D h t"
    by (rule tracker.runs_inv [OF safe_zero [OF assms(1,2)] assms(3,4)])
  then have "filterRequest t (vt_R v) = FilteredStepEv \<longleftrightarrow> acceptVote tbl t v ver = Ok (t, zeroThreshold)"
    using assms(5,6) by (rule filterRequest_exact)
  then show ?thesis by (auto simp: voteTracker_handle_def result_simps)
qed

theorem voteTracker_filter_exact_witness:
  "voteTracker_handle Consensus zeroTracker (VoteFilterRequestEv (vt_R (sampleVote 1))) \<noteq> Ok (zeroTracker, FilteredStepEv) \<and>
   voteTracker_handle Consensus zeroTracker (VoteAcceptedEv (sampleVote 1) ConsensusCurrentVersion)
     \<noteq> Ok (zeroTracker, ThresholdEv zeroThreshold)"
proof -
  have "ballot {1, 2, 3} (\<lambda>_. 1000) 0 0 soft (sampleVote 1)" "keepsWord {} (\<lambda>_. bottom) (sampleVote 1)"
    using sample_setting(3) by (simp_all add: sampleVotes_def)
  note e = voteTracker_filter_exact [OF sample_setting(1,2), of 0 0 _ "[]", simplified, OF _ this]
  have "filterRequest zeroTracker (vt_R (sampleVote 1)) = EmptyEvent" by (simp add: filterRequest_def zeroTracker_def)
  then have "voteTracker_handle Consensus zeroTracker (VoteFilterRequestEv (vt_R (sampleVote 1))) \<noteq> Ok (zeroTracker, FilteredStepEv)"
    by (simp add: voteTracker_handle_def)
  with e show ?thesis by blast
qed

end
