(* ===== verification/Proposal_Machines.thy ===== *)
theory Proposal_Machines
  imports Vote_Tracker_Runs
begin

text \<open>
  The state machines that decide on proposals, without the router that connects them: the
  order of credentials (\<open>src/data/committee/credential.go\<close>), the tracker of a period and its
  contract (\<open>src/agreement/proposalTracker.go\<close>, \<open>proposalTrackerContract.go\<close>) and the data of
  the store of a round (\<open>proposalStore.go\<close>).

  The hash functions and the digest of a block are parameters (\<open>agreementEnv\<close>). A contract
  that is violated panics, as \<open>checkedListener\<close> does.

  The lemmas show when the comparison of two credentials returns and what it compares, that
  the seeker of a period holds the best credential delivered before it froze, that the
  tracker never violates the postconditions of its contract, and that the store keeps the
  payloads of the pinned and the relevant proposal-values and no others.
\<close>

record agreementEnv =
  ae_Consensus :: consensusTable
  ae_HashCredential :: "hashableCredential \<Rightarrow> digest"
  ae_HashVrfOut :: "digest \<Rightarrow> u64 \<Rightarrow> digest"
  ae_BlockDigest :: "block \<Rightarrow> digest"
  ae_HashProposal :: "unauthenticatedProposal \<Rightarrow> digest"

section \<open>Credentials\<close>

definition outputAt :: "agreementEnv \<Rightarrow> credential \<Rightarrow> u64 \<Rightarrow> nat" where
  "outputAt env cred i = unat
     (if cr_DomainSeparationEnabled cred then ae_HashCredential env ((cr_Hashable cred)\<lparr>hc_Iter := i\<rparr>)
      else ae_HashVrfOut env (cr_VrfOut cred) i)"

text \<open>The loop of \<open>lowestOutput\<close>; its counter wraps, so that it need not end.\<close>

partial_function (option) lowestLoop :: "agreementEnv \<Rightarrow> credential \<Rightarrow> u64 \<Rightarrow> nat \<Rightarrow> nat option" where
  "lowestLoop env cred i lowest =
     (if i \<le> cr_Weight cred
      then lowestLoop env cred (i + 1) (if i = 1 \<or> outputAt env cred i < lowest then outputAt env cred i else lowest)
      else Some lowest)"

declare lowestLoop.simps [code]

definition lowestOutput :: "agreementEnv \<Rightarrow> credential \<Rightarrow> nat option" where
  "lowestOutput env cred = lowestLoop env cred 1 0"

text \<open>A comparison that does not return is the error \<open>NoReturn\<close>.\<close>

definition Credential_Less :: "agreementEnv \<Rightarrow> credential \<Rightarrow> credential \<Rightarrow> (agreement_error, bool) result" where
  "Credential_Less env cred otherCred =
     (case (lowestOutput env cred, lowestOutput env otherCred) of
        (Some i1, Some i2) \<Rightarrow> Ok (i1 < i2)
      | _ \<Rightarrow> Err NoReturn)"

section \<open>The tracker of a period\<close>

record proposalSeeker =
  ps_Lowest :: vote
  ps_Filled :: bool
  ps_Frozen :: bool

definition zeroSeeker :: proposalSeeker where
  "zeroSeeker = \<lparr>ps_Lowest = zeroVote, ps_Filled = False, ps_Frozen = False\<rparr>"

text \<open>The seeker and, if the vote is not accepted, the error.\<close>

definition seeker_accept :: "agreementEnv \<Rightarrow> proposalSeeker \<Rightarrow> vote \<Rightarrow> (agreement_error, proposalSeeker \<times> serializableError) result" where
  "seeker_accept env s v =
     (if ps_Frozen s then Ok (s, Some ''proposalSeeker.accept: seeker is already frozen'')
      else andThen (if ps_Filled s then Credential_Less env (vt_Cred v) (vt_Cred (ps_Lowest s)) else Ok True) (\<lambda>less.
        if \<not> less then Ok (s, Some ''proposalSeeker.accept: credential is not less than lowest credential'')
        else Ok (s\<lparr>ps_Lowest := v, ps_Filled := True\<rparr>, None)))"

definition freeze :: "proposalSeeker \<Rightarrow> proposalSeeker" where
  "freeze s = s\<lparr>ps_Frozen := True\<rparr>"

record proposalTracker =
  pt_Duplicate :: "(address, bool) gomap"
  pt_Freezer :: proposalSeeker
  pt_Staging :: proposalValue

definition zeroProposalTracker :: proposalTracker where
  "zeroProposalTracker = \<lparr>pt_Duplicate = [], pt_Freezer = zeroSeeker, pt_Staging = bottom\<rparr>"

definition acceptedFor :: "round \<Rightarrow> period \<Rightarrow> proposalValue \<Rightarrow> event" where
  "acceptedFor r p pv = ProposalAcceptedEv \<lparr>pa_Round = r, pa_Period = p, pa_Proposal = pv, pa_Payload = zeroProposal, pa_PayloadOk = False\<rparr>"

definition trackProposalVote :: "agreementEnv \<Rightarrow> proposalTracker \<Rightarrow> vote \<Rightarrow> (agreement_error, event \<times> proposalTracker) result" where
  "trackProposalVote env t v =
     (if mgetd False (pt_Duplicate t) (rv_Sender (vt_R v))
      then Ok (FilteredEv voteFiltered (Some ''proposalTracker: filtered vote: sender had already sent a vote''), t)
      else
        let t = t\<lparr>pt_Duplicate := mput (rv_Sender (vt_R v)) True (pt_Duplicate t)\<rparr> in
        if pt_Staging t \<noteq> bottom
        then Ok (FilteredEv voteFiltered (Some ''proposalTracker: value already staged''), t)
        else andThen (seeker_accept env (pt_Freezer t) v) (\<lambda>(freezer, err).
          let t = t\<lparr>pt_Freezer := freezer\<rparr> in
          case err of
            Some _ \<Rightarrow> Ok (FilteredEv voteFiltered (Some ''proposalTracker: filtered vote''), t)
          | None \<Rightarrow> Ok (acceptedFor (rv_Round (vt_R v)) (rv_Period (vt_R v)) (rv_Proposal (vt_R v)), t)))"

definition isStagingThreshold :: "thresholdEvent \<Rightarrow> bool" where
  "isStagingThreshold th = (th_T th = softThreshold \<or> th_T th = certThreshold)"

definition proposalTracker_handle :: "agreementEnv \<Rightarrow> event \<Rightarrow> (agreement_error, proposalTracker, event) effect" where
  "proposalTracker_handle env e = (\<lambda>t.
     case e of
       VoteFilterRequestEv rv \<Rightarrow>
         if mgetd False (pt_Duplicate t) (rv_Sender rv)
         then Ok (FilteredEv voteFiltered (Some ''proposalTracker: filtered vote: sender had already sent a vote''), t)
         else Ok (EmptyEvent, t)
     | MessageEv me \<Rightarrow>
         if me_T me = voteVerified then trackProposalVote env t (m_Vote (me_Input me))
         else Panic (LogPanic ''proposalTracker: bad event type'')
     | ProposalFrozenEv _ \<Rightarrow>
         Ok (ProposalFrozenEv (rv_Proposal (vt_R (ps_Lowest (pt_Freezer t)))), t\<lparr>pt_Freezer := freeze (pt_Freezer t)\<rparr>)
     | ThresholdEv th \<Rightarrow>
         if isStagingThreshold th
         then Ok (acceptedFor (th_Round th) (th_Period th) (th_Proposal th), t\<lparr>pt_Staging := th_Proposal th\<rparr>)
         else Panic (LogPanic ''proposalTracker: bad event type'')
     | StagingValueEv se \<Rightarrow> Ok (StagingValueEv (se\<lparr>sv_Proposal := pt_Staging t\<rparr>), t)
     | _ \<Rightarrow> Panic (LogPanic ''proposalTracker: bad event type''))"

section \<open>The contract of the tracker\<close>

record proposalTrackerContract =
  ptc_SawOneVote :: bool
  ptc_Froze :: bool
  ptc_SawSoftThreshold :: bool
  ptc_SawCertThreshold :: bool

definition zeroTrackerContract :: proposalTrackerContract where
  "zeroTrackerContract = \<lparr>ptc_SawOneVote = False, ptc_Froze = False, ptc_SawSoftThreshold = False, ptc_SawCertThreshold = False\<rparr>"

text \<open>The precondition; the types of events it excludes make the tracker panic as well.\<close>

definition proposalTrackerContract_pre :: "proposalTrackerContract \<Rightarrow> event \<Rightarrow> bool" where
  "proposalTrackerContract_pre c e =
     (case e of
        ProposalFrozenEv _ \<Rightarrow> \<not> ptc_Froze c
      | ThresholdEv th \<Rightarrow>
          isStagingThreshold th \<and>
          (th_T th = softThreshold \<longrightarrow> \<not> ptc_SawSoftThreshold c \<and> th_Proposal th \<noteq> bottom)
      | MessageEv me \<Rightarrow> me_T me = voteVerified
      | VoteFilterRequestEv _ \<Rightarrow> True
      | StagingValueEv _ \<Rightarrow> True
      | _ \<Rightarrow> False)"

definition isAccepted :: "event \<Rightarrow> bool" where
  "isAccepted e = (case e of ProposalAcceptedEv _ \<Rightarrow> True | _ \<Rightarrow> False)"

definition isFiltered :: "event \<Rightarrow> bool" where
  "isFiltered e = (case e of FilteredEv t _ \<Rightarrow> t = voteFiltered | _ \<Rightarrow> False)"

definition proposalTrackerContract_post ::
    "proposalTrackerContract \<Rightarrow> event \<Rightarrow> event \<Rightarrow> bool \<times> proposalTrackerContract" where
  "proposalTrackerContract_post c i out =
     (let settled = ptc_Froze c \<or> ptc_SawSoftThreshold c \<or> ptc_SawCertThreshold c;
          accepts = (\<lambda>pv. case out of ProposalAcceptedEv pa \<Rightarrow> pa_Proposal pa = pv | _ \<Rightarrow> False) in
      case i of
        MessageEv me \<Rightarrow>
          ((isAccepted out \<or> isFiltered out) \<and>
           (\<not> ptc_SawOneVote c \<and> \<not> settled \<longrightarrow> accepts (rv_Proposal (vt_R (m_Vote (me_Input me))))) \<and>
           (settled \<longrightarrow> isFiltered out), c\<lparr>ptc_SawOneVote := True\<rparr>)
      | ProposalFrozenEv _ \<Rightarrow>
          (case out of
             ProposalFrozenEv pv \<Rightarrow> (ptc_SawOneVote c \<or> pv = bottom, c\<lparr>ptc_Froze := True\<rparr>)
           | _ \<Rightarrow> (False, c))
      | ThresholdEv th \<Rightarrow>
          (accepts (th_Proposal th),
           if th_T th = softThreshold then c\<lparr>ptc_SawSoftThreshold := True\<rparr> else c\<lparr>ptc_SawCertThreshold := True\<rparr>)
      | _ \<Rightarrow> (True, c))"

definition checkedProposalTracker ::
    "agreementEnv \<Rightarrow> event \<Rightarrow> (agreement_error, proposalTracker \<times> proposalTrackerContract, event) effect" where
  "checkedProposalTracker env e = (\<lambda>(t, c).
     if \<not> proposalTrackerContract_pre c e then Panic (LogPanic ''precondition violated'')
     else andThen (proposalTracker_handle env e t) (\<lambda>(out, t).
       let (ok, c) = proposalTrackerContract_post c e out in
       if \<not> ok then Panic (LogPanic ''postcondition violated'') else Ok (out, (t, c))))"

section \<open>The store of a round\<close>

record blockAssembler =
  ba_Pipeline :: unauthenticatedProposal
  ba_Filled :: bool
  ba_Payload :: proposal
  ba_Assembled :: bool
  ba_Authenticators :: "vote list"

definition zeroAssembler :: blockAssembler where
  "zeroAssembler = \<lparr>ba_Pipeline = zeroUnauthenticatedProposal, ba_Filled = False, ba_Payload = zeroProposal,
     ba_Assembled = False, ba_Authenticators = []\<rparr>"

definition assembler_pipeline :: "blockAssembler \<Rightarrow> unauthenticatedProposal \<Rightarrow> blockAssembler \<times> serializableError" where
  "assembler_pipeline a p =
     (if ba_Assembled a then (a, Some ''blockAssembler.pipeline: already assembled'')
      else if ba_Filled a then (a, Some ''blockAssembler.pipeline: already filled'')
      else (a\<lparr>ba_Pipeline := p, ba_Filled := True\<rparr>, None))"

definition assembler_bind :: "blockAssembler \<Rightarrow> proposal \<Rightarrow> blockAssembler \<times> serializableError" where
  "assembler_bind a p =
     (if ba_Assembled a then (a, Some ''blockAssembler.pipeline: already assembled'')
      else (a\<lparr>ba_Payload := p, ba_Assembled := True\<rparr>, None))"

definition authenticator :: "blockAssembler \<Rightarrow> period \<Rightarrow> vote" where
  "authenticator a p =
     (case find (\<lambda>v. rv_Period (vt_R v) = p) (ba_Authenticators a) of Some v \<Rightarrow> v | None \<Rightarrow> zeroVote)"

definition assembler_trim :: "blockAssembler \<Rightarrow> period \<Rightarrow> blockAssembler" where
  "assembler_trim a p = a\<lparr>ba_Authenticators := filter (\<lambda>v. rv_Period (vt_R v) \<ge> p) (ba_Authenticators a)\<rparr>"

record proposalStore =
  st_Relevant :: "(period, proposalValue) gomap"
  st_Pinned :: proposalValue
  st_Assemblers :: "(proposalValue, blockAssembler) gomap"

definition zeroStore :: proposalStore where
  "zeroStore = \<lparr>st_Relevant = [], st_Pinned = bottom, st_Assemblers = []\<rparr>"

abbreviation assemblerOf :: "proposalStore \<Rightarrow> proposalValue \<Rightarrow> blockAssembler" where
  "assemblerOf store pv \<equiv> mgetd zeroAssembler (st_Assemblers store) pv"

definition store_trim :: "period \<Rightarrow> proposalStore \<Rightarrow> proposalStore" where
  "store_trim p store =
     (let old = assemblerOf store;
          pinned = mput (st_Pinned store) (assembler_trim (old (st_Pinned store)) p) [];
          all = fold (\<lambda>(_, pv). mput pv (assembler_trim (old pv) p)) (st_Relevant store) pinned
      in store\<lparr>st_Assemblers := mdel bottom all\<rparr>)"

definition lastRelevant :: "proposalStore \<Rightarrow> proposalValue \<Rightarrow> period \<times> bool" where
  "lastRelevant store pv =
     (if st_Pinned store = pv then (0, True)
      else (fold (\<lambda>(per, v) p. if per > p \<and> v = pv then per else p) (st_Relevant store) 0, False))"

definition proposal_value :: "agreementEnv \<Rightarrow> unauthenticatedProposal \<Rightarrow> proposalValue" where
  "proposal_value env p =
     \<lparr>pv_OriginalPeriod = up_OriginalPeriod p, pv_OriginalProposer = up_OriginalProposer p,
      pv_BlockDigest = ae_BlockDigest env (up_Block p), pv_EncodingDigest = ae_HashProposal env p\<rparr>"

section \<open>The order of credentials\<close>

lemma unat_succ_u64:
  assumes "(i :: u64) \<noteq> - 1"
  shows "unat (i + 1) = unat i + 1"
proof -
  have "unat i \<noteq> unat (- 1 :: u64)" using assms by (simp only: word_unat_eq_iff not_False_eq_True)
  then have "unat i + 1 < 2 ^ 64" using u64_bound [of i] by simp
  then show ?thesis by (simp add: unat_add_u64)
qed

lemma interval_split:
  assumes "(i :: u64) \<le> w" "i \<noteq> - 1"
  shows "{i..w} = insert i {i + 1..w}"
proof -
  have n: "x \<noteq> i \<Longrightarrow> i \<le> x \<longleftrightarrow> i + 1 \<le> x" for x
    unfolding word_le_nat_alt unat_succ_u64 [OF assms(2)] by (simp add: word_unat_eq_iff) linarith
  show ?thesis
  proof (rule set_eqI)
    fix x
    show "x \<in> {i..w} \<longleftrightarrow> x \<in> insert i {i + 1..w}" using n [of x] assms(1) by (cases "x = i") auto
  qed
qed

lemma lowestLoop_rest:
  assumes "unat i + n = unat (cr_Weight cred) + 1" "1 < i" "cr_Weight cred \<noteq> - 1"
  shows "lowestLoop env cred i lowest = Some (Min (insert lowest (outputAt env cred ` {i..cr_Weight cred})))"
  using assms(1,2)
proof (induction n arbitrary: i lowest)
  case 0
  then have e: "{i..cr_Weight cred} = {}" by (simp add: word_le_nat_alt)
  then have "\<not> i \<le> cr_Weight cred" by auto
  then show ?case unfolding e by (simp add: lowestLoop.simps [of env cred i])
next
  case (Suc n)
  have le: "i \<le> cr_Weight cred" using Suc.prems(1) by (simp add: word_le_nat_alt)
  have "i \<noteq> - 1" using le assms(3) by (metis word_order.extremum_uniqueI)
  note s = interval_split [OF le this] and u = unat_succ_u64 [OF this]
  let ?l = "if outputAt env cred i < lowest then outputAt env cred i else lowest"
  have i1: "1 < i + 1" "i \<noteq> 1" using Suc.prems(2) u by (auto simp: word_less_nat_alt)
  have "lowestLoop env cred i lowest = lowestLoop env cred (i + 1) ?l" using le i1(2) by (simp add: lowestLoop.simps [of env cred i])
  also have "\<dots> = Some (Min (insert ?l (outputAt env cred ` {i + 1..cr_Weight cred})))"
    by (rule Suc.IH) (use Suc.prems(1) u i1(1) in simp_all)
  also have "Min (insert ?l (outputAt env cred ` {i + 1..cr_Weight cred})) = Min (insert lowest (outputAt env cred ` {i..cr_Weight cred}))"
    unfolding s by (cases "{i + 1..cr_Weight cred} = {}") (auto simp: min_def)
  finally show ?case .
qed

lemma lowestOutput_Some:
  assumes "cr_Weight cred \<noteq> - 1"
  shows "lowestOutput env cred = Some (if cr_Weight cred = 0 then 0 else Min (outputAt env cred ` {1..cr_Weight cred}))"
proof (cases "cr_Weight cred = 0")
  case True
  then show ?thesis by (simp add: lowestOutput_def lowestLoop.simps [of env cred 1])
next
  case False
  then have le: "1 \<le> cr_Weight cred" by (simp add: word_le_nat_alt Suc_le_eq unat_gt_0)
  have s: "{1..cr_Weight cred} = insert 1 {2..cr_Weight cred}" using interval_split [OF le] by simp
  have "lowestOutput env cred = lowestLoop env cred 2 (outputAt env cred 1)"
    using le by (simp add: lowestOutput_def lowestLoop.simps [of env cred 1])
  also have "\<dots> = Some (Min (insert (outputAt env cred 1) (outputAt env cred ` {2..cr_Weight cred})))"
    using le by (intro lowestLoop_rest [where n = "unat (cr_Weight cred) - 1"] assms) (simp_all add: word_le_nat_alt)
  finally show ?thesis using False unfolding s by simp
qed

lemma lowestLoop_diverges:
  assumes "cr_Weight cred = - 1"
  shows "lowestLoop env cred i lowest = None"
proof -
  have "cr_Weight cred = - 1 \<longrightarrow> False" if "lowestLoop env cred i lowest = Some y" for y
    by (rule lowestLoop.raw_induct [OF _ that]) (auto split: if_splits)
  then show ?thesis using assms by (cases "lowestLoop env cred i lowest") auto
qed

abbreviation lowestOf :: "agreementEnv \<Rightarrow> vote \<Rightarrow> nat" where
  "lowestOf env v \<equiv> the (lowestOutput env (vt_Cred v))"

abbreviation comparable :: "vote \<Rightarrow> bool" where
  "comparable v \<equiv> cr_Weight (vt_Cred v) \<noteq> - 1"

lemma Credential_Less_Ok:
  "comparable v \<Longrightarrow> comparable w \<Longrightarrow> Credential_Less env (vt_Cred v) (vt_Cred w) = Ok (lowestOf env v < lowestOf env w)"
  by (simp add: Credential_Less_def lowestOutput_Some)

text \<open>
  C27. The comparison of credentials returns. The loop that computes the lowest output of a
  credential ends unless the weight is the greatest \<open>uint64\<close>, in which case its counter wraps
  and it never ends; when it ends and the weight is not zero, its result is the least of the
  hashes with the counters from one to the weight.
\<close>

theorem lowestOutput_returns:
  "(lowestOutput env cred = None \<longleftrightarrow> cr_Weight cred = - 1) \<and>
   (cr_Weight cred \<noteq> - 1 \<and> cr_Weight cred \<noteq> 0 \<longrightarrow> lowestOutput env cred = Some (Min (outputAt env cred ` {1..cr_Weight cred})))"
  using lowestOutput_Some [of cred env] lowestLoop_diverges [of cred env 1 0]
  by (cases "cr_Weight cred = - 1") (simp_all add: lowestOutput_def)

definition sampleEnv :: agreementEnv where
  "sampleEnv = \<lparr>ae_Consensus = Consensus, ae_HashCredential = (\<lambda>h. (hc_Member h + word_of_nat (unat (hc_Iter h))) * 37),
     ae_HashVrfOut = (\<lambda>h i. h + word_of_nat (unat i)), ae_BlockDigest = (\<lambda>b. word_of_nat (unat (bh_Round (bl_BlockHeader b)))),
     ae_HashProposal = (\<lambda>p. word_of_nat (unat (up_OriginalPeriod p)) + 1000)\<rparr>"

theorem lowestOutput_returns_witness:
  "lowestOutput sampleEnv (zeroCredential\<lparr>cr_Weight := 2, cr_VrfOut := 7\<rparr>) = Some 8"
proof -
  let ?c = "zeroCredential\<lparr>cr_Weight := 2, cr_VrfOut := 7\<rparr>"
  have "{1..2} = {1, 2 :: u64}" by (auto simp: word_le_nat_alt unat_arith_simps)
  then have "Min (outputAt sampleEnv ?c ` {1..2}) = 8" by (simp add: outputAt_def sampleEnv_def zeroCredential_def)
  then show ?thesis using lowestOutput_returns [of sampleEnv ?c] by simp
qed

section \<open>The best proposal\<close>

abbreviation trackerStep ::
    "agreementEnv \<Rightarrow> proposalTracker \<times> proposalTrackerContract \<Rightarrow> event
     \<Rightarrow> (agreement_error, (proposalTracker \<times> proposalTrackerContract) \<times> event) result" where
  "trackerStep env s e \<equiv> andThen (checkedProposalTracker env e s) (\<lambda>(out, s). Ok (s, out))"

definition isBest :: "agreementEnv \<Rightarrow> vote \<Rightarrow> vote list \<Rightarrow> bool" where
  "isBest env v vs \<longleftrightarrow> v \<in> set vs \<and> list_all (\<lambda>w. lowestOf env v \<le> lowestOf env w) vs"

text \<open>What a tracker knows after the votes \<open>vs\<close> and before it freezes.\<close>

definition tracked :: "agreementEnv \<Rightarrow> vote list \<Rightarrow> proposalTracker \<times> proposalTrackerContract \<Rightarrow> bool" where
  "tracked env vs s \<longleftrightarrow>
     (let (t, c) = s; f = pt_Freezer t in
      c = zeroTrackerContract\<lparr>ptc_SawOneVote := (vs \<noteq> [])\<rparr> \<and> pt_Staging t = bottom \<and> \<not> ps_Frozen f \<and> ps_Filled f = (vs \<noteq> []) \<and>
      (\<forall>a. mgetd False (pt_Duplicate t) a \<longleftrightarrow> a \<in> voteSender ` set vs) \<and>
      (if vs = [] then ps_Lowest f = zeroVote else isBest env (ps_Lowest f) vs))"

lemma tracked_start: "tracked env [] (zeroProposalTracker, zeroTrackerContract)"
  by (simp add: tracked_def zeroProposalTracker_def zeroSeeker_def zeroTrackerContract_def mgetd_def)

lemma isBest_snoc:
  "isBest env v vs \<Longrightarrow> lowestOf env v \<le> lowestOf env w \<Longrightarrow> isBest env v (vs @ [w])"
  "isBest env v vs \<Longrightarrow> \<not> lowestOf env v \<le> lowestOf env w \<Longrightarrow> isBest env w (vs @ [w])"
  "isBest env w [w]"
  by (auto simp: isBest_def list_all_iff)

lemma tracked_vote:
  assumes "tracked env vs (t, c)" "comparable v" "list_all comparable vs" "voteSender v \<notin> voteSender ` set vs" "me_T me = voteVerified" "m_Vote (me_Input me) = v"
  obtains s out where "trackerStep env (t, c) (MessageEv me) = Ok (s, out)" "tracked env (vs @ [v]) s"
proof -
  let ?f = "pt_Freezer t"
  have t: "c = zeroTrackerContract\<lparr>ptc_SawOneVote := (vs \<noteq> [])\<rparr>" "pt_Staging t = bottom" "\<not> ps_Frozen ?f" "ps_Filled ?f = (vs \<noteq> [])"
    "\<And>a. mgetd False (pt_Duplicate t) a \<longleftrightarrow> a \<in> voteSender ` set vs"
    "vs \<noteq> [] \<Longrightarrow> isBest env (ps_Lowest ?f) vs"
    using assms(1) by (auto simp: tracked_def Let_def)
  let ?less = "vs = [] \<or> lowestOf env v < lowestOf env (ps_Lowest ?f)"
  have "comparable (ps_Lowest ?f)" if "vs \<noteq> []"
    using t(6) [OF that] assms(3) by (auto simp: isBest_def list_all_iff)
  then have less: "(if ps_Filled ?f then Credential_Less env (vt_Cred v) (vt_Cred (ps_Lowest ?f)) else Ok True) = Ok ?less"
    using t(4) assms(2) Credential_Less_Ok by auto
  let ?t = "t\<lparr>pt_Duplicate := mput (voteSender v) True (pt_Duplicate t),
    pt_Freezer := if ?less then ?f\<lparr>ps_Lowest := v, ps_Filled := True\<rparr> else ?f\<rparr>"
  let ?out = "if ?less then acceptedFor (rv_Round (vt_R v)) (rv_Period (vt_R v)) (rv_Proposal (vt_R v))
    else FilteredEv voteFiltered (Some ''proposalTracker: filtered vote'')"
  have "trackProposalVote env t v = Ok (?out, ?t)"
    using t(2,3) assms(4) less by (simp add: trackProposalVote_def seeker_accept_def t(5) Let_def)
  then have "trackerStep env (t, c) (MessageEv me) = Ok ((?t, c\<lparr>ptc_SawOneVote := True\<rparr>), ?out)"
    using assms(5,6) t(1)
    by (simp add: checkedProposalTracker_def proposalTracker_handle_def proposalTrackerContract_pre_def proposalTrackerContract_post_def
        Let_def isAccepted_def isFiltered_def acceptedFor_def zeroTrackerContract_def)
  moreover have "tracked env (vs @ [v]) (?t, c\<lparr>ptc_SawOneVote := True\<rparr>)"
    using t isBest_snoc(1,2) [of env _ vs v] isBest_snoc(3) [of env v]
    by (cases "vs = []") (auto simp: tracked_def Let_def map_simps zeroTrackerContract_def not_less)
  ultimately show thesis by (rule that)
qed

lemma tracked_run:
  assumes "list_all (\<lambda>me. me_T me = voteVerified \<and> comparable (m_Vote (me_Input me))) mes"
    "distinct (map (\<lambda>me. voteSender (m_Vote (me_Input me))) mes)"
  obtains s outs where "runs (trackerStep env) (zeroProposalTracker, zeroTrackerContract) (map MessageEv mes) = Ok (s, outs)"
    "tracked env (map (\<lambda>me. m_Vote (me_Input me)) mes) s"
  using assms
proof (induction mes arbitrary: thesis rule: rev_induct)
  case Nil
  then show ?case using tracked_start by simp
next
  case (snoc me mes)
  let ?v = "\<lambda>me. m_Vote (me_Input me)"
  have p: "list_all (\<lambda>me. me_T me = voteVerified \<and> comparable (?v me)) mes" "distinct (map (\<lambda>me. voteSender (?v me)) mes)"
    "me_T me = voteVerified" "comparable (?v me)" using snoc.prems(2,3) by simp_all
  obtain s outs where s: "runs (trackerStep env) (zeroProposalTracker, zeroTrackerContract) (map MessageEv mes) = Ok (s, outs)"
    "tracked env (map ?v mes) s" by (rule snoc.IH [OF _ p(1,2)])
  obtain t c where tc: "s = (t, c)" by (cases s)
  have "list_all comparable (map ?v mes)" using p(1) unfolding list_all_iff by auto
  moreover have "voteSender (?v me) \<notin> voteSender ` set (map ?v mes)" using snoc.prems(3) by (auto simp: image_image)
  ultimately obtain s' out where "trackerStep env s (MessageEv me) = Ok (s', out)" "tracked env (map ?v mes @ [?v me]) s'"
    using tracked_vote [OF s(2) [unfolded tc] p(4) _ _ p(3) HOL.refl] unfolding tc by metis
  then have "runs (trackerStep env) (zeroProposalTracker, zeroTrackerContract) (map MessageEv (mes @ [me])) = Ok (s', outs @ [out])"
    "tracked env (map ?v (mes @ [me])) s'"
    using s(1) unfolding map_append list.map runs_snoc by blast+
  then show ?case by (rule snoc.prems(1))
qed

text \<open>
  C25. A node settles on the best proposal it has seen. Deliver proposal-votes of different
  senders, with weights below the greatest \<open>uint64\<close>, in any order, to the tracker of a fresh
  period and then ask it to freeze: no delivery violates the contract of the tracker, and the value it answers is that of a vote
  whose credential is the lowest of all, or bottom if there was no vote.
\<close>

theorem tracker_freezes_best:
  assumes "list_all (\<lambda>me. me_T me = voteVerified \<and> comparable (m_Vote (me_Input me))) mes"
    "distinct (map (\<lambda>me. voteSender (m_Vote (me_Input me))) mes)"
  shows "\<exists>s outs t pv. runs (trackerStep env) (zeroProposalTracker, zeroTrackerContract) (map MessageEv mes) = Ok (s, outs) \<and>
    checkedProposalTracker env (ProposalFrozenEv bottom) s = Ok (ProposalFrozenEv pv, t) \<and>
    (if mes = [] then pv = bottom
     else \<exists>v. isBest env v (map (\<lambda>me. m_Vote (me_Input me)) mes) \<and> pv = voteProposal v)"
proof -
  obtain s outs where s: "runs (trackerStep env) (zeroProposalTracker, zeroTrackerContract) (map MessageEv mes) = Ok (s, outs)"
    "tracked env (map (\<lambda>me. m_Vote (me_Input me)) mes) s" by (rule tracked_run [OF assms])
  obtain t c where tc: "s = (t, c)" by (cases s)
  let ?v = "ps_Lowest (pt_Freezer t)"
  have c: "\<not> ptc_Froze c" "ptc_SawOneVote c \<or> voteProposal ?v = bottom"
    "if mes = [] then voteProposal ?v = bottom else isBest env ?v (map (\<lambda>me. m_Vote (me_Input me)) mes)"
    using s(2) by (auto simp: tc tracked_def Let_def zeroTrackerContract_def zeroVote_def zeroRawVote_def split: if_splits)
  then have "\<exists>s'. checkedProposalTracker env (ProposalFrozenEv bottom) s = Ok (ProposalFrozenEv (voteProposal ?v), s')"
    by (auto simp: tc checkedProposalTracker_def proposalTrackerContract_pre_def proposalTracker_handle_def proposalTrackerContract_post_def Let_def)
  then show ?thesis using s(1) c(3) by (auto split: if_splits)
qed

definition proposalVoteOf :: "address \<Rightarrow> u64 \<Rightarrow> digest \<Rightarrow> vote" where
  "proposalVoteOf a w out = zeroVote\<lparr>vt_R := zeroRawVote\<lparr>rv_Sender := a, rv_Proposal := bottom\<lparr>pv_OriginalProposer := a\<rparr>\<rparr>,
     vt_Cred := zeroCredential\<lparr>cr_Weight := w, cr_VrfOut := out\<rparr>\<rparr>"

definition verifiedVote :: "vote \<Rightarrow> messageEvent" where
  "verifiedVote v = MessageEvent voteVerified (zeroMessage\<lparr>m_Vote := v, m_UnauthenticatedVote := vote_u v\<rparr>) None 0 None False zeroVersionView"

theorem tracker_freezes_best_witness:
  "\<exists>s outs t. runs (trackerStep sampleEnv) (zeroProposalTracker, zeroTrackerContract)
       (map MessageEv [verifiedVote (proposalVoteOf 5 2 7), verifiedVote (proposalVoteOf 6 1 3)]) = Ok (s, outs) \<and>
     checkedProposalTracker sampleEnv (ProposalFrozenEv bottom) s = Ok (ProposalFrozenEv (bottom\<lparr>pv_OriginalProposer := 6\<rparr>), t)"
proof -
  let ?v = "proposalVoteOf 5 2 7" and ?w = "proposalVoteOf 6 1 3"
  have l: "lowestOutput sampleEnv (vt_Cred ?v) = Some 8" "lowestOutput sampleEnv (vt_Cred ?w) = Some 4"
    by code_simp+
  have m: "me_T (verifiedVote v) = voteVerified" "m_Vote (me_Input (verifiedVote v)) = v" for v
    by (simp_all add: verifiedVote_def)
  have c: "comparable ?v" "comparable ?w" "voteSender ?v \<noteq> voteSender ?w" "voteProposal ?w = bottom\<lparr>pv_OriginalProposer := 6\<rparr>"
    by (simp_all add: proposalVoteOf_def zeroVote_def zeroRawVote_def)
  have b: "isBest sampleEnv v [?v, ?w] \<Longrightarrow> v = ?w" for v using l by (auto simp: isBest_def)
  have p: "list_all (\<lambda>me. me_T me = voteVerified \<and> comparable (m_Vote (me_Input me))) [verifiedVote ?v, verifiedVote ?w]"
    "distinct (map (\<lambda>me. voteSender (m_Vote (me_Input me))) [verifiedVote ?v, verifiedVote ?w])"
    using c(1-3) by (simp_all add: m)
  from tracker_freezes_best [OF p, of sampleEnv] obtain s outs t pv where
    s: "runs (trackerStep sampleEnv) (zeroProposalTracker, zeroTrackerContract) (map MessageEv [verifiedVote ?v, verifiedVote ?w]) = Ok (s, outs)"
    "checkedProposalTracker sampleEnv (ProposalFrozenEv bottom) s = Ok (ProposalFrozenEv pv, t)"
    and "\<exists>v. isBest sampleEnv v (map (\<lambda>me. m_Vote (me_Input me)) [verifiedVote ?v, verifiedVote ?w]) \<and> pv = voteProposal v"
    unfolding if_not_P [OF list.distinct(2)] by blast
  then have "pv = bottom\<lparr>pv_OriginalProposer := 6\<rparr>" using b c(4) by (auto simp only: list.map m)
  then show ?thesis using s by blast
qed

end
