(* ===== verification/Agreement_Router.thy ===== *)
theory Agreement_Router
  imports Proposal_Machines
begin

text \<open>
  The tree of state machines below the player and the router that dispatches events in it
  (\<open>src/agreement/router.go\<close>), with the machines that dispatch further: the trackers of a
  period and of a round of votes (\<open>voteAuxiliary.go\<close>), the store of proposals
  (\<open>proposalStore.go\<close>), the manager of proposals (\<open>proposalManager.go\<close>) and the aggregator of
  votes (\<open>voteAggregator.go\<close>).

  A router is a record with the state of its machines and a map of the routers below it. The
  code recurs through pointers; here a machine that handles an event gets the state of the
  router it belongs to and returns the new one. A handler dispatches to its own level and
  below only, so the levels are defined from the bottom up: \<open>*_reply\<close> is what a machine does
  with the events it sends to itself, and \<open>*_forward\<close> is the dispatch to the level below.
  Every dispatch first creates the router it is for and drops the outdated ones; a dispatch to
  a router that was dropped dereferences nil.
\<close>

section \<open>The player\<close>

record proposalTable =
  tbl_Pending :: "(int, messageEvent option) gomap"
  tbl_PendingNext :: int

record player =
  pl_Round :: round
  pl_Period :: period
  pl_Step :: step
  pl_LastConcluding :: step
  pl_Deadline :: duration
  pl_Napping :: bool
  pl_FastRecoveryDeadline :: duration
  pl_Pending :: proposalTable

datatype stateMachineTag = voteMachine | voteMachineRound | voteMachinePeriod | voteMachineStep
  | proposalMachine | proposalMachineRound | proposalMachinePeriod

section \<open>Steps\<close>

record voteTrackerContract =
  vtc_Step :: step
  vtc_StepOk :: bool
  vtc_Emitted :: bool

record stepRouter =
  sr_VoteTracker :: voteTracker
  sr_VoteTrackerContract :: voteTrackerContract

definition zeroStepRouter :: stepRouter where
  "zeroStepRouter = \<lparr>sr_VoteTracker = zeroTracker,
     sr_VoteTrackerContract = \<lparr>vtc_Step = 0, vtc_StepOk = False, vtc_Emitted = False\<rparr>\<rparr>"

definition voteTrackerContract_pre :: "voteTrackerContract \<Rightarrow> event \<Rightarrow> bool \<times> voteTrackerContract" where
  "voteTrackerContract_pre c e =
     (case e of
        VoteAcceptedEv v _ \<Rightarrow>
          let s = rv_Step (vt_R v) in
          if vtc_StepOk c then (s \<noteq> propose \<and> vtc_Step c = s, c)
          else (s \<noteq> propose, c\<lparr>vtc_StepOk := True, vtc_Step := s\<rparr>)
      | VoteFilterRequestEv _ \<Rightarrow> (True, c)
      | DumpVotesRequestEv \<Rightarrow> (True, c)
      | _ \<Rightarrow> (False, c))"

definition voteTrackerContract_post :: "voteTrackerContract \<Rightarrow> event \<Rightarrow> event \<Rightarrow> bool \<times> voteTrackerContract" where
  "voteTrackerContract_post c i out =
     (case i of
        VoteAcceptedEv v _ \<Rightarrow>
          (case out of
             ThresholdEv th \<Rightarrow>
               let s = rv_Step (vt_R v);
                   typeOk = (case th_T th of
                       noThreshold \<Rightarrow> True
                     | softThreshold \<Rightarrow> s = soft
                     | certThreshold \<Rightarrow> s = cert
                     | nextThreshold \<Rightarrow> s > cert);
                   onceOk = (th_T th = noThreshold \<or> \<not> vtc_Emitted c);
                   bottomOk = (th_T th = softThreshold \<or> th_T th = certThreshold \<longrightarrow> th_Proposal th \<noteq> bottom);
                   bundleOk = ((th_T th = noThreshold) = (ub_Votes (th_Bundle th) = []));
                   nextOk = (th_T th \<noteq> noThreshold \<and> th_Proposal th = bottom \<longrightarrow> th_Step th \<ge> next_step)
               in (typeOk \<and> onceOk \<and> bottomOk \<and> bundleOk \<and> nextOk,
                   if th_T th = noThreshold then c else c\<lparr>vtc_Emitted := True\<rparr>)
           | _ \<Rightarrow> (False, c))
      | VoteFilterRequestEv _ \<Rightarrow> (out = FilteredStepEv \<or> isNone out, c)
      | _ \<Rightarrow> (True, c))"

definition stepRouter_dispatch :: "agreementEnv \<Rightarrow> event \<Rightarrow> stateMachineTag \<Rightarrow> (agreement_error, stepRouter, event) effect" where
  "stepRouter_dispatch env e dest = (\<lambda>router.
     if dest \<noteq> voteMachineStep then Panic (LogPanic ''bad dispatch'')
     else
       let (ok, c) = voteTrackerContract_pre (sr_VoteTrackerContract router) e in
       if \<not> ok then Panic (LogPanic ''precondition violated'')
       else andThen (voteTracker_handle (ae_Consensus env) (sr_VoteTracker router) e) (\<lambda>(tracker, out).
         let (ok, c) = voteTrackerContract_post c e out in
         if \<not> ok then Panic (LogPanic ''postcondition violated'')
         else Ok (out, \<lparr>sr_VoteTracker = tracker, sr_VoteTrackerContract = c\<rparr>)))"

section \<open>Periods\<close>

record periodRouter =
  pr_ProposalTracker :: proposalTracker
  pr_VoteTrackerPeriod :: nextThresholdStatusEvent
  pr_ProposalTrackerContract :: proposalTrackerContract
  pr_Children :: "(step, stepRouter) gomap"

definition zeroPeriodRouter :: periodRouter where
  "zeroPeriodRouter = \<lparr>pr_ProposalTracker = zeroProposalTracker, pr_VoteTrackerPeriod = \<lparr>nts_Bottom = False, nts_Proposal = bottom\<rparr>,
     pr_ProposalTrackerContract = zeroTrackerContract, pr_Children = []\<rparr>"

definition periodRouter_update :: "step \<Rightarrow> periodRouter \<Rightarrow> periodRouter" where
  "periodRouter_update s router =
     (if mget (pr_Children router) s = None then router\<lparr>pr_Children := mput s zeroStepRouter (pr_Children router)\<rparr> else router)"

definition periodRouter_forward :: "agreementEnv \<Rightarrow> event \<Rightarrow> stateMachineTag \<Rightarrow> step \<Rightarrow> (agreement_error, periodRouter, event) effect" where
  "periodRouter_forward env e dest s = (\<lambda>router.
     let router = periodRouter_update s router in
     case mget (pr_Children router) s of
       None \<Rightarrow> Panic NilDereference
     | Some child \<Rightarrow> andThen (stepRouter_dispatch env e dest child) (\<lambda>(out, child).
         Ok (out, router\<lparr>pr_Children := mput s child (pr_Children router)\<rparr>)))"

definition voteTrackerPeriod_reply :: "event \<Rightarrow> (agreement_error, periodRouter, event) effect" where
  "voteTrackerPeriod_reply e = (\<lambda>router.
     let cached = pr_VoteTrackerPeriod router in
     case e of
       ThresholdEv th \<Rightarrow>
         if th_T th = nextThreshold
         then Ok (EmptyEvent, router\<lparr>pr_VoteTrackerPeriod :=
                if th_Proposal th = bottom then cached\<lparr>nts_Bottom := True\<rparr> else cached\<lparr>nts_Proposal := th_Proposal th\<rparr>\<rparr>)
         else Panic (LogPanic ''voteTrackerPeriod: bad event type'')
     | NextThresholdStatusRequestEv \<Rightarrow> Ok (NextThresholdStatusEv cached, router)
     | _ \<Rightarrow> Panic (LogPanic ''voteTrackerPeriod: bad event type''))"

definition voteTrackerPeriod_handle :: "agreementEnv \<Rightarrow> event \<Rightarrow> (agreement_error, periodRouter, event) effect" where
  "voteTrackerPeriod_handle env e =
     (case e of
        VoteAcceptedEv v _ \<Rightarrow>
          andDo (periodRouter_forward env e voteMachineStep (rv_Step (vt_R v))) (\<lambda>out.
            case out of
              ThresholdEv th \<Rightarrow>
                if th_T th \<noteq> noThreshold \<and> th_Step th \<ge> next_step
                then (\<lambda>router. andDo (voteTrackerPeriod_reply out) (\<lambda>_. ret out) (periodRouter_update 0 router))
                else ret out
            | _ \<Rightarrow> if isNone out then ret out else lift (Panic (LogPanic ''not a threshold'')))
      | _ \<Rightarrow> voteTrackerPeriod_reply e)"

definition periodRouter_dispatch :: "agreementEnv \<Rightarrow> event \<Rightarrow> stateMachineTag \<Rightarrow> step \<Rightarrow> (agreement_error, periodRouter, event) effect" where
  "periodRouter_dispatch env e dest s = (\<lambda>router.
     let router = periodRouter_update s router in
     if dest = proposalMachinePeriod then
       andThen (checkedProposalTracker env e (pr_ProposalTracker router, pr_ProposalTrackerContract router)) (\<lambda>(out, t, c).
         Ok (out, router\<lparr>pr_ProposalTracker := t, pr_ProposalTrackerContract := c\<rparr>))
     else if dest = voteMachinePeriod then voteTrackerPeriod_handle env e router
     else periodRouter_forward env e dest s router)"

section \<open>Rounds\<close>

record voteTrackerRound =
  vr_Freshest :: thresholdEvent
  vr_Ok :: bool

record roundRouter =
  rr_ProposalStore :: proposalStore
  rr_VoteTrackerRound :: voteTrackerRound
  rr_Children :: "(period, periodRouter) gomap"

definition zeroRoundRouter :: roundRouter where
  "zeroRoundRouter = \<lparr>rr_ProposalStore = zeroStore, rr_VoteTrackerRound = \<lparr>vr_Freshest = zeroThreshold, vr_Ok = False\<rparr>,
     rr_Children = []\<rparr>"

definition roundRouter_update :: "player \<Rightarrow> period \<Rightarrow> roundRouter \<Rightarrow> roundRouter" where
  "roundRouter_update state p router =
     (let children = (if mget (rr_Children router) p = None then mput p zeroPeriodRouter (rr_Children router) else rr_Children router)
      in router\<lparr>rr_Children := filter (\<lambda>(p, _). p + 1 \<ge> pl_Period state \<or> p \<le> 1) children\<rparr>)"

definition roundRouter_forward ::
    "agreementEnv \<Rightarrow> player \<Rightarrow> event \<Rightarrow> stateMachineTag \<Rightarrow> period \<Rightarrow> step \<Rightarrow> (agreement_error, roundRouter, event) effect" where
  "roundRouter_forward env state e dest p s = (\<lambda>router.
     let router = roundRouter_update state p router in
     case mget (rr_Children router) p of
       None \<Rightarrow> Panic NilDereference
     | Some child \<Rightarrow> andThen (periodRouter_dispatch env e dest s child) (\<lambda>(out, child).
         Ok (out, router\<lparr>rr_Children := mput p child (rr_Children router)\<rparr>)))"

definition fresherThan :: "thresholdEvent \<Rightarrow> thresholdEvent \<Rightarrow> (agreement_error, bool) result" where
  "fresherThan e other =
     (if th_T e = noThreshold \<and> th_T other = noThreshold then Ok True
      else if th_T e = noThreshold then Ok False
      else if th_T other = noThreshold then Ok True
      else if th_Round e \<noteq> th_Round other then Panic (LogPanic ''round mismatch'')
      else if th_T other = certThreshold then Ok False
      else Ok (case th_T e of
          softThreshold \<Rightarrow> th_Period e > th_Period other
        | certThreshold \<Rightarrow> True
        | _ \<Rightarrow>
            if th_Period e > th_Period other then True
            else if th_Period e < th_Period other then False
            else if th_T other = softThreshold then True
            else th_Proposal e = bottom \<and> th_Proposal other \<noteq> bottom))"

definition voteTrackerRound_reply :: "event \<Rightarrow> (agreement_error, roundRouter, event) effect" where
  "voteTrackerRound_reply e = (\<lambda>router.
     let t = rr_VoteTrackerRound router in
     case e of
       ThresholdEv th \<Rightarrow>
         if th_T th = noThreshold then Panic (LogPanic ''voteTrackerRound: bad event type'')
         else andThen (fresherThan th (vr_Freshest t)) (\<lambda>fresher.
           if fresher then Ok (e, router\<lparr>rr_VoteTrackerRound := \<lparr>vr_Freshest = th, vr_Ok = True\<rparr>\<rparr>)
           else Ok (EmptyEvent, router))
     | FreshestBundleRequestEv \<Rightarrow> Ok (FreshestBundleEv (vr_Ok t) (vr_Freshest t), router)
     | _ \<Rightarrow> Panic (LogPanic ''voteTrackerRound: bad event type''))"

definition voteTrackerRound_handle :: "agreementEnv \<Rightarrow> player \<Rightarrow> event \<Rightarrow> (agreement_error, roundRouter, event) effect" where
  "voteTrackerRound_handle env state e =
     (case e of
        VoteAcceptedEv v _ \<Rightarrow>
          andDo (roundRouter_forward env state e voteMachinePeriod (rv_Period (vt_R v)) 0) (\<lambda>out.
            if isNone out then ret EmptyEvent
            else (\<lambda>router. voteTrackerRound_reply out (roundRouter_update state 0 router)))
      | _ \<Rightarrow> voteTrackerRound_reply e)"

section \<open>The store of proposals\<close>

definition updStore :: "(proposalStore \<Rightarrow> proposalStore) \<Rightarrow> roundRouter \<Rightarrow> roundRouter" where
  "updStore f router = router\<lparr>rr_ProposalStore := f (rr_ProposalStore router)\<rparr>"

text \<open>The answer to a request for the staging value, at the level of the round.\<close>

definition readStaging :: "agreementEnv \<Rightarrow> player \<Rightarrow> stagingValueEvent \<Rightarrow> (agreement_error, roundRouter, stagingValueEvent) effect" where
  "readStaging env state se =
     andDo (roundRouter_forward env state (StagingValueEv se) proposalMachinePeriod (sv_Period se) 0) (\<lambda>out.
       case out of
         StagingValueEv se \<Rightarrow> (\<lambda>router.
           let ea = assemblerOf (rr_ProposalStore router) (sv_Proposal se) in
           Ok (se\<lparr>sv_Committable := ba_Assembled ea, sv_Payload := ba_Payload ea\<rparr>, router))
       | _ \<Rightarrow> lift (Panic (LogPanic ''not a staging value'')))"

definition stagedAt :: "round \<Rightarrow> period \<Rightarrow> stagingValueEvent" where
  "stagedAt r p = \<lparr>sv_Round = r, sv_Period = p, sv_Proposal = bottom, sv_Payload = zeroProposal, sv_Committable = False\<rparr>"

text \<open>A dispatch of the request by the store itself goes through \<open>update\<close> of the router once more.\<close>

definition stagedValue_store :: "agreementEnv \<Rightarrow> player \<Rightarrow> (agreement_error, roundRouter, stagingValueEvent) effect" where
  "stagedValue_store env state = (\<lambda>router.
     readStaging env state (stagedAt (pl_Round state) (pl_Period state)) (roundRouter_update state (pl_Period state) router))"

definition store_voteVerified :: "agreementEnv \<Rightarrow> player \<Rightarrow> event \<Rightarrow> vote \<Rightarrow> (agreement_error, roundRouter, event) effect" where
  "store_voteVerified env state e v =
     andDo (roundRouter_forward env state e proposalMachinePeriod (rv_Period (vt_R v)) 0) (\<lambda>ev.
       case ev of
         ProposalAcceptedEv pa \<Rightarrow> (\<lambda>router.
           let store = rr_ProposalStore router;
               ea = assemblerOf store (pa_Proposal pa);
               ea = ea\<lparr>ba_Authenticators := ba_Authenticators ea @ [v]\<rparr>;
               store = store\<lparr>st_Assemblers := mput (pa_Proposal pa) ea (st_Assemblers store),
                             st_Relevant := mput (rv_Period (vt_R v)) (pa_Proposal pa) (st_Relevant store)\<rparr>
           in Ok (ProposalAcceptedEv (pa\<lparr>pa_Payload := ba_Payload ea, pa_PayloadOk := ba_Assembled ea\<rparr>),
                  router\<lparr>rr_ProposalStore := store_trim (pl_Period state) store\<rparr>))
       | _ \<Rightarrow> ret ev)"

definition payloadRejectedEv :: "string \<Rightarrow> event" where
  "payloadRejectedEv err = PayloadProcessedEv (zeroPayloadProcessed\<lparr>ppe_Err := Some err\<rparr>)"

definition pipelinedEv :: "proposalStore \<Rightarrow> period \<Rightarrow> proposalValue \<Rightarrow> blockAssembler \<Rightarrow> unauthenticatedProposal \<Rightarrow> event" where
  "pipelinedEv store p pv ea up =
     (let (relevantPeriod, pinned) = lastRelevant store pv in
      PayloadProcessedEv (zeroPayloadProcessed\<lparr>ppe_T := payloadPipelined, ppe_Vote := authenticator ea p,
        ppe_Period := relevantPeriod, ppe_Pinned := pinned, ppe_Proposal := pv, ppe_UnauthenticatedPayload := up\<rparr>))"

definition store_payloadPresent :: "agreementEnv \<Rightarrow> player \<Rightarrow> unauthenticatedProposal \<Rightarrow> (agreement_error, roundRouter, event) effect" where
  "store_payloadPresent env state up = (\<lambda>router.
     let store = rr_ProposalStore router; pv = proposal_value env up in
     case mget (st_Assemblers store) pv of
       None \<Rightarrow> Ok (payloadRejectedEv ''proposalStore: no accepting blockAssembler found on payloadPresent'', router)
     | Some ea \<Rightarrow>
         let (ea', err) = assembler_pipeline ea up;
             store = store\<lparr>st_Assemblers := mput pv ea' (st_Assemblers store)\<rparr>;
             router = router\<lparr>rr_ProposalStore := store\<rparr> in
         case err of
           Some err \<Rightarrow> Ok (payloadRejectedEv err, router)
         | None \<Rightarrow> Ok (pipelinedEv store (pl_Period state) pv ea up, router))"

definition store_payloadVerified :: "agreementEnv \<Rightarrow> player \<Rightarrow> proposal \<Rightarrow> (agreement_error, roundRouter, event) effect" where
  "store_payloadVerified env state pp = (\<lambda>router.
     let store = rr_ProposalStore router; pv = proposal_value env (pp_Unauthenticated pp) in
     case mget (st_Assemblers store) pv of
       None \<Rightarrow> Ok (payloadRejectedEv ''proposalStore: no accepting blockAssembler found on payloadVerified'', router)
     | Some ea \<Rightarrow>
         let (ea', err) = assembler_bind ea pp;
             router = router\<lparr>rr_ProposalStore := store\<lparr>st_Assemblers := mput pv ea' (st_Assemblers store)\<rparr>\<rparr> in
         case err of
           Some err \<Rightarrow> Ok (payloadRejectedEv err, router)
         | None \<Rightarrow>
             andDo (stagedValue_store env state) (\<lambda>a.
               let authVote = authenticator ea (pl_Period state) in
               ret (if sv_Proposal a = pv then CommittableEv pv authVote
                    else PayloadProcessedEv (zeroPayloadProcessed\<lparr>ppe_T := payloadAccepted, ppe_Vote := authVote, ppe_Proposal := pv\<rparr>)))
             router)"

definition store_newPeriod :: "agreementEnv \<Rightarrow> player \<Rightarrow> period \<Rightarrow> proposalValue \<Rightarrow> (agreement_error, roundRouter, event) effect" where
  "store_newPeriod env state per starting =
     andDo (stagedValue_store env state) (\<lambda>se. (\<lambda>router.
       Ok (EmptyEvent, updStore (\<lambda>store.
         let store = (if starting \<noteq> bottom then store\<lparr>st_Pinned := starting\<rparr>
                      else if sv_Proposal se \<noteq> bottom then store\<lparr>st_Pinned := sv_Proposal se\<rparr> else store)
         in store_trim (pl_Period state)
              (store\<lparr>st_Relevant := filter (\<lambda>(p, _). \<not> p + 1 < per) (st_Relevant store)\<rparr>)) router)))"

definition store_newRound :: "player \<Rightarrow> (agreement_error, roundRouter, event) effect" where
  "store_newRound state = (\<lambda>router.
     let store = rr_ProposalStore router in
     case st_Assemblers store of
       [] \<Rightarrow> Ok (EmptyEvent, router)
     | [(pv, ea)] \<Rightarrow>
         if ba_Filled ea then Ok (pipelinedEv store (pl_Period state) pv ea (ba_Pipeline ea), router)
         else Ok (EmptyEvent, router)
     | _ \<Rightarrow> Panic (LogPanic ''too many assemblers''))"

definition store_threshold :: "agreementEnv \<Rightarrow> player \<Rightarrow> thresholdEvent \<Rightarrow> (agreement_error, roundRouter, event) effect" where
  "store_threshold env state te =
     andDo (roundRouter_forward env state (ThresholdEv te) proposalMachinePeriod (th_Period te) 0) (\<lambda>ev.
       case ev of
         ProposalAcceptedEv pa \<Rightarrow> (\<lambda>router.
           let store = rr_ProposalStore router; ea = assemblerOf store (pa_Proposal pa) in
           if ba_Assembled ea then Ok (CommittableEv (pa_Proposal pa) (authenticator ea (pl_Period state)), router)
           else
             let store = store\<lparr>st_Assemblers := mput (pa_Proposal pa) ea (st_Assemblers store),
                               st_Relevant := mput (th_Period te) (pa_Proposal pa) (st_Relevant store)\<rparr>
             in Ok (ProposalAcceptedEv (pa\<lparr>pa_Payload := ba_Payload ea, pa_PayloadOk := ba_Assembled ea\<rparr>),
                    router\<lparr>rr_ProposalStore := store_trim (pl_Period state) store\<rparr>))
       | _ \<Rightarrow> lift (Panic (LogPanic ''not a proposalAccepted event'')))"

definition store_readPinned :: "pinnedValueEvent \<Rightarrow> (agreement_error, roundRouter, event) effect" where
  "store_readPinned se = (\<lambda>router.
     let store = rr_ProposalStore router; ea = assemblerOf store (st_Pinned store) in
     Ok (PinnedValueEv (se\<lparr>pin_Proposal := st_Pinned store, pin_PayloadOK := ba_Assembled ea, pin_Payload := ba_Payload ea\<rparr>), router))"

definition proposalStore_handle :: "agreementEnv \<Rightarrow> player \<Rightarrow> event \<Rightarrow> (agreement_error, roundRouter, event) effect" where
  "proposalStore_handle env state e =
     (case e of
        MessageEv me \<Rightarrow>
          (case me_T me of
             voteVerified \<Rightarrow> store_voteVerified env state e (m_Vote (me_Input me))
           | payloadPresent \<Rightarrow> store_payloadPresent env state (m_UnauthenticatedProposal (me_Input me))
           | payloadVerified \<Rightarrow> store_payloadVerified env state (m_Proposal (me_Input me))
           | _ \<Rightarrow> lift (Panic (LogPanic ''proposalStore: bad event type'')))
      | NewPeriodEv per pv \<Rightarrow> store_newPeriod env state per pv
      | NewRoundEv \<Rightarrow> store_newRound state
      | ThresholdEv te \<Rightarrow>
          if isStagingThreshold te then store_threshold env state te
          else lift (Panic (LogPanic ''proposalStore: bad event type''))
      | StagingValueEv se \<Rightarrow> andDo (readStaging env state se) (\<lambda>se. ret (StagingValueEv se))
      | PinnedValueEv se \<Rightarrow> store_readPinned se
      | _ \<Rightarrow> lift (Panic (LogPanic ''proposalStore: bad event type'')))"

definition roundRouter_dispatch ::
    "agreementEnv \<Rightarrow> player \<Rightarrow> event \<Rightarrow> stateMachineTag \<Rightarrow> period \<Rightarrow> step \<Rightarrow> (agreement_error, roundRouter, event) effect" where
  "roundRouter_dispatch env state e dest p s = (\<lambda>router.
     let router = roundRouter_update state p router in
     if dest = proposalMachineRound then proposalStore_handle env state e router
     else if dest = voteMachineRound then voteTrackerRound_handle env state e router
     else roundRouter_forward env state e dest p s router)"

section \<open>The root\<close>

record rootRouter =
  root_Children :: "(round, roundRouter) gomap"

definition rootRouter_update :: "player \<Rightarrow> round \<Rightarrow> rootRouter \<Rightarrow> rootRouter" where
  "rootRouter_update state r router =
     (let children = (if mget (root_Children router) r = None then mput r zeroRoundRouter (root_Children router) else root_Children router)
      in router\<lparr>root_Children := filter (\<lambda>(r, _). r \<ge> pl_Round state) children\<rparr>)"

definition rootRouter_forward ::
    "agreementEnv \<Rightarrow> player \<Rightarrow> event \<Rightarrow> stateMachineTag \<Rightarrow> round \<Rightarrow> period \<Rightarrow> step \<Rightarrow> (agreement_error, rootRouter, event) effect" where
  "rootRouter_forward env state e dest r p s = (\<lambda>router.
     let router = rootRouter_update state r router in
     case mget (root_Children router) r of
       None \<Rightarrow> Panic NilDereference
     | Some child \<Rightarrow> andThen (roundRouter_dispatch env state e dest p s child) (\<lambda>(out, child).
         Ok (out, router\<lparr>root_Children := mput r child (root_Children router)\<rparr>)))"

section \<open>The manager of proposals\<close>

definition proposalFresh :: "freshnessData \<Rightarrow> unauthenticatedVote \<Rightarrow> serializableError" where
  "proposalFresh fd uv =
     (let rv = uvt_R uv in
      if rv_Round rv = fd_PlayerRound fd then
        if fd_PlayerPeriod fd \<noteq> 0 \<and> fd_PlayerPeriod fd - 1 > rv_Period rv then Some ''filtered stale proposal''
        else if fd_PlayerPeriod fd + 1 < rv_Period rv then Some ''filtered premature proposal''
        else None
      else if rv_Round rv = fd_PlayerRound fd + 1 then
        if rv_Period rv \<noteq> 0 then Some ''filtered premature proposal from next round'' else None
      else Some ''filtered proposal from bad round'')"

definition filterProposalVote ::
    "agreementEnv \<Rightarrow> player \<Rightarrow> unauthenticatedVote \<Rightarrow> freshnessData \<Rightarrow> (agreement_error, rootRouter, serializableError) effect" where
  "filterProposalVote env state uv fd =
     (if proposalFresh fd uv \<noteq> None then ret (Some ''proposalManager: filtered proposal-vote due to age'')
      else andDo (rootRouter_forward env state (VoteFilterRequestEv (uvt_R uv)) proposalMachinePeriod
                    (rv_Round (uvt_R uv)) (rv_Period (uvt_R uv)) 0) (\<lambda>sawVote.
        ret (if isFiltered sawVote then Some ''proposalManager: filtered proposal-vote'' else None)))"

definition manager_payloadPresent :: "agreementEnv \<Rightarrow> player \<Rightarrow> messageEvent \<Rightarrow> (agreement_error, rootRouter, event) effect" where
  "manager_payloadPresent env state me =
     (let propRound = Block_Round (up_Block (m_UnauthenticatedProposal (me_Input me)));
          (r, p) = (if pl_Round state = propRound then (pl_Round state, pl_Period state) else (pl_Round state + 1, 0)) in
      andDo (rootRouter_forward env state (MessageEv me) proposalMachineRound r p 0) (\<lambda>out.
        case out of
          PayloadProcessedEv ep \<Rightarrow>
            if ppe_T ep = payloadRejected then ret out else ret (PayloadProcessedEv (ep\<lparr>ppe_Round := r\<rparr>))
        | _ \<Rightarrow> lift (Panic (LogPanic ''not a payloadProcessed event''))))"

definition manager_handleMessageEvent ::
    "agreementEnv \<Rightarrow> player \<Rightarrow> messageEvent \<Rightarrow> freshnessData \<Rightarrow> (agreement_error, rootRouter, event) effect" where
  "manager_handleMessageEvent env state me fd =
     (case me_T me of
        votePresent \<Rightarrow>
          andDo (filterProposalVote env state (m_UnauthenticatedVote (me_Input me)) fd) (\<lambda>err.
          ret (if err \<noteq> None then FilteredEv voteFiltered err else EmptyEvent))
      | voteVerified \<Rightarrow>
          if me_Cancelled me then ret (FilteredEv voteFiltered (me_Err me))
          else if me_Err me \<noteq> None then ret (FilteredEv voteMalformed (me_Err me))
          else
            let v = m_Vote (me_Input me) in
            if proposalFresh fd (vote_u v) \<noteq> None
            then ret (FilteredEv voteFiltered (Some ''proposalManager: ignoring proposal-vote due to age''))
            else rootRouter_forward env state (MessageEv me) proposalMachineRound (rv_Round (vt_R v)) (rv_Period (vt_R v)) 0
      | payloadPresent \<Rightarrow> manager_payloadPresent env state me
      | _ \<Rightarrow>
          if me_Cancelled me then ret (PayloadProcessedEv (zeroPayloadProcessed\<lparr>ppe_Err := me_Err me\<rparr>))
          else if me_Err me \<noteq> None then ret (FilteredEv payloadMalformed (me_Err me))
          else rootRouter_forward env state (MessageEv me) proposalMachineRound (pl_Round state) (pl_Period state) 0)"

definition handleNewPeriod :: "agreementEnv \<Rightarrow> player \<Rightarrow> thresholdEvent \<Rightarrow> (agreement_error, rootRouter, event) effect" where
  "handleNewPeriod env state e =
     (let target = (if th_T e = nextThreshold then th_Period e + 1 else th_Period e) in
      rootRouter_forward env state (NewPeriodEv target (th_Proposal e)) proposalMachineRound (th_Round e) 0 0)"

definition proposalManagerContract_pre :: "player \<Rightarrow> event \<Rightarrow> bool" where
  "proposalManagerContract_pre state e =
     (case e of
        FilterableMessageEv me _ \<Rightarrow> me_T me \<in> {votePresent, voteVerified, payloadPresent, payloadVerified}
      | RoundInterruptionEv _ _ \<Rightarrow> True
      | ThresholdEv th \<Rightarrow>
          th_T th \<noteq> noThreshold \<and> pl_Round state = th_Round th \<and>
          (th_T th \<noteq> certThreshold \<longrightarrow> \<not> pl_Period state > th_Period th) \<and>
          (th_T th = softThreshold \<longrightarrow> th_Proposal th \<noteq> bottom)
      | _ \<Rightarrow> False)"

definition proposalManager_handle :: "agreementEnv \<Rightarrow> player \<Rightarrow> event \<Rightarrow> (agreement_error, rootRouter, event) effect" where
  "proposalManager_handle env state e =
     (case e of
        FilterableMessageEv me fd \<Rightarrow> manager_handleMessageEvent env state me fd
      | RoundInterruptionEv r _ \<Rightarrow> rootRouter_forward env state NewRoundEv proposalMachineRound r 0 0
      | ThresholdEv th \<Rightarrow>
          if isStagingThreshold th then
            andDo (if pl_Period state < th_Period th then handleNewPeriod env state th else ret EmptyEvent) (\<lambda>_.
            rootRouter_forward env state e proposalMachineRound (th_Round th) (th_Period th) 0)
          else andDo (handleNewPeriod env state th) (\<lambda>_. ret EmptyEvent)
      | _ \<Rightarrow> lift (Panic (LogPanic ''proposalManager: bad event type'')))"

section \<open>The aggregator of votes\<close>

definition voteStepFresh :: "step \<Rightarrow> step \<Rightarrow> bool" where
  "voteStepFresh mine vote =
     (if vote \<le> next_step then True
      else if vote \<ge> late then True
      else if mine \<noteq> 0 \<and> mine - 1 > vote then False
      else \<not> mine + 1 < vote)"

definition voteFresh :: "freshnessData \<Rightarrow> unauthenticatedVote \<Rightarrow> bool" where
  "voteFresh fd uv =
     (let rv = uvt_R uv in
      if fd_PlayerRound fd \<noteq> rv_Round rv \<and> fd_PlayerRound fd + 1 \<noteq> rv_Round rv then False
      else if fd_PlayerRound fd + 1 = rv_Round rv then
        if rv_Period rv > 0 then False else voteStepFresh 0 (rv_Step rv)
      else if rv_Period rv = fd_PlayerPeriod fd - 1 then
        fd_PlayerPeriod fd \<noteq> 0 \<and> voteStepFresh (fd_PlayerLastConcluding fd) (rv_Step rv)
      else if rv_Period rv = fd_PlayerPeriod fd then voteStepFresh (fd_PlayerStep fd) (rv_Step rv)
      else if rv_Period rv = fd_PlayerPeriod fd + 1 then voteStepFresh soft (rv_Step rv)
      else False)"

definition bundleFresh :: "freshnessData \<Rightarrow> unauthenticatedBundle \<Rightarrow> bool" where
  "bundleFresh fd b =
     (if fd_PlayerRound fd \<noteq> ub_Round b then False
      else if ub_Step b = cert then True
      else \<not> (fd_PlayerPeriod fd \<noteq> 0 \<and> fd_PlayerPeriod fd - 1 > ub_Period b))"

definition filterVote :: "agreementEnv \<Rightarrow> player \<Rightarrow> unauthenticatedVote \<Rightarrow> freshnessData \<Rightarrow> (agreement_error, rootRouter, serializableError) effect" where
  "filterVote env state uv fd =
     (let rv = uvt_R uv in
      if \<not> voteFresh fd uv then ret (Some ''voteAggregator: rejected vote due to age'')
      else andDo (rootRouter_forward env state (VoteFilterRequestEv rv) voteMachineStep (rv_Round rv) (rv_Period rv) (rv_Step rv)) (\<lambda>out.
        case out of
          FilteredStepEv \<Rightarrow> ret (Some ''voteAggregator: rejected vote'')
        | _ \<Rightarrow> if isNone out then ret None else lift (Panic (LogPanic ''voteAggregator: bad event type'')))) "

definition deliverVote :: "agreementEnv \<Rightarrow> player \<Rightarrow> consensusVersion \<Rightarrow> vote \<Rightarrow> (agreement_error, rootRouter, event) effect" where
  "deliverVote env state ver v =
     rootRouter_forward env state (VoteAcceptedEv v ver) voteMachineRound (rv_Round (vt_R v)) (rv_Period (vt_R v)) (rv_Step (vt_R v))"

text \<open>The loop over the votes of a bundle; it keeps the last threshold event.\<close>

fun deliverVotes ::
    "agreementEnv \<Rightarrow> player \<Rightarrow> consensusVersion \<Rightarrow> vote list \<Rightarrow> event option \<Rightarrow> (agreement_error, rootRouter, event option) effect" where
  "deliverVotes env state ver [] threshEvent = ret threshEvent"
| "deliverVotes env state ver (v # vs) threshEvent =
     andDo (deliverVote env state ver v) (\<lambda>e.
     deliverVotes env state ver vs (case e of ThresholdEv th \<Rightarrow> if th_T th \<noteq> noThreshold then Some e else threshEvent | _ \<Rightarrow> threshEvent))"

definition bundleVotes :: "verifiedBundle \<Rightarrow> vote list" where
  "bundleVotes b = bd_Votes b @ concat (map (\<lambda>pair. [v0 pair, v1 pair]) (bd_EquivocationVotes b))"

definition aggregator_voteVerified ::
    "agreementEnv \<Rightarrow> player \<Rightarrow> messageEvent \<Rightarrow> freshnessData \<Rightarrow> (agreement_error, rootRouter, event) effect" where
  "aggregator_voteVerified env state me fd =
     (if me_Cancelled me \<or> cvv_Err (me_Proto me) \<noteq> None then ret (FilteredEv voteFiltered (me_Err me))
      else if me_Err me \<noteq> None then ret (FilteredEv voteMalformed (me_Err me))
      else
        let v = m_Vote (me_Input me) in
        andDo (filterVote env state (vote_u v) fd) (\<lambda>err.
        if err \<noteq> None then ret (FilteredEv voteFiltered err)
        else andDo (deliverVote env state (cvv_Version (me_Proto me)) v) (\<lambda>tE.
          if isNone tE then ret tE
          else case tE of
              ThresholdEv th \<Rightarrow>
                if th_Round th = fd_PlayerRound fd then ret tE
                else if th_Round th = fd_PlayerRound fd + 1 then ret EmptyEvent
                else lift (Panic (LogPanic ''bad round''))
            | _ \<Rightarrow> lift (Panic (LogPanic ''not a threshold'')))))"

definition aggregator_bundleVerified ::
    "agreementEnv \<Rightarrow> player \<Rightarrow> messageEvent \<Rightarrow> freshnessData \<Rightarrow> (agreement_error, rootRouter, event) effect" where
  "aggregator_bundleVerified env state me fd =
     (if me_Cancelled me \<or> cvv_Err (me_Proto me) \<noteq> None then ret (FilteredEv bundleFiltered (me_Err me))
      else if me_Err me \<noteq> None then ret (FilteredEv bundleMalformed (me_Err me))
      else
        let b = m_Bundle (me_Input me) in
        if \<not> bundleFresh fd (bd_U b) then ret (FilteredEv bundleFiltered (Some ''voteAggregator: rejected bundle due to age''))
        else andDo (deliverVotes env state (cvv_Version (me_Proto me)) (bundleVotes b) None) (\<lambda>threshEvent.
          case threshEvent of
            Some e \<Rightarrow> ret e
          | None \<Rightarrow> ret (FilteredEv bundleFiltered (Some ''bundle failed to cause a significant state change''))))"

definition voteAggregator_handle :: "agreementEnv \<Rightarrow> player \<Rightarrow> event \<Rightarrow> (agreement_error, rootRouter, event) effect" where
  "voteAggregator_handle env state em =
     (case em of
        FilterableMessageEv me fd \<Rightarrow>
          (case me_T me of
             votePresent \<Rightarrow>
               if cvv_Err (me_Proto me) \<noteq> None then ret (FilteredEv voteFiltered (cvv_Err (me_Proto me)))
               else andDo (filterVote env state (m_UnauthenticatedVote (me_Input me)) fd) (\<lambda>err.
                 ret (if err \<noteq> None then FilteredEv voteFiltered err else EmptyEvent))
           | voteVerified \<Rightarrow> aggregator_voteVerified env state me fd
           | bundlePresent \<Rightarrow>
               ret (if bundleFresh fd (m_UnauthenticatedBundle (me_Input me)) then EmptyEvent
                    else FilteredEv bundleFiltered (Some ''voteAggregator: rejected bundle due to age''))
           | bundleVerified \<Rightarrow> aggregator_bundleVerified env state me fd
           | _ \<Rightarrow> lift (Panic (LogPanic ''voteAggregator: bad event type'')))
      | _ \<Rightarrow> lift (Panic (LogPanic ''voteAggregator: bad event type'')))"

definition voteAggregatorContract_post :: "event \<Rightarrow> event \<Rightarrow> bool" where
  "voteAggregatorContract_post i out =
     (case i of
        FilterableMessageEv me _ \<Rightarrow>
          (case out of
             FilteredEv voteFiltered _ \<Rightarrow> me_T me = votePresent \<or> me_T me = voteVerified
           | FilteredEv voteMalformed _ \<Rightarrow> me_T me = voteVerified
           | ThresholdEv th \<Rightarrow> th_T th = noThreshold \<or> me_T me = voteVerified \<or> me_T me = bundleVerified
           | _ \<Rightarrow> True)
      | _ \<Rightarrow> False)"

definition rootRouter_dispatch ::
    "agreementEnv \<Rightarrow> player \<Rightarrow> event \<Rightarrow> stateMachineTag \<Rightarrow> round \<Rightarrow> period \<Rightarrow> step \<Rightarrow> (agreement_error, rootRouter, event) effect" where
  "rootRouter_dispatch env state e dest r p s = (\<lambda>router.
     let router = rootRouter_update state r router in
     if dest = proposalMachine then
       if proposalManagerContract_pre state e then proposalManager_handle env state e router
       else Panic (LogPanic ''precondition violated'')
     else if dest = voteMachine then
       andDo (voteAggregator_handle env state e) (\<lambda>out.
         if voteAggregatorContract_post e out then ret out else lift (Panic (LogPanic ''postcondition violated''))) router
     else rootRouter_forward env state e dest r p s router)"

text \<open>\<open>stagedValue\<close> and \<open>pinnedValue\<close>, as the player calls them.\<close>

definition stagedValue :: "agreementEnv \<Rightarrow> player \<Rightarrow> round \<Rightarrow> period \<Rightarrow> (agreement_error, rootRouter, stagingValueEvent) effect" where
  "stagedValue env state r p =
     andDo (rootRouter_dispatch env state (StagingValueEv (stagedAt r p)) proposalMachineRound r p 0) (\<lambda>out.
       case out of StagingValueEv se \<Rightarrow> ret se | _ \<Rightarrow> lift (Panic (LogPanic ''not a staging value'')))"

definition pinnedValue :: "agreementEnv \<Rightarrow> player \<Rightarrow> round \<Rightarrow> (agreement_error, rootRouter, pinnedValueEvent) effect" where
  "pinnedValue env state r =
     andDo (rootRouter_dispatch env state (PinnedValueEv \<lparr>pin_Round = r, pin_Proposal = bottom, pin_Payload = zeroProposal, pin_PayloadOK = False\<rparr>)
              proposalMachineRound r 0 0) (\<lambda>out.
       case out of PinnedValueEv se \<Rightarrow> ret se | _ \<Rightarrow> lift (Panic (LogPanic ''not a pinned value'')))"

end
