(* ===== verification/Agreement_Player.thy ===== *)
theory Agreement_Player
  imports Agreement_Router
begin

text \<open>
  The player, the top-level state machine of the agreement protocol (\<open>src/agreement/player.go\<close>,
  \<open>proposalTable.go\<close>). An operation changes the player and the tree of machines below it and
  returns the actions it asks the service to perform. Logging, tracing and timing statistics
  are left out.

  \<open>handle\<close> calls itself: on the event attached to a proposal-vote, on the threshold that a
  vote or bundle caused, and, in a new round, on the freshest threshold already seen for it.
  The functions below take the handler of such an event as an argument, and \<open>player_handle\<close>
  ties the knot with a bound on the depth of the calls; \<open>OutOfFuel\<close> is the error of a bound
  that was too small. \<open>Agreement_Fuel\<close> proves that some bound is enough in every state a
  service reaches, and that larger bounds give the same result.
\<close>

type_synonym machineState = "player \<times> rootRouter"
type_synonym 'a playerOp = "(agreement_error, machineState, 'a) effect"
type_synonym handler = "event \<Rightarrow> action list playerOp"

section \<open>The table of pending proposals\<close>

definition table_push :: "proposalTable \<Rightarrow> messageEvent option \<Rightarrow> int \<times> proposalTable" where
  "table_push t e =
     (let seq = tbl_PendingNext t + 1 in (seq, \<lparr>tbl_Pending = mput seq e (tbl_Pending t), tbl_PendingNext = seq\<rparr>))"

definition table_pop :: "proposalTable \<Rightarrow> int \<Rightarrow> messageEvent option \<times> proposalTable" where
  "table_pop t taskIndex = (mgetd None (tbl_Pending t) taskIndex, t\<lparr>tbl_Pending := mdel taskIndex (tbl_Pending t)\<rparr>)"

section \<open>Operations on the player and its machines\<close>

definition getPlayer :: "player playerOp" where
  "getPlayer = (\<lambda>(p, root). Ok (p, (p, root)))"

definition updPlayer :: "(player \<Rightarrow> player) \<Rightarrow> unit playerOp" where
  "updPlayer f = (\<lambda>(p, root). Ok ((), (f p, root)))"

definition below :: "(player \<Rightarrow> (agreement_error, rootRouter, 'a) effect) \<Rightarrow> 'a playerOp" where
  "below m = (\<lambda>(p, root). andThen (m p root) (\<lambda>(x, root). Ok (x, (p, root))))"

definition ask :: "agreementEnv \<Rightarrow> event \<Rightarrow> stateMachineTag \<Rightarrow> round \<Rightarrow> period \<Rightarrow> step \<Rightarrow> event playerOp" where
  "ask env e dest r p s = below (\<lambda>state. rootRouter_dispatch env state e dest r p s)"

definition typePanic :: "'a playerOp" where
  "typePanic = lift (Panic (LogPanic ''interface conversion''))"

definition freshestBundle :: "agreementEnv \<Rightarrow> round \<Rightarrow> (bool \<times> thresholdEvent) playerOp" where
  "freshestBundle env r =
     andDo (ask env FreshestBundleRequestEv voteMachineRound r 0 0) (\<lambda>out.
       case out of FreshestBundleEv ok th \<Rightarrow> ret (ok, th) | _ \<Rightarrow> typePanic)"

definition nextStatus :: "agreementEnv \<Rightarrow> round \<Rightarrow> period \<Rightarrow> nextThresholdStatusEvent playerOp" where
  "nextStatus env r p =
     andDo (ask env NextThresholdStatusRequestEv voteMachinePeriod r p 0) (\<lambda>out.
       case out of NextThresholdStatusEv st \<Rightarrow> ret st | _ \<Rightarrow> typePanic)"

definition dumpedVotes :: "agreementEnv \<Rightarrow> round \<Rightarrow> period \<Rightarrow> step \<Rightarrow> unauthenticatedVote list playerOp" where
  "dumpedVotes env r p s =
     andDo (ask env DumpVotesRequestEv voteMachineStep r p s) (\<lambda>out.
       case out of DumpVotesEv vs \<Rightarrow> ret vs | _ \<Rightarrow> typePanic)"

definition attestAction :: "player \<Rightarrow> step \<Rightarrow> proposalValue \<Rightarrow> action" where
  "attestAction p s pv = PseudonodeAction \<lparr>psn_T = attest, psn_Round = pl_Round p, psn_Period = pl_Period p, psn_Step = s, psn_Proposal = pv\<rparr>"

section \<open>Resynchronisation\<close>

definition partitioned :: "player \<Rightarrow> bool" where
  "partitioned p = (pl_Step p \<ge> partitionStep \<or> pl_Period p \<ge> 3)"

definition repropagate :: "agreementEnv \<Rightarrow> round \<Rightarrow> period \<Rightarrow> action list playerOp" where
  "repropagate env r p =
     andDo (below (\<lambda>state. stagedValue env state r p)) (\<lambda>resStaged.
     let transmit = (\<lambda>payload. [broadcastAction (OutPayload \<lparr>cm_Vote = zeroUnauthenticatedVote, cm_Proposal = pp_Unauthenticated payload\<rparr>)]) in
     if sv_Committable resStaged then ret (transmit (sv_Payload resStaged))
     else andDo (below (\<lambda>state. pinnedValue env state r)) (\<lambda>resPinned.
       ret (if pin_PayloadOK resPinned then transmit (pin_Payload resPinned) else [])))"

definition partitionPolicy :: "agreementEnv \<Rightarrow> action list playerOp" where
  "partitionPolicy env =
     andDo getPlayer (\<lambda>p.
     if \<not> partitioned p then ret []
     else andDo (freshestBundle env (pl_Round p)) (\<lambda>(ok, th).
       let b = th_Bundle th; a0 = (if ok then [broadcastAction (OutBundle b)] else []) in
       if ok \<and> ub_Proposal b \<noteq> bottom then
         andDo (repropagate env (ub_Round b) (ub_Period b)) (\<lambda>a1. ret (a0 @ a1))
       else if pl_Period p = 0 then
         andDo (repropagate env (pl_Round p) (pl_Period p)) (\<lambda>a1. ret (a0 @ a1))
       else ret a0))"

section \<open>Votes\<close>

definition softVoteFor :: "player \<Rightarrow> proposalValue \<Rightarrow> nextThresholdStatusEvent \<Rightarrow> action list" where
  "softVoteFor p frozen st =
     (if pl_Period p > 0 \<and> \<not> nts_Bottom st \<and> nts_Proposal st \<noteq> bottom then [attestAction p soft (nts_Proposal st)]
      else if frozen = bottom then []
      else if pl_Period p > pv_OriginalPeriod frozen then
        if nts_Proposal st \<noteq> bottom \<and> nts_Proposal st = frozen then [attestAction p soft frozen] else []
      else [attestAction p soft frozen])"

definition issueSoftVote :: "agreementEnv \<Rightarrow> action list playerOp" where
  "issueSoftVote env =
     andDo getPlayer (\<lambda>p.
     andDo (ask env (ProposalFrozenEv bottom) proposalMachinePeriod (pl_Round p) (pl_Period p) 0) (\<lambda>e.
     case e of
       ProposalFrozenEv frozen \<Rightarrow>
         andDo (nextStatus env (pl_Round p) (pl_Period p - 1)) (\<lambda>st.
         andDo (updPlayer (\<lambda>p. p\<lparr>pl_Deadline := deadlineTimeout\<rparr>)) (\<lambda>_.
         ret (softVoteFor p frozen st)))
     | _ \<Rightarrow> typePanic))"

definition issueCertVote :: "proposalValue \<Rightarrow> action list playerOp" where
  "issueCertVote pv = andDo getPlayer (\<lambda>p. ret [attestAction p cert pv])"

definition issueNextVote :: "agreementEnv \<Rightarrow> action list playerOp" where
  "issueNextVote env =
     andDo (partitionPolicy env) (\<lambda>actions.
     andDo getPlayer (\<lambda>p.
     andDo (below (\<lambda>state. stagedValue env state (pl_Round p) (pl_Period p))) (\<lambda>answer.
     andDo (if sv_Committable answer then ret (sv_Proposal answer)
            else andDo (nextStatus env (pl_Round p) (pl_Period p - 1)) (\<lambda>st.
              ret (if nts_Bottom st then bottom else nts_Proposal st))) (\<lambda>pv.
     andDo (updPlayer (\<lambda>p. p\<lparr>pl_Napping := False, pl_Deadline := snd (nextVoteRanges (pl_Step p))\<rparr>)) (\<lambda>_.
     ret (actions @ [attestAction p (pl_Step p) pv]))))))"

definition issueFastVote :: "agreementEnv \<Rightarrow> action list playerOp" where
  "issueFastVote env =
     andDo (partitionPolicy env) (\<lambda>actions.
     andDo getPlayer (\<lambda>p.
     andDo (dumpedVotes env (pl_Round p) (pl_Period p) late) (\<lambda>elate.
     andDo (dumpedVotes env (pl_Round p) (pl_Period p) redo) (\<lambda>eredo.
     andDo (dumpedVotes env (pl_Round p) (pl_Period p) down) (\<lambda>edown.
     let votes = NetworkAction ((zeroNetworkAction broadcastVotes)\<lparr>na_UnauthenticatedVotes := elate @ eredo @ edown\<rparr>) in
     andDo (below (\<lambda>state. stagedValue env state (pl_Round p) (pl_Period p))) (\<lambda>answer.
     andDo (if sv_Committable answer then ret (late, sv_Proposal answer)
            else andDo (nextStatus env (pl_Round p) (pl_Period p - 1)) (\<lambda>st.
              ret (if nts_Bottom st then (down, bottom) else (redo, nts_Proposal st)))) (\<lambda>(s, pv).
     ret (actions @ [votes, attestAction p (if pv = bottom then down else s) pv]))))))))"

section \<open>New periods and rounds\<close>

definition enterPeriod :: "agreementEnv \<Rightarrow> thresholdEvent \<Rightarrow> period \<Rightarrow> action list playerOp" where
  "enterPeriod env source target =
     andDo (partitionPolicy env) (\<lambda>actions.
     andDo getPlayer (\<lambda>p.
     andDo (ask env (ThresholdEv source) proposalMachine (pl_Round p) (pl_Period p) 0) (\<lambda>e.
     andDo (updPlayer (\<lambda>p. p\<lparr>pl_LastConcluding := pl_Step p, pl_Period := target, pl_Step := soft, pl_Napping := False,
       pl_FastRecoveryDeadline := 0, pl_Deadline := FilterTimeout (ae_Consensus env) target (th_Proto source)\<rparr>)) (\<lambda>_.
     let actions = actions @ [RezeroAction (pl_Round p)] in
     case e of
       CommittableEv pv _ \<Rightarrow> andDo (issueCertVote pv) (\<lambda>a. ret (actions @ a))
     | _ \<Rightarrow>
         if th_T source = nextThreshold then
           ret (actions @ [PseudonodeAction \<lparr>psn_T = if th_Proposal source = bottom then assemble else repropose,
             psn_Round = pl_Round p, psn_Period = target, psn_Step = 0, psn_Proposal = th_Proposal source\<rparr>])
         else ret actions))))"

definition roundEventOf :: "event \<Rightarrow> round \<Rightarrow> event" where
  "roundEventOf source target =
     (case source of
        ThresholdEv th \<Rightarrow> if th_T th = certThreshold then RoundInterruptionEv target zeroVersionView else source
      | FilterableMessageEv me _ \<Rightarrow> if me_T me = payloadVerified then RoundInterruptionEv target zeroVersionView else source
      | _ \<Rightarrow> source)"

definition roundDeadline :: "agreementEnv \<Rightarrow> event \<Rightarrow> duration \<Rightarrow> duration" where
  "roundDeadline env source old =
     (case source of
        RoundInterruptionEv _ ver \<Rightarrow> FilterTimeout (ae_Consensus env) 0 (cvv_Version ver)
      | ThresholdEv th \<Rightarrow> FilterTimeout (ae_Consensus env) 0 (th_Proto th)
      | FilterableMessageEv me _ \<Rightarrow> FilterTimeout (ae_Consensus env) 0 (cvv_Version (me_Proto me))
      | _ \<Rightarrow> old)"

definition presentMessage :: "unauthenticatedProposal \<Rightarrow> messageEvent" where
  "presentMessage up = MessageEvent payloadPresent
     (zeroMessage\<lparr>m_MessageHandle := Some 0, m_Tag := ProposalPayloadTag, m_UnauthenticatedProposal := up\<rparr>)
     None 0 None False zeroVersionView"

definition enterRound :: "agreementEnv \<Rightarrow> handler \<Rightarrow> event \<Rightarrow> round \<Rightarrow> action list playerOp" where
  "enterRound env handle source target =
     andDo (ask env (roundEventOf source target) proposalMachine target 0 0) (\<lambda>e.
     andDo (updPlayer (\<lambda>p. p\<lparr>pl_LastConcluding := pl_Step p, pl_Round := target, pl_Period := 0, pl_Step := soft,
       pl_Napping := False, pl_FastRecoveryDeadline := 0, pl_Deadline := roundDeadline env source (pl_Deadline p)\<rparr>)) (\<lambda>_.
     let assembly = PseudonodeAction \<lparr>psn_T = assemble, psn_Round = target, psn_Period = 0, psn_Step = 0, psn_Proposal = bottom\<rparr>;
         pipelined = (case e of
             PayloadProcessedEv ep \<Rightarrow>
               if ppe_T ep = payloadPipelined
               then [verifyPayloadAction (presentMessage (ppe_UnauthenticatedPayload ep)) target (ppe_Period ep) (ppe_Pinned ep)] else []
           | _ \<Rightarrow> []) in
     andDo (freshestBundle env target) (\<lambda>(ok, th).
     andDo (if ok then handle (ThresholdEv th) else ret []) (\<lambda>a4.
     ret ([RezeroAction target, assembly] @ pipelined @ a4)))))"

section \<open>Thresholds\<close>

definition handleThresholdEvent :: "agreementEnv \<Rightarrow> handler \<Rightarrow> thresholdEvent \<Rightarrow> action list playerOp" where
  "handleThresholdEvent env handle e =
     andDo getPlayer (\<lambda>p.
     case th_T e of
       certThreshold \<Rightarrow>
         andDo (ask env (ThresholdEv e) proposalMachine 0 0 0) (\<lambda>_.
         andDo (below (\<lambda>state. stagedValue env state (th_Round e) (th_Period e))) (\<lambda>res.
         if sv_Committable res then
           andDo (enterRound env handle (ThresholdEv e) (pl_Round p + 1)) (\<lambda>as.
           ret (EnsureAction (sv_Payload res) (th_Bundle e) # as))
         else
           andDo (if pl_Period p < th_Period e then enterPeriod env e (th_Period e) else ret []) (\<lambda>as.
           ret (StageDigestAction (th_Bundle e) # as))))
     | softThreshold \<Rightarrow>
         if pl_Period p > th_Period e then ret []
         else if pl_Period p < th_Period e then enterPeriod env e (th_Period e)
         else andDo (ask env (ThresholdEv e) proposalMachine (pl_Round p) (pl_Period p) 0) (\<lambda>ec.
           case ec of
             CommittableEv pv _ \<Rightarrow> if pl_Step p \<le> cert then issueCertVote pv else ret []
           | _ \<Rightarrow> ret [])
     | nextThreshold \<Rightarrow>
         if pl_Period p > th_Period e then ret [] else enterPeriod env e (th_Period e + 1)
     | noThreshold \<Rightarrow> lift (Panic (LogPanic ''bad event'')))"

section \<open>Timeouts\<close>

definition handleFastTimeout :: "agreementEnv \<Rightarrow> timeoutEvent \<Rightarrow> action list playerOp" where
  "handleFastTimeout env e =
     (if cvv_Err (to_Proto e) \<noteq> None then ret []
      else
        let lambda = cp_FastRecoveryLambda (consensusAt (ae_Consensus env) (cvv_Version (to_Proto e))) in
        if lambda = 0 then lift (Panic DivideByZero)
        else andDo getPlayer (\<lambda>p.
          let k = of_int (sint (pl_FastRecoveryDeadline p + lambda - 1) sdiv sint lambda);
              lower = k * lambda; upper = (k + 1) * lambda;
              delta = to_RandomEntropy e mod (upper - lower) in
          if pl_FastRecoveryDeadline p = 0
          then andDo (updPlayer (\<lambda>p. p\<lparr>pl_FastRecoveryDeadline := lower + delta + lambda\<rparr>)) (\<lambda>_. ret [])
          else andDo (updPlayer (\<lambda>p. p\<lparr>pl_FastRecoveryDeadline := lower + delta\<rparr>)) (\<lambda>_. issueFastVote env)))"

definition handleTimeout :: "agreementEnv \<Rightarrow> timeoutEvent \<Rightarrow> action list playerOp" where
  "handleTimeout env e =
     andDo getPlayer (\<lambda>p.
     if pl_Step p = soft then
       andDo (issueSoftVote env) (\<lambda>actions.
       andDo (updPlayer (\<lambda>p. p\<lparr>pl_Step := cert\<rparr>)) (\<lambda>_. ret actions))
     else if pl_Step p = cert then
       andDo (updPlayer (\<lambda>p. p\<lparr>pl_Step := next_step\<rparr>)) (\<lambda>_. issueNextVote env)
     else if pl_Napping p then issueNextVote env
     else
       let (lower, upper) = nextVoteRanges (pl_Step p + 1) in
       if upper - lower = 0 then lift (Panic DivideByZero)
       else andDo (updPlayer (\<lambda>p. p\<lparr>pl_Step := pl_Step p + 1, pl_Napping := True,
         pl_Deadline := lower + to_RandomEntropy e mod (upper - lower)\<rparr>)) (\<lambda>_. ret []))"

section \<open>Messages\<close>

definition freshnessOf :: "player \<Rightarrow> freshnessData" where
  "freshnessOf p = \<lparr>fd_PlayerRound = pl_Round p, fd_PlayerPeriod = pl_Period p, fd_PlayerStep = pl_Step p,
     fd_PlayerLastConcluding = pl_LastConcluding p\<rparr>"

text \<open>The actions of a proposal-vote and whether the event attached to it may be handled now.\<close>

definition proposalVoteActions :: "agreementEnv \<Rightarrow> messageEvent \<Rightarrow> (action list \<times> bool) playerOp" where
  "proposalVoteActions env e =
     andDo getPlayer (\<lambda>p.
     andDo (ask env (FilterableMessageEv e (freshnessOf p)) proposalMachine 0 0 0) (\<lambda>ef.
     case ef of
       FilteredEv voteMalformed err \<Rightarrow> ret ([disconnectAction e err], True)
     | FilteredEv voteFiltered err \<Rightarrow> ret ([ignoreAction e err], True)
     | _ \<Rightarrow>
         if me_T e = votePresent then
           let (seq, table) = table_push (pl_Pending p) (me_Tail e); rv = uvt_R (m_UnauthenticatedVote (me_Input e)) in
           andDo (updPlayer (\<lambda>p. p\<lparr>pl_Pending := table\<rparr>)) (\<lambda>_.
           ret ([verifyVoteAction e (rv_Round rv) (rv_Period rv) seq], False))
         else
           case ef of
             ProposalAcceptedEv ep \<Rightarrow>
               let v = m_Vote (me_Input e) in
               ret ([if pa_PayloadOk ep
                     then broadcastAction (OutPayload \<lparr>cm_Vote = vote_u v, cm_Proposal = pp_Unauthenticated (pa_Payload ep)\<rparr>)
                     else relayAction e (OutVote (vote_u v))], True)
           | _ \<Rightarrow> typePanic))"

definition popTail :: "messageEvent \<Rightarrow> messageEvent option playerOp" where
  "popTail e =
     andDo getPlayer (\<lambda>p.
     if me_T e = voteVerified then
       let (tail, table) = table_pop (pl_Pending p) (me_TaskIndex e) in
       andDo (updPlayer (\<lambda>p. p\<lparr>pl_Pending := table\<rparr>)) (\<lambda>_. ret tail)
     else ret (me_Tail e))"

definition handleProposalVote :: "agreementEnv \<Rightarrow> handler \<Rightarrow> messageEvent \<Rightarrow> action list playerOp" where
  "handleProposalVote env handle e =
     andDo (proposalVoteActions env e) (\<lambda>(actions, doneProcessing).
     andDo (popTail e) (\<lambda>tail.
     case tail of
       None \<Rightarrow> ret actions
     | Some ev \<Rightarrow>
         if \<not> doneProcessing then ret actions
         else andDo (handle (MessageEv ev)) (\<lambda>suffix. ret (actions @ suffix))))"

definition authVoteOf :: "event \<Rightarrow> unauthenticatedVote" where
  "authVoteOf ef =
     (case ef of
        PayloadProcessedEv ep \<Rightarrow> if ppe_T ep = payloadRejected then zeroUnauthenticatedVote else vote_u (ppe_Vote ep)
      | CommittableEv _ v \<Rightarrow> vote_u v
      | _ \<Rightarrow> zeroUnauthenticatedVote)"

definition relayPayload :: "messageEvent \<Rightarrow> event \<Rightarrow> action" where
  "relayPayload e ef =
     relayAction e (OutPayload \<lparr>cm_Vote = authVoteOf ef, cm_Proposal = m_UnauthenticatedProposal (me_Input e)\<rparr>)"

definition isPayload :: "payloadType \<Rightarrow> event \<Rightarrow> bool" where
  "isPayload t ef = (case ef of PayloadProcessedEv ep \<Rightarrow> ppe_T ep = t | _ \<Rightarrow> False)"

definition committableOf :: "event \<Rightarrow> proposalValue option" where
  "committableOf ef = (case ef of CommittableEv pv _ \<Rightarrow> Some pv | _ \<Rightarrow> None)"

text \<open>A payload that was checked is compared with the certificate already seen, if any.\<close>

definition payloadActions :: "agreementEnv \<Rightarrow> handler \<Rightarrow> messageEvent \<Rightarrow> freshnessData \<Rightarrow> event \<Rightarrow> action list playerOp" where
  "payloadActions env handle e fd ef =
     andDo getPlayer (\<lambda>p.
     andDo (if committableOf ef \<noteq> None \<or> isPayload payloadAccepted ef then freshestBundle env (pl_Round p) else ret (False, zeroThreshold))
       (\<lambda>(ok, th).
     let proposal = m_Proposal (me_Input e) in
     if ok \<and> th_T th = certThreshold \<and> th_Proposal th = proposal_value env (pp_Unauthenticated proposal) then
       andDo (enterRound env handle (FilterableMessageEv e fd) (ub_Round (th_Bundle th) + 1)) (\<lambda>as.
       ret (EnsureAction proposal (th_Bundle th) # as))
     else case committableOf ef of
         Some pv \<Rightarrow> if pl_Step p \<le> cert then issueCertVote pv else ret []
       | None \<Rightarrow> ret []))"

definition handlePayload :: "agreementEnv \<Rightarrow> handler \<Rightarrow> messageEvent \<Rightarrow> action list playerOp" where
  "handlePayload env handle e =
     andDo getPlayer (\<lambda>p.
     andDo (ask env (FilterableMessageEv e (freshnessOf p)) proposalMachine 0 0 0) (\<lambda>ef.
     let own = (if m_MessageHandle (me_Input e) = None then [relayPayload e ef] else []);
         rest = (\<lambda>actions. andDo (payloadActions env handle e (freshnessOf p) ef) (\<lambda>as. ret (actions @ own @ as))) in
     case ef of
       FilteredEv payloadMalformed err \<Rightarrow> ret [ignoreAction e (Some ''rejected message since it was invalid'')]
     | PayloadProcessedEv ep \<Rightarrow>
         (case ppe_T ep of
            payloadRejected \<Rightarrow> ret [ignoreAction e (ppe_Err ep)]
          | payloadPipelined \<Rightarrow>
              if ppe_Round ep = pl_Round p
              then ret [verifyPayloadAction e (ppe_Round ep) (ppe_Period ep) (ppe_Pinned ep), relayPayload e ef]
              else rest [relayPayload e ef]
          | payloadAccepted \<Rightarrow> rest [])
     | _ \<Rightarrow> rest []))"

definition handleVote :: "agreementEnv \<Rightarrow> handler \<Rightarrow> messageEvent \<Rightarrow> action list playerOp" where
  "handleVote env handle e =
     andDo getPlayer (\<lambda>p.
     andDo (ask env (FilterableMessageEv e (freshnessOf p)) voteMachine 0 0 0) (\<lambda>ef.
     case ef of
       FilteredEv voteMalformed err \<Rightarrow> ret [disconnectAction e (Some ''rejected message since it was invalid'')]
     | FilteredEv voteFiltered err \<Rightarrow> ret [ignoreAction e err]
     | _ \<Rightarrow>
         if me_T e = votePresent then
           let rv = uvt_R (m_UnauthenticatedVote (me_Input e)) in ret [verifyVoteAction e (rv_Round rv) (rv_Period rv) 0]
         else andDo (handle ef) (\<lambda>a1. ret (relayAction e (OutVote (vote_u (m_Vote (me_Input e)))) # a1))))"

definition handleBundle :: "agreementEnv \<Rightarrow> handler \<Rightarrow> messageEvent \<Rightarrow> action list playerOp" where
  "handleBundle env handle e =
     andDo getPlayer (\<lambda>p.
     andDo (ask env (FilterableMessageEv e (freshnessOf p)) voteMachine 0 0 0) (\<lambda>ef.
     case ef of
       FilteredEv bundleMalformed err \<Rightarrow> ret [disconnectAction e (Some ''rejected message since it was invalid'')]
     | FilteredEv bundleFiltered err \<Rightarrow> ret [ignoreAction e err]
     | _ \<Rightarrow>
         if me_T e = bundlePresent then
           let ub = m_UnauthenticatedBundle (me_Input e) in ret [verifyBundleAction e (ub_Round ub) (ub_Period ub) (ub_Step ub)]
         else case ef of
             ThresholdEv th \<Rightarrow> andDo (handle ef) (\<lambda>a1. ret (relayAction e (OutBundle (th_Bundle th)) # a1))
           | _ \<Rightarrow> typePanic))"

definition handleMessageEvent :: "agreementEnv \<Rightarrow> handler \<Rightarrow> messageEvent \<Rightarrow> action list playerOp" where
  "handleMessageEvent env handle e =
     (let votes = (if rv_Step (uvt_R (m_UnauthenticatedVote (me_Input e))) = propose
                   then handleProposalVote env handle e else handleVote env handle e) in
      case me_T e of
        votePresent \<Rightarrow> votes
      | voteVerified \<Rightarrow> votes
      | payloadPresent \<Rightarrow> handlePayload env handle e
      | payloadVerified \<Rightarrow> handlePayload env handle e
      | bundlePresent \<Rightarrow> handleBundle env handle e
      | bundleVerified \<Rightarrow> handleBundle env handle e)"

section \<open>The handler of the player\<close>

primrec player_handle :: "nat \<Rightarrow> agreementEnv \<Rightarrow> event \<Rightarrow> action list playerOp" where
  "player_handle 0 env e = failWith OutOfFuel"
| "player_handle (Suc n) env e =
     (if isNone e then ret []
      else case e of
          MessageEv me \<Rightarrow> handleMessageEvent env (player_handle n env) me
        | ThresholdEv th \<Rightarrow> handleThresholdEvent env (player_handle n env) th
        | TimeoutEv to \<Rightarrow> if to_Fast to then handleFastTimeout env to else handleTimeout env to
        | RoundInterruptionEv r _ \<Rightarrow> enterRound env (player_handle n env) e r
        | CheckpointEv ck \<Rightarrow> ret [CheckpointAction ck]
        | _ \<Rightarrow> lift (Panic (LogPanic ''bad event'')))"

definition submitTop :: "nat \<Rightarrow> agreementEnv \<Rightarrow> event \<Rightarrow> action list playerOp" where
  "submitTop n env e = (\<lambda>(p, root). player_handle n env e (p, rootRouter_update p 0 root))"

end
