(* ===== verification/Agreement_Invariants.thy ===== *)
theory Agreement_Invariants
  imports Agreement_Player
begin

text \<open>
  Invariants of the tree of state machines: votes lie in the tracker of their round, period and
  step, a threshold event carries a bundle for its own value, and the payload that a store
  holds for a proposal-value has that value. They are kept by every dispatch.

  \<open>spec P m Q\<close> says that an operation that succeeds from a state with \<open>P\<close> ends in a state and
  with a result that satisfy \<open>Q\<close>.
\<close>

section \<open>Specifications of operations\<close>

definition spec :: "('s \<Rightarrow> bool) \<Rightarrow> ('e, 's, 'a) effect \<Rightarrow> ('a \<Rightarrow> 's \<Rightarrow> bool) \<Rightarrow> bool" where
  "spec P m Q \<longleftrightarrow> (\<forall>s x t. P s \<longrightarrow> m s = Ok (x, t) \<longrightarrow> Q x t)"

lemma specI: "(\<And>s x t. P s \<Longrightarrow> m s = Ok (x, t) \<Longrightarrow> Q x t) \<Longrightarrow> spec P m Q"
  unfolding spec_def by blast

lemma specD: "spec P m Q \<Longrightarrow> P s \<Longrightarrow> m s = Ok (x, t) \<Longrightarrow> Q x t"
  unfolding spec_def by blast

lemma spec_pre: "spec P m Q \<Longrightarrow> (\<And>s. P' s \<Longrightarrow> P s) \<Longrightarrow> spec P' m Q"
  unfolding spec_def by blast

lemma spec_post: "spec P m Q \<Longrightarrow> (\<And>x t. Q x t \<Longrightarrow> Q' x t) \<Longrightarrow> spec P m Q'"
  unfolding spec_def by blast

lemma spec_conj: "spec P m Q \<Longrightarrow> spec P m R \<Longrightarrow> spec P m (\<lambda>x t. Q x t \<and> R x t)"
  unfolding spec_def by blast

lemma spec_ret: "(\<And>s. P s \<Longrightarrow> Q x s) \<Longrightarrow> spec P (ret x) Q"
  unfolding spec_def basic_Ok_iff by blast

lemma spec_stop: "spec P (failWith e) Q" "spec P (lift (Err e)) Q" "spec P (lift (Panic p)) Q"
  unfolding spec_def basic_Ok_iff by simp_all

lemma spec_andDo: "spec P m R \<Longrightarrow> (\<And>x. spec (R x) (f x) Q) \<Longrightarrow> spec P (andDo m f) Q"
  unfolding spec_def andDo_Ok_iff by blast

lemma spec_if: "(c \<Longrightarrow> spec P m Q) \<Longrightarrow> (\<not> c \<Longrightarrow> spec P n Q) \<Longrightarrow> spec P (if c then m else n) Q"
  by simp

lemma spec_prod: "(\<And>a b. x = (a, b) \<Longrightarrow> spec P (f a b) Q) \<Longrightarrow> spec P (case x of (a, b) \<Rightarrow> f a b) Q"
  by (cases x) simp

lemma spec_fact: "(c \<Longrightarrow> spec P m Q) \<Longrightarrow> spec (\<lambda>s. c \<and> P s) m Q"
  unfolding spec_def by blast

section \<open>Lists and maps\<close>

lemma list_all_mput: "P (k, v) \<Longrightarrow> list_all P m \<Longrightarrow> list_all P (mput k v m)"
  by (induction m) auto

lemma list_all_mdel: "list_all P m \<Longrightarrow> list_all P (mdel k m)"
  by (simp add: AList.delete_eq list_all_iff)

lemma list_all_mget: "list_all P m \<Longrightarrow> mget m k = Some v \<Longrightarrow> P (k, v)"
  by (meson list_all_iff map_of_SomeD)

lemma list_all_filter: "list_all P m \<Longrightarrow> list_all P (filter Q m)"
  by (simp add: list_all_iff)

section \<open>Votes\<close>

definition voteAt :: "round \<Rightarrow> period \<Rightarrow> step \<Rightarrow> vote \<Rightarrow> bool" where
  "voteAt r p s v \<longleftrightarrow> rv_Round (vt_R v) = r \<and> rv_Period (vt_R v) = p \<and> rv_Step (vt_R v) = s \<and> r \<noteq> - 1 \<and> p \<noteq> - 1"

definition counterAt :: "round \<Rightarrow> period \<Rightarrow> step \<Rightarrow> proposalValue \<times> proposalVoteCounter \<Rightarrow> bool" where
  "counterAt r p s = (\<lambda>(pv, c). list_all (\<lambda>(_, v). voteAt r p s v \<and> voteProposal v = pv) (pvc_Votes c))"

definition trackerAt :: "round \<Rightarrow> period \<Rightarrow> step \<Rightarrow> voteTracker \<Rightarrow> bool" where
  "trackerAt r p s t \<longleftrightarrow> list_all (\<lambda>(_, v). voteAt r p s v) (vtr_Voters t) \<and> list_all (counterAt r p s) (vtr_Counts t)"

text \<open>A threshold event of a round is empty or carries a bundle that proves it.\<close>

definition soundAt :: "round \<Rightarrow> thresholdEvent \<Rightarrow> bool" where
  "soundAt r th \<longleftrightarrow> th_T th = noThreshold \<or>
     th_Round th = r \<and> th_T th = thresholdTypeOf (th_Step th) \<and> r \<noteq> - 1 \<and> th_Period th \<noteq> - 1 \<and>
     ub_Round (th_Bundle th) = r \<and> ub_Period (th_Bundle th) = th_Period th \<and>
     ub_Step (th_Bundle th) = th_Step th \<and> ub_Proposal (th_Bundle th) = th_Proposal th"

lemma soundAt_zero [simp]: "soundAt r zeroThreshold"
  by (simp add: soundAt_def zeroThreshold_def)

lemma counterAt_get: "list_all (counterAt r p s) m \<Longrightarrow> counterAt r p s (pv, mgetd zeroCounter m pv)"
  by (auto simp: mgetd_def counterAt_def zeroCounter_def split: option.splits dest: list_all_mget)

lemma trackerAt_zero [simp]: "trackerAt r p s zeroTracker"
  by (simp add: trackerAt_def zeroTracker_def)

lemma trackerAt_addVote:
  assumes "trackerAt r p s t" "voteAt r p s v"
  shows "trackerAt r p s (addVote v t)"
proof -
  have c: "counterAt r p s (voteProposal v, mgetd zeroCounter (vtr_Counts t) (voteProposal v))"
    using assms(1) by (simp add: trackerAt_def counterAt_get)
  show ?thesis
    using assms c unfolding trackerAt_def addVote_def Let_def
    by (simp add: list_all_mput counterAt_def)
qed

lemma trackerAt_addEquivocation:
  assumes "trackerAt r p s t"
  shows "trackerAt r p s (addEquivocation w v t)"
proof -
  have c: "counterAt r p s (voteProposal w, mgetd zeroCounter (vtr_Counts t) (voteProposal w))"
    using assms by (simp add: trackerAt_def counterAt_get)
  show ?thesis
    using assms c unfolding trackerAt_def addEquivocation_def Let_def
    by (simp add: list_all_mput list_all_mdel counterAt_def)
qed

lemma genBundle_value:
  assumes "genBundle proto t c = Ok b" "list_all (\<lambda>(_, v). voteAt r p s v \<and> voteProposal v = pv) (pvc_Votes c)"
  shows "ub_Round b = r \<and> ub_Period b = p \<and> ub_Step b = s \<and> ub_Proposal b = pv \<and> r \<noteq> - 1 \<and> p \<noteq> - 1"
proof -
  let ?vs = "sliceStable votesBefore (map snd (pvc_Votes c))"
  obtain first rest where vs: "?vs = first # rest" using assms(1) by (auto simp: genBundle_def split: list.splits)
  obtain votes w where w: "takeUntil (reachesQuorum (rv_Step (vt_R first)) proto) voteWeight (first # rest) 0 = (votes, w)" by fastforce
  obtain v us where v: "votes = v # us" and m: "\<exists>ps. makeBundle proto (voteProposal v) votes ps = Ok b"
    using assms(1) unfolding genBundle_def vs list.case w Let_def prod.case by (auto split: list.splits prod.splits)
  have "v \<in> set ?vs" using takeUntil_split [OF w] v vs by auto
  then have "voteAt r p s v \<and> voteProposal v = pv" using assms(2) unfolding list_all_iff by auto
  moreover have "ub_Round b = rv_Round (vt_R v) \<and> ub_Period b = rv_Period (vt_R v) \<and> ub_Step b = rv_Step (vt_R v) \<and> ub_Proposal b = voteProposal v"
    using m unfolding makeBundle_def v by (auto simp: Let_def split: prod.splits if_splits)
  ultimately show ?thesis by (simp add: voteAt_def)
qed

lemma emitThreshold_sound:
  assumes "emitThreshold proto ver v ob t = Ok (t', th)" "trackerAt r p s t" "voteAt r p s v"
  shows "trackerAt r p s t' \<and> soundAt r th"
proof -
  obtain pv oa where o: "overThreshold proto (rv_Step (vt_R v)) t = Ok (pv, oa)"
    and k: "(if ob \<or> \<not> oa then Ok (t, zeroThreshold)
     else andThen (genBundle proto t (mgetd zeroCounter (vtr_Counts t) pv)) (\<lambda>b.
       Ok (t, \<lparr>th_T = thresholdTypeOf (rv_Step (vt_R v)), th_Round = rv_Round (vt_R v),
                     th_Period = rv_Period (vt_R v), th_Step = rv_Step (vt_R v), th_Proposal = pv,
                     th_Bundle = b, th_Proto = ver\<rparr>))) = Ok (t', th)"
    using assms(1) unfolding emitThreshold_def by (auto simp: result_simps)
  show ?thesis
  proof (cases "ob \<or> \<not> oa")
    case True
    then show ?thesis using k assms(2) by simp
  next
    case False
    then obtain b where b: "genBundle proto t (mgetd zeroCounter (vtr_Counts t) pv) = Ok b"
      and th: "t' = t" "th = \<lparr>th_T = thresholdTypeOf (rv_Step (vt_R v)), th_Round = rv_Round (vt_R v),
                     th_Period = rv_Period (vt_R v), th_Step = rv_Step (vt_R v), th_Proposal = pv,
                     th_Bundle = b, th_Proto = ver\<rparr>"
      using k by (auto simp: result_simps)
    have "counterAt r p s (pv, mgetd zeroCounter (vtr_Counts t) pv)" using assms(2) by (simp add: trackerAt_def counterAt_get)
    then have "list_all (\<lambda>(_, v). voteAt r p s v \<and> voteProposal v = pv) (pvc_Votes (mgetd zeroCounter (vtr_Counts t) pv))"
      by (simp add: counterAt_def)
    from genBundle_value [OF b this] assms(2,3) show ?thesis by (simp add: th soundAt_def voteAt_def)
  qed
qed

lemma acceptVote_sound:
  assumes "acceptVote tbl t v ver = Ok (t', th)" "trackerAt r p s t" "voteAt r p s v"
  shows "trackerAt r p s t' \<and> soundAt r th"
proof -
  let ?proto = "consensusAt tbl ver"
  have eq: "trackerAt r p s (t\<lparr>vtr_EquivocatorsCount := w\<rparr>)" for w using assms(2) by (simp add: trackerAt_def)
  note keep = trackerAt_addEquivocation [OF eq]
  show ?thesis
  proof (cases "mget (vtr_Equivocators t) (voteSender v)")
    case (Some ev)
    then show ?thesis using assms(1,2) by (simp add: acceptVote_def Let_def)
  next
    case None
    let ?rest = "\<lambda>ob. case mget (vtr_Voters t) (voteSender v) of
          None \<Rightarrow> emitThreshold ?proto ver v ob (addVote v t)
        | Some oldVote \<Rightarrow>
            if voteProposal oldVote = voteProposal v then Ok (t, zeroThreshold)
            else
              let t = t\<lparr>vtr_EquivocatorsCount := vtr_EquivocatorsCount t + voteWeight v\<rparr> in
              if reachesQuorum (rv_Step (vt_R v)) ?proto (vtr_EquivocatorsCount t) then Panic (LogPanic ''too many equivocators for step'')
              else
                let t = addEquivocation oldVote v t in
                if vtr_Voters t = [] then Ok (t, zeroThreshold)
                else emitThreshold ?proto ver v ob t"
    have a: "acceptVote tbl t v ver = andThen (overThreshold ?proto (rv_Step (vt_R v)) t) (\<lambda>(_, ob). ?rest ob)"
      unfolding acceptVote_def Let_def None by simp
    obtain ob where r: "?rest ob = Ok (t', th)"
      using assms(1) unfolding a andThen_Ok_iff by (auto simp only: prod.case split: prod.splits)
    show ?thesis
    proof (cases "mget (vtr_Voters t) (voteSender v)")
      case None
      then show ?thesis using r emitThreshold_sound [OF _ trackerAt_addVote [OF assms(2,3)] assms(3)] by simp
    next
      case (Some old)
      then show ?thesis
        using r assms(2) keep emitThreshold_sound [OF _ keep assms(3)] by (auto simp: Let_def split: if_splits)
    qed
  qed
qed

section \<open>Steps and periods\<close>

definition asmOK :: "agreementEnv \<Rightarrow> proposalValue \<times> blockAssembler \<Rightarrow> bool" where
  "asmOK env = (\<lambda>(pv, ea). ba_Assembled ea \<longrightarrow> proposal_value env (pp_Unauthenticated (ba_Payload ea)) = pv)"

text \<open>What an event that a machine of round \<open>r\<close> answers may say.\<close>

definition outAt :: "agreementEnv \<Rightarrow> round \<Rightarrow> event \<Rightarrow> bool" where
  "outAt env r out \<longleftrightarrow>
     (case out of
        ThresholdEv th \<Rightarrow> soundAt r th
      | FreshestBundleEv ok th \<Rightarrow> soundAt r th \<and> (ok \<longrightarrow> th_T th \<noteq> noThreshold)
      | StagingValueEv se \<Rightarrow> sv_Committable se \<longrightarrow> proposal_value env (pp_Unauthenticated (sv_Payload se)) = sv_Proposal se
      | MessageEv _ \<Rightarrow> False
      | TimeoutEv _ \<Rightarrow> False
      | RoundInterruptionEv _ _ \<Rightarrow> False
      | _ \<Rightarrow> True)"

lemma outAt_simps [simp]:
  "outAt env r (ThresholdEv th) = soundAt r th" "outAt env r EmptyEvent" "outAt env r (FilteredEv ft err)" "outAt env r FilteredStepEv"
  "outAt env r (ProposalAcceptedEv pa)" "outAt env r (ProposalFrozenEv pv)" "outAt env r (CommittableEv pv v)"
  "outAt env r (PayloadProcessedEv ep)" "outAt env r (DumpVotesEv vs)" "outAt env r (NextThresholdStatusEv st)" "outAt env r (PinnedValueEv pin)"
  "outAt env r (FreshestBundleEv ok th) \<longleftrightarrow> soundAt r th \<and> (ok \<longrightarrow> th_T th \<noteq> noThreshold)"
  "outAt env r (StagingValueEv se) \<longleftrightarrow> (sv_Committable se \<longrightarrow> proposal_value env (pp_Unauthenticated (sv_Payload se)) = sv_Proposal se)"
  "outAt env r (acceptedFor rr p pv)"
  by (simp_all add: outAt_def acceptedFor_def)

text \<open>How an event may be addressed to a machine of period \<open>p\<close>, and to a machine of round \<open>r\<close>.\<close>

definition toPeriod :: "round \<Rightarrow> period \<Rightarrow> stateMachineTag \<Rightarrow> event \<Rightarrow> bool" where
  "toPeriod r p dest e \<longleftrightarrow>
     (case e of
        VoteAcceptedEv v _ \<Rightarrow> dest = voteMachinePeriod \<and> voteAt r p (rv_Step (vt_R v)) v
      | ThresholdEv _ \<Rightarrow> dest = proposalMachinePeriod
      | StagingValueEv se \<Rightarrow> \<not> sv_Committable se
      | _ \<Rightarrow> True)"

definition stepAt :: "round \<Rightarrow> period \<Rightarrow> step \<times> stepRouter \<Rightarrow> bool" where
  "stepAt r p = (\<lambda>(s, sr). trackerAt r p s (sr_VoteTracker sr))"

definition periodAt :: "round \<Rightarrow> period \<times> periodRouter \<Rightarrow> bool" where
  "periodAt r = (\<lambda>(p, pr). list_all (stepAt r p) (pr_Children pr))"

lemma stepRouter_dispatch_spec:
  assumes "case e of VoteAcceptedEv v _ \<Rightarrow> voteAt r p s v | _ \<Rightarrow> True"
  shows "spec (\<lambda>sr. stepAt r p (s, sr)) (stepRouter_dispatch env e dest) (\<lambda>out sr. stepAt r p (s, sr) \<and> outAt env r out)"
proof (rule specI)
  fix sr out sr'
  assume a: "stepAt r p (s, sr)" and d: "stepRouter_dispatch env e dest sr = Ok (out, sr')"
  obtain t c where h: "voteTracker_handle (ae_Consensus env) (sr_VoteTracker sr) e = Ok (t, out)"
    and sr': "sr' = \<lparr>sr_VoteTracker = t, sr_VoteTrackerContract = c\<rparr>"
    using d unfolding stepRouter_dispatch_def Let_def by (auto simp: result_simps case_prod_unfold split: if_splits)
  have "trackerAt r p s t \<and> outAt env r out"
  proof (cases e)
    case (VoteAcceptedEv v ver)
    then obtain th where "acceptVote (ae_Consensus env) (sr_VoteTracker sr) v ver = Ok (t, th)" "out = ThresholdEv th"
      using h by (auto simp: voteTracker_handle_def result_simps)
    then show ?thesis using acceptVote_sound a assms by (simp add: VoteAcceptedEv stepAt_def)
  qed (use h a in \<open>auto simp: voteTracker_handle_def stepAt_def filterRequest_def split: option.splits if_splits\<close>)
  then show "stepAt r p (s, sr') \<and> outAt env r out" by (simp add: stepAt_def sr')
qed

lemma periodAt_update: "periodAt r (p, pr) \<Longrightarrow> periodAt r (p, periodRouter_update s pr)"
  by (simp add: periodAt_def periodRouter_update_def list_all_mput stepAt_def zeroStepRouter_def)

lemma periodRouter_forward_spec:
  assumes "case e of VoteAcceptedEv v _ \<Rightarrow> voteAt r p s v | _ \<Rightarrow> True"
  shows "spec (\<lambda>pr. periodAt r (p, pr)) (periodRouter_forward env e dest s) (\<lambda>out pr. periodAt r (p, pr) \<and> outAt env r out)"
proof (rule specI)
  fix pr out pr'
  assume a: "periodAt r (p, pr)" and d: "periodRouter_forward env e dest s pr = Ok (out, pr')"
  let ?pr = "periodRouter_update s pr"
  obtain c c' where c: "mget (pr_Children ?pr) s = Some c" "stepRouter_dispatch env e dest c = Ok (out, c')"
    and pr': "pr' = ?pr\<lparr>pr_Children := mput s c' (pr_Children ?pr)\<rparr>"
    using d unfolding periodRouter_forward_def Let_def by (auto simp: result_simps split: option.splits)
  have ch: "list_all (stepAt r p) (pr_Children ?pr)" using periodAt_update [OF a] by (simp add: periodAt_def)
  have "stepAt r p (s, c') \<and> outAt env r out"
    by (rule specD [OF stepRouter_dispatch_spec [OF assms] list_all_mget [OF ch c(1)] c(2)])
  then show "periodAt r (p, pr') \<and> outAt env r out" using ch by (simp add: pr' periodAt_def list_all_mput)
qed

lemma voteTrackerPeriod_reply_spec:
  "spec (\<lambda>pr. periodAt r (p, pr)) (voteTrackerPeriod_reply e) (\<lambda>out pr. periodAt r (p, pr) \<and> outAt env r out)"
  by (rule specI) (auto simp: voteTrackerPeriod_reply_def Let_def periodAt_def split: event.splits if_splits)

lemma voteTrackerPeriod_handle_spec:
  assumes "case e of VoteAcceptedEv v _ \<Rightarrow> voteAt r p (rv_Step (vt_R v)) v | _ \<Rightarrow> True"
  shows "spec (\<lambda>pr. periodAt r (p, pr)) (voteTrackerPeriod_handle env e) (\<lambda>out pr. periodAt r (p, pr) \<and> outAt env r out)"
proof (cases "\<exists>v ver. e = VoteAcceptedEv v ver")
  case True
  then obtain v ver where e: "e = VoteAcceptedEv v ver" by blast
  have f: "spec (\<lambda>pr. periodAt r (p, pr)) (periodRouter_forward env e voteMachineStep (rv_Step (vt_R v))) (\<lambda>out pr. periodAt r (p, pr) \<and> outAt env r out)"
    by (rule periodRouter_forward_spec) (use assms in \<open>simp add: e\<close>)
  show ?thesis
    unfolding voteTrackerPeriod_handle_def e event.case
  proof (rule spec_andDo [OF f [unfolded e]])
    fix out
    have s: "spec (\<lambda>pr. periodAt r (p, pr) \<and> outAt env r out) (\<lambda>router. andDo (voteTrackerPeriod_reply out) (\<lambda>_. ret out) (periodRouter_update 0 router))
        (\<lambda>out pr. periodAt r (p, pr) \<and> outAt env r out)"
      by (rule specI) (auto simp: andDo_Ok_iff basic_Ok_iff dest: specD [OF voteTrackerPeriod_reply_spec periodAt_update])
    show "spec (\<lambda>pr. periodAt r (p, pr) \<and> outAt env r out)
        (case out of
           ThresholdEv th \<Rightarrow>
             if th_T th \<noteq> noThreshold \<and> th_Step th \<ge> next_step
             then (\<lambda>router. andDo (voteTrackerPeriod_reply out) (\<lambda>_. ret out) (periodRouter_update 0 router))
             else ret out
         | _ \<Rightarrow> if isNone out then ret out else lift (Panic (LogPanic ''not a threshold'')))
        (\<lambda>out pr. periodAt r (p, pr) \<and> outAt env r out)"
      using s by (cases out) (auto intro!: spec_ret spec_stop)
  qed
next
  case False
  then have "voteTrackerPeriod_handle env e = voteTrackerPeriod_reply e" by (cases e) (auto simp: voteTrackerPeriod_handle_def)
  then show ?thesis using voteTrackerPeriod_reply_spec by simp
qed

lemma checkedProposalTracker_out:
  assumes "checkedProposalTracker env e tc = Ok (out, tc')" "case e of StagingValueEv se \<Rightarrow> \<not> sv_Committable se | _ \<Rightarrow> True"
  shows "outAt env r out"
proof -
  obtain t c t' where h: "proposalTracker_handle env e t = Ok (out, t')"
    using assms(1) unfolding checkedProposalTracker_def Let_def by (cases tc) (auto simp: result_simps case_prod_unfold split: if_splits)
  then show ?thesis
    using assms(2) unfolding proposalTracker_handle_def trackProposalVote_def Let_def
    by (auto simp: result_simps split: event.splits if_splits option.splits)
qed

lemma periodRouter_dispatch_spec:
  assumes "toPeriod r p dest e"
  shows "spec (\<lambda>pr. periodAt r (p, pr)) (periodRouter_dispatch env e dest s) (\<lambda>out pr. periodAt r (p, pr) \<and> outAt env r out)"
proof (rule specI)
  fix pr out pr'
  assume a: "periodAt r (p, pr)" and d: "periodRouter_dispatch env e dest s pr = Ok (out, pr')"
  let ?pr = "periodRouter_update s pr"
  have u: "periodAt r (p, ?pr)" by (rule periodAt_update [OF a])
  consider (tracker) t c where "dest = proposalMachinePeriod" "pr' = ?pr\<lparr>pr_ProposalTracker := t, pr_ProposalTrackerContract := c\<rparr>"
      "checkedProposalTracker env e (pr_ProposalTracker ?pr, pr_ProposalTrackerContract ?pr) = Ok (out, (t, c))"
    | (votes) "dest = voteMachinePeriod" "voteTrackerPeriod_handle env e ?pr = Ok (out, pr')"
    | (below) "dest \<noteq> voteMachinePeriod" "dest \<noteq> proposalMachinePeriod" "periodRouter_forward env e dest s ?pr = Ok (out, pr')"
    using d unfolding periodRouter_dispatch_def Let_def by (auto simp: result_simps split: if_splits)
  then show "periodAt r (p, pr') \<and> outAt env r out"
  proof cases
    case tracker
    have "outAt env r out" by (rule checkedProposalTracker_out [OF tracker(3)]) (use assms in \<open>auto simp: toPeriod_def split: event.splits\<close>)
    then show ?thesis using u by (simp add: tracker(2) periodAt_def)
  next
    case votes
    show ?thesis by (rule specD [OF voteTrackerPeriod_handle_spec u votes(2)]) (use assms in \<open>auto simp: toPeriod_def split: event.splits\<close>)
  next
    case below
    show ?thesis by (rule specD [OF periodRouter_forward_spec u below(3)]) (use assms below(1) in \<open>auto simp: toPeriod_def split: event.splits\<close>)
  qed
qed

section \<open>Rounds\<close>

definition storeOK :: "agreementEnv \<Rightarrow> proposalStore \<Rightarrow> bool" where
  "storeOK env store \<longleftrightarrow> list_all (asmOK env) (st_Assemblers store)"

definition roundAt :: "agreementEnv \<Rightarrow> round \<times> roundRouter \<Rightarrow> bool" where
  "roundAt env = (\<lambda>(r, rr). storeOK env (rr_ProposalStore rr) \<and> list_all (periodAt r) (rr_Children rr) \<and>
     soundAt r (vr_Freshest (rr_VoteTrackerRound rr)) \<and>
     (vr_Ok (rr_VoteTrackerRound rr) \<longrightarrow> th_T (vr_Freshest (rr_VoteTrackerRound rr)) \<noteq> noThreshold))"

lemma zeroPeriodRouter_At [simp]: "periodAt r (p, zeroPeriodRouter)"
  by (simp add: periodAt_def zeroPeriodRouter_def)

lemma zeroRoundRouter_At [simp]: "roundAt env (r, zeroRoundRouter)"
  by (simp add: roundAt_def zeroRoundRouter_def storeOK_def zeroStore_def)

lemma roundAt_update: "roundAt env (r, rr) \<Longrightarrow> roundAt env (r, roundRouter_update state p rr)"
  by (simp add: roundAt_def roundRouter_update_def Let_def list_all_filter list_all_mput)

lemma roundRouter_forward_spec:
  assumes "toPeriod r p dest e"
  shows "spec (\<lambda>rr. roundAt env (r, rr)) (roundRouter_forward env state e dest p s) (\<lambda>out rr. roundAt env (r, rr) \<and> outAt env r out)"
proof (rule specI)
  fix rr out rr'
  assume a: "roundAt env (r, rr)" and d: "roundRouter_forward env state e dest p s rr = Ok (out, rr')"
  let ?rr = "roundRouter_update state p rr"
  obtain c c' where c: "mget (rr_Children ?rr) p = Some c" "periodRouter_dispatch env e dest s c = Ok (out, c')"
    and rr': "rr' = ?rr\<lparr>rr_Children := mput p c' (rr_Children ?rr)\<rparr>"
    using d unfolding roundRouter_forward_def Let_def by (auto simp: result_simps split: option.splits)
  have u: "roundAt env (r, ?rr)" by (rule roundAt_update [OF a])
  then have ch: "list_all (periodAt r) (rr_Children ?rr)" by (simp add: roundAt_def)
  have "periodAt r (p, c') \<and> outAt env r out"
    by (rule specD [OF periodRouter_dispatch_spec [OF assms] list_all_mget [OF ch c(1)] c(2)])
  then show "roundAt env (r, rr') \<and> outAt env r out" using u ch by (simp add: rr' roundAt_def list_all_mput)
qed

lemma voteTrackerRound_reply_spec:
  assumes "case e of ThresholdEv th \<Rightarrow> soundAt r th | _ \<Rightarrow> True"
  shows "spec (\<lambda>rr. roundAt env (r, rr)) (voteTrackerRound_reply e) (\<lambda>out rr. roundAt env (r, rr) \<and> outAt env r out)"
  by (rule specI) (use assms in \<open>auto simp: voteTrackerRound_reply_def Let_def roundAt_def result_simps split: event.splits if_splits\<close>)

definition toRound :: "round \<Rightarrow> stateMachineTag \<Rightarrow> event \<Rightarrow> bool" where
  "toRound r dest e \<longleftrightarrow>
     (case e of
        VoteAcceptedEv v _ \<Rightarrow> dest = voteMachineRound \<and> voteAt r (rv_Period (vt_R v)) (rv_Step (vt_R v)) v
      | ThresholdEv _ \<Rightarrow> dest = proposalMachineRound
      | StagingValueEv se \<Rightarrow> \<not> sv_Committable se
      | FreshestBundleEv _ _ \<Rightarrow> False
      | _ \<Rightarrow> True)"

lemma voteTrackerRound_handle_spec:
  assumes "toRound r voteMachineRound e"
  shows "spec (\<lambda>rr. roundAt env (r, rr)) (voteTrackerRound_handle env state e) (\<lambda>out rr. roundAt env (r, rr) \<and> outAt env r out)"
proof (cases "\<exists>v ver. e = VoteAcceptedEv v ver")
  case True
  then obtain v ver where e: "e = VoteAcceptedEv v ver" by blast
  have f: "spec (\<lambda>rr. roundAt env (r, rr)) (roundRouter_forward env state e voteMachinePeriod (rv_Period (vt_R v)) 0) (\<lambda>out rr. roundAt env (r, rr) \<and> outAt env r out)"
    by (rule roundRouter_forward_spec) (use assms in \<open>simp add: e toRound_def toPeriod_def\<close>)
  show ?thesis
    unfolding voteTrackerRound_handle_def e event.case
  proof (rule spec_andDo [OF f [unfolded e]], rule spec_if)
    fix out
    show "spec (\<lambda>rr. roundAt env (r, rr) \<and> outAt env r out) (ret EmptyEvent) (\<lambda>out rr. roundAt env (r, rr) \<and> outAt env r out)"
      by (rule spec_ret) simp
    show "spec (\<lambda>rr. roundAt env (r, rr) \<and> outAt env r out) (\<lambda>rr. voteTrackerRound_reply out (roundRouter_update state 0 rr))
        (\<lambda>out rr. roundAt env (r, rr) \<and> outAt env r out)"
    proof (rule specI)
      fix rr x t
      assume a: "roundAt env (r, rr) \<and> outAt env r out" and d: "voteTrackerRound_reply out (roundRouter_update state 0 rr) = Ok (x, t)"
      have "case out of ThresholdEv th \<Rightarrow> soundAt r th | _ \<Rightarrow> True" using a by (cases out) auto
      from specD [OF voteTrackerRound_reply_spec [OF this] roundAt_update d] a show "roundAt env (r, t) \<and> outAt env r x" by blast
    qed
  qed
next
  case False
  have r: "voteTrackerRound_handle env state e = voteTrackerRound_reply e" using False by (cases e) (auto simp: voteTrackerRound_handle_def)
  have "case e of ThresholdEv th \<Rightarrow> soundAt r th | _ \<Rightarrow> True" using assms by (cases e) (simp_all add: toRound_def)
  then show ?thesis unfolding r by (rule voteTrackerRound_reply_spec)
qed

section \<open>The store of proposals\<close>

lemma asmOK_get: "storeOK env store \<Longrightarrow> asmOK env (pv, assemblerOf store pv)"
  by (auto simp: storeOK_def mgetd_def asmOK_def zeroAssembler_def split: option.splits dest: list_all_mget)

lemma asmOK_upd [simp]:
  "asmOK env (pv, ea\<lparr>ba_Authenticators := as\<rparr>) = asmOK env (pv, ea)"
  "asmOK env (pv, assembler_trim ea p) = asmOK env (pv, ea)"
  "asmOK env (pv, fst (assembler_pipeline ea up)) = asmOK env (pv, ea)"
  by (simp_all add: asmOK_def assembler_trim_def assembler_pipeline_def)

lemma storeOK_put: "asmOK env (pv, ea) \<Longrightarrow> storeOK env store \<Longrightarrow> storeOK env (store\<lparr>st_Assemblers := mput pv ea (st_Assemblers store)\<rparr>)"
  by (simp add: storeOK_def list_all_mput)

lemma storeOK_other [simp]:
  "storeOK env (store\<lparr>st_Relevant := x\<rparr>) = storeOK env store" "storeOK env (store\<lparr>st_Pinned := y\<rparr>) = storeOK env store"
  by (simp_all add: storeOK_def)

lemma storeOK_trim:
  assumes "storeOK env store"
  shows "storeOK env (store_trim p store)"
proof -
  let ?f = "\<lambda>(_, pv). mput pv (assembler_trim (assemblerOf store pv) p)"
  have a: "asmOK env (pv, assembler_trim (assemblerOf store pv) p)" for pv using asmOK_get [OF assms] by simp
  have fl: "list_all (asmOK env) m \<Longrightarrow> list_all (asmOK env) (fold ?f kvs m)" for kvs m
  proof (induction kvs arbitrary: m)
    case (Cons kv kvs)
    obtain k pv where kv: "kv = (k, pv)" by (cases kv)
    have "list_all (asmOK env) (mput pv (assembler_trim (assemblerOf store pv) p) m)" by (rule list_all_mput [OF a Cons.prems])
    then show ?case using Cons.IH by (simp add: kv)
  qed simp
  have "list_all (asmOK env) (mput (st_Pinned store) (assembler_trim (assemblerOf store (st_Pinned store)) p) [])"
    using a by simp
  from list_all_mdel [OF fl [OF this]] show ?thesis by (simp add: store_trim_def Let_def storeOK_def)
qed

lemma roundAt_store:
  "roundAt env (r, rr) \<Longrightarrow> storeOK env store \<Longrightarrow> roundAt env (r, rr\<lparr>rr_ProposalStore := store\<rparr>)"
  "roundAt env (r, rr) \<Longrightarrow> storeOK env (rr_ProposalStore rr)"
  by (simp_all add: roundAt_def)

lemma asmOK_staged:
  "roundAt env (r, rr) \<Longrightarrow> ba_Assembled (assemblerOf (rr_ProposalStore rr) pv) \<Longrightarrow>
     proposal_value env (pp_Unauthenticated (ba_Payload (assemblerOf (rr_ProposalStore rr) pv))) = pv"
  using asmOK_get [OF roundAt_store(2), of env r rr pv] by (simp add: asmOK_def)

lemma readStaging_spec:
  assumes "\<not> sv_Committable se"
  shows "spec (\<lambda>rr. roundAt env (r, rr)) (readStaging env state se) (\<lambda>se rr. roundAt env (r, rr) \<and> outAt env r (StagingValueEv se))"
  unfolding readStaging_def
proof (rule spec_andDo [OF roundRouter_forward_spec [of r]])
  show "toPeriod r (sv_Period se) proposalMachinePeriod (StagingValueEv se)" using assms by (simp add: toPeriod_def)
  fix out
  show "spec (\<lambda>rr. roundAt env (r, rr) \<and> outAt env r out)
     (case out of
         StagingValueEv se \<Rightarrow> (\<lambda>router.
           let ea = assemblerOf (rr_ProposalStore router) (sv_Proposal se) in
           Ok (se\<lparr>sv_Committable := ba_Assembled ea, sv_Payload := ba_Payload ea\<rparr>, router))
       | _ \<Rightarrow> lift (Panic (LogPanic ''not a staging value'')))
     (\<lambda>se rr. roundAt env (r, rr) \<and> outAt env r (StagingValueEv se))"
  proof (cases out)
    case (StagingValueEv se')
    show ?thesis unfolding StagingValueEv event.case
      by (rule specI) (auto simp: Let_def asmOK_staged)
  qed (simp_all add: spec_stop)
qed

lemma stagedAt_fresh: "\<not> sv_Committable (stagedAt r p)"
  by (simp add: stagedAt_def)

lemma stagedValue_store_spec:
  "spec (\<lambda>rr. roundAt env (r, rr)) (stagedValue_store env state) (\<lambda>se rr. roundAt env (r, rr) \<and> outAt env r (StagingValueEv se))"
  unfolding stagedValue_store_def
  by (rule specI) (use specD [OF readStaging_spec [OF stagedAt_fresh] roundAt_update] in blast)

lemma store_voteVerified_spec:
  assumes "e = MessageEv me"
  shows "spec (\<lambda>rr. roundAt env (r, rr)) (store_voteVerified env state e v) (\<lambda>out rr. roundAt env (r, rr) \<and> outAt env r out)"
  unfolding store_voteVerified_def
proof (rule spec_andDo [OF roundRouter_forward_spec [of r]])
  show "toPeriod r (rv_Period (vt_R v)) proposalMachinePeriod e" by (simp add: toPeriod_def assms)
  fix ev
  show "spec (\<lambda>rr. roundAt env (r, rr) \<and> outAt env r ev)
     (case ev of
         ProposalAcceptedEv pa \<Rightarrow> (\<lambda>router.
           let store = rr_ProposalStore router;
               ea = assemblerOf store (pa_Proposal pa);
               ea = ea\<lparr>ba_Authenticators := ba_Authenticators ea @ [v]\<rparr>;
               store = store\<lparr>st_Assemblers := mput (pa_Proposal pa) ea (st_Assemblers store),
                             st_Relevant := mput (rv_Period (vt_R v)) (pa_Proposal pa) (st_Relevant store)\<rparr>
           in Ok (ProposalAcceptedEv (pa\<lparr>pa_Payload := ba_Payload ea, pa_PayloadOk := ba_Assembled ea\<rparr>),
                  router\<lparr>rr_ProposalStore := store_trim (pl_Period state) store\<rparr>))
       | _ \<Rightarrow> ret ev) (\<lambda>out rr. roundAt env (r, rr) \<and> outAt env r out)"
  proof (cases ev)
    case (ProposalAcceptedEv pa)
    show ?thesis unfolding ProposalAcceptedEv event.case
      by (rule specI) (auto simp: Let_def intro!: roundAt_store(1) storeOK_trim storeOK_put asmOK_get; rule roundAt_store(2), assumption)
  qed (simp_all add: spec_ret)
qed

lemma store_payloadPresent_spec:
  "spec (\<lambda>rr. roundAt env (r, rr)) (store_payloadPresent env state up) (\<lambda>out rr. roundAt env (r, rr) \<and> outAt env r out)"
proof (rule specI)
  fix rr out rr'
  assume a: "roundAt env (r, rr)" and d: "store_payloadPresent env state up rr = Ok (out, rr')"
  let ?pv = "proposal_value env up" and ?store = "rr_ProposalStore rr"
  have o: "outAt env r (pipelinedEv st p pv ea up)" "outAt env r (payloadRejectedEv err)" for st p pv ea err
    by (simp_all add: pipelinedEv_def payloadRejectedEv_def split: prod.splits)
  show "roundAt env (r, rr') \<and> outAt env r out"
  proof (cases "mget (st_Assemblers ?store) ?pv")
    case None
    then show ?thesis using d a o by (auto simp: store_payloadPresent_def)
  next
    case (Some ea)
    obtain ea' err where p: "assembler_pipeline ea up = (ea', err)" by fastforce
    have "asmOK env (?pv, ea)" using asmOK_get [OF roundAt_store(2) [OF a], of ?pv] Some by (simp add: mgetd_def)
    then have "asmOK env (?pv, ea')" using asmOK_upd(3) [of env ?pv ea up] by (simp add: p)
    then have "roundAt env (r, rr\<lparr>rr_ProposalStore := ?store\<lparr>st_Assemblers := mput ?pv ea' (st_Assemblers ?store)\<rparr>\<rparr>)"
      by (intro roundAt_store(1) [OF a] storeOK_put roundAt_store(2) [OF a])
    then show ?thesis using d o by (auto simp: store_payloadPresent_def Some p Let_def split: option.splits)
  qed
qed

lemma store_payloadVerified_spec:
  "spec (\<lambda>rr. roundAt env (r, rr)) (store_payloadVerified env state pp) (\<lambda>out rr. roundAt env (r, rr) \<and> outAt env r out)"
proof (rule specI)
  fix rr out rr'
  assume a: "roundAt env (r, rr)" and d: "store_payloadVerified env state pp rr = Ok (out, rr')"
  let ?pv = "proposal_value env (pp_Unauthenticated pp)" and ?store = "rr_ProposalStore rr"
  show "roundAt env (r, rr') \<and> outAt env r out"
  proof (cases "mget (st_Assemblers ?store) ?pv")
    case None
    then show ?thesis using d a by (auto simp: store_payloadVerified_def payloadRejectedEv_def)
  next
    case (Some ea)
    obtain ea' err where p: "assembler_bind ea pp = (ea', err)" by fastforce
    have "asmOK env (?pv, ea)" using asmOK_get [OF roundAt_store(2) [OF a], of ?pv] Some by (simp add: mgetd_def)
    then have "asmOK env (?pv, ea')" using p by (auto simp: asmOK_def assembler_bind_def split: if_splits)
    then have u: "roundAt env (r, rr\<lparr>rr_ProposalStore := ?store\<lparr>st_Assemblers := mput ?pv ea' (st_Assemblers ?store)\<rparr>\<rparr>)"
      by (intro roundAt_store(1) [OF a] storeOK_put roundAt_store(2) [OF a])
    then show ?thesis
    proof (cases err)
      case None
      have "andDo (stagedValue_store env state) (\<lambda>b. ret (if sv_Proposal b = ?pv then CommittableEv ?pv (authenticator ea (pl_Period state))
            else PayloadProcessedEv (zeroPayloadProcessed\<lparr>ppe_T := payloadAccepted, ppe_Vote := authenticator ea (pl_Period state), ppe_Proposal := ?pv\<rparr>)))
          (rr\<lparr>rr_ProposalStore := ?store\<lparr>st_Assemblers := mput ?pv ea' (st_Assemblers ?store)\<rparr>\<rparr>) = Ok (out, rr')"
        using d by (simp add: store_payloadVerified_def Some p None Let_def)
      then show ?thesis using specD [OF stagedValue_store_spec u] by (auto simp: andDo_Ok_iff basic_Ok_iff)
    qed (use d u in \<open>auto simp: store_payloadVerified_def Some p Let_def payloadRejectedEv_def\<close>)
  qed
qed

lemma store_newPeriod_spec:
  "spec (\<lambda>rr. roundAt env (r, rr)) (store_newPeriod env state per starting) (\<lambda>out rr. roundAt env (r, rr) \<and> outAt env r out)"
  unfolding store_newPeriod_def
proof (rule spec_andDo [OF stagedValue_store_spec], rule specI)
  fix se rr out rr'
  assume a: "roundAt env (r, rr) \<and> outAt env r (StagingValueEv se)"
    and d: "Ok (EmptyEvent, updStore (\<lambda>store.
         let store = (if starting \<noteq> bottom then store\<lparr>st_Pinned := starting\<rparr>
                      else if sv_Proposal se \<noteq> bottom then store\<lparr>st_Pinned := sv_Proposal se\<rparr> else store)
         in store_trim (pl_Period state)
              (store\<lparr>st_Relevant := filter (\<lambda>(p, _). \<not> p + 1 < per) (st_Relevant store)\<rparr>)) rr) =
       (Ok (out, rr') :: (agreement_error, event \<times> roundRouter) result)"
  have "storeOK env (rr_ProposalStore rr)" using a roundAt_store(2) by blast
  then show "roundAt env (r, rr') \<and> outAt env r out"
    using d a by (auto simp: updStore_def Let_def intro!: roundAt_store(1) storeOK_trim)
qed

lemma store_newRound_spec:
  "spec (\<lambda>rr. roundAt env (r, rr)) (store_newRound state) (\<lambda>out rr. roundAt env (r, rr) \<and> outAt env r out)"
  by (rule specI) (auto simp: store_newRound_def Let_def pipelinedEv_def split: list.splits prod.splits if_splits)

lemma store_threshold_spec:
  "spec (\<lambda>rr. roundAt env (r, rr)) (store_threshold env state te) (\<lambda>out rr. roundAt env (r, rr) \<and> outAt env r out)"
  unfolding store_threshold_def
proof (rule spec_andDo [OF roundRouter_forward_spec [of r]])
  show "toPeriod r (th_Period te) proposalMachinePeriod (ThresholdEv te)" by (simp add: toPeriod_def)
  fix ev
  show "spec (\<lambda>rr. roundAt env (r, rr) \<and> outAt env r ev)
     (case ev of
         ProposalAcceptedEv pa \<Rightarrow> (\<lambda>router.
           let store = rr_ProposalStore router; ea = assemblerOf store (pa_Proposal pa) in
           if ba_Assembled ea then Ok (CommittableEv (pa_Proposal pa) (authenticator ea (pl_Period state)), router)
           else
             let store = store\<lparr>st_Assemblers := mput (pa_Proposal pa) ea (st_Assemblers store),
                               st_Relevant := mput (th_Period te) (pa_Proposal pa) (st_Relevant store)\<rparr>
             in Ok (ProposalAcceptedEv (pa\<lparr>pa_Payload := ba_Payload ea, pa_PayloadOk := ba_Assembled ea\<rparr>),
                    router\<lparr>rr_ProposalStore := store_trim (pl_Period state) store\<rparr>))
       | _ \<Rightarrow> lift (Panic (LogPanic ''not a proposalAccepted event''))) (\<lambda>out rr. roundAt env (r, rr) \<and> outAt env r out)"
  proof (cases ev)
    case (ProposalAcceptedEv pa)
    show ?thesis unfolding ProposalAcceptedEv event.case
      by (rule specI) (auto simp: Let_def split: if_splits intro!: roundAt_store(1) storeOK_trim storeOK_put asmOK_get; rule roundAt_store(2), assumption)
  qed (simp_all add: spec_stop)
qed

lemma proposalStore_handle_spec:
  assumes "toRound r proposalMachineRound e"
  shows "spec (\<lambda>rr. roundAt env (r, rr)) (proposalStore_handle env state e) (\<lambda>out rr. roundAt env (r, rr) \<and> outAt env r out)"
proof (cases e)
  case (MessageEv me)
  show ?thesis unfolding proposalStore_handle_def MessageEv event.case
    by (cases "me_T me") (simp_all add: spec_stop store_voteVerified_spec store_payloadPresent_spec store_payloadVerified_spec)
next
  case (StagingValueEv se)
  show ?thesis unfolding proposalStore_handle_def StagingValueEv event.case
    by (rule spec_andDo [OF readStaging_spec [of _ env r]]) (use assms in \<open>simp_all add: StagingValueEv toRound_def spec_ret\<close>)
next
  case (PinnedValueEv pin)
  show ?thesis unfolding proposalStore_handle_def PinnedValueEv event.case
    by (rule specI) (auto simp: store_readPinned_def Let_def)
qed (simp_all add: proposalStore_handle_def spec_stop store_newPeriod_spec store_newRound_spec store_threshold_spec)

lemma roundRouter_dispatch_spec:
  assumes "toRound r dest e" "dest \<in> {proposalMachineRound, voteMachineRound} \<or> toPeriod r p dest e"
  shows "spec (\<lambda>rr. roundAt env (r, rr)) (roundRouter_dispatch env state e dest p s) (\<lambda>out rr. roundAt env (r, rr) \<and> outAt env r out)"
  unfolding roundRouter_dispatch_def Let_def
  by (rule specI) (use assms specD [OF proposalStore_handle_spec roundAt_update] specD [OF voteTrackerRound_handle_spec roundAt_update]
      specD [OF roundRouter_forward_spec roundAt_update] in \<open>auto split: if_splits\<close>)

section \<open>The root\<close>

definition rootOK :: "agreementEnv \<Rightarrow> rootRouter \<Rightarrow> bool" where
  "rootOK env root \<longleftrightarrow> list_all (roundAt env) (root_Children root)"

definition someOut :: "agreementEnv \<Rightarrow> event \<Rightarrow> bool" where
  "someOut env out \<longleftrightarrow> (\<exists>r. outAt env r out)"

lemma someOutI: "outAt env r out \<Longrightarrow> someOut env out"
  unfolding someOut_def by blast

lemma someOut_simps [simp]: "someOut env EmptyEvent" "someOut env (FilteredEv ft err)" "someOut env (PayloadProcessedEv ep)"
  by (simp_all add: someOut_def)

lemma rootOK_update: "rootOK env root \<Longrightarrow> rootOK env (rootRouter_update state r root)"
  by (simp add: rootOK_def rootRouter_update_def Let_def list_all_filter list_all_mput)

lemma rootRouter_forward_spec:
  assumes "toRound r dest e" "dest \<in> {proposalMachineRound, voteMachineRound} \<or> toPeriod r p dest e"
  shows "spec (rootOK env) (rootRouter_forward env state e dest r p s) (\<lambda>out root. rootOK env root \<and> outAt env r out)"
proof (rule specI)
  fix root out root'
  assume a: "rootOK env root" and d: "rootRouter_forward env state e dest r p s root = Ok (out, root')"
  let ?root = "rootRouter_update state r root"
  obtain c c' where c: "mget (root_Children ?root) r = Some c" "roundRouter_dispatch env state e dest p s c = Ok (out, c')"
    and root': "root' = ?root\<lparr>root_Children := mput r c' (root_Children ?root)\<rparr>"
    using d unfolding rootRouter_forward_def Let_def by (auto simp: result_simps split: option.splits)
  have ch: "list_all (roundAt env) (root_Children ?root)" using rootOK_update [OF a] by (simp add: rootOK_def)
  have "roundAt env (r, c') \<and> outAt env r out"
    by (rule specD [OF roundRouter_dispatch_spec [OF assms] list_all_mget [OF ch c(1)] c(2)])
  then show "rootOK env root' \<and> outAt env r out" using ch by (simp add: root' rootOK_def list_all_mput)
qed

lemmas forward_spec = spec_post [OF rootRouter_forward_spec]

text \<open>No vote of the last round or the last period that a \<open>uint64\<close> can count.\<close>

definition saneVote :: "vote \<Rightarrow> bool" where
  "saneVote v \<longleftrightarrow> rv_Round (vt_R v) \<noteq> - 1 \<and> rv_Period (vt_R v) \<noteq> - 1"

definition saneInput :: "message \<Rightarrow> bool" where
  "saneInput m \<longleftrightarrow> saneVote (m_Vote m) \<and> list_all saneVote (bundleVotes (m_Bundle m))"

abbreviation keepsRoot :: "agreementEnv \<Rightarrow> (agreement_error, rootRouter, event) effect \<Rightarrow> bool" where
  "keepsRoot env m \<equiv> spec (rootOK env) m (\<lambda>out root. rootOK env root \<and> someOut env out)"

lemma forward_keepsRoot:
  "toRound r dest e \<Longrightarrow> dest \<in> {proposalMachineRound, voteMachineRound} \<or> toPeriod r p dest e \<Longrightarrow> keepsRoot env (rootRouter_forward env state e dest r p s)"
  by (rule forward_spec) (auto intro: someOutI)

lemma ret_keepsRoot: "someOut env out \<Longrightarrow> keepsRoot env (ret out)"
  by (rule spec_ret) simp

lemma toRound_simps [simp]:
  "toRound r dest (MessageEv me)" "toRound r dest NewRoundEv" "toRound r dest (NewPeriodEv per pv)" "toRound r dest (VoteFilterRequestEv rv)"
  "toRound r dest FreshestBundleRequestEv" "toRound r dest NextThresholdStatusRequestEv" "toRound r dest DumpVotesRequestEv"
  "toRound r dest (ProposalFrozenEv pv)" "toRound r dest (PinnedValueEv pin)" "toRound r dest (StagingValueEv (stagedAt rr p))"
  "toRound r proposalMachineRound (ThresholdEv th)" "toPeriod r p dest (VoteFilterRequestEv rv)" "toPeriod r p dest NextThresholdStatusRequestEv"
  "toPeriod r p dest DumpVotesRequestEv" "toPeriod r p dest (ProposalFrozenEv pv)"
  by (simp_all add: toRound_def toPeriod_def stagedAt_def)

lemma deliverVote_spec:
  assumes "saneVote v"
  shows "spec (rootOK env) (deliverVote env state ver v) (\<lambda>out root. rootOK env root \<and> outAt env (rv_Round (vt_R v)) out)"
  unfolding deliverVote_def
  by (rule rootRouter_forward_spec) (use assms in \<open>simp_all add: toRound_def voteAt_def saneVote_def\<close>)

lemma deliverVotes_spec:
  assumes "list_all saneVote vs" "case th of Some e \<Rightarrow> someOut env e | None \<Rightarrow> True"
  shows "spec (rootOK env) (deliverVotes env state ver vs th) (\<lambda>out root. rootOK env root \<and> (case out of Some e \<Rightarrow> someOut env e | None \<Rightarrow> True))"
  using assms
proof (induction vs arbitrary: th)
  case Nil
  then show ?case unfolding deliverVotes.simps by (intro spec_ret) simp
next
  case (Cons v vs)
  have v: "saneVote v" "list_all saneVote vs" using Cons.prems(1) by simp_all
  show ?case
    unfolding deliverVotes.simps
  proof (rule spec_andDo [OF deliverVote_spec [OF v(1)]])
    fix e
    let ?th = "case e of ThresholdEv t \<Rightarrow> if th_T t \<noteq> noThreshold then Some e else th | _ \<Rightarrow> th"
    show "spec (\<lambda>root. rootOK env root \<and> outAt env (rv_Round (vt_R v)) e) (deliverVotes env state ver vs ?th)
        (\<lambda>out root. rootOK env root \<and> (case out of Some e \<Rightarrow> someOut env e | None \<Rightarrow> True))"
    proof (rule specI)
      fix root x t
      assume a: "rootOK env root \<and> outAt env (rv_Round (vt_R v)) e" and d: "deliverVotes env state ver vs ?th root = Ok (x, t)"
      have "case ?th of Some e \<Rightarrow> someOut env e | None \<Rightarrow> True"
        using Cons.prems(2) someOutI [of env _ e] a by (cases e) auto
      from specD [OF Cons.IH [OF v(2) this] _ d] a show "rootOK env t \<and> (case x of Some e \<Rightarrow> someOut env e | None \<Rightarrow> True)" by blast
    qed
  qed
qed

lemma filterVote_spec: "spec (rootOK env) (filterVote env state uv fd) (\<lambda>err root. rootOK env root)"
  unfolding filterVote_def Let_def
proof (intro spec_if spec_ret, assumption)
  assume "\<not> \<not> voteFresh fd uv"
  show "spec (rootOK env) (andDo (rootRouter_forward env state (VoteFilterRequestEv (uvt_R uv)) voteMachineStep (rv_Round (uvt_R uv)) (rv_Period (uvt_R uv)) (rv_Step (uvt_R uv)))
      (\<lambda>out. case out of FilteredStepEv \<Rightarrow> ret (Some ''voteAggregator: rejected vote'')
        | _ \<Rightarrow> if isNone out then ret None else lift (Panic (LogPanic ''voteAggregator: bad event type'')))) (\<lambda>err root. rootOK env root)"
  proof (rule spec_andDo [OF rootRouter_forward_spec])
    fix out
    show "spec (\<lambda>root. rootOK env root \<and> outAt env (rv_Round (uvt_R uv)) out)
      (case out of FilteredStepEv \<Rightarrow> ret (Some ''voteAggregator: rejected vote'')
        | _ \<Rightarrow> if isNone out then ret None else lift (Panic (LogPanic ''voteAggregator: bad event type''))) (\<lambda>err root. rootOK env root)"
      by (cases out) (auto intro!: spec_ret spec_stop)
  qed simp_all
qed

end
