(* ===== verification/Agreement_Safety.thy ===== *)
theory Agreement_Safety
  imports Agreement_Invariants
begin

text \<open>
  What a player never does, whatever messages it gets. Its position (round, period and the
  steps it has voted in) never moves back, the only votes it issues while it handles messages
  are cert votes, and a block it asks the ledger to write is the block that the certificate
  beside it is for.
\<close>

section \<open>The manager and the aggregator\<close>

lemma manager_payloadPresent_spec: "keepsRoot env (manager_payloadPresent env state me)"
  unfolding manager_payloadPresent_def Let_def
proof (rule spec_prod, rule spec_andDo [OF rootRouter_forward_spec])
  fix r p out
  show "spec (\<lambda>root. rootOK env root \<and> outAt env r out)
      (case out of
          PayloadProcessedEv ep \<Rightarrow>
            if ppe_T ep = payloadRejected then ret out else ret (PayloadProcessedEv (ep\<lparr>ppe_Round := r\<rparr>))
        | _ \<Rightarrow> lift (Panic (LogPanic ''not a payloadProcessed event''))) (\<lambda>out root. rootOK env root \<and> someOut env out)"
    by (cases out) (auto intro!: spec_ret spec_stop)
qed simp_all

lemma filterProposalVote_spec: "spec (rootOK env) (filterProposalVote env state uv fd) (\<lambda>err root. rootOK env root)"
  unfolding filterProposalVote_def
  by (intro spec_if spec_ret spec_andDo [OF rootRouter_forward_spec]) simp_all

lemma manager_handleMessageEvent_spec: "keepsRoot env (manager_handleMessageEvent env state me fd)"
proof -
  have f: "keepsRoot env (rootRouter_forward env state (MessageEv me) proposalMachineRound r p 0)" for r p
    by (rule forward_keepsRoot) simp_all
  have v: "keepsRoot env (andDo (filterProposalVote env state (m_UnauthenticatedVote (me_Input me)) fd) (\<lambda>err.
          ret (if err \<noteq> None then FilteredEv voteFiltered err else EmptyEvent)))"
    by (rule spec_andDo [OF filterProposalVote_spec], rule spec_ret) simp
  show ?thesis
    unfolding manager_handleMessageEvent_def Let_def
    by (cases "me_T me") (simp_all add: f v [unfolded not_None_eq] ret_keepsRoot manager_payloadPresent_spec)
qed

lemma handleNewPeriod_spec: "keepsRoot env (handleNewPeriod env state th)"
  unfolding handleNewPeriod_def Let_def by (rule forward_keepsRoot) simp_all

lemma proposalManager_handle_spec: "keepsRoot env (proposalManager_handle env state e)"
proof (cases e)
  case (ThresholdEv th)
  have f: "keepsRoot env (rootRouter_forward env state (ThresholdEv th) proposalMachineRound (th_Round th) (th_Period th) 0)"
    by (rule forward_keepsRoot) simp_all
  have n: "keepsRoot env (if pl_Period state < th_Period th then handleNewPeriod env state th else ret EmptyEvent)"
    by (simp add: handleNewPeriod_spec ret_keepsRoot)
  show ?thesis
    unfolding proposalManager_handle_def ThresholdEv event.case
    by (intro spec_if spec_andDo [OF n] spec_andDo [OF handleNewPeriod_spec] spec_pre [OF f] spec_ret) simp_all
qed (simp_all add: proposalManager_handle_def spec_stop manager_handleMessageEvent_spec forward_keepsRoot)

lemma aggregator_voteVerified_spec:
  assumes "saneInput (me_Input me)"
  shows "keepsRoot env (aggregator_voteVerified env state me fd)"
proof -
  let ?v = "m_Vote (me_Input me)"
  have d: "spec (rootOK env) (deliverVote env state (cvv_Version (me_Proto me)) ?v) (\<lambda>out root. rootOK env root \<and> outAt env (rv_Round (vt_R ?v)) out)"
    by (rule deliverVote_spec) (use assms in \<open>simp add: saneInput_def\<close>)
  have t: "spec (\<lambda>root. rootOK env root \<and> outAt env (rv_Round (vt_R ?v)) tE)
      (if isNone tE then ret tE
          else case tE of
              ThresholdEv th \<Rightarrow>
                if th_Round th = fd_PlayerRound fd then ret tE
                else if th_Round th = fd_PlayerRound fd + 1 then ret EmptyEvent
                else lift (Panic (LogPanic ''bad round''))
            | _ \<Rightarrow> lift (Panic (LogPanic ''not a threshold''))) (\<lambda>out root. rootOK env root \<and> someOut env out)" for tE
    by (cases tE) (auto intro!: spec_ret spec_stop intro: someOutI)
  have c: "keepsRoot env (andDo (filterVote env state (vote_u ?v) fd) (\<lambda>err.
        if err \<noteq> None then ret (FilteredEv voteFiltered err)
        else andDo (deliverVote env state (cvv_Version (me_Proto me)) ?v) (\<lambda>tE.
          if isNone tE then ret tE
          else case tE of
              ThresholdEv th \<Rightarrow>
                if th_Round th = fd_PlayerRound fd then ret tE
                else if th_Round th = fd_PlayerRound fd + 1 then ret EmptyEvent
                else lift (Panic (LogPanic ''bad round''))
            | _ \<Rightarrow> lift (Panic (LogPanic ''not a threshold'')))))"
    by (intro spec_andDo [OF filterVote_spec] spec_if ret_keepsRoot spec_andDo [OF d] t) simp
  show ?thesis unfolding aggregator_voteVerified_def Let_def
    by (intro spec_if ret_keepsRoot c) simp_all
qed

lemma aggregator_bundleVerified_spec:
  assumes "saneInput (me_Input me)"
  shows "keepsRoot env (aggregator_bundleVerified env state me fd)"
proof -
  have d: "spec (rootOK env) (deliverVotes env state (cvv_Version (me_Proto me)) (bundleVotes (m_Bundle (me_Input me))) None)
      (\<lambda>out root. rootOK env root \<and> (case out of Some e \<Rightarrow> someOut env e | None \<Rightarrow> True))"
    by (rule deliverVotes_spec) (use assms in \<open>simp_all add: saneInput_def\<close>)
  have k: "spec (\<lambda>root. rootOK env root \<and> (case out of Some e \<Rightarrow> someOut env e | None \<Rightarrow> True))
      (case out of Some e \<Rightarrow> ret e | None \<Rightarrow> ret (FilteredEv bundleFiltered (Some ''bundle failed to cause a significant state change'')))
      (\<lambda>out root. rootOK env root \<and> someOut env out)" for out
    by (cases out) (simp_all add: spec_ret)
  show ?thesis unfolding aggregator_bundleVerified_def Let_def
    by (intro spec_if ret_keepsRoot spec_andDo [OF d] k) simp_all
qed

lemma voteAggregator_handle_spec:
  assumes "case e of FilterableMessageEv me _ \<Rightarrow> saneInput (me_Input me) | _ \<Rightarrow> True"
  shows "keepsRoot env (voteAggregator_handle env state e)"
proof (cases e)
  case (FilterableMessageEv me fd)
  have v: "keepsRoot env (andDo (filterVote env state (m_UnauthenticatedVote (me_Input me)) fd) (\<lambda>err.
          ret (if err \<noteq> None then FilteredEv voteFiltered err else EmptyEvent)))"
    by (rule spec_andDo [OF filterVote_spec], rule spec_ret) simp
  show ?thesis
    using assms unfolding voteAggregator_handle_def FilterableMessageEv event.case
    by (cases "me_T me") (simp_all add: v [unfolded not_None_eq] ret_keepsRoot spec_stop aggregator_voteVerified_spec aggregator_bundleVerified_spec)
qed (simp_all add: voteAggregator_handle_def spec_stop)

text \<open>The dispatches of the player.\<close>

lemma dispatch_manager: "keepsRoot env (rootRouter_dispatch env state e proposalMachine r p s)"
  unfolding rootRouter_dispatch_def Let_def
  by (rule specI) (use specD [OF proposalManager_handle_spec rootOK_update] in \<open>auto split: if_splits\<close>)

lemma dispatch_aggregator:
  assumes "saneInput (me_Input me)"
  shows "keepsRoot env (rootRouter_dispatch env state (FilterableMessageEv me fd) voteMachine r p s)"
proof -
  have h: "keepsRoot env (voteAggregator_handle env state (FilterableMessageEv me fd))"
    by (rule voteAggregator_handle_spec) (use assms in simp)
  show ?thesis
    unfolding rootRouter_dispatch_def Let_def
    by (rule specI) (use specD [OF h rootOK_update] in \<open>auto simp: andDo_Ok_iff basic_Ok_iff split: if_splits\<close>)
qed

lemma dispatch_below:
  assumes "toRound r dest e" "dest \<in> {proposalMachineRound, voteMachineRound} \<or> toPeriod r p dest e" "dest \<notin> {proposalMachine, voteMachine}"
  shows "spec (rootOK env) (rootRouter_dispatch env state e dest r p s) (\<lambda>out root. rootOK env root \<and> outAt env r out)"
  unfolding rootRouter_dispatch_def Let_def
  by (rule specI) (use specD [OF rootRouter_forward_spec [OF assms(1,2)] rootOK_update] assms(3) in \<open>auto split: if_splits\<close>)

lemma stagedValue_spec: "spec (rootOK env) (stagedValue env state r p) (\<lambda>se root. rootOK env root \<and> outAt env r (StagingValueEv se))"
  unfolding stagedValue_def
proof (rule spec_andDo [OF dispatch_below])
  fix out
  show "spec (\<lambda>root. rootOK env root \<and> outAt env r out)
      (case out of StagingValueEv se \<Rightarrow> ret se | _ \<Rightarrow> lift (Panic (LogPanic ''not a staging value'')))
      (\<lambda>se root. rootOK env root \<and> outAt env r (StagingValueEv se))"
    by (cases out) (auto intro!: spec_ret spec_stop)
qed simp_all

lemma pinnedValue_spec: "spec (rootOK env) (pinnedValue env state r) (\<lambda>pin root. rootOK env root)"
  unfolding pinnedValue_def
proof (rule spec_andDo [OF dispatch_below])
  fix out
  show "spec (\<lambda>root. rootOK env root \<and> outAt env r out)
      (case out of PinnedValueEv se \<Rightarrow> ret se | _ \<Rightarrow> lift (Panic (LogPanic ''not a pinned value''))) (\<lambda>pin root. rootOK env root)"
    by (cases out) (auto intro!: spec_ret spec_stop)
qed simp_all

section \<open>Operations of the player\<close>

definition live :: "agreementEnv \<Rightarrow> (player \<Rightarrow> bool) \<Rightarrow> machineState \<Rightarrow> bool" where
  "live env P = (\<lambda>(p, root). P p \<and> rootOK env root)"

lemma live_mono: "live env P s \<Longrightarrow> (\<And>p. P p \<Longrightarrow> Q p) \<Longrightarrow> live env Q s"
  by (cases s) (simp add: live_def)

lemma spec_live_mono: "spec (live env P) m Q \<Longrightarrow> (\<And>p. P' p \<Longrightarrow> P p) \<Longrightarrow> spec (live env P') m Q"
  by (erule spec_pre) (erule live_mono, blast)

lemma below_spec:
  assumes "\<And>p. P p \<Longrightarrow> spec (rootOK env) (m p) (\<lambda>x root. rootOK env root \<and> Q x)"
  shows "spec (live env P) (below m) (\<lambda>x st. Q x \<and> live env P st)"
proof (rule specI)
  fix s x t
  assume s: "live env P s" and b: "below m s = Ok (x, t)"
  obtain p root where s': "s = (p, root)" by (cases s)
  obtain root' where m: "m p root = Ok (x, root')" "t = (p, root')" using b by (auto simp: below_def s' result_simps)
  have "P p" "rootOK env root" using s by (simp_all add: live_def s')
  with specD [OF assms _ m(1)] show "Q x \<and> live env P t" by (simp add: live_def m(2))
qed

lemma getPlayer_spec: "spec (live env P) getPlayer (\<lambda>p. live env (\<lambda>q. P q \<and> q = p))"
  by (rule specI) (auto simp: getPlayer_def live_def)

lemma updPlayer_spec: "(\<And>p. P p \<Longrightarrow> Q (f p)) \<Longrightarrow> spec (live env P) (updPlayer f) (\<lambda>_. live env Q)"
  by (rule specI) (auto simp: updPlayer_def live_def)

lemma spec_getPlayer:
  "(\<And>p. P p \<Longrightarrow> spec (live env (\<lambda>q. P q \<and> q = p)) (f p) Q) \<Longrightarrow> spec (live env P) (andDo getPlayer f) Q"
proof (rule specI)
  fix s x t
  assume f: "\<And>p. P p \<Longrightarrow> spec (live env (\<lambda>q. P q \<and> q = p)) (f p) Q" and s: "live env P s" and d: "andDo getPlayer f s = Ok (x, t)"
  obtain p root where s': "s = (p, root)" by (cases s)
  have p: "P p" "live env (\<lambda>q. P q \<and> q = p) s" using s by (simp_all add: s' live_def)
  have "f p s = Ok (x, t)" using d by (simp add: andDo_def getPlayer_def s')
  from specD [OF f [OF p(1)] p(2) this] show "Q x t" .
qed

lemma spec_fact_live: "(c \<Longrightarrow> spec (live env P) m Q) \<Longrightarrow> spec (\<lambda>st. c \<and> live env P st) m Q"
  by (rule spec_fact)

lemma ask_manager: "spec (live env P) (ask env e proposalMachine r p s) (\<lambda>out st. someOut env out \<and> live env P st)"
  unfolding ask_def by (rule below_spec) (rule dispatch_manager)

lemma ask_aggregator:
  "saneInput (me_Input me) \<Longrightarrow> spec (live env P) (ask env (FilterableMessageEv me fd) voteMachine r p s) (\<lambda>out st. someOut env out \<and> live env P st)"
  unfolding ask_def by (rule below_spec) (rule dispatch_aggregator)

lemma ask_below:
  "toRound r dest e \<Longrightarrow> dest \<in> {proposalMachineRound, voteMachineRound} \<or> toPeriod r p dest e \<Longrightarrow> dest \<notin> {proposalMachine, voteMachine} \<Longrightarrow>
     spec (live env P) (ask env e dest r p s) (\<lambda>out st. outAt env r out \<and> live env P st)"
  unfolding ask_def by (rule below_spec) (rule dispatch_below)

lemma freshestBundle_spec:
  "spec (live env P) (freshestBundle env r) (\<lambda>x st. (soundAt r (snd x) \<and> (fst x \<longrightarrow> th_T (snd x) \<noteq> noThreshold)) \<and> live env P st)"
  unfolding freshestBundle_def
proof (rule spec_andDo [OF ask_below])
  fix out
  show "spec (\<lambda>st. outAt env r out \<and> live env P st) (case out of FreshestBundleEv ok th \<Rightarrow> ret (ok, th) | _ \<Rightarrow> typePanic)
      (\<lambda>x st. (soundAt r (snd x) \<and> (fst x \<longrightarrow> th_T (snd x) \<noteq> noThreshold)) \<and> live env P st)"
    unfolding typePanic_def by (cases out) (auto intro!: spec_ret spec_stop)
qed simp_all

lemma nextStatus_spec: "spec (live env P) (nextStatus env r p) (\<lambda>st. live env P)"
  unfolding nextStatus_def
proof (rule spec_andDo [OF ask_below])
  fix out
  show "spec (\<lambda>st. outAt env r out \<and> live env P st) (case out of NextThresholdStatusEv st \<Rightarrow> ret st | _ \<Rightarrow> typePanic) (\<lambda>st. live env P)"
    unfolding typePanic_def by (cases out) (auto intro!: spec_ret spec_stop)
qed simp_all

lemma dumpedVotes_spec: "spec (live env P) (dumpedVotes env r p s) (\<lambda>vs. live env P)"
  unfolding dumpedVotes_def
proof (rule spec_andDo [OF ask_below])
  fix out
  show "spec (\<lambda>st. outAt env r out \<and> live env P st) (case out of DumpVotesEv vs \<Rightarrow> ret vs | _ \<Rightarrow> typePanic) (\<lambda>vs. live env P)"
    unfolding typePanic_def by (cases out) (auto intro!: spec_ret spec_stop)
qed simp_all

lemma staged_spec:
  "spec (live env P) (below (\<lambda>state. stagedValue env state r p)) (\<lambda>se st. outAt env r (StagingValueEv se) \<and> live env P st)"
  by (rule below_spec) (rule stagedValue_spec)

lemma pinned_spec: "spec (live env P) (below (\<lambda>state. pinnedValue env state r)) (\<lambda>pin. live env P)"
  by (rule spec_post [OF below_spec [where Q = "\<lambda>_. True"]]) (simp_all add: pinnedValue_spec)

text \<open>The actions a player may ask for while it handles a message or a threshold.\<close>

definition calm :: "agreementEnv \<Rightarrow> action \<Rightarrow> bool" where
  "calm env a \<longleftrightarrow>
     (case a of
        EnsureAction pp c \<Rightarrow> proposal_value env (pp_Unauthenticated pp) = ub_Proposal c \<and> ub_Step c = cert
      | PseudonodeAction ps \<Rightarrow> psn_T ps = attest \<longrightarrow> psn_Step ps = cert \<or> psn_Step ps \<ge> late
      | _ \<Rightarrow> True)"

lemma calm_simps [simp]:
  "calm env (broadcastAction out)" "calm env (relayAction e out)" "calm env (RezeroAction r)" "calm env (StageDigestAction c)"
  "calm env (ignoreAction e err)" "calm env (disconnectAction e err)" "calm env (verifyVoteAction e r p k)" "calm env (verifyPayloadAction e r p b)"
  "calm env (verifyBundleAction e r p s)" "calm env (CheckpointAction ck)" "calm env (NetworkAction na)"
  "calm env (attestAction pl s pv) \<longleftrightarrow> s = cert \<or> s \<ge> late"
  "calm env (EnsureAction pp c) \<longleftrightarrow> proposal_value env (pp_Unauthenticated pp) = ub_Proposal c \<and> ub_Step c = cert"
  by (simp_all add: calm_def broadcastAction_def relayAction_def ignoreAction_def disconnectAction_def verifyVoteAction_def
      verifyPayloadAction_def verifyBundleAction_def attestAction_def)

abbreviation calms :: "agreementEnv \<Rightarrow> action list \<Rightarrow> bool" where
  "calms env as \<equiv> list_all (calm env) as"

lemma repropagate_spec: "spec (live env P) (repropagate env r p) (\<lambda>as st. calms env as \<and> live env P st)"
  unfolding repropagate_def Let_def
  by (intro spec_andDo [OF staged_spec] spec_fact spec_if spec_ret spec_andDo [OF pinned_spec]) simp_all

lemma partitionPolicy_spec: "spec (live env P) (partitionPolicy env) (\<lambda>as st. calms env as \<and> live env P st)"
  unfolding partitionPolicy_def
proof (rule spec_getPlayer, intro spec_if)
  fix p
  assume "P p"
  let ?P = "\<lambda>q. P q \<and> q = p"
  show "spec (live env ?P) (ret []) (\<lambda>as st. calms env as \<and> live env P st)"
    by (rule spec_ret) (auto elim: live_mono)
  have r: "spec (live env ?P) (andDo (repropagate env r q) (\<lambda>a1. ret (a0 @ a1))) (\<lambda>as st. calms env as \<and> live env P st)"
    if "calms env a0" for r q a0
    by (intro spec_andDo [OF repropagate_spec] spec_fact spec_ret) (use that in \<open>auto elim: live_mono\<close>)
  show "spec (live env ?P) (andDo (freshestBundle env (pl_Round p)) (\<lambda>(ok, th).
       let b = th_Bundle th; a0 = (if ok then [broadcastAction (OutBundle b)] else []) in
       if ok \<and> ub_Proposal b \<noteq> bottom then andDo (repropagate env (ub_Round b) (ub_Period b)) (\<lambda>a1. ret (a0 @ a1))
       else if pl_Period p = 0 then andDo (repropagate env (pl_Round p) (pl_Period p)) (\<lambda>a1. ret (a0 @ a1))
       else ret a0)) (\<lambda>as st. calms env as \<and> live env P st)"
    unfolding Let_def
    by (intro spec_andDo [OF freshestBundle_spec] spec_prod spec_fact spec_if r spec_ret) (auto elim: live_mono)
qed

section \<open>The staged value\<close>

text \<open>A quorum stages its value in its period, and that value is read back.\<close>

definition stagesIn :: "roundRouter \<Rightarrow> period \<Rightarrow> proposalValue \<Rightarrow> bool" where
  "stagesIn rr p pv \<longleftrightarrow> (\<exists>pr. mget (rr_Children rr) p = Some pr \<and> pt_Staging (pr_ProposalTracker pr) = pv)"

definition stagesAt :: "rootRouter \<Rightarrow> round \<Rightarrow> period \<Rightarrow> proposalValue \<Rightarrow> bool" where
  "stagesAt root r p pv \<longleftrightarrow> (\<exists>rr. mget (root_Children root) r = Some rr \<and> stagesIn rr p pv)"

lemma mget_filter: "mget (filter (\<lambda>(k, _). Q k) m) k = (if Q k then mget m k else None)"
  by (induction m) auto

lemma mget_update:
  "mget (rr_Children (roundRouter_update state p rr)) q = Some pr \<Longrightarrow> mget (rr_Children rr) q = Some pr' \<Longrightarrow> pr = pr'"
  "mget (root_Children (rootRouter_update state r root)) r' = Some rr \<Longrightarrow> mget (root_Children root) r' = Some rr' \<Longrightarrow> rr = rr'"
  by (auto simp: roundRouter_update_def rootRouter_update_def Let_def mget_filter map_simps split: if_splits)

lemma stagesIn_update: "stagesIn rr p pv \<Longrightarrow> mget (rr_Children (roundRouter_update state q rr)) p = Some pr \<Longrightarrow> pt_Staging (pr_ProposalTracker pr) = pv"
  unfolding stagesIn_def using mget_update(1) by blast

lemma tracker_stages:
  assumes "checkedProposalTracker env (ThresholdEv th) (t, c) = Ok (out, (t', c'))"
  shows "pt_Staging t' = th_Proposal th"
  using assms
  by (auto simp: checkedProposalTracker_def proposalTracker_handle_def result_simps case_prod_unfold Let_def split: if_splits)

lemma forward_stages:
  assumes "roundRouter_forward env state (ThresholdEv th) proposalMachinePeriod p s rr = Ok (out, rr')"
  shows "stagesIn rr' p (th_Proposal th)"
proof -
  obtain pr pr' where d: "periodRouter_dispatch env (ThresholdEv th) proposalMachinePeriod s pr = Ok (out, pr')"
    and rr': "mget (rr_Children rr') p = Some pr'"
    using assms unfolding roundRouter_forward_def Let_def by (auto simp: result_simps map_simps split: option.splits)
  have "pt_Staging (pr_ProposalTracker pr') = th_Proposal th"
    using d unfolding periodRouter_dispatch_def Let_def by (auto simp: result_simps dest: tracker_stages)
  then show ?thesis using rr' unfolding stagesIn_def by blast
qed

lemma store_threshold_stages:
  assumes "store_threshold env state te rr = Ok (out, rr')"
  shows "stagesIn rr' (th_Period te) (th_Proposal te)"
proof -
  let ?k = "\<lambda>ev. case ev of
         ProposalAcceptedEv pa \<Rightarrow> (\<lambda>router.
           let store = rr_ProposalStore router; ea = assemblerOf store (pa_Proposal pa) in
           if ba_Assembled ea then Ok (CommittableEv (pa_Proposal pa) (authenticator ea (pl_Period state)), router)
           else
             let store = store\<lparr>st_Assemblers := mput (pa_Proposal pa) ea (st_Assemblers store),
                               st_Relevant := mput (th_Period te) (pa_Proposal pa) (st_Relevant store)\<rparr>
             in Ok (ProposalAcceptedEv (pa\<lparr>pa_Payload := ba_Payload ea, pa_PayloadOk := ba_Assembled ea\<rparr>),
                    router\<lparr>rr_ProposalStore := store_trim (pl_Period state) store\<rparr>))
       | _ \<Rightarrow> (lift (Panic (LogPanic ''not a proposalAccepted event'')) :: (agreement_error, roundRouter, event) effect)"
  obtain ev rr1 where f: "roundRouter_forward env state (ThresholdEv te) proposalMachinePeriod (th_Period te) 0 rr = Ok (ev, rr1)"
    and k: "?k ev rr1 = Ok (out, rr')"
    using assms unfolding store_threshold_def andDo_Ok_iff by blast
  have c: "rr_Children rr' = rr_Children rr1"
    using k by (cases ev) (auto simp: basic_Ok_iff Let_def split: if_splits)
  show ?thesis using forward_stages [OF f] unfolding stagesIn_def c .
qed

lemma manager_stages:
  assumes "rootRouter_dispatch env state (ThresholdEv th) proposalMachine r p s root = Ok (out, root')" "isStagingThreshold th"
  shows "stagesAt root' (th_Round th) (th_Period th) (th_Proposal th)"
proof -
  obtain root1 where "rootRouter_forward env state (ThresholdEv th) proposalMachineRound (th_Round th) (th_Period th) 0 root1 = Ok (out, root')"
    using assms unfolding rootRouter_dispatch_def proposalManager_handle_def Let_def by (auto simp: andDo_Ok_iff split: if_splits)
  then obtain rr rr' where d: "roundRouter_dispatch env state (ThresholdEv th) proposalMachineRound (th_Period th) 0 rr = Ok (out, rr')"
    and c: "mget (root_Children root') (th_Round th) = Some rr'"
    unfolding rootRouter_forward_def Let_def by (auto simp: result_simps map_simps split: option.splits)
  have "stagesIn rr' (th_Period th) (th_Proposal th)"
    using d assms(2) unfolding roundRouter_dispatch_def proposalStore_handle_def Let_def by (auto dest: store_threshold_stages)
  then show ?thesis using c unfolding stagesAt_def by blast
qed

lemma readStaging_Ok:
  assumes "readStaging env state se rr = Ok (se', rr')"
  shows "\<exists>se1. roundRouter_forward env state (StagingValueEv se) proposalMachinePeriod (sv_Period se) 0 rr = Ok (StagingValueEv se1, rr') \<and>
    sv_Proposal se' = sv_Proposal se1"
proof -
  let ?k = "\<lambda>out. case out of
         StagingValueEv se \<Rightarrow> (\<lambda>router.
           let ea = assemblerOf (rr_ProposalStore router) (sv_Proposal se) in
           Ok (se\<lparr>sv_Committable := ba_Assembled ea, sv_Payload := ba_Payload ea\<rparr>, router))
       | _ \<Rightarrow> (lift (Panic (LogPanic ''not a staging value'')) :: (agreement_error, roundRouter, stagingValueEvent) effect)"
  obtain out rr1 where f: "roundRouter_forward env state (StagingValueEv se) proposalMachinePeriod (sv_Period se) 0 rr = Ok (out, rr1)"
    and k: "?k out rr1 = Ok (se', rr')"
    using assms unfolding readStaging_def andDo_Ok_iff by blast
  show ?thesis using f k by (cases out) (auto simp: basic_Ok_iff Let_def)
qed

lemma readStaging_value:
  assumes "readStaging env state se rr = Ok (se', rr')" "stagesIn rr (sv_Period se) pv"
  shows "sv_Proposal se' = pv"
proof -
  obtain se1 where f: "roundRouter_forward env state (StagingValueEv se) proposalMachinePeriod (sv_Period se) 0 rr = Ok (StagingValueEv se1, rr')"
    and se': "sv_Proposal se' = sv_Proposal se1"
    using readStaging_Ok [OF assms(1)] by blast
  obtain pr pr' where m: "mget (rr_Children (roundRouter_update state (sv_Period se) rr)) (sv_Period se) = Some pr"
    and d: "periodRouter_dispatch env (StagingValueEv se) proposalMachinePeriod 0 pr = Ok (StagingValueEv se1, pr')"
    using f unfolding roundRouter_forward_def Let_def by (auto simp: result_simps split: option.splits)
  have "pt_Staging (pr_ProposalTracker pr) = pv" by (rule stagesIn_update [OF assms(2) m])
  moreover have "pt_Staging (pr_ProposalTracker (periodRouter_update 0 pr)) = pt_Staging (pr_ProposalTracker pr)"
    by (simp add: periodRouter_update_def)
  ultimately show ?thesis
    using d se' unfolding periodRouter_dispatch_def Let_def
    by (auto simp: result_simps checkedProposalTracker_def proposalTracker_handle_def case_prod_unfold Let_def split: if_splits)
qed

lemma stagedValue_Ok:
  assumes "stagedValue env state r p root = Ok (se, root')"
  shows "rootRouter_dispatch env state (StagingValueEv (stagedAt r p)) proposalMachineRound r p 0 root = Ok (StagingValueEv se, root')"
proof -
  let ?k = "\<lambda>out. case out of StagingValueEv se \<Rightarrow> ret se
    | _ \<Rightarrow> (lift (Panic (LogPanic ''not a staging value'')) :: (agreement_error, rootRouter, stagingValueEvent) effect)"
  obtain out root1 where f: "rootRouter_dispatch env state (StagingValueEv (stagedAt r p)) proposalMachineRound r p 0 root = Ok (out, root1)"
    and k: "?k out root1 = Ok (se, root')"
    using assms unfolding stagedValue_def andDo_Ok_iff by blast
  show ?thesis using f k by (cases out) (auto simp: basic_Ok_iff)
qed

lemma stagedValue_value:
  assumes "stagedValue env state r p root = Ok (se, root')" "stagesAt root r p pv"
  shows "sv_Proposal se = pv"
proof -
  obtain root1 where "rootRouter_forward env state (StagingValueEv (stagedAt r p)) proposalMachineRound r p 0 (rootRouter_update state r root) = Ok (StagingValueEv se, root1)"
    using stagedValue_Ok [OF assms(1)] unfolding rootRouter_dispatch_def Let_def by simp
  then obtain rr rr' where m: "mget (root_Children (rootRouter_update state r (rootRouter_update state r root))) r = Some rr"
    and d: "roundRouter_dispatch env state (StagingValueEv (stagedAt r p)) proposalMachineRound p 0 rr = Ok (StagingValueEv se, rr')"
    unfolding rootRouter_forward_def Let_def by (auto simp: result_simps split: option.splits)
  obtain rr0 where r0: "mget (root_Children root) r = Some rr0" "stagesIn rr0 p pv" using assms(2) unfolding stagesAt_def by blast
  have "mget (root_Children (rootRouter_update state r root)) r = Some rr"
    using m r0(1) by (auto simp: rootRouter_update_def Let_def mget_filter split: if_splits)
  then have "rr = rr0" using mget_update(2) r0(1) by blast
  have rd: "readStaging env state (stagedAt r p) (roundRouter_update state p rr) = Ok (se, rr')"
    using d unfolding roundRouter_dispatch_def proposalStore_handle_def Let_def by (auto simp: andDo_Ok_iff basic_Ok_iff)
  then obtain pr where "mget (rr_Children (roundRouter_update state p (roundRouter_update state p rr))) p = Some pr"
    using readStaging_Ok [OF rd] unfolding roundRouter_forward_def Let_def by (auto simp: stagedAt_def split: option.splits)
  then have "stagesIn (roundRouter_update state p rr) p pv"
    using r0(2) \<open>rr = rr0\<close> unfolding stagesIn_def by (auto simp: roundRouter_update_def Let_def mget_filter split: if_splits)
  then show ?thesis using readStaging_value [OF rd] by (simp add: stagedAt_def)
qed

end
