(* ===== verification/Agreement_Service.thy ===== *)
theory Agreement_Service
  imports Agreement_Safety
begin

text \<open>
  The main loop of the agreement service and its crash recovery (\<open>src/agreement/service.go\<close>,
  \<open>persistence.go\<close>, the actions of the pseudonode in \<open>actions.go\<close>). The loop hands an event to
  the player, performs the actions it returns, and records the state to be stored when one of
  them is a vote. Performing a vote stores the recorded state in the crash database and then
  releases the vote; a service that starts reads the database first.

  A request to store the state is written by a goroutine of its own, in the order of the
  requests, and a vote waits for its own request. Here a request is written when its action is
  performed or never, and a vote is released at that moment or never, which leaves the stored
  states and the votes that are released as the code has them. The encoding of the state is
  that of an external library: the parameter \<open>codec\<close> is what decoding returns of an encoded
  state. Network, ledger and clock actions change nothing of this state.
\<close>

section \<open>The state of the service\<close>

record diskState =
  ds_Router :: rootRouter
  ds_Player :: player
  ds_Actions :: "action list"

type_synonym stateCodec = "diskState \<Rightarrow> diskState option"

record serviceState =
  svc_Status :: player
  svc_Router :: rootRouter
  svc_Actions :: "action list"
  svc_Persist :: diskState
  svc_Disk :: "diskState option"
  svc_Cast :: "pseudonodeAction list"

definition zeroPlayer :: player where
  "zeroPlayer = \<lparr>pl_Round = 0, pl_Period = 0, pl_Step = 0, pl_LastConcluding = 0, pl_Deadline = 0, pl_Napping = False,
     pl_FastRecoveryDeadline = 0, pl_Pending = \<lparr>tbl_Pending = [], tbl_PendingNext = 0\<rparr>\<rparr>"

definition makeRootRouter :: rootRouter where
  "makeRootRouter = \<lparr>root_Children = []\<rparr>"

definition zeroDisk :: diskState where
  "zeroDisk = \<lparr>ds_Router = makeRootRouter, ds_Player = zeroPlayer, ds_Actions = []\<rparr>"

section \<open>Starting\<close>

text \<open>The state of a player that begins a round; \<open>version\<close> is the consensus version of the round.\<close>

definition startPlayer :: "agreementEnv \<Rightarrow> round \<Rightarrow> consensusVersion \<Rightarrow> player" where
  "startPlayer env nextRound version =
     zeroPlayer\<lparr>pl_Round := nextRound, pl_Step := soft, pl_Deadline := FilterTimeout (ae_Consensus env) 0 version\<rparr>"

definition startActions :: "round \<Rightarrow> action list" where
  "startActions nextRound =
     [PseudonodeAction \<lparr>psn_T = assemble, psn_Round = nextRound, psn_Period = 0, psn_Step = 0, psn_Proposal = bottom\<rparr>, RezeroAction 0]"

text \<open>An action of a type that \<open>zeroAction\<close> does not know makes decoding panic.\<close>

definition zeroAction_known :: "action \<Rightarrow> bool" where
  "zeroAction_known a = (case a of StageDigestAction _ \<Rightarrow> False | _ \<Rightarrow> True)"

definition decode :: "stateCodec \<Rightarrow> diskState \<Rightarrow> (agreement_error, diskState option) result" where
  "decode codec d = (if list_all zeroAction_known (ds_Actions d) then Ok (codec d) else Panic (LogPanic ''bad action type''))"

definition restored :: "stateCodec \<Rightarrow> diskState option \<Rightarrow> (agreement_error, diskState option) result" where
  "restored codec disk = (case disk of None \<Rightarrow> Ok None | Some d \<Rightarrow> decode codec d)"

text \<open>A state that cannot be decoded is deleted. A state of a round that has passed is not used.\<close>

definition service_start ::
  "stateCodec \<Rightarrow> agreementEnv \<Rightarrow> round \<Rightarrow> consensusVersion \<Rightarrow> diskState option \<Rightarrow> pseudonodeAction list \<Rightarrow> (agreement_error, serviceState) result" where
  "service_start codec env nextRound version disk cast =
     andThen (restored codec disk) (\<lambda>found.
       let disk = (if found = None then None else disk);
           fresh = \<lparr>svc_Status = startPlayer env nextRound version, svc_Router = makeRootRouter, svc_Actions = startActions nextRound,
             svc_Persist = zeroDisk, svc_Disk = disk, svc_Cast = cast\<rparr> in
       case found of
         None \<Rightarrow> Ok fresh
       | Some d \<Rightarrow>
           if pl_Round (ds_Player d) < nextRound then Ok fresh
           else Ok \<lparr>svc_Status = ds_Player d, svc_Router = ds_Router d, svc_Actions = ds_Actions d,
             svc_Persist = zeroDisk, svc_Disk = disk, svc_Cast = cast\<rparr>)"

text \<open>The memory of a service that crashes is lost; its database and the votes it released remain.\<close>

definition service_crash ::
  "stateCodec \<Rightarrow> agreementEnv \<Rightarrow> round \<Rightarrow> consensusVersion \<Rightarrow> serviceState \<Rightarrow> (agreement_error, serviceState) result" where
  "service_crash codec env nextRound version s = service_start codec env nextRound version (svc_Disk s) (svc_Cast s)"

section \<open>The loop\<close>

definition service_submit :: "nat \<Rightarrow> agreementEnv \<Rightarrow> event \<Rightarrow> serviceState \<Rightarrow> (agreement_error, serviceState) result" where
  "service_submit n env e s =
     andThen (submitTop n env e (svc_Status s, svc_Router s)) (\<lambda>(as, p, router).
       let s = s\<lparr>svc_Status := p, svc_Router := router, svc_Actions := as\<rparr> in
       Ok (if list_ex persistent as
           then s\<lparr>svc_Persist := \<lparr>ds_Router = router, ds_Player = p, ds_Actions = as\<rparr>\<rparr> else s))"

text \<open>
  The first pending action. A vote is prepared unless the node has no keys or its queue is full,
  the state is stored unless the database fails, and the vote is released unless the service
  stops first.
\<close>

definition service_do :: "bool \<Rightarrow> bool \<Rightarrow> serviceState \<Rightarrow> serviceState" where
  "service_do stored released s =
     (case svc_Actions s of
        [] \<Rightarrow> s
      | a # as \<Rightarrow>
          let s = s\<lparr>svc_Actions := as\<rparr> in
          case a of
            PseudonodeAction ps \<Rightarrow>
              if psn_T ps = attest \<and> stored
              then s\<lparr>svc_Disk := Some (svc_Persist s), svc_Cast := svc_Cast s @ (if released then [ps] else [])\<rparr> else s
          | _ \<Rightarrow> s)"

section \<open>Events the service hands to the player\<close>

fun saneEvent :: "messageEvent \<Rightarrow> bool" where
  "saneEvent (MessageEvent t i err k tail c ver) \<longleftrightarrow>
     saneInput i \<and> (case tail of None \<Rightarrow> True | Some m \<Rightarrow> saneEvent m)"

text \<open>
  Messages, timeouts, checkpoints, and, when the ledger has moved past the round of the player,
  the round it moved to. Rounds and periods of votes stay below the largest 64-bit number.
\<close>

definition admitted :: "player \<Rightarrow> event \<Rightarrow> bool" where
  "admitted p e \<longleftrightarrow>
     (case e of
        MessageEv me \<Rightarrow> saneEvent me
      | TimeoutEv _ \<Rightarrow> True
      | RoundInterruptionEv r _ \<Rightarrow> pl_Round p < r
      | CheckpointEv _ \<Rightarrow> True
      | _ \<Rightarrow> False)"

section \<open>Runs\<close>

text \<open>\<open>service_run n codec env c s t\<close>: the service gets from \<open>s\<close> to \<open>t\<close> and crashes \<open>c\<close> times on the way.\<close>

inductive service_run :: "nat \<Rightarrow> stateCodec \<Rightarrow> agreementEnv \<Rightarrow> nat \<Rightarrow> serviceState \<Rightarrow> serviceState \<Rightarrow> bool"
  for n codec env where
  run_start: "service_run n codec env 0 s s"
| run_submit: "service_run n codec env c s t \<Longrightarrow> svc_Actions t = [] \<Longrightarrow> admitted (svc_Status t) e \<Longrightarrow>
    service_submit n env e t = Ok u \<Longrightarrow> service_run n codec env c s u"
| run_do: "service_run n codec env c s t \<Longrightarrow> service_run n codec env c s (service_do stored released t)"
| run_crash: "service_run n codec env c s t \<Longrightarrow> 0 < nextRound \<Longrightarrow>
    service_crash codec env nextRound version t = Ok u \<Longrightarrow> service_run n codec env (Suc c) s u"

end
