(* ===== verification/Agreement_Votes.thy ===== *)
theory Agreement_Votes
  imports Agreement_Service "HOL-Library.Product_Lexorder"
begin

text \<open>
  The player never moves back and never votes twice in a step. The position of a player is its
  round, its period and the last step it has voted in; every event moves it forward, and the
  only soft and next votes are those that a timeout issues, each past the position it had.
\<close>

section \<open>Positions\<close>

text \<open>The last soft or next step the player has voted in, in its period.\<close>

definition voted :: "player \<Rightarrow> nat" where
  "voted p = (if pl_Step p = soft then 0
     else if pl_Napping p \<or> pl_Step p = cert then unat (pl_Step p) - 1 else unat (pl_Step p))"

definition position :: "player \<Rightarrow> nat \<times> nat \<times> nat" where
  "position p = (unat (pl_Round p), unat (pl_Period p), voted p)"

definition stepOK :: "player \<Rightarrow> bool" where
  "stepOK p \<longleftrightarrow> soft \<le> pl_Step p \<and> pl_Step p < late \<and> (pl_Napping p \<longrightarrow> next_step < pl_Step p)"

lemma saneEvent_sel: "saneEvent me \<Longrightarrow> saneInput (me_Input me)" "saneEvent me \<Longrightarrow> me_Tail me = Some m \<Longrightarrow> saneEvent m"
  by (cases me; simp)+

definition tableOK :: "player \<Rightarrow> bool" where
  "tableOK p \<longleftrightarrow> list_all (\<lambda>(_, me). pred_option saneEvent me) (tbl_Pending (pl_Pending p))"

definition okEv :: "event \<Rightarrow> bool" where
  "okEv e \<longleftrightarrow>
     (case e of
        MessageEv me \<Rightarrow> saneEvent me
      | ThresholdEv th \<Rightarrow> soundAt (th_Round th) th
      | TimeoutEv _ \<Rightarrow> False
      | RoundInterruptionEv _ _ \<Rightarrow> False
      | _ \<Rightarrow> True)"

lemma someOut_okEv: "someOut env e \<Longrightarrow> okEv e"
  by (cases e) (auto simp: someOut_def okEv_def outAt_def soundAt_def)

definition pinv :: "nat \<times> nat \<times> nat \<Rightarrow> player \<Rightarrow> bool" where
  "pinv k p \<longleftrightarrow> k \<le> position p \<and> stepOK p \<and> tableOK p"

definition handles :: "agreementEnv \<Rightarrow> handler \<Rightarrow> bool" where
  "handles env h \<longleftrightarrow> (\<forall>k e. okEv e \<longrightarrow> spec (live env (pinv k)) (h e) (\<lambda>as st. calms env as \<and> live env (pinv k) st))"

lemma handlesD: "handles env h \<Longrightarrow> okEv e \<Longrightarrow> spec (live env (pinv k)) (h e) (\<lambda>as st. calms env as \<and> live env (pinv k) st)"
  unfolding handles_def by blast

lemma soft_range: "soft \<le> soft" "soft < late" "soft \<noteq> cert"
  by (simp_all add: soft_def cert_def late_def)

lemma pinv_newPeriod:
  assumes "pinv k p" "pl_Period p < target"
  shows "pinv k (p\<lparr>pl_LastConcluding := lc, pl_Period := target, pl_Step := soft, pl_Napping := False,
    pl_FastRecoveryDeadline := fd, pl_Deadline := d\<rparr>)"
  using assms(1) word_less_nat_alt [THEN iffD1, OF assms(2)]
  by (cases k) (auto simp: pinv_def position_def stepOK_def tableOK_def soft_range)

lemma pinv_newRound:
  assumes "pinv k p" "pl_Round p < target"
  shows "pinv k (p\<lparr>pl_LastConcluding := lc, pl_Round := target, pl_Period := 0, pl_Step := soft, pl_Napping := False,
    pl_FastRecoveryDeadline := fd, pl_Deadline := d\<rparr>)"
  using assms(1) word_less_nat_alt [THEN iffD1, OF assms(2)]
  by (cases k) (auto simp: pinv_def position_def stepOK_def tableOK_def soft_range)

lemma less_succ_u64: "(i :: u64) \<noteq> - 1 \<Longrightarrow> j \<le> i \<Longrightarrow> j < i + 1"
  by (simp add: word_less_nat_alt word_le_nat_alt unat_succ_u64)

section \<open>Periods, rounds and thresholds\<close>

lemma issueCertVote_spec: "spec (live env P) (issueCertVote pv) (\<lambda>as st. calms env as \<and> live env P st)"
  unfolding issueCertVote_def by (rule spec_getPlayer, rule spec_ret) (auto elim: live_mono)

lemma enterPeriod_spec:
  "spec (live env (\<lambda>p. pinv k p \<and> pl_Period p < target)) (enterPeriod env source target) (\<lambda>as st. calms env as \<and> live env (pinv k) st)"
proof -
  let ?P = "\<lambda>p. pinv k p \<and> pl_Period p < target"
  let ?upd = "\<lambda>p. p\<lparr>pl_LastConcluding := pl_Step p, pl_Period := target, pl_Step := soft, pl_Napping := False,
       pl_FastRecoveryDeadline := 0, pl_Deadline := FilterTimeout (ae_Consensus env) target (th_Proto source)\<rparr>"
  have u: "spec (live env (\<lambda>q. ?P q \<and> q = p)) (updPlayer ?upd) (\<lambda>_. live env (pinv k))" for p
    by (rule updPlayer_spec) (simp add: pinv_newPeriod)
  have f: "spec (live env (pinv k))
      (case e of
         CommittableEv pv v \<Rightarrow> andDo (issueCertVote pv) (\<lambda>a. ret ((actions @ [RezeroAction (pl_Round p)]) @ a))
       | _ \<Rightarrow>
           if th_T source = nextThreshold then
             ret ((actions @ [RezeroAction (pl_Round p)]) @ [PseudonodeAction \<lparr>psn_T = if th_Proposal source = bottom then assemble else repropose,
               psn_Round = pl_Round p, psn_Period = target, psn_Step = 0, psn_Proposal = th_Proposal source\<rparr>])
           else ret (actions @ [RezeroAction (pl_Round p)])) (\<lambda>as st. calms env as \<and> live env (pinv k) st)"
    if "calms env actions" for e actions p
  proof -
    have c: "spec (live env (pinv k)) (andDo (issueCertVote pv) (\<lambda>a. ret ((actions @ [RezeroAction (pl_Round p)]) @ a)))
        (\<lambda>as st. calms env as \<and> live env (pinv k) st)" for pv
      by (intro spec_andDo [OF issueCertVote_spec] spec_fact spec_ret) (use that in simp)
    show ?thesis using that c by (cases e) (auto intro!: spec_ret simp: calm_def)
  qed
  show ?thesis
    unfolding enterPeriod_def Let_def
    by (intro spec_andDo [OF partitionPolicy_spec] spec_fact spec_getPlayer spec_andDo [OF ask_manager] spec_andDo [OF u] f)
qed

lemma enterRound_spec:
  assumes "handles env h"
  shows "spec (live env (\<lambda>p. pinv k p \<and> pl_Round p < target)) (enterRound env h source target) (\<lambda>as st. calms env as \<and> live env (pinv k) st)"
proof -
  let ?P = "\<lambda>p. pinv k p \<and> pl_Round p < target"
  let ?upd = "\<lambda>p. p\<lparr>pl_LastConcluding := pl_Step p, pl_Round := target, pl_Period := 0, pl_Step := soft,
       pl_Napping := False, pl_FastRecoveryDeadline := 0, pl_Deadline := roundDeadline env source (pl_Deadline p)\<rparr>"
  have u: "spec (live env ?P) (updPlayer ?upd) (\<lambda>_. live env (pinv k))"
    by (rule updPlayer_spec) (simp add: pinv_newRound)
  have h: "spec (live env (pinv k)) (if ok then h (ThresholdEv th) else ret []) (\<lambda>as st. calms env as \<and> live env (pinv k) st)"
    if "soundAt target th \<and> (ok \<longrightarrow> th_T th \<noteq> noThreshold)" for ok th
  proof -
    have "okEv (ThresholdEv th)" using that by (auto simp: okEv_def soundAt_def)
    then show ?thesis by (intro spec_if handlesD [OF assms] spec_ret) simp_all
  qed
  have k: "spec (\<lambda>st. calms env a4 \<and> live env (pinv k) st) (ret ([RezeroAction target, assembly] @ pipelined @ a4)) (\<lambda>as st. calms env as \<and> live env (pinv k) st)"
    if "calm env assembly" "calms env pipelined" for a4 assembly pipelined
    by (rule spec_ret) (use that in simp)
  show ?thesis
    unfolding enterRound_def Let_def
    by (intro spec_andDo [OF ask_manager] spec_fact spec_andDo [OF u] spec_andDo [OF freshestBundle_spec] spec_prod spec_andDo [OF h] k)
      (auto simp: calm_def verifyPayloadAction_def split: event.splits)
qed

text \<open>A cert threshold stages its value; what is then staged with a payload has that value.\<close>

lemma spec_cert:
  assumes "th_T th = certThreshold"
    "\<And>res. pl_Round p = th_Round th \<Longrightarrow> (sv_Committable res \<longrightarrow> proposal_value env (pp_Unauthenticated (sv_Payload res)) = th_Proposal th) \<Longrightarrow>
       spec (live env (\<lambda>q. P q \<and> q = p)) (f res) Q"
  shows "spec (live env (\<lambda>q. P q \<and> q = p)) (andDo (ask env (ThresholdEv th) proposalMachine 0 0 0) (\<lambda>_.
     andDo (below (\<lambda>state. stagedValue env state (th_Round th) (th_Period th))) f)) Q"
proof (rule specI)
  fix s x t
  let ?P = "\<lambda>q. P q \<and> q = p"
  assume s: "live env ?P s"
    and "andDo (ask env (ThresholdEv th) proposalMachine 0 0 0) (\<lambda>_. andDo (below (\<lambda>state. stagedValue env state (th_Round th) (th_Period th))) f) s = Ok (x, t)"
  then obtain out s1 res s2 where a: "ask env (ThresholdEv th) proposalMachine 0 0 0 s = Ok (out, s1)"
    and b: "below (\<lambda>state. stagedValue env state (th_Round th) (th_Period th)) s1 = Ok (res, s2)" and r: "f res s2 = Ok (x, t)"
    unfolding andDo_Ok_iff by blast
  obtain root where s': "s = (p, root)" using s by (auto simp: live_def)
  obtain root1 where d: "rootRouter_dispatch env p (ThresholdEv th) proposalMachine 0 0 0 root = Ok (out, root1)" and s1: "s1 = (p, root1)"
    using a by (auto simp: ask_def below_def s' result_simps)
  obtain root2 where v: "stagedValue env p (th_Round th) (th_Period th) root1 = Ok (res, root2)" and s2: "s2 = (p, root2)"
    using b by (auto simp: below_def s1 result_simps)
  have l: "outAt env (th_Round th) (StagingValueEv res)" "live env ?P s2"
    using specD [OF staged_spec, of env ?P s1 "th_Round th" "th_Period th" res s2] specD [OF ask_manager s a] b by blast+
  have rd: "pl_Round p = th_Round th"
    using d assms(1) unfolding rootRouter_dispatch_def Let_def by (auto simp: proposalManagerContract_pre_def split: if_splits)
  have "sv_Proposal res = th_Proposal th"
    using stagedValue_value [OF v manager_stages [OF d]] assms(1) by (simp add: isStagingThreshold_def)
  then show "Q x t" using specD [OF assms(2) [OF rd] l(2) r] l(1) by simp
qed

lemma soundAt_cert: "soundAt r th \<Longrightarrow> th_T th = certThreshold \<Longrightarrow> ub_Proposal (th_Bundle th) = th_Proposal th \<and> ub_Step (th_Bundle th) = cert"
  by (auto simp: soundAt_def thresholdTypeOf_def split: if_splits)

text \<open>An operation is quiet when it votes in no soft or next step, ensures only certified blocks and moves the player forward.\<close>

abbreviation quiet :: "agreementEnv \<Rightarrow> nat \<times> nat \<times> nat \<Rightarrow> (player \<Rightarrow> bool) \<Rightarrow> action list playerOp \<Rightarrow> bool" where
  "quiet env k P m \<equiv> spec (live env (\<lambda>q. pinv k q \<and> P q)) m (\<lambda>as st. calms env as \<and> live env (pinv k) st)"

lemma quiet_weak: "spec (live env (pinv k)) m (\<lambda>as st. calms env as \<and> live env (pinv k) st) \<Longrightarrow> quiet env k P m"
  by (erule spec_live_mono) blast

lemma quiet_ret: "calms env as \<Longrightarrow> quiet env k P (ret as)"
  by (rule spec_ret) (auto elim: live_mono)

lemma quiet_stop: "quiet env k P (lift (Panic x))" "quiet env k P (failWith err)"
  by (rule spec_stop)+

lemma quiet_append: "calms env bs \<Longrightarrow> quiet env k P m \<Longrightarrow> quiet env k P (andDo m (\<lambda>as. ret (bs @ as)))"
  by (erule spec_andDo, intro spec_fact spec_ret) simp

lemma quiet_Cons: "calm env b \<Longrightarrow> quiet env k P m \<Longrightarrow> quiet env k P (andDo m (\<lambda>as. ret (b # as)))"
  using quiet_append [of env "[b]" k P m] by simp

lemma quiet_cert: "quiet env k P (issueCertVote pv)"
  by (rule quiet_weak) (rule issueCertVote_spec)

lemma quiet_period: "pl_Period p < target \<Longrightarrow> quiet env k (\<lambda>q. q = p) (enterPeriod env source target)"
  by (rule spec_live_mono [OF enterPeriod_spec]) blast

lemma quiet_round: "handles env h \<Longrightarrow> pl_Round p < target \<Longrightarrow> quiet env k (\<lambda>q. q = p) (enterRound env h source target)"
  by (rule spec_live_mono [OF enterRound_spec]) blast+

lemma quiet_handle: "handles env h \<Longrightarrow> okEv e \<Longrightarrow> quiet env k P (h e)"
  by (rule quiet_weak) (rule handlesD)

lemmas quiet_rules = quiet_ret quiet_stop quiet_append quiet_Cons quiet_cert quiet_period quiet_round quiet_handle

lemma handleThresholdEvent_spec:
  assumes h: "handles env h" and e: "soundAt (th_Round e) e"
  shows "spec (live env (pinv k)) (handleThresholdEvent env h e) (\<lambda>as st. calms env as \<and> live env (pinv k) st)"
  unfolding handleThresholdEvent_def
proof (rule spec_getPlayer)
  fix p
  show "quiet env k (\<lambda>q. q = p) (case th_T e of
       certThreshold \<Rightarrow>
         andDo (ask env (ThresholdEv e) proposalMachine 0 0 0) (\<lambda>_.
         andDo (below (\<lambda>state. stagedValue env state (th_Round e) (th_Period e))) (\<lambda>res.
         if sv_Committable res then
           andDo (enterRound env h (ThresholdEv e) (pl_Round p + 1)) (\<lambda>as.
           ret (EnsureAction (sv_Payload res) (th_Bundle e) # as))
         else
           andDo (if pl_Period p < th_Period e then enterPeriod env e (th_Period e) else ret []) (\<lambda>as.
           ret (StageDigestAction (th_Bundle e) # as))))
     | softThreshold \<Rightarrow>
         if pl_Period p > th_Period e then ret []
         else if pl_Period p < th_Period e then enterPeriod env e (th_Period e)
         else andDo (ask env (ThresholdEv e) proposalMachine (pl_Round p) (pl_Period p) 0) (\<lambda>ec.
           case ec of
             CommittableEv pv _ \<Rightarrow> if pl_Step p \<le> cert then issueCertVote pv else ret []
           | _ \<Rightarrow> ret [])
     | nextThreshold \<Rightarrow>
         if pl_Period p > th_Period e then ret [] else enterPeriod env e (th_Period e + 1)
     | noThreshold \<Rightarrow> lift (Panic (LogPanic ''bad event'')))"
  proof (cases "th_T e")
    case certThreshold
    have r: "th_Round e \<noteq> - 1" using e certThreshold by (simp add: soundAt_def)
    show ?thesis
      unfolding certThreshold thresholdType.case
    proof (rule spec_cert [OF certThreshold], intro spec_if)
      fix res
      assume *: "pl_Round p = th_Round e"
        "sv_Committable res \<longrightarrow> proposal_value env (pp_Unauthenticated (sv_Payload res)) = th_Proposal e" "sv_Committable res"
      have "calm env (EnsureAction (sv_Payload res) (th_Bundle e))" using soundAt_cert [OF e certThreshold] *(2,3) by simp
      moreover have "pl_Round p < pl_Round p + 1" using r *(1) by (simp add: less_succ_u64)
      ultimately show "quiet env k (\<lambda>q. q = p) (andDo (enterRound env h (ThresholdEv e) (pl_Round p + 1)) (\<lambda>as.
          ret (EnsureAction (sv_Payload res) (th_Bundle e) # as)))" by (intro quiet_Cons quiet_round h)
    qed (intro quiet_Cons spec_if quiet_period quiet_ret; simp)
  next
    case softThreshold
    have "quiet env k (\<lambda>q. q = p) (case ec of
             CommittableEv pv _ \<Rightarrow> if pl_Step p \<le> cert then issueCertVote pv else ret []
           | _ \<Rightarrow> ret [])" for ec
      by (cases ec) (simp_all add: quiet_ret quiet_cert)
    then show ?thesis
      unfolding softThreshold thresholdType.case
      by (intro spec_if quiet_period spec_andDo [OF ask_manager] spec_fact quiet_ret) simp_all
  next
    case nextThreshold
    then have "th_Period e \<noteq> - 1" using e by (simp add: soundAt_def)
    then show ?thesis
      unfolding nextThreshold thresholdType.case
      by (intro spec_if quiet_period quiet_ret less_succ_u64) simp_all
  qed (simp add: quiet_stop)
qed

section \<open>Messages\<close>

lemma payloadActions_spec:
  assumes h: "handles env h"
  shows "spec (live env (pinv k)) (payloadActions env h e fd ef) (\<lambda>as st. calms env as \<and> live env (pinv k) st)"
  unfolding payloadActions_def Let_def
proof (rule spec_getPlayer)
  fix p
  let ?r = "\<lambda>x st. (soundAt (pl_Round p) (snd x) \<and> (fst x \<longrightarrow> th_T (snd x) \<noteq> noThreshold)) \<and> live env (\<lambda>q. pinv k q \<and> q = p) st"
  have f: "spec (live env (\<lambda>q. pinv k q \<and> q = p))
      (if committableOf ef \<noteq> None \<or> isPayload payloadAccepted ef then freshestBundle env (pl_Round p) else ret (False, zeroThreshold)) ?r"
    by (intro spec_if freshestBundle_spec spec_ret) simp
  have c: "quiet env k (\<lambda>q. q = p) (case committableOf ef of Some pv \<Rightarrow> if pl_Step p \<le> cert then issueCertVote pv else ret [] | None \<Rightarrow> ret [])"
    by (cases "committableOf ef") (simp_all add: quiet_ret quiet_cert)
  have r: "quiet env k (\<lambda>q. q = p) (andDo (enterRound env h (FilterableMessageEv e fd) (ub_Round (th_Bundle th) + 1)) (\<lambda>as.
       ret (EnsureAction (m_Proposal (me_Input e)) (th_Bundle th) # as)))"
    if "soundAt (pl_Round p) th" "th_T th = certThreshold" "th_Proposal th = proposal_value env (pp_Unauthenticated (m_Proposal (me_Input e)))" for th
    by (intro quiet_Cons quiet_round h)
      (use that soundAt_cert [OF that(1,2)] in \<open>auto simp: soundAt_def intro: less_succ_u64\<close>)
  show "quiet env k (\<lambda>q. q = p) (andDo (if committableOf ef \<noteq> None \<or> isPayload payloadAccepted ef then freshestBundle env (pl_Round p) else ret (False, zeroThreshold))
       (\<lambda>(ok, th).
     if ok \<and> th_T th = certThreshold \<and> th_Proposal th = proposal_value env (pp_Unauthenticated (m_Proposal (me_Input e))) then
       andDo (enterRound env h (FilterableMessageEv e fd) (ub_Round (th_Bundle th) + 1)) (\<lambda>as.
       ret (EnsureAction (m_Proposal (me_Input e)) (th_Bundle th) # as))
     else case committableOf ef of
         Some pv \<Rightarrow> if pl_Step p \<le> cert then issueCertVote pv else ret []
       | None \<Rightarrow> ret []))"
    by (intro spec_andDo [OF f] spec_prod spec_fact spec_if r c) simp_all
qed

lemma handlePayload_spec:
  assumes h: "handles env h"
  shows "spec (live env (pinv k)) (handlePayload env h e) (\<lambda>as st. calms env as \<and> live env (pinv k) st)"
  unfolding handlePayload_def
proof (rule spec_getPlayer, rule spec_andDo [OF ask_manager], rule spec_fact)
  fix p ef
  let ?own = "if m_MessageHandle (me_Input e) = None then [relayPayload e ef] else []"
  let ?rest = "\<lambda>actions. andDo (payloadActions env h e (freshnessOf p) ef) (\<lambda>as. ret (actions @ ?own @ as))"
  have rest: "quiet env k (\<lambda>q. q = p) (?rest actions)" if "calms env actions" for actions
    using quiet_append [of env "actions @ ?own", OF _ quiet_weak [OF payloadActions_spec [OF h]]] that
    by (simp add: relayPayload_def)
  have pp: "quiet env k (\<lambda>q. q = p) (case ppe_T ep of
            payloadRejected \<Rightarrow> ret [ignoreAction e (ppe_Err ep)]
          | payloadPipelined \<Rightarrow>
              if ppe_Round ep = pl_Round p
              then ret [verifyPayloadAction e (ppe_Round ep) (ppe_Period ep) (ppe_Pinned ep), relayPayload e ef]
              else ?rest [relayPayload e ef]
          | payloadAccepted \<Rightarrow> ?rest [])" for ep
    using rest [of "[]"] rest [of "[relayPayload e ef]"]
    by (cases "ppe_T ep") (auto intro!: quiet_ret simp: relayPayload_def)
  have ff: "quiet env k (\<lambda>q. q = p) (case ft of payloadMalformed \<Rightarrow> ret [ignoreAction e (Some ''rejected message since it was invalid'')] | _ \<Rightarrow> ?rest [])" for ft
    using rest [of "[]"] by (cases ft) (auto intro!: quiet_ret)
  show "quiet env k (\<lambda>q. q = p) (let own = ?own;
         rest = (\<lambda>actions. andDo (payloadActions env h e (freshnessOf p) ef) (\<lambda>as. ret (actions @ own @ as))) in
     case ef of
       FilteredEv payloadMalformed err \<Rightarrow> ret [ignoreAction e (Some ''rejected message since it was invalid'')]
     | PayloadProcessedEv ep \<Rightarrow>
         (case ppe_T ep of
            payloadRejected \<Rightarrow> ret [ignoreAction e (ppe_Err ep)]
          | payloadPipelined \<Rightarrow>
              if ppe_Round ep = pl_Round p
              then ret [verifyPayloadAction e (ppe_Round ep) (ppe_Period ep) (ppe_Pinned ep), relayPayload e ef]
              else rest [relayPayload e ef]
          | payloadAccepted \<Rightarrow> rest [])
     | _ \<Rightarrow> rest [])"
    unfolding Let_def using rest [of "[]"] pp ff by (cases ef) (simp_all only: event.case list.pred_inject)
qed

lemma handleVote_spec:
  assumes h: "handles env h" and e: "saneEvent e"
  shows "spec (live env (pinv k)) (handleVote env h e) (\<lambda>as st. calms env as \<and> live env (pinv k) st)"
  unfolding handleVote_def
proof (rule spec_getPlayer, rule spec_andDo [OF ask_aggregator [OF saneEvent_sel(1) [OF e]]], rule spec_fact)
  fix p ef
  assume ef: "someOut env ef"
  let ?rest = "if me_T e = votePresent then
           let rv = uvt_R (m_UnauthenticatedVote (me_Input e)) in ret [verifyVoteAction e (rv_Round rv) (rv_Period rv) 0]
         else andDo (h ef) (\<lambda>a1. ret (relayAction e (OutVote (vote_u (m_Vote (me_Input e)))) # a1))"
  have rest: "quiet env k (\<lambda>q. q = p) ?rest"
    unfolding Let_def by (intro spec_if quiet_rules h someOut_okEv [OF ef]) simp_all
  have ff: "quiet env k (\<lambda>q. q = p) (case ft of
       voteMalformed \<Rightarrow> ret [disconnectAction e (Some ''rejected message since it was invalid'')] | voteFiltered \<Rightarrow> ret [ignoreAction e err] | _ \<Rightarrow> ?rest)" for ft err
    using rest by (cases ft) (auto intro!: quiet_ret)
  show "quiet env k (\<lambda>q. q = p) (case ef of
       FilteredEv voteMalformed err \<Rightarrow> ret [disconnectAction e (Some ''rejected message since it was invalid'')]
     | FilteredEv voteFiltered err \<Rightarrow> ret [ignoreAction e err]
     | _ \<Rightarrow> ?rest)"
    using rest ff by (cases ef) (simp_all only: event.case)
qed

lemma handleBundle_spec:
  assumes h: "handles env h" and e: "saneEvent e"
  shows "spec (live env (pinv k)) (handleBundle env h e) (\<lambda>as st. calms env as \<and> live env (pinv k) st)"
  unfolding handleBundle_def
proof (rule spec_getPlayer, rule spec_andDo [OF ask_aggregator [OF saneEvent_sel(1) [OF e]]], rule spec_fact)
  fix p ef
  assume ef: "someOut env ef"
  let ?rest = "if me_T e = bundlePresent then
           let ub = m_UnauthenticatedBundle (me_Input e) in ret [verifyBundleAction e (ub_Round ub) (ub_Period ub) (ub_Step ub)]
         else case ef of
             ThresholdEv th \<Rightarrow> andDo (h ef) (\<lambda>a1. ret (relayAction e (OutBundle (th_Bundle th)) # a1))
           | _ \<Rightarrow> typePanic"
  have th: "quiet env k (\<lambda>q. q = p) (andDo (h ef) (\<lambda>a1. ret (relayAction e (OutBundle b) # a1)))" for b
    by (intro quiet_rules h someOut_okEv [OF ef]) simp
  have rest: "quiet env k (\<lambda>q. q = p) ?rest"
    unfolding Let_def typePanic_def using th by (intro spec_if quiet_ret) (simp, cases ef, simp_all add: quiet_stop)
  have ff: "quiet env k (\<lambda>q. q = p) (case ft of
       bundleMalformed \<Rightarrow> ret [disconnectAction e (Some ''rejected message since it was invalid'')] | bundleFiltered \<Rightarrow> ret [ignoreAction e err] | _ \<Rightarrow> ?rest)" for ft err
    using rest by (cases ft) (auto intro!: quiet_ret)
  show "quiet env k (\<lambda>q. q = p) (case ef of
       FilteredEv bundleMalformed err \<Rightarrow> ret [disconnectAction e (Some ''rejected message since it was invalid'')]
     | FilteredEv bundleFiltered err \<Rightarrow> ret [ignoreAction e err]
     | _ \<Rightarrow> ?rest)"
    using rest ff by (cases ef) (simp_all only: event.case)
qed

lemma position_upd [simp]:
  "position (p\<lparr>pl_Pending := table\<rparr>) = position p" "position (p\<lparr>pl_Deadline := d\<rparr>) = position p"
  "position (p\<lparr>pl_FastRecoveryDeadline := d\<rparr>) = position p"
  by (simp_all add: position_def voted_def)

lemma stepOK_upd [simp]:
  "stepOK (p\<lparr>pl_Pending := table\<rparr>) = stepOK p" "stepOK (p\<lparr>pl_Deadline := d\<rparr>) = stepOK p"
  "stepOK (p\<lparr>pl_FastRecoveryDeadline := d\<rparr>) = stepOK p"
  by (simp_all add: stepOK_def)

lemma pinv_pending:
  "pinv k p \<Longrightarrow> list_all (\<lambda>(_, me). pred_option saneEvent me) (tbl_Pending table) \<Longrightarrow> pinv k (p\<lparr>pl_Pending := table\<rparr>)"
  by (simp add: pinv_def tableOK_def)

lemma table_push_sane:
  assumes "tableOK p" "saneEvent e"
  shows "list_all (\<lambda>(_, me). pred_option saneEvent me) (tbl_Pending (snd (table_push (pl_Pending p) (me_Tail e))))"
  using assms saneEvent_sel(2) [OF assms(2)]
  by (cases "me_Tail e") (simp_all add: table_push_def Let_def tableOK_def list_all_mput)

lemma table_pop_sane:
  assumes "tableOK p"
  shows "list_all (\<lambda>(_, me). pred_option saneEvent me) (tbl_Pending (snd (table_pop (pl_Pending p) i)))"
    "pred_option saneEvent (fst (table_pop (pl_Pending p) i))"
  using assms list_all_mget [of "\<lambda>(_, me). pred_option saneEvent me" "tbl_Pending (pl_Pending p)" i]
  by (auto simp: table_pop_def tableOK_def list_all_mdel mgetd_def split: option.splits)

lemma proposalVoteActions_spec:
  assumes e: "saneEvent e"
  shows "spec (live env (pinv k)) (proposalVoteActions env e) (\<lambda>x st. calms env (fst x) \<and> live env (pinv k) st)"
  unfolding proposalVoteActions_def
proof (rule spec_getPlayer, rule spec_andDo [OF ask_manager], rule spec_fact)
  fix p ef
  assume p: "pinv k p"
  let ?P = "live env (\<lambda>q. pinv k q \<and> q = p)" and ?Q = "\<lambda>x st. calms env (fst x) \<and> live env (pinv k) st"
  have ret: "calms env (fst x) \<Longrightarrow> spec ?P (ret x) ?Q" for x
    by (rule spec_ret) (auto elim: live_mono)
  let ?present = "let (seq, table) = table_push (pl_Pending p) (me_Tail e); rv = uvt_R (m_UnauthenticatedVote (me_Input e)) in
           andDo (updPlayer (\<lambda>p. p\<lparr>pl_Pending := table\<rparr>)) (\<lambda>_.
           ret ([verifyVoteAction e (rv_Round rv) (rv_Period rv) seq], False))"
  let ?accept = "case ef of
             ProposalAcceptedEv ep \<Rightarrow>
               let v = m_Vote (me_Input e) in
               ret ([if pa_PayloadOk ep
                     then broadcastAction (OutPayload \<lparr>cm_Vote = vote_u v, cm_Proposal = pp_Unauthenticated (pa_Payload ep)\<rparr>)
                     else relayAction e (OutVote (vote_u v))], True)
           | _ \<Rightarrow> typePanic"
  have u: "spec ?P (updPlayer (\<lambda>p. p\<lparr>pl_Pending := table\<rparr>)) (\<lambda>_. live env (pinv k))"
    if "table_push (pl_Pending p) (me_Tail e) = (seq, table)" for seq table
    by (rule updPlayer_spec) (use table_push_sane [of p, OF _ e] p that in \<open>auto simp: pinv_def [of k p] intro!: pinv_pending\<close>)
  have present: "spec ?P ?present ?Q"
    by (cases "table_push (pl_Pending p) (me_Tail e)")
      (auto simp: Let_def intro!: spec_andDo [OF u] spec_ret)
  have accept: "spec ?P ?accept ?Q"
    unfolding typePanic_def Let_def by (cases ef) (auto intro!: ret spec_stop)
  have rest: "spec ?P (if me_T e = votePresent then ?present else ?accept) ?Q"
    by (intro spec_if present accept)
  have ff: "spec ?P (case ft of voteMalformed \<Rightarrow> ret ([disconnectAction e err], True) | voteFiltered \<Rightarrow> ret ([ignoreAction e err], True)
      | _ \<Rightarrow> (if me_T e = votePresent then ?present else ?accept)) ?Q" for ft err
    using rest by (cases ft) (auto intro!: ret)
  show "spec ?P (case ef of
       FilteredEv voteMalformed err \<Rightarrow> ret ([disconnectAction e err], True)
     | FilteredEv voteFiltered err \<Rightarrow> ret ([ignoreAction e err], True)
     | _ \<Rightarrow> if me_T e = votePresent then ?present else ?accept) ?Q"
    using rest ff by (cases ef) (simp_all only: event.case)
qed

lemma popTail_spec:
  assumes e: "saneEvent e"
  shows "spec (live env (pinv k)) (popTail e) (\<lambda>tail st. pred_option saneEvent tail \<and> live env (pinv k) st)"
  unfolding popTail_def
proof (rule spec_getPlayer)
  fix p
  assume p: "pinv k p"
  let ?P = "live env (\<lambda>q. pinv k q \<and> q = p)" and ?Q = "\<lambda>tail st. pred_option saneEvent tail \<and> live env (pinv k) st"
  have t: "tableOK p" using p by (simp add: pinv_def)
  have tl: "pred_option saneEvent (me_Tail e)" using saneEvent_sel(2) [OF e] by (cases "me_Tail e") simp_all
  have u: "spec ?P (andDo (updPlayer (\<lambda>p. p\<lparr>pl_Pending := table\<rparr>)) (\<lambda>_. ret tail)) ?Q"
    if "table_pop (pl_Pending p) (me_TaskIndex e) = (tail, table)" for tail table
    by (intro spec_andDo [OF updPlayer_spec [where Q = "pinv k"]] spec_ret)
      (use table_pop_sane [OF t, of "me_TaskIndex e"] that in \<open>auto intro!: pinv_pending\<close>)
  show "spec ?P (if me_T e = voteVerified then
       let (tail, table) = table_pop (pl_Pending p) (me_TaskIndex e) in
       andDo (updPlayer (\<lambda>p. p\<lparr>pl_Pending := table\<rparr>)) (\<lambda>_. ret tail)
     else ret (me_Tail e)) ?Q"
    unfolding Let_def
    by (intro spec_if spec_prod u spec_ret) (auto simp: tl elim: live_mono)
qed

lemma handleProposalVote_spec:
  assumes h: "handles env h" and e: "saneEvent e"
  shows "spec (live env (pinv k)) (handleProposalVote env h e) (\<lambda>as st. calms env as \<and> live env (pinv k) st)"
proof -
  have t: "spec (live env (pinv k)) (case tail of None \<Rightarrow> ret actions
     | Some ev \<Rightarrow> if \<not> d then ret actions else andDo (h (MessageEv ev)) (\<lambda>suffix. ret (actions @ suffix))) (\<lambda>as st. calms env as \<and> live env (pinv k) st)"
    if "pred_option saneEvent tail" "calms env actions" for tail actions d
  proof (cases tail)
    case (Some ev)
    then have "okEv (MessageEv ev)" using that by (simp add: okEv_def)
    then show ?thesis
      unfolding Some option.case
      by (intro spec_if spec_andDo [OF handlesD [OF h]] spec_fact spec_ret) (use that in simp_all)
  qed (use that in \<open>simp add: spec_ret\<close>)
  show ?thesis
    unfolding handleProposalVote_def
    by (intro spec_andDo [OF proposalVoteActions_spec [OF e]] spec_prod spec_fact spec_andDo [OF popTail_spec [OF e]] t) simp_all
qed

lemma handleMessageEvent_spec:
  assumes "handles env h" "saneEvent e"
  shows "spec (live env (pinv k)) (handleMessageEvent env h e) (\<lambda>as st. calms env as \<and> live env (pinv k) st)"
  unfolding handleMessageEvent_def Let_def
  using handleProposalVote_spec [OF assms, of k] handleVote_spec [OF assms, of k] handlePayload_spec [OF assms(1), of k e] handleBundle_spec [OF assms, of k]
  by (cases "me_T e") simp_all

lemma quiet_player_handle: "handles env (player_handle n env)"
proof (induction n)
  case 0
  show ?case unfolding handles_def player_handle.simps by (intro allI impI spec_stop(1))
next
  case (Suc n)
  note rules = handleMessageEvent_spec [OF Suc] handleThresholdEvent_spec [OF Suc]
  have r: "spec (live env (pinv k)) (ret []) (\<lambda>as st. calms env as \<and> live env (pinv k) st)"
    "spec (live env (pinv k)) (ret [CheckpointAction ck]) (\<lambda>as st. calms env as \<and> live env (pinv k) st)" for k ck
    by (auto intro!: spec_ret)
  have "spec (live env (pinv k)) (player_handle (Suc n) env e) (\<lambda>as st. calms env as \<and> live env (pinv k) st)" if "okEv e" for k e
    unfolding player_handle.simps
    by (intro spec_if r(1)) (use that in \<open>cases e; simp add: okEv_def rules r spec_stop\<close>)
  then show ?case unfolding handles_def by blast
qed

section \<open>Timeouts\<close>

definition isBallot :: "pseudonodeAction \<Rightarrow> bool" where
  "isBallot ps \<longleftrightarrow> psn_T ps = attest \<and> psn_Step ps \<noteq> cert \<and> psn_Step ps < late"

definition ballotAt :: "pseudonodeAction \<Rightarrow> nat \<times> nat \<times> nat" where
  "ballotAt ps = (unat (psn_Round ps), unat (psn_Period ps), unat (psn_Step ps))"

definition pseudonodeOf :: "action \<Rightarrow> pseudonodeAction list" where
  "pseudonodeOf a = (case a of PseudonodeAction ps \<Rightarrow> [ps] | _ \<Rightarrow> [])"

definition ballots :: "action list \<Rightarrow> pseudonodeAction list" where
  "ballots as = filter isBallot (concat (map pseudonodeOf as))"

definition certified :: "agreementEnv \<Rightarrow> action \<Rightarrow> bool" where
  "certified env a \<longleftrightarrow>
     (case a of EnsureAction pp c \<Rightarrow> proposal_value env (pp_Unauthenticated pp) = ub_Proposal c \<and> ub_Step c = cert | _ \<Rightarrow> True)"

lemma ballots_append [simp]: "ballots (as @ bs) = ballots as @ ballots bs" "ballots [] = []"
  by (simp_all add: ballots_def)

lemma calms_ballots: "calms env as \<Longrightarrow> ballots as = [] \<and> list_all (certified env) as"
proof (induction as)
  case (Cons a as)
  then show ?case
    by (cases a) (auto simp: ballots_def pseudonodeOf_def isBallot_def calm_def certified_def not_less)
qed (simp add: ballots_def)

lemma attest_ballot:
  assumes "s \<noteq> cert" "s < late"
  shows "ballots [attestAction p s pv] = [\<lparr>psn_T = attest, psn_Round = pl_Round p, psn_Period = pl_Period p, psn_Step = s, psn_Proposal = pv\<rparr>]"
    "certified env (attestAction p s pv)"
  using assms by (simp_all add: ballots_def pseudonodeOf_def isBallot_def attestAction_def certified_def)

definition advances :: "agreementEnv \<Rightarrow> nat \<times> nat \<times> nat \<Rightarrow> action list \<Rightarrow> machineState \<Rightarrow> bool" where
  "advances env k as st \<longleftrightarrow> list_all (certified env) as \<and>
     (\<exists>k' \<ge> k. live env (pinv k') st \<and> (ballots as = [] \<or> (\<exists>b. ballots as = [b] \<and> k < ballotAt b \<and> ballotAt b \<le> k')))"

lemma calms_advances: "calms env as \<and> live env (pinv k) st \<Longrightarrow> advances env k as st"
  unfolding advances_def using calms_ballots by blast

lemma vote_advances:
  assumes "calms env bs" "s \<noteq> cert" "s < late" "k < (unat (pl_Round p), unat (pl_Period p), unat s)"
    "live env (pinv (unat (pl_Round p), unat (pl_Period p), unat s)) st"
  shows "advances env k (bs @ [attestAction p s pv]) st"
proof -
  let ?b = "\<lparr>psn_T = attest, psn_Round = pl_Round p, psn_Period = pl_Period p, psn_Step = s, psn_Proposal = pv\<rparr>"
  have b: "ballots (bs @ [attestAction p s pv]) = [?b]" "ballotAt ?b = (unat (pl_Round p), unat (pl_Period p), unat s)"
    using calms_ballots [OF assms(1)] attest_ballot(1) [OF assms(2,3)] by (simp_all add: ballotAt_def)
  have "list_all (certified env) (bs @ [attestAction p s pv])"
    using calms_ballots [OF assms(1)] attest_ballot(2) [OF assms(2,3)] by simp
  then show ?thesis unfolding advances_def using assms(4,5) b less_imp_le by fastforce
qed

lemma issueSoftVote_spec:
  "spec (live env (\<lambda>q. q = p)) (issueSoftVote env)
     (\<lambda>as st. (as = [] \<or> (\<exists>pv. as = [attestAction p soft pv])) \<and> live env (\<lambda>q. q = p\<lparr>pl_Deadline := deadlineTimeout\<rparr>) st)"
proof -
  let ?Q = "\<lambda>as st. (as = [] \<or> (\<exists>pv. as = [attestAction p soft pv])) \<and> live env (\<lambda>q. q = p\<lparr>pl_Deadline := deadlineTimeout\<rparr>) st"
  have v: "softVoteFor p frozen st = [] \<or> (\<exists>pv. softVoteFor p frozen st = [attestAction p soft pv])" for frozen st
    by (auto simp: softVoteFor_def)
  have f: "spec (live env (\<lambda>q. q = p)) (andDo (nextStatus env r q) (\<lambda>st. andDo (updPlayer (\<lambda>p. p\<lparr>pl_Deadline := deadlineTimeout\<rparr>)) (\<lambda>_.
         ret (softVoteFor p frozen st)))) ?Q" for frozen r q
    by (intro spec_andDo [OF nextStatus_spec] spec_andDo [OF updPlayer_spec] spec_ret) (use v in auto)
  show ?thesis
    unfolding issueSoftVote_def
  proof (rule spec_getPlayer, rule spec_live_mono [where P = "\<lambda>q. q = p"], rule spec_andDo [OF ask_below])
    fix x e
    assume "x = p"
    then show "spec (\<lambda>st. outAt env (pl_Round x) e \<and> live env (\<lambda>q. q = p) st) (case e of
       ProposalFrozenEv frozen \<Rightarrow>
         andDo (nextStatus env (pl_Round x) (pl_Period x - 1)) (\<lambda>st.
         andDo (updPlayer (\<lambda>p. p\<lparr>pl_Deadline := deadlineTimeout\<rparr>)) (\<lambda>_.
         ret (softVoteFor x frozen st)))
     | _ \<Rightarrow> typePanic) ?Q"
      unfolding typePanic_def using f by (intro spec_fact) (cases e, simp_all add: spec_stop)
  qed auto
qed

lemma issueNextVote_spec:
  "spec (live env (\<lambda>q. q = p)) (issueNextVote env)
     (\<lambda>as st. (\<exists>bs pv. as = bs @ [attestAction p (pl_Step p) pv] \<and> calms env bs) \<and>
        live env (\<lambda>q. q = p\<lparr>pl_Napping := False, pl_Deadline := snd (nextVoteRanges (pl_Step p))\<rparr>) st)"
proof -
  have r: "spec (live env (\<lambda>q. q = p)) (if c then ret x else andDo (nextStatus env r q) (\<lambda>st. ret (f st))) (\<lambda>_. live env (\<lambda>q. q = p))" for c x r q f
    by (intro spec_if spec_ret spec_andDo [OF nextStatus_spec])
  have u: "spec (live env (\<lambda>q. q = p)) (updPlayer (\<lambda>p. p\<lparr>pl_Napping := False, pl_Deadline := snd (nextVoteRanges (pl_Step p))\<rparr>))
      (\<lambda>_. live env (\<lambda>q. q = p\<lparr>pl_Napping := False, pl_Deadline := snd (nextVoteRanges (pl_Step p))\<rparr>))"
    by (rule updPlayer_spec) simp
  show ?thesis
    unfolding issueNextVote_def
  proof (rule spec_andDo [OF partitionPolicy_spec], rule spec_fact, rule spec_getPlayer, rule spec_live_mono [where P = "\<lambda>q. q = p"])
    fix as x
    assume "calms env as" "x = p"
    then show "spec (live env (\<lambda>q. q = p)) (andDo (below (\<lambda>state. stagedValue env state (pl_Round x) (pl_Period x))) (\<lambda>answer.
     andDo (if sv_Committable answer then ret (sv_Proposal answer)
            else andDo (nextStatus env (pl_Round x) (pl_Period x - 1)) (\<lambda>st.
              ret (if nts_Bottom st then bottom else nts_Proposal st))) (\<lambda>pv.
     andDo (updPlayer (\<lambda>p. p\<lparr>pl_Napping := False, pl_Deadline := snd (nextVoteRanges (pl_Step p))\<rparr>)) (\<lambda>_.
     ret (as @ [attestAction x (pl_Step x) pv]))))) (\<lambda>as st. (\<exists>bs pv. as = bs @ [attestAction p (pl_Step p) pv] \<and> calms env bs) \<and>
        live env (\<lambda>q. q = p\<lparr>pl_Napping := False, pl_Deadline := snd (nextVoteRanges (pl_Step p))\<rparr>) st)"
      by (intro spec_andDo [OF staged_spec] spec_fact spec_andDo [OF r] spec_andDo [OF u] spec_ret) auto
  qed auto
qed

lemma fast_steps: "late \<le> late" "late \<le> redo" "late \<le> down" "cert \<noteq> late"
  by (simp_all add: step_defs)

lemma issueFastVote_spec: "spec (live env P) (issueFastVote env) (\<lambda>as st. calms env as \<and> live env P st)"
proof -
  have r: "spec (live env P) (if c then ret (late, x) else andDo (nextStatus env r q) (\<lambda>st. ret (if nts_Bottom st then (down, bottom) else (redo, nts_Proposal st))))
      (\<lambda>y st. late \<le> fst y \<and> live env P st)" for c x r q P
    by (intro spec_if spec_ret spec_andDo [OF nextStatus_spec]) (auto simp: fast_steps)
  show ?thesis
    unfolding issueFastVote_def Let_def
    by (intro spec_andDo [OF partitionPolicy_spec] spec_fact spec_getPlayer spec_andDo [OF dumpedVotes_spec] spec_andDo [OF staged_spec]
        spec_andDo [OF r] spec_prod spec_ret) (auto simp: fast_steps elim: live_mono)
qed

lemma handleFastTimeout_spec: "spec (live env (pinv k)) (handleFastTimeout env e) (\<lambda>as st. calms env as \<and> live env (pinv k) st)"
proof -
  have u: "spec (live env (\<lambda>q. pinv k q \<and> q = p)) (updPlayer (\<lambda>p. p\<lparr>pl_FastRecoveryDeadline := d\<rparr>)) (\<lambda>_. live env (pinv k))" for p d
    by (rule updPlayer_spec) (simp add: pinv_def tableOK_def)
  show ?thesis
    unfolding handleFastTimeout_def Let_def
    by (intro spec_if spec_getPlayer spec_andDo [OF u] issueFastVote_spec spec_ret spec_stop) simp_all
qed

lemma nextVoteLoop_span:
  "u - l = x \<Longrightarrow> nextVoteLoop n (x, l, u) = (x', l', u') \<Longrightarrow> u' - l' = x * 2 ^ n"
proof (induction n arbitrary: x l u)
  case (Suc n)
  have "nextVoteLoop n (x * 2, u, u + x * 2) = (x', l', u')" using Suc.prems(2) by (simp add: Let_def)
  from Suc.IH [OF _ this] show ?case by (simp add: mult.assoc)
qed simp

lemma nextVoteRanges_span: "nextVoteRanges s = (lower, upper) \<Longrightarrow> upper - lower = recoveryExtraTimeout * 2 ^ (unat s - unat next_step)"
  unfolding nextVoteRanges_def Let_def using nextVoteLoop_span [OF add_diff_cancel_left'] by (auto split: prod.splits)

lemma two_power_late: "(2 :: u64) ^ 250 = 0"
  by simp

lemma napping_span:
  assumes r: "nextVoteRanges (pl_Step p + 1) = (lower, upper)" "upper - lower \<noteq> 0" and s: "stepOK p"
  shows "pl_Step p + 1 < late"
proof (rule ccontr)
  have "unat (pl_Step p) < 253" using s by (simp add: stepOK_def late_def word_less_nat_alt)
  then have u: "unat (pl_Step p + 1) = unat (pl_Step p) + 1" by (simp add: unat_word_ariths)
  assume "\<not> pl_Step p + 1 < late"
  then have "unat (pl_Step p + 1) - unat next_step = 250"
    using \<open>unat (pl_Step p) < 253\<close> u by (simp add: late_def next_step_def word_less_nat_alt)
  then have "upper - lower = 0" using nextVoteRanges_span [OF r(1)] by (simp only: two_power_late mult_zero_right)
  then show False using r(2) by simp
qed

abbreviation stepOf :: "player \<Rightarrow> step \<Rightarrow> nat \<times> nat \<times> nat" where
  "stepOf p s \<equiv> (unat (pl_Round p), unat (pl_Period p), unat s)"

lemma softTimeout_spec:
  assumes p: "pinv k p" and s: "pl_Step p = soft"
  shows "spec (live env (\<lambda>q. q = p)) (andDo (issueSoftVote env) (\<lambda>actions. andDo (updPlayer (\<lambda>p. p\<lparr>pl_Step := cert\<rparr>)) (\<lambda>_. ret actions))) (advances env k)"
proof (rule spec_andDo [OF issueSoftVote_spec], rule spec_fact)
  fix as
  assume as: "as = [] \<or> (\<exists>pv. as = [attestAction p soft pv])"
  have lt: "k < stepOf p soft" using p s by (auto simp: pinv_def position_def voted_def soft_def less_eq_prod_def less_prod_def)
  have q: "pinv (stepOf p soft) (p\<lparr>pl_Deadline := d, pl_Step := cert\<rparr>)" for d
    using p s by (simp add: pinv_def position_def voted_def stepOK_def tableOK_def step_defs)
  have "advances env k as st" if "live env (pinv (stepOf p soft)) st" for st
  proof (cases "as = []")
    case True
    have "live env (pinv k) st" using that by (rule live_mono) (use lt in \<open>auto simp: pinv_def\<close>)
    then show ?thesis using True calms_advances [of env "[]" k st] by simp
  next
    case False
    then show ?thesis using as vote_advances [of env "[]" soft k p st] lt that soft_range by auto
  qed
  then show "spec (live env (\<lambda>q. q = p\<lparr>pl_Deadline := deadlineTimeout\<rparr>)) (andDo (updPlayer (\<lambda>p. p\<lparr>pl_Step := cert\<rparr>)) (\<lambda>_. ret as)) (advances env k)"
    by (intro spec_andDo [OF updPlayer_spec [where Q = "pinv (stepOf p soft)"]] spec_ret) (auto simp: q)
qed

lemma nextTimeout_spec:
  assumes "k < stepOf p (pl_Step p)" "next_step \<le> pl_Step p" "pl_Step p < late" "tableOK p"
  shows "spec (live env (\<lambda>q. q = p)) (issueNextVote env) (advances env k)"
proof (rule spec_post [OF issueNextVote_spec])
  fix as st
  assume *: "(\<exists>bs pv. as = bs @ [attestAction p (pl_Step p) pv] \<and> calms env bs) \<and>
    live env (\<lambda>q. q = p\<lparr>pl_Napping := False, pl_Deadline := snd (nextVoteRanges (pl_Step p))\<rparr>) st"
  have n: "pl_Step p \<noteq> cert" "pl_Step p \<noteq> soft" "soft \<le> pl_Step p" using assms(2) by (auto simp: step_defs word_le_nat_alt)
  have "pinv (stepOf p (pl_Step p)) (p\<lparr>pl_Napping := False, pl_Deadline := d\<rparr>)" for d
    using assms n by (simp add: pinv_def position_def voted_def stepOK_def tableOK_def)
  with * have "live env (pinv (stepOf p (pl_Step p))) st" by (auto elim: live_mono)
  then show "advances env k as st"
    using * vote_advances [of env _ "pl_Step p" k p st] assms n by auto
qed

lemma napTimeout_spec:
  assumes p: "pinv k p" and s: "pl_Step p \<noteq> soft" "pl_Step p \<noteq> cert" "\<not> pl_Napping p"
    and r: "nextVoteRanges (pl_Step p + 1) = (lower, upper)" "upper - lower \<noteq> 0"
  shows "spec (live env (\<lambda>q. q = p)) (andDo (updPlayer (\<lambda>p. p\<lparr>pl_Step := pl_Step p + 1, pl_Napping := True, pl_Deadline := d\<rparr>)) (\<lambda>_. ret [])) (advances env k)"
proof -
  have so: "stepOK p" using p by (simp add: pinv_def)
  note l = napping_span [OF r so]
  have u: "unat (pl_Step p + 1) = unat (pl_Step p) + 1" "unat (pl_Step p) \<ge> 3"
    using so s by (auto simp: stepOK_def step_defs word_less_nat_alt word_le_nat_alt unat_word_ariths word_unat_eq_iff)
  have "pinv k (p\<lparr>pl_Step := pl_Step p + 1, pl_Napping := True, pl_Deadline := d\<rparr>)"
    using p s l u by (auto simp: pinv_def position_def voted_def stepOK_def tableOK_def step_defs word_less_nat_alt word_le_nat_alt word_unat_eq_iff)
  then show ?thesis
    by (intro spec_andDo [OF updPlayer_spec [where Q = "pinv k"]] spec_ret calms_advances) simp_all
qed

lemma handleTimeout_spec: "spec (live env (pinv k)) (handleTimeout env e) (advances env k)"
  unfolding handleTimeout_def Let_def
proof (rule spec_getPlayer, rule spec_live_mono, intro spec_if)
  fix p
  assume p: "pinv k p"
  then have so: "stepOK p" and k: "k \<le> position p" and t: "tableOK p" by (simp_all add: pinv_def)
  let ?P = "live env (\<lambda>q. q = p)"
  show "spec ?P (andDo (issueSoftVote env) (\<lambda>actions. andDo (updPlayer (\<lambda>p. p\<lparr>pl_Step := cert\<rparr>)) (\<lambda>_. ret actions))) (advances env k)"
    if "pl_Step p = soft" using softTimeout_spec [OF p that] .
  show "spec ?P (andDo (updPlayer (\<lambda>p. p\<lparr>pl_Step := next_step\<rparr>)) (\<lambda>_. issueNextVote env)) (advances env k)" if "pl_Step p = cert"
  proof -
    let ?x = "p\<lparr>pl_Step := next_step\<rparr>"
    have "k < stepOf p next_step"
      using k that by (auto simp: position_def voted_def step_defs less_eq_prod_def less_prod_def)
    then have "spec (live env (\<lambda>q. q = ?x)) (issueNextVote env) (advances env k)"
      using t by (intro nextTimeout_spec) (simp_all add: tableOK_def step_defs)
    then show ?thesis by (intro spec_andDo [OF updPlayer_spec [where Q = "\<lambda>q. q = ?x"]]) simp_all
  qed
  show "spec ?P (issueNextVote env) (advances env k)" if "pl_Step p \<noteq> soft" "pl_Step p \<noteq> cert" "pl_Napping p"
  proof (rule nextTimeout_spec)
    show "k < stepOf p (pl_Step p)" using k that so
      by (auto simp: position_def voted_def stepOK_def step_defs less_eq_prod_def less_prod_def word_less_nat_alt)
  qed (use so that t in \<open>auto simp: stepOK_def\<close>)
  show "spec ?P (case nextVoteRanges (pl_Step p + 1) of (lower, upper) \<Rightarrow>
       if upper - lower = 0 then lift (Panic DivideByZero)
       else andDo (updPlayer (\<lambda>p. p\<lparr>pl_Step := pl_Step p + 1, pl_Napping := True,
         pl_Deadline := lower + to_RandomEntropy e mod (upper - lower)\<rparr>)) (\<lambda>_. ret [])) (advances env k)"
    if "pl_Step p \<noteq> soft" "pl_Step p \<noteq> cert" "\<not> pl_Napping p"
    by (intro spec_prod spec_if spec_stop napTimeout_spec p that)
qed auto

section \<open>Every event\<close>

lemma player_handle_advances:
  assumes "admitted p e"
  shows "spec (live env (\<lambda>q. pinv k q \<and> q = p)) (player_handle n env e) (advances env k)"
proof (cases n)
  case 0
  then show ?thesis by (simp add: spec_stop)
next
  case (Suc m)
  note h = quiet_player_handle [of env m]
  have q: "spec (live env (\<lambda>q. pinv k q \<and> q = p)) op (advances env k)" if "quiet env k (\<lambda>q. q = p) op" for op
    using that by (rule spec_post) (rule calms_advances)
  have t: "spec (live env (\<lambda>q. pinv k q \<and> q = p)) (if f then handleFastTimeout env to else handleTimeout env to) (advances env k)" for f to
    by (intro spec_if q quiet_weak handleFastTimeout_spec spec_live_mono [OF handleTimeout_spec]) blast
  have r: "spec (live env (\<lambda>q. pinv k q \<and> q = p)) (enterRound env (player_handle m env) e' r) (advances env k)" if "pl_Round p < r" for e' r
    by (intro q quiet_round h that)
  have msg: "spec (live env (\<lambda>q. pinv k q \<and> q = p)) (handleMessageEvent env (player_handle m env) me) (advances env k)" if "saneEvent me" for me
    by (intro q quiet_weak handleMessageEvent_spec h that)
  have c: "spec (live env (\<lambda>q. pinv k q \<and> q = p)) (ret [CheckpointAction ck] :: action list playerOp) (advances env k)" for ck
    by (intro q quiet_ret) simp
  have "spec (live env (\<lambda>q. pinv k q \<and> q = p)) (ret [] :: action list playerOp) (advances env k)" by (intro q quiet_ret) simp
  then show ?thesis
    unfolding Suc player_handle.simps
    by (intro spec_if) (assumption, use assms in \<open>cases e; simp only: admitted_def event.case t r msg c\<close>)
qed

end
