(* ===== verification/Agreement_Runs.thy ===== *)
theory Agreement_Runs
  imports Agreement_Votes
begin

text \<open>
  Runs of the agreement service. A block is only handed to the ledger with a certificate for
  it, however often the service crashes. The soft and next votes of a service that does not
  crash move strictly forward; one that crashes once casts no two different votes in a step. A
  second crash can undo that, because performing the votes of a restored state stores an empty
  state.
\<close>

section \<open>Submitting an event\<close>

lemma submitTop_advances:
  assumes "admitted p e" "live env (pinv k) (p, root)" "submitTop n env e (p, root) = Ok (as, st)"
  shows "advances env k as st"
proof -
  have "live env (\<lambda>q. pinv k q \<and> q = p) (p, rootRouter_update p 0 root)"
    using assms(2) by (simp add: live_def rootOK_update)
  from specD [OF player_handle_advances [OF assms(1)] this] assms(3) show ?thesis by (simp add: submitTop_def)
qed

lemma service_submit_Ok:
  assumes "service_submit n env e s = Ok u"
  shows "submitTop n env e (svc_Status s, svc_Router s) = Ok (svc_Actions u, svc_Status u, svc_Router u)"
    "svc_Disk u = svc_Disk s" "svc_Cast u = svc_Cast s"
    "svc_Persist u = (if list_ex persistent (svc_Actions u)
       then \<lparr>ds_Router = svc_Router u, ds_Player = svc_Status u, ds_Actions = svc_Actions u\<rparr> else svc_Persist s)"
proof -
  obtain as p router where sub: "submitTop n env e (svc_Status s, svc_Router s) = Ok (as, p, router)"
    and u: "u = (let s = s\<lparr>svc_Status := p, svc_Router := router, svc_Actions := as\<rparr> in
      if list_ex persistent as then s\<lparr>svc_Persist := \<lparr>ds_Router = router, ds_Player = p, ds_Actions = as\<rparr>\<rparr> else s)"
    using assms by (auto simp: service_submit_def Let_def result_simps)
  show "submitTop n env e (svc_Status s, svc_Router s) = Ok (svc_Actions u, svc_Status u, svc_Router u)"
    "svc_Disk u = svc_Disk s" "svc_Cast u = svc_Cast s"
    "svc_Persist u = (if list_ex persistent (svc_Actions u)
       then \<lparr>ds_Router = svc_Router u, ds_Player = svc_Status u, ds_Actions = svc_Actions u\<rparr> else svc_Persist s)"
    by (simp_all add: sub u Let_def)
qed

lemma service_do_cases:
  obtains "service_do stored released s = s"
  | a as where "svc_Actions s = a # as" "\<not> (persistent a \<and> stored)" "service_do stored released s = s\<lparr>svc_Actions := as\<rparr>"
  | ps as where "svc_Actions s = PseudonodeAction ps # as" "psn_T ps = attest"
      "service_do stored released s = s\<lparr>svc_Actions := as, svc_Disk := Some (svc_Persist s), svc_Cast := svc_Cast s @ (if released then [ps] else [])\<rparr>"
proof (cases "svc_Actions s")
  case Nil
  then show thesis by (intro that(1)) (simp add: service_do_def)
next
  case (Cons a as)
  show thesis
  proof (cases "persistent a \<and> stored")
    case True
    then obtain ps where "a = PseudonodeAction ps" "psn_T ps = attest" "stored" by (auto simp: persistent_def split: action.splits)
    then show thesis using Cons by (intro that(3)) (auto simp: service_do_def Let_def)
  next
    case False
    then show thesis using Cons by (intro that(2)) (auto simp: service_do_def Let_def persistent_def split: action.splits)
  qed
qed

section \<open>Blocks and certificates\<close>

definition soundState :: "agreementEnv \<Rightarrow> machineState \<Rightarrow> action list \<Rightarrow> bool" where
  "soundState env st as \<longleftrightarrow> live env (pinv (0, 0, 0)) st \<and> list_all (certified env) as"

definition soundDisk :: "agreementEnv \<Rightarrow> diskState \<Rightarrow> bool" where
  "soundDisk env d \<longleftrightarrow> d = zeroDisk \<or> soundState env (ds_Player d, ds_Router d) (ds_Actions d)"

definition soundService :: "agreementEnv \<Rightarrow> serviceState \<Rightarrow> bool" where
  "soundService env s \<longleftrightarrow> soundState env (svc_Status s, svc_Router s) (svc_Actions s) \<and> soundDisk env (svc_Persist s) \<and>
     pred_option (soundDisk env) (svc_Disk s)"

lemma least_position: "((0, 0, 0) :: nat \<times> nat \<times> nat) \<le> k"
  by (cases k) (simp add: less_eq_prod_def)

lemma pinv_least: "pinv k p \<Longrightarrow> pinv (0, 0, 0) p"
  by (simp add: pinv_def least_position)

lemma live_least: "live env (pinv k) st \<Longrightarrow> live env (pinv (0, 0, 0)) st"
  by (erule live_mono) (rule pinv_least)

lemma advances_sound: "advances env k as st \<Longrightarrow> soundState env st as"
  unfolding advances_def soundState_def using live_least by blast

lemma start_live: "live env (pinv (unat r, 0, 0)) (startPlayer env r version, makeRootRouter)"
  by (simp add: live_def pinv_def position_def voted_def stepOK_def tableOK_def startPlayer_def zeroPlayer_def soft_range
      makeRootRouter_def rootOK_def)

lemma start_actions: "list_all (certified env) (startActions r)" "ballots (startActions r) = []" "\<not> list_ex persistent (startActions r)"
  by (simp_all add: startActions_def certified_def ballots_def pseudonodeOf_def isBallot_def persistent_def)

lemma start_sound:
  assumes "service_start codec env r version disk cast = Ok u" "0 < r" "pred_option (soundDisk env) disk"
    and codec: "\<And>d d'. codec d = Some d' \<Longrightarrow> d' = d"
  shows "soundService env u"
proof -
  have f: "soundState env (startPlayer env r version, makeRootRouter) (startActions r)"
    using start_live [of env r version] start_actions live_least by (simp add: soundState_def)
  have z: "soundDisk env zeroDisk" by (simp add: soundDisk_def)
  have n: "soundState env (ds_Player d, ds_Router d) (ds_Actions d)" if "soundDisk env d" "\<not> pl_Round (ds_Player d) < r" for d
    using that assms(2) by (auto simp: soundDisk_def zeroDisk_def zeroPlayer_def)
  show ?thesis
  proof (cases disk)
    case None
    then show ?thesis using assms(1) f z by (auto simp: service_start_def restored_def soundService_def result_simps)
  next
    case (Some d)
    then have d: "soundDisk env d" using assms(3) by simp
    show ?thesis
      using assms(1) f z n d Some codec [of d]
      by (cases "codec d") (auto simp: service_start_def restored_def decode_def soundService_def Let_def result_simps split: if_splits)
  qed
qed

lemma submit_sound:
  assumes "soundService env s" "admitted (svc_Status s) e" "service_submit n env e s = Ok u"
  shows "soundService env u"
proof -
  note sub = service_submit_Ok [OF assms(3)]
  have "live env (pinv (0, 0, 0)) (svc_Status s, svc_Router s)" using assms(1) by (simp add: soundService_def soundState_def)
  from advances_sound [OF submitTop_advances [OF assms(2) this sub(1)]] show ?thesis using assms(1) sub(2,4) by (simp add: soundService_def soundDisk_def)
qed

lemma do_sound: "soundService env s \<Longrightarrow> soundService env (service_do stored released s)"
  by (rule service_do_cases [of stored released s]) (auto simp: soundService_def soundState_def)

lemma run_sound:
  assumes "service_run n codec env c s t" "soundService env s" "\<And>d d'. codec d = Some d' \<Longrightarrow> d' = d"
  shows "soundService env t"
  using assms
proof induction
  case (run_submit c s t e u)
  then show ?case using submit_sound by blast
next
  case (run_crash c s t r version u)
  then show ?case using start_sound [of codec env r version "svc_Disk t" "svc_Cast t" u]
    by (simp add: service_crash_def soundService_def)
qed (simp_all add: do_sound)

section \<open>Votes without a crash\<close>

abbreviation castBallots :: "serviceState \<Rightarrow> pseudonodeAction list" where
  "castBallots s \<equiv> filter isBallot (svc_Cast s)"

definition orderedVotes :: "agreementEnv \<Rightarrow> serviceState \<Rightarrow> bool" where
  "orderedVotes env s \<longleftrightarrow> (\<exists>k. live env (pinv k) (svc_Status s, svc_Router s) \<and>
     sorted_wrt (<) (map ballotAt (castBallots s @ ballots (svc_Actions s))) \<and>
     list_all (\<lambda>b. ballotAt b \<le> k) (castBallots s @ ballots (svc_Actions s)))"

lemma ballots_Cons: "ballots (a # as) = filter isBallot (pseudonodeOf a) @ ballots as"
  by (simp add: ballots_def)

lemma orderedVotes_submit:
  assumes "orderedVotes env s" "svc_Actions s = []" "admitted (svc_Status s) e" "service_submit n env e s = Ok u"
  shows "orderedVotes env u"
proof -
  note sub = service_submit_Ok [OF assms(4)]
  obtain k where k: "live env (pinv k) (svc_Status s, svc_Router s)" "sorted_wrt (<) (map ballotAt (castBallots s))"
    "list_all (\<lambda>b. ballotAt b \<le> k) (castBallots s)"
    using assms(1,2) by (auto simp: orderedVotes_def)
  obtain k' where k': "k \<le> k'" "live env (pinv k') (svc_Status u, svc_Router u)"
    and b: "ballots (svc_Actions u) = [] \<or> (\<exists>b. ballots (svc_Actions u) = [b] \<and> k < ballotAt b \<and> ballotAt b \<le> k')"
    using submitTop_advances [OF assms(3) k(1) sub(1)] unfolding advances_def by blast
  have "list_all (\<lambda>b. ballotAt b \<le> k') (castBallots s @ ballots (svc_Actions u))"
    using b k(3) k'(1) by (auto simp: list_all_iff intro: order_trans)
  moreover have "sorted_wrt (<) (map ballotAt (castBallots s @ ballots (svc_Actions u)))"
    using b k(2,3) by (auto simp: sorted_wrt_append list_all_iff intro: le_less_trans)
  ultimately show ?thesis unfolding orderedVotes_def sub(3) using k'(2) by blast
qed

lemma service_do_ballots:
  obtains xs ys zs where "castBallots s @ ballots (svc_Actions s) = xs @ ys @ zs"
    "castBallots (service_do stored released s) @ ballots (svc_Actions (service_do stored released s)) = xs @ zs"
proof (rule service_do_cases [of stored released s])
  assume "service_do stored released s = s"
  then show thesis by (intro that [of "[]" "[]"]) simp_all
next
  fix a as
  assume "svc_Actions s = a # as" "service_do stored released s = s\<lparr>svc_Actions := as\<rparr>"
  then show thesis by (intro that [of "castBallots s" "filter isBallot (pseudonodeOf a)" "ballots as"]) (simp_all add: ballots_Cons)
next
  fix ps as
  assume *: "svc_Actions s = PseudonodeAction ps # as" 
    "service_do stored released s = s\<lparr>svc_Actions := as, svc_Disk := Some (svc_Persist s), svc_Cast := svc_Cast s @ (if released then [ps] else [])\<rparr>"
  show thesis
  proof (cases released)
    case True
    then show thesis using * by (intro that [of "[]" "[]"]) (simp_all add: ballots_Cons pseudonodeOf_def)
  next
    case False
    then show thesis using *
      by (intro that [of "castBallots s" "filter isBallot [ps]" "ballots as"]) (simp_all add: ballots_Cons pseudonodeOf_def)
  qed
qed

lemma service_do_state:
  "svc_Status (service_do stored released s) = svc_Status s" "svc_Router (service_do stored released s) = svc_Router s"
  "svc_Persist (service_do stored released s) = svc_Persist s"
  by (rule service_do_cases [of stored released s]; simp)+

lemma orderedVotes_do:
  assumes "orderedVotes env s"
  shows "orderedVotes env (service_do stored released s)"
proof -
  obtain xs ys zs where x: "castBallots s @ ballots (svc_Actions s) = xs @ ys @ zs"
    "castBallots (service_do stored released s) @ ballots (svc_Actions (service_do stored released s)) = xs @ zs"
    by (rule service_do_ballots)
  have "sorted_wrt (<) (map ballotAt (xs @ zs))" if "sorted_wrt (<) (map ballotAt (xs @ ys @ zs))"
    using that by (auto simp: sorted_wrt_append)
  moreover have "list_all P (xs @ zs)" if "list_all P (xs @ ys @ zs)" for P
    using that by simp
  ultimately show ?thesis using assms unfolding orderedVotes_def service_do_state x by blast
qed

lemma orderedVotes_start: "service_start codec env r version None [] = Ok u \<Longrightarrow> orderedVotes env u"
  unfolding orderedVotes_def
  by (rule exI [of _ "(unat r, 0, 0)"]) (auto simp: service_start_def restored_def result_simps start_live start_actions)

lemma orderedVotes_run: "service_run n codec env c s t \<Longrightarrow> c = 0 \<Longrightarrow> orderedVotes env s \<Longrightarrow> orderedVotes env t"
  by (induction rule: service_run.induct) (auto intro: orderedVotes_submit orderedVotes_do)

section \<open>Votes across a crash\<close>

text \<open>No two different ballots of the set are for the same step, and none is past \<open>k\<close>.\<close>

definition consistent :: "pseudonodeAction set \<Rightarrow> nat \<times> nat \<times> nat \<Rightarrow> bool" where
  "consistent X k \<longleftrightarrow> inj_on ballotAt X \<and> (\<forall>b \<in> X. ballotAt b \<le> k)"

definition covers :: "agreementEnv \<Rightarrow> pseudonodeAction set \<Rightarrow> machineState \<Rightarrow> bool" where
  "covers env X st \<longleftrightarrow> (\<exists>k. live env (pinv k) st \<and> consistent X k)"

abbreviation diskCovers :: "agreementEnv \<Rightarrow> pseudonodeAction set \<Rightarrow> diskState \<Rightarrow> bool" where
  "diskCovers env X d \<equiv> covers env (X \<union> set (ballots (ds_Actions d))) (ds_Player d, ds_Router d)"

definition singleVotes :: "agreementEnv \<Rightarrow> serviceState \<Rightarrow> bool" where
  "singleVotes env s \<longleftrightarrow> covers env (set (castBallots s @ ballots (svc_Actions s))) (svc_Status s, svc_Router s)"

definition diskHolds :: "agreementEnv \<Rightarrow> pseudonodeAction list \<Rightarrow> diskState option \<Rightarrow> bool" where
  "diskHolds env bs disk \<longleftrightarrow> (case disk of None \<Rightarrow> bs = [] | Some d \<Rightarrow> diskCovers env (set bs) d)"

definition storedVotes :: "agreementEnv \<Rightarrow> serviceState \<Rightarrow> bool" where
  "storedVotes env s \<longleftrightarrow> singleVotes env s \<and>
     diskHolds env (castBallots s) (svc_Disk s) \<and>
     (list_ex persistent (svc_Actions s) \<longrightarrow> diskCovers env (set (castBallots s @ ballots (svc_Actions s))) (svc_Persist s))"

lemma covers_subset: "covers env X st \<Longrightarrow> Y \<subseteq> X \<Longrightarrow> covers env Y st"
  unfolding covers_def consistent_def using inj_on_subset by blast

lemma covers_advances:
  assumes "covers env X (p, root)" "admitted p e" "submitTop n env e (p, root) = Ok (as, st)"
  shows "covers env (X \<union> set (ballots as)) st"
proof -
  obtain k where k: "live env (pinv k) (p, root)" "inj_on ballotAt X" "\<forall>b \<in> X. ballotAt b \<le> k"
    using assms(1) unfolding covers_def consistent_def by blast
  obtain k' where k': "k \<le> k'" "live env (pinv k') st"
    and b: "ballots as = [] \<or> (\<exists>b. ballots as = [b] \<and> k < ballotAt b \<and> ballotAt b \<le> k')"
    using submitTop_advances [OF assms(2) k(1) assms(3)] unfolding advances_def by blast
  have nb: "ballotAt b \<notin> ballotAt ` (X - {b})" if "k < ballotAt b" for b
  proof
    assume "ballotAt b \<in> ballotAt ` (X - {b})"
    then obtain c where c: "c \<in> X" "ballotAt b = ballotAt c" by blast
    from bspec [OF k(3) c(1)] show False using that by (simp add: c(2))
  qed
  have "inj_on ballotAt (X \<union> set (ballots as))" using b
  proof
    assume "\<exists>b. ballots as = [b] \<and> k < ballotAt b \<and> ballotAt b \<le> k'"
    then obtain b where "ballots as = [b]" "k < ballotAt b" by blast
    then show ?thesis using k(2) nb by (simp add: inj_on_insert)
  qed (simp add: k(2))
  moreover have "\<forall>b \<in> X. ballotAt b \<le> k'" using order_trans [OF bspec [OF k(3)] k'(1)] by blast
  moreover have "list_all (\<lambda>b. ballotAt b \<le> k') (ballots as)" using b by auto
  ultimately have "inj_on ballotAt (X \<union> set (ballots as)) \<and> (\<forall>b \<in> X \<union> set (ballots as). ballotAt b \<le> k')"
    by (simp only: ball_Un list_all_iff simp_thms)
  then show ?thesis unfolding covers_def consistent_def using k'(2) by blast
qed

lemma singleVotes_submit:
  assumes "singleVotes env s" "svc_Actions s = []" "admitted (svc_Status s) e" "service_submit n env e s = Ok u"
  shows "singleVotes env u"
proof -
  note sub = service_submit_Ok [OF assms(4)]
  have "covers env (set (castBallots s)) (svc_Status s, svc_Router s)" using assms(1,2) by (simp add: singleVotes_def)
  from covers_advances [OF this assms(3) sub(1)] show ?thesis by (simp add: singleVotes_def sub(3))
qed

lemma service_do_subset:
  "set (castBallots (service_do stored released s) @ ballots (svc_Actions (service_do stored released s))) \<subseteq> set (castBallots s @ ballots (svc_Actions s))"
  by (rule service_do_ballots [of s stored released]) auto

lemma singleVotes_do: "singleVotes env s \<Longrightarrow> singleVotes env (service_do stored released s)"
  unfolding singleVotes_def service_do_state by (erule covers_subset) (rule service_do_subset)

lemma storedVotes_submit:
  assumes "storedVotes env s" "svc_Actions s = []" "admitted (svc_Status s) e" "service_submit n env e s = Ok u"
  shows "storedVotes env u"
proof -
  note sub = service_submit_Ok [OF assms(4)]
  have u: "singleVotes env u" using singleVotes_submit [OF _ assms(2-4)] assms(1) by (simp add: storedVotes_def)
  then have "diskCovers env (set (castBallots u @ ballots (svc_Actions u))) (svc_Persist u)" if "list_ex persistent (svc_Actions u)"
    using that by (simp add: sub(4) singleVotes_def Un_assoc)
  then show ?thesis using u assms(1) unfolding storedVotes_def sub(2,3) by blast
qed

lemma storedVotes_do:
  assumes "storedVotes env s"
  shows "storedVotes env (service_do stored released s)"
proof -
  have 1: "singleVotes env (service_do stored released s)" using assms singleVotes_do by (simp add: storedVotes_def)
  have 2: "diskCovers env (set (castBallots (service_do stored released s) @ ballots (svc_Actions (service_do stored released s)))) (svc_Persist s)"
    if "list_ex persistent (svc_Actions s)"
    using assms that service_do_subset [of stored released s] unfolding storedVotes_def by (blast intro: covers_subset)
  show ?thesis
  proof (rule service_do_cases [of stored released s])
    fix a as
    assume "svc_Actions s = a # as" and d: "service_do stored released s = s\<lparr>svc_Actions := as\<rparr>"
    then show ?thesis using 1 2 assms by (simp add: storedVotes_def)
  next
    fix ps as
    assume "svc_Actions s = PseudonodeAction ps # as" "psn_T ps = attest"
      and d: "service_do stored released s = s\<lparr>svc_Actions := as, svc_Disk := Some (svc_Persist s), svc_Cast := svc_Cast s @ (if released then [ps] else [])\<rparr>"
    then have p: "list_ex persistent (svc_Actions s)" by (simp add: persistent_def)
    have "diskCovers env (set (castBallots (service_do stored released s))) (svc_Persist s)"
      using 2 [OF p] by (rule covers_subset) auto
    then show ?thesis using 1 2 [OF p] by (simp add: storedVotes_def diskHolds_def d)
  qed (use assms in simp)
qed

lemma covers_start: "consistent X (unat r, 0, 0) \<Longrightarrow> covers env X (startPlayer env r version, makeRootRouter)"
  unfolding covers_def using start_live by blast

lemma covers_start_empty [simp]: "covers env {} (startPlayer env r version, makeRootRouter)"
  by (rule covers_start) (simp add: consistent_def)

lemma storedVotes_start: "service_start codec env r version None [] = Ok u \<Longrightarrow> storedVotes env u"
  by (auto simp: storedVotes_def diskHolds_def singleVotes_def service_start_def restored_def result_simps start_actions)

lemma singleVotes_crash:
  assumes "storedVotes env s" "service_crash codec env r version s = Ok u" "codec = Some"
  shows "singleVotes env u"
proof (cases "svc_Disk s")
  case None
  then show ?thesis using assms(1,2)
    by (auto simp: storedVotes_def diskHolds_def singleVotes_def service_crash_def service_start_def restored_def result_simps start_actions
        simp del: set_filter)
next
  case (Some d)
  then have d: "diskCovers env (set (castBallots s)) d" using assms(1) by (simp add: storedVotes_def diskHolds_def)
  show ?thesis
  proof (cases "pl_Round (ds_Player d) < r")
    case True
    obtain k where k: "pinv k (ds_Player d)" "consistent (set (castBallots s) \<union> set (ballots (ds_Actions d))) k"
      using d by (auto simp: covers_def live_def)
    have "k \<le> (unat r, 0, 0)" using k(1) True by (auto simp: pinv_def position_def less_eq_prod_def word_less_nat_alt)
    then have "consistent (set (castBallots s)) (unat r, 0, 0)" using k(2) unfolding consistent_def inj_on_Un by (blast intro: order_trans)
    then have "covers env (set (castBallots s)) (startPlayer env r version, makeRootRouter)" by (rule covers_start)
    then show ?thesis using assms(2,3) True Some
      by (auto simp: singleVotes_def service_crash_def service_start_def restored_def decode_def result_simps start_actions
          simp del: set_filter split: if_splits)
  next
    case False
    then show ?thesis using assms(2,3) Some d
      by (auto simp: singleVotes_def service_crash_def service_start_def restored_def decode_def result_simps
          simp del: set_filter split: if_splits)
  qed
qed

lemma votes_run:
  assumes "service_run n codec env c s t" "storedVotes env s" "codec = Some"
  shows "(c = 0 \<longrightarrow> storedVotes env t) \<and> (c = 1 \<longrightarrow> singleVotes env t)"
  using assms
proof induction
  case (run_submit c s t e u)
  then show ?case using storedVotes_submit singleVotes_submit by blast
next
  case (run_do c s t stored released)
  then show ?case using storedVotes_do singleVotes_do by blast
next
  case (run_crash c s t r version u)
  then show ?case using singleVotes_crash by auto
qed simp

end
