(* ===== verification/Agreement_Fuel.thy ===== *)
theory Agreement_Fuel
  imports Agreement_Runs
begin

text \<open>
  The bound on the calls of the player, first part. A dispatch below the player never runs out
  of it, and a larger bound gives the same result unless the smaller one was exhausted.
\<close>

section \<open>Operations that need no bound\<close>

definition roomy :: "(agreement_error, 'a) result \<Rightarrow> bool" where
  "roomy r \<longleftrightarrow> r \<noteq> Err OutOfFuel"

definition fuelFree :: "(agreement_error, 's, 'a) effect \<Rightarrow> bool" where
  "fuelFree m \<longleftrightarrow> (\<forall>s. roomy (m s))"

lemma roomy_simps [simp]: "roomy (Ok x)" "roomy (Panic p)" "roomy (Err NoReturn)" "\<not> roomy (Err OutOfFuel)"
  by (simp_all add: roomy_def)

lemma roomy_andThen: "roomy m \<Longrightarrow> (\<And>x. roomy (f x)) \<Longrightarrow> roomy (andThen m f)"
  by (cases m) (simp_all add: roomy_def)

lemma roomy_if: "(c \<Longrightarrow> roomy a) \<Longrightarrow> (\<not> c \<Longrightarrow> roomy b) \<Longrightarrow> roomy (if c then a else b)"
  by simp

lemma roomy_prod: "(\<And>a b. roomy (f a b)) \<Longrightarrow> roomy (case x of (a, b) \<Rightarrow> f a b)"
  by (cases x) simp

lemma roomy_option: "roomy a \<Longrightarrow> (\<And>x. roomy (f x)) \<Longrightarrow> roomy (case x of None \<Rightarrow> a | Some x \<Rightarrow> f x)"
  by (cases x) simp_all

lemma roomy_list: "roomy a \<Longrightarrow> (\<And>x xs. roomy (f x xs)) \<Longrightarrow> roomy (case x of [] \<Rightarrow> a | x # xs \<Rightarrow> f x xs)"
  by (cases x) simp_all

lemmas roomy_rules = roomy_simps(1-3) roomy_andThen roomy_if roomy_prod roomy_option roomy_list

lemma fuelFreeI: "(\<And>s. roomy (m s)) \<Longrightarrow> fuelFree m"
  by (simp add: fuelFree_def)

lemma fuelFreeD: "fuelFree m \<Longrightarrow> roomy (m s)"
  by (simp add: fuelFree_def)

lemma fuelFree_ret: "fuelFree (ret x)"
  by (simp add: fuelFree_def ret_def)

lemma fuelFree_panic: "fuelFree (lift (Panic p))"
  by (simp add: fuelFree_def lift_def)

lemma fuelFree_andDo: "fuelFree m \<Longrightarrow> (\<And>x. fuelFree (f x)) \<Longrightarrow> fuelFree (andDo m f)"
  unfolding andDo_def by (intro fuelFreeI roomy_andThen roomy_prod) (simp_all add: fuelFreeD)

lemma fuelFree_if: "(c \<Longrightarrow> fuelFree a) \<Longrightarrow> (\<not> c \<Longrightarrow> fuelFree b) \<Longrightarrow> fuelFree (if c then a else b)"
  by simp

lemma fuelFree_prod: "(\<And>a b. fuelFree (f a b)) \<Longrightarrow> fuelFree (case x of (a, b) \<Rightarrow> f a b)"
  by (cases x) simp

lemma fuelFree_option: "fuelFree a \<Longrightarrow> (\<And>x. fuelFree (f x)) \<Longrightarrow> fuelFree (case x of None \<Rightarrow> a | Some x \<Rightarrow> f x)"
  by (cases x) simp_all

lemmas free_rules = fuelFree_ret fuelFree_panic fuelFree_andDo fuelFree_if fuelFree_prod fuelFree_option

section \<open>The trackers\<close>

lemma overThreshold_roomy: "roomy (overThreshold proto s t)"
proof -
  have "roomy (overLoop proto s t ps res ok)" for ps res ok
    by (induction ps arbitrary: res ok) simp_all
  then show ?thesis by (simp add: overThreshold_def)
qed

lemma genBundle_roomy: "roomy (genBundle proto t c)"
  unfolding genBundle_def makeBundle_def Let_def by (intro roomy_rules)

lemma emitThreshold_roomy: "roomy (emitThreshold proto ver v ob t)"
  unfolding emitThreshold_def by (intro roomy_rules overThreshold_roomy genBundle_roomy)

lemma voteTracker_roomy: "roomy (voteTracker_handle tbl t e)"
proof -
  have "roomy (acceptVote tbl t v ver)" for v ver
    unfolding acceptVote_def Let_def by (intro roomy_rules overThreshold_roomy emitThreshold_roomy)
  then show ?thesis unfolding voteTracker_handle_def by (cases e) (auto intro!: roomy_rules)
qed

lemma proposalTracker_roomy: "roomy (proposalTracker_handle env e t)"
proof -
  have "roomy (Credential_Less env c c')" for c c'
    by (simp add: Credential_Less_def split: option.split)
  then have "roomy (seeker_accept env s v)" for s v
    unfolding seeker_accept_def by (intro roomy_rules)
  then have "roomy (trackProposalVote env t v)" for v
    unfolding trackProposalVote_def Let_def by (intro roomy_rules)
  then show ?thesis unfolding proposalTracker_handle_def by (cases e) (auto intro!: roomy_rules)
qed

section \<open>The routers\<close>

lemma stepRouter_free: "fuelFree (stepRouter_dispatch env e dest)"
  unfolding stepRouter_dispatch_def Let_def by (intro fuelFreeI roomy_rules voteTracker_roomy)

lemma periodForward_free: "fuelFree (periodRouter_forward env e dest s)"
  unfolding periodRouter_forward_def Let_def by (intro fuelFreeI roomy_rules fuelFreeD [OF stepRouter_free])

lemma periodReply_free: "fuelFree (voteTrackerPeriod_reply e)"
  unfolding voteTrackerPeriod_reply_def Let_def by (rule fuelFreeI) (simp split: event.split)

lemma periodHandle_free: "fuelFree (voteTrackerPeriod_handle env e)"
proof -
  have r: "fuelFree (\<lambda>router. andDo (voteTrackerPeriod_reply out) (\<lambda>_. ret out) (periodRouter_update 0 router))" for out
    by (rule fuelFreeI) (rule fuelFreeD, intro free_rules periodReply_free)
  have k: "fuelFree (case out of
              ThresholdEv th \<Rightarrow>
                if th_T th \<noteq> noThreshold \<and> th_Step th \<ge> next_step
                then (\<lambda>router. andDo (voteTrackerPeriod_reply out) (\<lambda>_. ret out) (periodRouter_update 0 router))
                else ret out
            | _ \<Rightarrow> if isNone out then ret out else lift (Panic (LogPanic ''not a threshold'')))" for out
    using r [of out] by (cases out) (simp_all add: fuelFree_ret fuelFree_panic)
  show ?thesis
    unfolding voteTrackerPeriod_handle_def
    by (cases e) (simp_all only: event.case periodReply_free fuelFree_andDo [OF periodForward_free k])
qed

lemma periodDispatch_free: "fuelFree (periodRouter_dispatch env e dest s)"
proof -
  have c: "roomy (checkedProposalTracker env e tc)" for tc
    unfolding checkedProposalTracker_def Let_def by (intro roomy_rules proposalTracker_roomy)
  show ?thesis
    unfolding periodRouter_dispatch_def Let_def
    by (intro fuelFreeI roomy_rules c fuelFreeD [OF periodHandle_free] fuelFreeD [OF periodForward_free])
qed

lemma roundForward_free: "fuelFree (roundRouter_forward env state e dest p s)"
  unfolding roundRouter_forward_def Let_def by (intro fuelFreeI roomy_rules fuelFreeD [OF periodDispatch_free])

lemma roundReply_free: "fuelFree (voteTrackerRound_reply e)"
proof -
  have "roomy (fresherThan a b)" for a b
    unfolding fresherThan_def by (intro roomy_rules)
  then show ?thesis
    unfolding voteTrackerRound_reply_def Let_def
    by (cases e) (auto intro!: fuelFreeI roomy_rules)
qed

lemma roundHandle_free: "fuelFree (voteTrackerRound_handle env state e)"
proof -
  have k: "fuelFree (if isNone out then ret EmptyEvent else (\<lambda>router. voteTrackerRound_reply out (roundRouter_update state 0 router)))" for out
    by (intro fuelFree_if fuelFree_ret fuelFreeI fuelFreeD [OF roundReply_free])
  show ?thesis
    unfolding voteTrackerRound_handle_def
    by (cases e) (simp_all only: event.case roundReply_free fuelFree_andDo [OF roundForward_free k])
qed

lemma readStaging_free: "fuelFree (readStaging env state se)"
proof -
  have k: "fuelFree (case out of
         StagingValueEv se \<Rightarrow> (\<lambda>router.
           let ea = assemblerOf (rr_ProposalStore router) (sv_Proposal se) in
           Ok (se\<lparr>sv_Committable := ba_Assembled ea, sv_Payload := ba_Payload ea\<rparr>, router))
       | _ \<Rightarrow> lift (Panic (LogPanic ''not a staging value'')))" for out
    by (cases out) (simp_all add: fuelFree_panic, simp add: fuelFree_def Let_def)
  show ?thesis unfolding readStaging_def by (rule fuelFree_andDo [OF roundForward_free k])
qed

lemma stagedStore_free: "fuelFree (stagedValue_store env state)"
  unfolding stagedValue_store_def by (intro fuelFreeI fuelFreeD [OF readStaging_free])

lemma storeVote_free: "fuelFree (store_voteVerified env state e v)"
proof -
  have k: "fuelFree (case ev of
         ProposalAcceptedEv pa \<Rightarrow> (\<lambda>router.
           let store = rr_ProposalStore router;
               ea = assemblerOf store (pa_Proposal pa);
               ea = ea\<lparr>ba_Authenticators := ba_Authenticators ea @ [v]\<rparr>;
               store = store\<lparr>st_Assemblers := mput (pa_Proposal pa) ea (st_Assemblers store),
                             st_Relevant := mput (rv_Period (vt_R v)) (pa_Proposal pa) (st_Relevant store)\<rparr>
           in Ok (ProposalAcceptedEv (pa\<lparr>pa_Payload := ba_Payload ea, pa_PayloadOk := ba_Assembled ea\<rparr>),
                  router\<lparr>rr_ProposalStore := store_trim (pl_Period state) store\<rparr>))
       | _ \<Rightarrow> ret ev)" for ev
    by (cases ev) (simp_all add: fuelFree_ret, simp add: fuelFree_def Let_def)
  show ?thesis unfolding store_voteVerified_def by (rule fuelFree_andDo [OF roundForward_free k])
qed

lemma storeThreshold_free: "fuelFree (store_threshold env state te)"
proof -
  have k: "fuelFree (case ev of
         ProposalAcceptedEv pa \<Rightarrow> (\<lambda>router.
           let store = rr_ProposalStore router; ea = assemblerOf store (pa_Proposal pa) in
           if ba_Assembled ea then Ok (CommittableEv (pa_Proposal pa) (authenticator ea (pl_Period state)), router)
           else
             let store = store\<lparr>st_Assemblers := mput (pa_Proposal pa) ea (st_Assemblers store),
                               st_Relevant := mput (th_Period te) (pa_Proposal pa) (st_Relevant store)\<rparr>
             in Ok (ProposalAcceptedEv (pa\<lparr>pa_Payload := ba_Payload ea, pa_PayloadOk := ba_Assembled ea\<rparr>),
                    router\<lparr>rr_ProposalStore := store_trim (pl_Period state) store\<rparr>))
       | _ \<Rightarrow> lift (Panic (LogPanic ''not a proposalAccepted event'')))" for ev
    by (cases ev) (simp_all add: fuelFree_panic, simp add: fuelFree_def Let_def)
  show ?thesis unfolding store_threshold_def by (rule fuelFree_andDo [OF roundForward_free k])
qed

lemma storePayload_free: "fuelFree (store_payloadPresent env state up)" "fuelFree (store_payloadVerified env state pp)"
  unfolding store_payloadPresent_def store_payloadVerified_def Let_def
  by (intro fuelFreeI roomy_rules) (intro fuelFreeI roomy_rules fuelFreeD [OF fuelFree_andDo [OF stagedStore_free fuelFree_ret]])

lemma storeNew_free: "fuelFree (store_newPeriod env state per pv)" "fuelFree (store_newRound state)"
proof -
  show "fuelFree (store_newPeriod env state per pv)"
    unfolding store_newPeriod_def by (intro fuelFree_andDo stagedStore_free fuelFreeI) simp
  show "fuelFree (store_newRound state)"
    unfolding store_newRound_def Let_def by (intro fuelFreeI roomy_rules)
qed

lemma store_free: "fuelFree (proposalStore_handle env state e)"
proof (cases e)
  case (MessageEv me)
  then show ?thesis
    unfolding proposalStore_handle_def by (cases "me_T me") (simp_all add: storeVote_free storePayload_free fuelFree_panic)
next
  case (PinnedValueEv se)
  then show ?thesis by (simp add: proposalStore_handle_def store_readPinned_def fuelFree_def Let_def)
qed (simp_all add: proposalStore_handle_def fuelFree_panic storeNew_free storeThreshold_free fuelFree_andDo [OF readStaging_free fuelFree_ret])

lemma roundDispatch_free: "fuelFree (roundRouter_dispatch env state e dest p s)"
  unfolding roundRouter_dispatch_def Let_def
  by (intro fuelFreeI roomy_if fuelFreeD [OF store_free] fuelFreeD [OF roundHandle_free] fuelFreeD [OF roundForward_free])

lemma rootForward_free: "fuelFree (rootRouter_forward env state e dest r p s)"
  unfolding rootRouter_forward_def Let_def by (intro fuelFreeI roomy_rules fuelFreeD [OF roundDispatch_free])

lemma manager_free: "fuelFree (proposalManager_handle env state e)"
proof -
  have p: "fuelFree (case out of
          PayloadProcessedEv ep \<Rightarrow>
            if ppe_T ep = payloadRejected then ret out else ret (PayloadProcessedEv (ep\<lparr>ppe_Round := r\<rparr>))
        | _ \<Rightarrow> lift (Panic (LogPanic ''not a payloadProcessed event'')))" for out r
    by (cases out) (simp_all add: fuelFree_panic fuelFree_ret)
  have pp: "fuelFree (manager_payloadPresent env state me)" for me
    unfolding manager_payloadPresent_def Let_def by (intro fuelFree_prod fuelFree_andDo [OF rootForward_free p])
  have f: "fuelFree (filterProposalVote env state uv fd)" for uv fd
    unfolding filterProposalVote_def by (intro free_rules rootForward_free)
  have m: "fuelFree (manager_handleMessageEvent env state me fd)" for me fd
    unfolding manager_handleMessageEvent_def Let_def
    by (cases "me_T me") (simp_all only: messageType.case pp, (intro free_rules f rootForward_free)+)
  have n: "fuelFree (handleNewPeriod env state th)" for th
    unfolding handleNewPeriod_def Let_def by (rule rootForward_free)
  show ?thesis
    unfolding proposalManager_handle_def
    by (cases e) (simp_all only: event.case m fuelFree_panic rootForward_free, (intro free_rules n rootForward_free)+)
qed

lemma aggregator_free: "fuelFree (voteAggregator_handle env state e)"
proof -
  have k: "fuelFree (case out of
          FilteredStepEv \<Rightarrow> ret (Some ''voteAggregator: rejected vote'')
        | _ \<Rightarrow> if isNone out then ret None else lift (Panic (LogPanic ''voteAggregator: bad event type'')))" for out
    by (cases out) (simp_all add: fuelFree_panic fuelFree_ret)
  have f: "fuelFree (filterVote env state uv fd)" for uv fd
    unfolding filterVote_def Let_def by (intro fuelFree_if fuelFree_ret fuelFree_andDo [OF rootForward_free k])
  have d: "fuelFree (deliverVote env state ver v)" for ver v
    unfolding deliverVote_def by (rule rootForward_free)
  have ds: "fuelFree (deliverVotes env state ver vs th)" for ver vs th
    by (induction vs arbitrary: th) (simp_all add: fuelFree_ret fuelFree_andDo [OF d])
  have t: "fuelFree (case tE of
              ThresholdEv th \<Rightarrow>
                if th_Round th = fd_PlayerRound fd then ret tE
                else if th_Round th = fd_PlayerRound fd + 1 then ret EmptyEvent
                else lift (Panic (LogPanic ''bad round''))
            | _ \<Rightarrow> lift (Panic (LogPanic ''not a threshold'')))" for tE fd
    by (cases tE) (simp_all add: fuelFree_panic fuelFree_ret)
  have v: "fuelFree (aggregator_voteVerified env state me fd)" for me fd
    unfolding aggregator_voteVerified_def Let_def by (intro fuelFree_if fuelFree_andDo fuelFree_ret f d t)
  have b: "fuelFree (aggregator_bundleVerified env state me fd)" for me fd
    unfolding aggregator_bundleVerified_def Let_def by (intro free_rules ds)
  show ?thesis
  proof (cases e)
    case (FilterableMessageEv me fd)
    then show ?thesis
      unfolding voteAggregator_handle_def event.case
      by (cases "me_T me") (simp_all only: messageType.case event.case v b fuelFree_panic, (intro free_rules f)+)
  qed (simp_all add: voteAggregator_handle_def fuelFree_panic)
qed

lemma dispatch_free: "fuelFree (rootRouter_dispatch env state e dest r p s)"
proof -
  have a: "fuelFree (andDo (voteAggregator_handle env state e) (\<lambda>out.
         if voteAggregatorContract_post e out then ret out else lift (Panic (LogPanic ''postcondition violated''))))"
    by (intro free_rules aggregator_free)
  show ?thesis
    unfolding rootRouter_dispatch_def Let_def
    by (intro fuelFreeI roomy_if roomy_simps fuelFreeD [OF manager_free] fuelFreeD [OF a] fuelFreeD [OF rootForward_free])
qed

section \<open>Operations of the player that call no handler\<close>

lemma below_free: "(\<And>p. fuelFree (m p)) \<Longrightarrow> fuelFree (below m)"
  unfolding below_def by (intro fuelFreeI roomy_prod roomy_rules) (rule fuelFreeD)

lemma getPlayer_free: "fuelFree getPlayer" "fuelFree (updPlayer f)" "fuelFree typePanic"
  by (simp_all add: fuelFree_def getPlayer_def updPlayer_def typePanic_def lift_def case_prod_unfold)

lemma ask_free: "fuelFree (ask env e dest r p s)"
  unfolding ask_def by (intro below_free dispatch_free)

lemma staged_free: "fuelFree (below (\<lambda>state. stagedValue env state r p))"
proof -
  have "fuelFree (case out of StagingValueEv se \<Rightarrow> ret se | _ \<Rightarrow> lift (Panic (LogPanic ''not a staging value'')))" for out
    by (cases out) (simp_all add: fuelFree_panic fuelFree_ret)
  then show ?thesis unfolding stagedValue_def by (intro below_free fuelFree_andDo dispatch_free)
qed

lemma pinned_free: "fuelFree (below (\<lambda>state. pinnedValue env state r))"
proof -
  have "fuelFree (case out of PinnedValueEv se \<Rightarrow> ret se | _ \<Rightarrow> lift (Panic (LogPanic ''not a pinned value'')))" for out
    by (cases out) (simp_all add: fuelFree_panic fuelFree_ret)
  then show ?thesis unfolding pinnedValue_def by (intro below_free fuelFree_andDo dispatch_free)
qed

lemma requests_free:
  "fuelFree (freshestBundle env r)" "fuelFree (nextStatus env r p)" "fuelFree (dumpedVotes env r p s)"
proof -
  have r: "fuelFree (case out of FreshestBundleEv ok th \<Rightarrow> ret (ok, th) | _ \<Rightarrow> typePanic)"
    "fuelFree (case out of NextThresholdStatusEv st \<Rightarrow> ret st | _ \<Rightarrow> typePanic)"
    "fuelFree (case out of DumpVotesEv vs \<Rightarrow> ret vs | _ \<Rightarrow> typePanic)" for out
    by (cases out; simp add: fuelFree_ret getPlayer_free)+
  show "fuelFree (freshestBundle env r)" "fuelFree (nextStatus env r p)" "fuelFree (dumpedVotes env r p s)"
    unfolding freshestBundle_def nextStatus_def dumpedVotes_def by (intro fuelFree_andDo ask_free r)+
qed

lemmas op_rules = free_rules getPlayer_free ask_free staged_free pinned_free requests_free

lemma partitionPolicy_free: "fuelFree (partitionPolicy env)"
proof -
  have "fuelFree (repropagate env r p)" for r p
    unfolding repropagate_def Let_def by (intro op_rules)
  then show ?thesis unfolding partitionPolicy_def Let_def by (intro op_rules)
qed

lemma issue_free:
  "fuelFree (issueSoftVote env)" "fuelFree (issueCertVote pv)" "fuelFree (issueNextVote env)" "fuelFree (issueFastVote env)"
proof -
  have k: "fuelFree (case e of
       ProposalFrozenEv frozen \<Rightarrow>
         andDo (nextStatus env (pl_Round p) (pl_Period p - 1)) (\<lambda>st.
         andDo (updPlayer (\<lambda>p. p\<lparr>pl_Deadline := deadlineTimeout\<rparr>)) (\<lambda>_.
         ret (softVoteFor p frozen st)))
     | _ \<Rightarrow> typePanic)" for e p
    by (cases e) (simp_all only: event.case getPlayer_free, intro op_rules)
  then show "fuelFree (issueSoftVote env)" unfolding issueSoftVote_def by (intro fuelFree_andDo getPlayer_free ask_free)
  show "fuelFree (issueCertVote pv)" unfolding issueCertVote_def by (intro op_rules)
  show "fuelFree (issueNextVote env)" unfolding issueNextVote_def by (intro op_rules partitionPolicy_free)
  show "fuelFree (issueFastVote env)" unfolding issueFastVote_def Let_def by (intro op_rules partitionPolicy_free)
qed

lemma enterPeriod_free: "fuelFree (enterPeriod env source target)"
proof -
  have k: "fuelFree (case e of
       CommittableEv pv _ \<Rightarrow> andDo (issueCertVote pv) (\<lambda>a. ret (actions @ a))
     | _ \<Rightarrow>
         if th_T source = nextThreshold then
           ret (actions @ [PseudonodeAction \<lparr>psn_T = if th_Proposal source = bottom then assemble else repropose,
             psn_Round = pl_Round p, psn_Period = target, psn_Step = 0, psn_Proposal = th_Proposal source\<rparr>])
         else ret actions)" for e p actions
    by (cases e) (simp_all add: fuelFree_ret fuelFree_andDo issue_free)
  show ?thesis
    unfolding enterPeriod_def Let_def by (intro fuelFree_andDo partitionPolicy_free getPlayer_free ask_free k)
qed

lemma timeout_free: "fuelFree (handleTimeout env to)" "fuelFree (handleFastTimeout env to)"
  unfolding handleTimeout_def handleFastTimeout_def Let_def by (intro op_rules issue_free)+

lemma proposalVote_free: "fuelFree (proposalVoteActions env e)" "fuelFree (popTail e)"
proof -
  let ?rest = "\<lambda>p ef. if me_T e = votePresent then
           let (seq, table) = table_push (pl_Pending p) (me_Tail e); rv = uvt_R (m_UnauthenticatedVote (me_Input e)) in
           andDo (updPlayer (\<lambda>p. p\<lparr>pl_Pending := table\<rparr>)) (\<lambda>_.
           ret ([verifyVoteAction e (rv_Round rv) (rv_Period rv) seq], False))
         else
           case ef of
             ProposalAcceptedEv ep \<Rightarrow>
               let v = m_Vote (me_Input e) in
               ret ([if pa_PayloadOk ep
                     then broadcastAction (OutPayload \<lparr>cm_Vote = vote_u v, cm_Proposal = pp_Unauthenticated (pa_Payload ep)\<rparr>)
                     else relayAction e (OutVote (vote_u v))], True)
           | _ \<Rightarrow> typePanic"
  have r: "fuelFree (?rest p ef)" for p ef
    unfolding Let_def by (intro op_rules) (cases ef; simp add: fuelFree_ret getPlayer_free)
  have f: "fuelFree (case ft of voteMalformed \<Rightarrow> ret x | voteFiltered \<Rightarrow> ret y | _ \<Rightarrow> m)"
    if "fuelFree m" for ft and x y :: "action list \<times> bool" and m :: "(action list \<times> bool) playerOp"
    using that by (cases ft) (simp_all add: fuelFree_ret)
  have k: "fuelFree (case ef of
       FilteredEv voteMalformed err \<Rightarrow> ret ([disconnectAction e err], True)
     | FilteredEv voteFiltered err \<Rightarrow> ret ([ignoreAction e err], True)
     | _ \<Rightarrow> ?rest p ef)" for ef p
    using r [of p ef] by (cases ef) (simp_all only: event.case f)
  show "fuelFree (proposalVoteActions env e)"
    unfolding proposalVoteActions_def by (intro fuelFree_andDo getPlayer_free ask_free k)
  show "fuelFree (popTail e)" unfolding popTail_def Let_def by (intro op_rules)
qed

section \<open>Larger bounds\<close>

text \<open>\<open>m'\<close> does what \<open>m\<close> does whenever \<open>m\<close> does not run out of its bound.\<close>

definition extends :: "'a playerOp \<Rightarrow> 'a playerOp \<Rightarrow> bool" where
  "extends m m' \<longleftrightarrow> (\<forall>s. roomy (m s) \<longrightarrow> m' s = m s)"

lemma extends_refl: "extends m m"
  by (simp add: extends_def)

lemma extends_andDo: "extends m m' \<Longrightarrow> (\<And>x. extends (f x) (f' x)) \<Longrightarrow> extends (andDo m f) (andDo m' f')"
  unfolding extends_def andDo_def
proof (intro allI impI)
  fix s
  assume m: "\<forall>s. roomy (m s) \<longrightarrow> m' s = m s" and f: "\<And>x. \<forall>s. roomy (f x s) \<longrightarrow> f' x s = f x s"
    and r: "roomy (andThen (m s) (\<lambda>(x, s'). f x s'))"
  show "andThen (m' s) (\<lambda>(x, s'). f' x s') = andThen (m s) (\<lambda>(x, s'). f x s')"
    using m [rule_format, of s] f r by (cases "m s") (auto simp: roomy_def)
qed

lemma extends_if: "extends a a' \<Longrightarrow> extends b b' \<Longrightarrow> extends (if c then a else b) (if c then a' else b')"
  by simp

lemma extends_prod: "(\<And>a b. extends (f a b) (f' a b)) \<Longrightarrow> extends (case x of (a, b) \<Rightarrow> f a b) (case x of (a, b) \<Rightarrow> f' a b)"
  by (cases x) simp

lemma extends_option:
  "extends a a' \<Longrightarrow> (\<And>x. extends (f x) (f' x)) \<Longrightarrow> extends (case x of None \<Rightarrow> a | Some x \<Rightarrow> f x) (case x of None \<Rightarrow> a' | Some x \<Rightarrow> f' x)"
  by (cases x) simp_all

lemmas extends_rules = extends_andDo extends_if extends_prod extends_option extends_refl

lemma enterRound_extends:
  assumes "\<And>e. extends (h e) (h' e)"
  shows "extends (enterRound env h source target) (enterRound env h' source target)"
  unfolding enterRound_def Let_def by (intro extends_rules assms)

lemma threshold_extends:
  assumes "\<And>e. extends (h e) (h' e)"
  shows "extends (handleThresholdEvent env h th) (handleThresholdEvent env h' th)"
  unfolding handleThresholdEvent_def
  by (cases "th_T th") (simp_all only: thresholdType.case, (intro extends_rules enterRound_extends assms)+)

lemma payload_extends:
  assumes "\<And>e. extends (h e) (h' e)"
  shows "extends (handlePayload env h e) (handlePayload env h' e)"
proof -
  have p: "extends (andDo (payloadActions env h e fd ef) k) (andDo (payloadActions env h' e fd ef) k)" for fd ef k
    unfolding payloadActions_def Let_def by (intro extends_rules enterRound_extends assms)
  have f: "extends (case ft of payloadMalformed \<Rightarrow> a | _ \<Rightarrow> b) (case ft of payloadMalformed \<Rightarrow> a | _ \<Rightarrow> b')"
    if "extends b b'" for ft and a b b' :: "action list playerOp"
    using that by (cases ft) (simp_all add: extends_refl)
  have t: "extends (case t of payloadRejected \<Rightarrow> a | payloadPipelined \<Rightarrow> if c then d else b | payloadAccepted \<Rightarrow> g)
      (case t of payloadRejected \<Rightarrow> a | payloadPipelined \<Rightarrow> if c then d else b' | payloadAccepted \<Rightarrow> g')"
    if "extends b b'" "extends g g'" for t c and a b b' d g g' :: "action list playerOp"
    using that by (cases t) (simp_all add: extends_refl)
  show ?thesis
    unfolding handlePayload_def Let_def
    apply (intro extends_andDo extends_refl)
    subgoal for p ef by (cases ef) (simp_all only: event.case p extends_refl f t)
    done
qed

lemma vote_extends:
  assumes "\<And>e. extends (h e) (h' e)"
  shows "extends (handleVote env h e) (handleVote env h' e)"
proof -
  have f: "extends (case ft of voteMalformed \<Rightarrow> a | voteFiltered \<Rightarrow> b | _ \<Rightarrow> c) (case ft of voteMalformed \<Rightarrow> a | voteFiltered \<Rightarrow> b | _ \<Rightarrow> c')"
    if "extends c c'" for ft and a b c c' :: "action list playerOp"
    using that by (cases ft) (simp_all add: extends_refl)
  have k: "extends (if c then a else andDo (h ef) k) (if c then a else andDo (h' ef) k)" for c a ef and k :: "action list \<Rightarrow> action list playerOp"
    by (intro extends_rules assms)
  show ?thesis
    unfolding handleVote_def Let_def
    apply (intro extends_andDo extends_refl)
    subgoal for p ef by (cases ef) (simp_all only: event.case k f)
    done
qed

lemma bundle_extends:
  assumes "\<And>e. extends (h e) (h' e)"
  shows "extends (handleBundle env h e) (handleBundle env h' e)"
proof -
  have f: "extends (case ft of bundleMalformed \<Rightarrow> a | bundleFiltered \<Rightarrow> b | _ \<Rightarrow> c) (case ft of bundleMalformed \<Rightarrow> a | bundleFiltered \<Rightarrow> b | _ \<Rightarrow> c')"
    if "extends c c'" for ft and a b c c' :: "action list playerOp"
    using that by (cases ft) (simp_all add: extends_refl)
  have k: "extends (if c then a else andDo (h ef) k) (if c then a else andDo (h' ef) k)" for c a ef and k :: "action list \<Rightarrow> action list playerOp"
    by (intro extends_rules assms)
  show ?thesis
    unfolding handleBundle_def Let_def
    apply (intro extends_andDo extends_refl)
    subgoal for p ef by (cases ef) (simp_all only: event.case k f extends_refl)
    done
qed

lemma message_extends:
  assumes "\<And>e. extends (h e) (h' e)"
  shows "extends (handleMessageEvent env h e) (handleMessageEvent env h' e)"
proof -
  have "extends (handleProposalVote env h e) (handleProposalVote env h' e)"
    unfolding handleProposalVote_def by (intro extends_rules assms)
  then show ?thesis
    unfolding handleMessageEvent_def Let_def
    by (cases "me_T e") (simp_all add: payload_extends assms vote_extends bundle_extends)
qed

lemma player_handle_extends: "extends (player_handle n env e) (player_handle (n + k) env e)"
proof (induction n arbitrary: e)
  case 0
  show ?case by (simp add: extends_def failWith_def)
next
  case (Suc n)
  show ?case
    unfolding add_Suc player_handle.simps
    by (intro extends_if extends_refl)
      (cases e; simp add: extends_refl message_extends [OF Suc] threshold_extends [OF Suc] enterRound_extends [OF Suc])
qed

end
