(* ===== verification/Agreement_Bounds.thy ===== *)
theory Agreement_Bounds
  imports Agreement_Fuel
begin

text \<open>
  The bound on the calls of the player, second part. In every state a service reaches there is
  a bound that is enough. The calls end because a threshold is handled again only in a later
  round, rounds stay below the largest 64-bit number, and the event attached to a proposal-vote is
  a smaller event or leaves the table of pending ones.
\<close>

section \<open>Bounds that are enough\<close>

definition enough :: "(machineState \<Rightarrow> bool) \<Rightarrow> 'a playerOp \<Rightarrow> bool" where
  "enough P m \<longleftrightarrow> (\<forall>s. P s \<longrightarrow> roomy (m s))"

lemma enoughD: "enough P m \<Longrightarrow> P s \<Longrightarrow> roomy (m s)"
  unfolding enough_def by blast

lemma enough_free: "fuelFree m \<Longrightarrow> enough P m"
  by (simp add: enough_def fuelFree_def)

lemma enough_andDo:
  assumes "enough P m" "spec P m R" "\<And>x. enough (R x) (f x)"
  shows "enough P (andDo m f)"
  unfolding enough_def andDo_def
proof (intro allI impI)
  fix s
  assume s: "P s"
  show "roomy (andThen (m s) (\<lambda>(x, s'). f x s'))"
  proof (cases "m s")
    case (Ok xt)
    obtain x t where xt: "xt = (x, t)" by (cases xt)
    have "R x t" by (rule specD [OF assms(2) s]) (simp add: Ok xt)
    then show ?thesis using enoughD [OF assms(3)] by (simp add: Ok xt)
  qed (use enoughD [OF assms(1) s] in \<open>simp_all add: roomy_def\<close>)
qed

lemma enough_free_andDo: "fuelFree m \<Longrightarrow> spec P m R \<Longrightarrow> (\<And>x. enough (R x) (f x)) \<Longrightarrow> enough P (andDo m f)"
  by (rule enough_andDo) (rule enough_free)

lemma enough_andDo_free: "enough P m \<Longrightarrow> (\<And>x. fuelFree (f x)) \<Longrightarrow> enough P (andDo m f)"
  by (rule enough_andDo [where R = "\<lambda>_ _. True"]) (simp_all add: spec_def enough_free)

lemma enough_fact: "(c \<Longrightarrow> enough P m) \<Longrightarrow> enough (\<lambda>s. c \<and> P s) m"
  by (simp add: enough_def)

lemma enough_pre: "enough P m \<Longrightarrow> (\<And>s. P' s \<Longrightarrow> P s) \<Longrightarrow> enough P' m"
  by (simp add: enough_def)

lemma enough_if: "(c \<Longrightarrow> enough P m) \<Longrightarrow> (\<not> c \<Longrightarrow> enough P n) \<Longrightarrow> enough P (if c then m else n)"
  by simp

lemma enough_prod: "(\<And>a b. x = (a, b) \<Longrightarrow> enough P (f a b)) \<Longrightarrow> enough P (case x of (a, b) \<Rightarrow> f a b)"
  by (cases x) simp

lemma enough_getPlayer:
  assumes "\<And>p. P p \<Longrightarrow> enough (live env (\<lambda>q. P q \<and> q = p)) (f p)"
  shows "enough (live env P) (andDo getPlayer f)"
  unfolding enough_def
proof (intro allI impI)
  fix s
  assume s: "live env P s"
  obtain p root where s': "s = (p, root)" by (cases s)
  have p: "P p" "live env (\<lambda>q. P q \<and> q = p) s" using s by (simp_all add: s' live_def)
  have "andDo getPlayer f s = f p s" by (simp add: andDo_def getPlayer_def s')
  then show "roomy (andDo getPlayer f s)" using enoughD [OF assms [OF p(1)] p(2)] by simp
qed

text \<open>A threshold found in a new round is of a round below the largest number.\<close>

lemma enterRound_enough:
  assumes "\<And>th. target \<noteq> - 1 \<Longrightarrow> enough (live env (\<lambda>p. tableOK p \<and> pl_Round p = target)) (h (ThresholdEv th))"
  shows "enough (live env tableOK) (enterRound env h source target)"
proof -
  let ?upd = "\<lambda>p. p\<lparr>pl_LastConcluding := pl_Step p, pl_Round := target, pl_Period := 0, pl_Step := soft,
       pl_Napping := False, pl_FastRecoveryDeadline := 0, pl_Deadline := roundDeadline env source (pl_Deadline p)\<rparr>"
  let ?P = "live env (\<lambda>p. tableOK p \<and> pl_Round p = target)"
  have u: "spec (live env tableOK) (updPlayer ?upd) (\<lambda>_. ?P)"
    by (rule updPlayer_spec) (simp add: tableOK_def)
  have h: "enough ?P (if ok then h (ThresholdEv th) else ret [])"
    if "soundAt target th \<and> (ok \<longrightarrow> th_T th \<noteq> noThreshold)" for ok th
    using that assms by (cases ok) (auto simp: soundAt_def enough_free fuelFree_ret)
  show ?thesis
    unfolding enterRound_def Let_def
    by (intro enough_free_andDo [OF ask_free ask_manager] enough_fact enough_free_andDo [OF getPlayer_free(2) u]
        enough_free_andDo [OF requests_free(1) freshestBundle_spec] enough_prod enough_andDo_free h fuelFree_ret) simp_all
qed

lemma threshold_enough:
  assumes "\<And>th. r + 1 \<noteq> - 1 \<Longrightarrow> enough (live env (\<lambda>p. tableOK p \<and> pl_Round p = r + 1)) (h (ThresholdEv th))"
  shows "enough (live env (\<lambda>p. tableOK p \<and> pl_Round p = r)) (handleThresholdEvent env h th)"
  unfolding handleThresholdEvent_def
proof (rule enough_getPlayer)
  fix p
  assume p: "tableOK p \<and> pl_Round p = r"
  let ?P = "live env (\<lambda>q. (tableOK q \<and> pl_Round q = r) \<and> q = p)"
  have e: "enough ?P (enterRound env h (ThresholdEv th) (pl_Round p + 1))"
    by (rule enough_pre [OF enterRound_enough]) (use p assms in \<open>auto elim: live_mono\<close>)
  have c: "enough ?P (andDo (ask env (ThresholdEv th) proposalMachine 0 0 0) (\<lambda>_.
         andDo (below (\<lambda>state. stagedValue env state (th_Round th) (th_Period th))) (\<lambda>res.
         if sv_Committable res then
           andDo (enterRound env h (ThresholdEv th) (pl_Round p + 1)) (\<lambda>as.
           ret (EnsureAction (sv_Payload res) (th_Bundle th) # as))
         else
           andDo (if pl_Period p < th_Period th then enterPeriod env th (th_Period th) else ret []) (\<lambda>as.
           ret (StageDigestAction (th_Bundle th) # as)))))"
    by (intro enough_free_andDo [OF ask_free ask_manager] enough_fact enough_free_andDo [OF staged_free staged_spec]
        enough_if enough_andDo_free [OF e] fuelFree_ret)
      (intro enough_free free_rules enterPeriod_free)
  have s: "fuelFree (case ec of CommittableEv pv _ \<Rightarrow> if pl_Step p \<le> cert then issueCertVote pv else ret [] | _ \<Rightarrow> ret [])" for ec
    by (cases ec) (simp_all add: fuelFree_ret issue_free)
  show "enough ?P (case th_T th of
       certThreshold \<Rightarrow>
         andDo (ask env (ThresholdEv th) proposalMachine 0 0 0) (\<lambda>_.
         andDo (below (\<lambda>state. stagedValue env state (th_Round th) (th_Period th))) (\<lambda>res.
         if sv_Committable res then
           andDo (enterRound env h (ThresholdEv th) (pl_Round p + 1)) (\<lambda>as.
           ret (EnsureAction (sv_Payload res) (th_Bundle th) # as))
         else
           andDo (if pl_Period p < th_Period th then enterPeriod env th (th_Period th) else ret []) (\<lambda>as.
           ret (StageDigestAction (th_Bundle th) # as))))
     | softThreshold \<Rightarrow>
         if pl_Period p > th_Period th then ret []
         else if pl_Period p < th_Period th then enterPeriod env th (th_Period th)
         else andDo (ask env (ThresholdEv th) proposalMachine (pl_Round p) (pl_Period p) 0) (\<lambda>ec.
           case ec of
             CommittableEv pv _ \<Rightarrow> if pl_Step p \<le> cert then issueCertVote pv else ret []
           | _ \<Rightarrow> ret [])
     | nextThreshold \<Rightarrow>
         if pl_Period p > th_Period th then ret [] else enterPeriod env th (th_Period th + 1)
     | noThreshold \<Rightarrow> lift (Panic (LogPanic ''bad event'')))"
    by (cases "th_T th")
      (simp_all only: thresholdType.case c enough_free [OF fuelFree_panic], (intro enough_free free_rules enterPeriod_free ask_free s)+)
qed

lemma threshold_bound:
  "2 ^ 64 \<le> n + unat r \<Longrightarrow> r \<noteq> - 1 \<Longrightarrow> enough (live env (\<lambda>p. tableOK p \<and> pl_Round p = r)) (player_handle n env (ThresholdEv th))"
proof (induction n arbitrary: r th)
  case 0
  then show ?case using u64_bound [of r] by simp
next
  case (Suc n)
  have "enough (live env (\<lambda>p. tableOK p \<and> pl_Round p = r + 1)) (player_handle n env (ThresholdEv th))" if "r + 1 \<noteq> - 1" for th
  proof (rule Suc.IH [OF _ that])
    show "2 ^ 64 \<le> n + unat (r + 1)" using Suc.prems(1) unat_add_u64 [of r 1] u64_bound [of r] Suc.prems(2) less_succ_u64 [of r r]
      by (auto simp: word_less_nat_alt split: if_splits)
  qed
  then show ?case
    unfolding player_handle.simps event.case by (intro enough_if enough_free [OF fuelFree_ret] threshold_enough)
qed

lemma threshold_bound_any: "2 ^ 64 < n \<Longrightarrow> enough (live env tableOK) (player_handle n env (ThresholdEv th))"
proof -
  assume n: "2 ^ 64 < n"
  then obtain m where m: "n = Suc m" "2 ^ 64 \<le> m" by (cases n) auto
  have "enough (live env (\<lambda>p. tableOK p \<and> pl_Round p = r)) (player_handle n env (ThresholdEv th))" for r
    unfolding m(1) player_handle.simps event.case
    by (intro enough_if enough_free [OF fuelFree_ret] threshold_enough threshold_bound) (use m(2) in simp_all)
  then show ?thesis unfolding enough_def live_def by (auto simp: case_prod_unfold)
qed

section \<open>Messages\<close>

lemma payload_enough:
  assumes "\<And>th. enough (live env tableOK) (h (ThresholdEv th))"
  shows "enough (live env tableOK) (handlePayload env h e)"
proof -
  have en: "enough (live env tableOK) (enterRound env h source target)" for source target
    by (rule enterRound_enough) (rule enough_pre [OF assms], erule live_mono, simp)
  have a: "enough (live env tableOK) (payloadActions env h e fd ef)" for fd ef
    unfolding payloadActions_def Let_def
  proof (rule enough_getPlayer)
    fix p
    let ?P = "live env (\<lambda>q. tableOK q \<and> q = p)"
    let ?m = "if committableOf ef \<noteq> None \<or> isPayload payloadAccepted ef then freshestBundle env (pl_Round p) else ret (False, zeroThreshold)"
    have m: "spec ?P ?m (\<lambda>_. live env tableOK)"
      by (intro spec_if spec_ret spec_post [OF freshestBundle_spec]) (auto elim: live_mono)
    show "enough ?P (andDo ?m (\<lambda>(ok, th).
        if ok \<and> th_T th = certThreshold \<and> th_Proposal th = proposal_value env (pp_Unauthenticated (m_Proposal (me_Input e))) then
          andDo (enterRound env h (FilterableMessageEv e fd) (ub_Round (th_Bundle th) + 1)) (\<lambda>as. ret (EnsureAction (m_Proposal (me_Input e)) (th_Bundle th) # as))
        else case committableOf ef of
            Some pv \<Rightarrow> if pl_Step p \<le> cert then issueCertVote pv else ret []
          | None \<Rightarrow> ret []))"
      by (intro enough_free_andDo [OF _ m] free_rules requests_free enough_prod enough_if enough_andDo_free [OF en])
        (intro enough_free free_rules issue_free)
  qed
  have r: "enough (\<lambda>st. c \<and> live env (\<lambda>q. tableOK q \<and> q = p) st) (andDo (payloadActions env h e fd ef) (\<lambda>as. ret (f as)))" for c p fd ef f
    by (intro enough_andDo_free fuelFree_ret enough_pre [OF a]) (auto elim: live_mono)
  have f: "enough P (case ft of payloadMalformed \<Rightarrow> ret a | _ \<Rightarrow> m)" if "enough P m" for P ft a and m :: "action list playerOp"
    using that by (cases ft) (simp_all add: enough_free fuelFree_ret)
  have t: "enough P (case t of payloadRejected \<Rightarrow> ret a | payloadPipelined \<Rightarrow> if c then ret b else m | payloadAccepted \<Rightarrow> m')"
    if "enough P m" "enough P m'" for P t a b c and m m' :: "action list playerOp"
    using that by (cases t) (simp_all add: enough_free fuelFree_ret)
  show ?thesis
    unfolding handlePayload_def Let_def
    apply (intro enough_getPlayer enough_free_andDo [OF ask_free ask_manager])
    subgoal for p ef by (cases ef) (simp_all only: event.case r f t enough_free fuelFree_ret)
    done
qed

lemma handled_enough:
  assumes h: "\<And>ef. someOut env ef \<Longrightarrow> enough (live env tableOK) (h ef)"
  shows "enough (\<lambda>st. someOut env ef \<and> live env (\<lambda>q. tableOK q \<and> q = p) st) (andDo (h ef) (\<lambda>as. ret (f as)))"
  by (intro enough_fact enough_andDo_free fuelFree_ret enough_pre [OF h]) (auto elim: live_mono)

lemma vote_enough:
  assumes "\<And>ef. someOut env ef \<Longrightarrow> enough (live env tableOK) (h ef)" "saneInput (me_Input e)"
  shows "enough (live env tableOK) (handleVote env h e)" "enough (live env tableOK) (handleBundle env h e)"
proof -
  note h = handled_enough [OF assms(1)]
  have k: "enough (\<lambda>st. someOut env ef \<and> live env (\<lambda>q. tableOK q \<and> q = p) st) (if c then ret a else andDo (h ef) (\<lambda>as. ret (f as)))"
    for ef p c a f
    by (intro enough_if h enough_free fuelFree_ret)
  have tp: "enough P (if c then ret a else typePanic)" for P c and a :: "action list"
    by (cases c) (simp_all add: enough_free fuelFree_ret getPlayer_free)
  have fv: "enough P (case ft of voteMalformed \<Rightarrow> ret a | voteFiltered \<Rightarrow> ret b | _ \<Rightarrow> m)"
    "enough P (case ft of bundleMalformed \<Rightarrow> ret a | bundleFiltered \<Rightarrow> ret b | _ \<Rightarrow> m)"
    if "enough P m" for P ft a b and m :: "action list playerOp"
    using that by (cases ft; simp add: enough_free fuelFree_ret)+
  show "enough (live env tableOK) (handleVote env h e)"
    unfolding handleVote_def Let_def
    apply (intro enough_getPlayer enough_free_andDo [OF ask_free ask_aggregator [OF assms(2)]])
    subgoal for p ef by (cases ef) (simp_all only: event.case k fv)
    done
  show "enough (live env tableOK) (handleBundle env h e)"
    unfolding handleBundle_def Let_def
    apply (intro enough_getPlayer enough_free_andDo [OF ask_free ask_aggregator [OF assms(2)]])
    subgoal for p ef by (cases ef) (simp_all only: event.case k tp fv)
    done
qed

text \<open>The messages that are attached to a message, and those that wait in the table.\<close>

fun chain :: "messageEvent \<Rightarrow> nat" where
  "chain (MessageEvent t i err k tail c ver) = Suc (case tail of None \<Rightarrow> 0 | Some m \<Rightarrow> chain m)"

definition chains :: "messageEvent option \<Rightarrow> nat" where
  "chains e = (case e of None \<Rightarrow> 0 | Some m \<Rightarrow> chain m)"

definition held :: "player \<Rightarrow> nat" where
  "held p = sum_list (map (\<lambda>(_, e). chains e) (tbl_Pending (pl_Pending p)))"

lemma chain_tail: "chain me = Suc (chains (me_Tail me))"
  by (cases me) (simp add: chains_def)

lemma held_pop:
  assumes "table_pop (pl_Pending p) i = (tail, table)"
  shows "chains tail + held (p\<lparr>pl_Pending := table\<rparr>) \<le> held p"
proof -
  have "chains (mgetd None m i) + sum_list (map (\<lambda>(_, e). chains e) (mdel i m)) \<le> sum_list (map (\<lambda>(_, e). chains e) m)" for m
    by (induction m) (auto simp: mgetd_def chains_def split: option.splits)
  then show ?thesis using assms by (auto simp: table_pop_def held_def)
qed

definition room :: "nat \<Rightarrow> player \<Rightarrow> bool" where
  "room k p \<longleftrightarrow> tableOK p \<and> held p \<le> k"

text \<open>A vote whose attached event may be handled now has put nothing into the table.\<close>

lemma proposalVote_room:
  assumes e: "saneEvent e"
  shows "spec (live env (room k)) (proposalVoteActions env e) (\<lambda>x st. live env (\<lambda>p. tableOK p \<and> (snd x \<longrightarrow> room k p)) st)"
  unfolding proposalVoteActions_def
proof (rule spec_getPlayer, rule spec_andDo [OF ask_manager], rule spec_fact)
  fix p ef
  assume p: "room k p"
  let ?P = "live env (\<lambda>q. room k q \<and> q = p)" and ?Q = "\<lambda>x st. live env (\<lambda>p. tableOK p \<and> (snd x \<longrightarrow> room k p)) st"
  have ret: "spec ?P (ret x) ?Q" for x :: "action list \<times> bool"
    by (rule spec_ret) (auto simp: room_def elim: live_mono)
  let ?rest = "if me_T e = votePresent then
           let (seq, table) = table_push (pl_Pending p) (me_Tail e); rv = uvt_R (m_UnauthenticatedVote (me_Input e)) in
           andDo (updPlayer (\<lambda>p. p\<lparr>pl_Pending := table\<rparr>)) (\<lambda>_.
           ret ([verifyVoteAction e (rv_Round rv) (rv_Period rv) seq], False))
         else case ef of
             ProposalAcceptedEv ep \<Rightarrow>
               let v = m_Vote (me_Input e) in
               ret ([if pa_PayloadOk ep
                     then broadcastAction (OutPayload \<lparr>cm_Vote = vote_u v, cm_Proposal = pp_Unauthenticated (pa_Payload ep)\<rparr>)
                     else relayAction e (OutVote (vote_u v))], True)
           | _ \<Rightarrow> typePanic"
  have u: "spec ?P (updPlayer (\<lambda>p. p\<lparr>pl_Pending := table\<rparr>)) (\<lambda>_. live env tableOK)"
    if "table_push (pl_Pending p) (me_Tail e) = (seq, table)" for seq table
    by (rule updPlayer_spec) (use table_push_sane [of p, OF _ e] p that in \<open>auto simp: room_def tableOK_def\<close>)
  have accept: "spec ?P (case ef of ProposalAcceptedEv ep \<Rightarrow> ret (f ep) | _ \<Rightarrow> typePanic) ?Q" for f :: "proposalAcceptedEvent \<Rightarrow> action list \<times> bool"
    unfolding typePanic_def by (cases ef) (simp_all add: ret spec_stop)
  have rest: "spec ?P ?rest ?Q"
    unfolding Let_def by (intro spec_if spec_prod spec_andDo [OF u] accept) (auto intro!: spec_ret)
  have f: "spec ?P (case ft of voteMalformed \<Rightarrow> ret x | voteFiltered \<Rightarrow> ret y | _ \<Rightarrow> m) ?Q"
    if "spec ?P m ?Q" for ft and x y :: "action list \<times> bool" and m
    using that by (cases ft) (simp_all add: ret)
  show "spec ?P (case ef of
       FilteredEv voteMalformed err \<Rightarrow> ret ([disconnectAction e err], True)
     | FilteredEv voteFiltered err \<Rightarrow> ret ([ignoreAction e err], True)
     | _ \<Rightarrow> ?rest) ?Q"
    using rest by (cases ef) (simp_all only: event.case f)
qed

lemma popTail_room:
  assumes e: "saneEvent e"
  shows "spec (live env (\<lambda>p. tableOK p \<and> (d \<longrightarrow> room k p))) (popTail e)
    (\<lambda>tail st. pred_option saneEvent tail \<and> live env (\<lambda>p. tableOK p \<and> (d \<longrightarrow> chains tail + held p < chain e + k)) st)"
  unfolding popTail_def
proof (rule spec_getPlayer)
  fix p
  assume p: "tableOK p \<and> (d \<longrightarrow> room k p)"
  let ?P = "live env (\<lambda>q. (tableOK q \<and> (d \<longrightarrow> room k q)) \<and> q = p)"
  let ?Q = "\<lambda>tail st. pred_option saneEvent tail \<and> live env (\<lambda>p. tableOK p \<and> (d \<longrightarrow> chains tail + held p < chain e + k)) st"
  have tl: "pred_option saneEvent (me_Tail e)" using saneEvent_sel(2) [OF e] by (cases "me_Tail e") simp_all
  have u: "spec ?P (andDo (updPlayer (\<lambda>p. p\<lparr>pl_Pending := table\<rparr>)) (\<lambda>_. ret tail)) ?Q"
    if t: "table_pop (pl_Pending p) (me_TaskIndex e) = (tail, table)" for tail table
  proof (intro spec_andDo [OF updPlayer_spec [where Q = "\<lambda>p. tableOK p \<and> (d \<longrightarrow> chains tail + held p < chain e + k)"]] spec_ret)
    fix q
    assume q: "(tableOK q \<and> (d \<longrightarrow> room k q)) \<and> q = p"
    then show "tableOK (q\<lparr>pl_Pending := table\<rparr>) \<and> (d \<longrightarrow> chains tail + held (q\<lparr>pl_Pending := table\<rparr>) < chain e + k)"
      using held_pop [OF t] table_pop_sane(1) [of p "me_TaskIndex e"] t chain_tail [of e] by (auto simp: tableOK_def room_def)
  qed (use p table_pop_sane(2) [of p "me_TaskIndex e"] t in auto)
  show "spec ?P (if me_T e = voteVerified then
       let (tail, table) = table_pop (pl_Pending p) (me_TaskIndex e) in
       andDo (updPlayer (\<lambda>p. p\<lparr>pl_Pending := table\<rparr>)) (\<lambda>_. ret tail)
     else ret (me_Tail e)) ?Q"
    unfolding Let_def
    by (intro spec_if spec_prod u spec_ret) (auto simp: tl chain_tail [of e] room_def elim: live_mono)
qed

lemma proposalVote_enough:
  assumes h: "\<And>ev j. saneEvent ev \<Longrightarrow> chain ev + j < chain e + k \<Longrightarrow> enough (live env (room j)) (h (MessageEv ev))" and e: "saneEvent e"
  shows "enough (live env (room k)) (handleProposalVote env h e)"
proof -
  have t: "enough (live env (\<lambda>p. tableOK p \<and> (d \<longrightarrow> chains tail + held p < chain e + k)))
     (case tail of None \<Rightarrow> ret actions
     | Some ev \<Rightarrow> if \<not> d then ret actions else andDo (h (MessageEv ev)) (\<lambda>suffix. ret (actions @ suffix)))"
    if "pred_option saneEvent tail" for tail d actions
  proof (cases tail)
    case (Some ev)
    have m: "enough (live env (\<lambda>p. tableOK p \<and> chain ev + held p < chain e + k)) (h (MessageEv ev))"
      unfolding enough_def
    proof (intro allI impI)
      fix s
      assume s: "live env (\<lambda>p. tableOK p \<and> chain ev + held p < chain e + k) s"
      have "live env (room (held (fst s))) s" using s by (cases s) (simp add: live_def room_def)
      then show "roomy (h (MessageEv ev) s)"
        using s that Some by (intro enoughD [OF h]) (auto simp: live_def)
    qed
    show ?thesis
      unfolding Some option.case
      by (intro enough_if enough_free [OF fuelFree_ret] enough_andDo_free fuelFree_ret enough_pre [OF m])
        (auto simp: chains_def elim: live_mono)
  qed (simp add: enough_free fuelFree_ret)
  show ?thesis
    unfolding handleProposalVote_def
  proof (intro enough_free_andDo [OF proposalVote_free(1) proposalVote_room [OF e]] enough_prod)
    fix x :: "action list \<times> bool" and actions d
    assume "x = (actions, d)"
    then show "enough (live env (\<lambda>p. tableOK p \<and> (snd x \<longrightarrow> room k p))) (andDo (popTail e) (\<lambda>tail.
     case tail of
       None \<Rightarrow> ret actions
     | Some ev \<Rightarrow> if \<not> d then ret actions else andDo (h (MessageEv ev)) (\<lambda>suffix. ret (actions @ suffix))))"
      by (auto intro!: enough_free_andDo [OF proposalVote_free(2) popTail_room [OF e]] enough_fact t)
  qed
qed

lemma handled_other:
  assumes "someOut env ef" "2 ^ 64 < n"
  shows "enough (live env tableOK) (player_handle n env ef)"
proof (cases "\<exists>th. ef = ThresholdEv th")
  case True
  then show ?thesis using threshold_bound_any [OF assms(2)] by blast
next
  case False
  obtain m where m: "n = Suc m" using assms(2) by (cases n) auto
  have "fuelFree (player_handle (Suc m) env ef)"
    unfolding player_handle.simps using assms(1) False
    by (cases ef) (auto simp: someOut_def outAt_def intro!: free_rules)
  then show ?thesis by (simp add: m enough_free)
qed

lemma message_bound: "saneEvent me \<Longrightarrow> chain me + k + 2 ^ 64 < n \<Longrightarrow> enough (live env (room k)) (player_handle n env (MessageEv me))"
proof (induction n arbitrary: me k)
  case 0
  then show ?case by simp
next
  case (Suc n)
  have n: "2 ^ 64 < n" using Suc.prems(2) chain_tail [of me] by simp
  have th: "enough (live env tableOK) (player_handle n env (ThresholdEv t))" for t by (rule threshold_bound_any [OF n])
  have sub: "enough (live env tableOK) m \<Longrightarrow> enough (live env (room k)) m" for m :: "action list playerOp"
    by (erule enough_pre, erule live_mono) (simp add: room_def)
  note rest = payload_enough [of env "player_handle n env" me, OF th, THEN sub]
    vote_enough [of env "player_handle n env" me, OF handled_other [OF _ n] saneEvent_sel(1) [OF Suc.prems(1)], THEN sub]
  have "enough (live env (room k)) (handleProposalVote env (player_handle n env) me)"
  proof (rule proposalVote_enough [OF _ Suc.prems(1)])
    fix ev j
    assume "saneEvent ev" "chain ev + j < chain me + k"
    moreover from this Suc.prems(2) have "chain ev + j + 2 ^ 64 < n" by linarith
    ultimately show "enough (live env (room j)) (player_handle n env (MessageEv ev))" using Suc.IH by blast
  qed
  then show ?case
    unfolding player_handle.simps event.case handleMessageEvent_def Let_def
    using rest by (cases "me_T me") (simp_all add: enough_free fuelFree_ret)
qed

text \<open>An event that the service hands to the player.\<close>

lemma event_bound:
  assumes "admitted p e" "live env tableOK (p, root)"
  shows "\<exists>n. roomy (player_handle n env e (p, root))"
proof (cases e)
  case (MessageEv me)
  then have "saneEvent me" using assms(1) by (simp add: admitted_def)
  moreover obtain n where "chain me + held p + 2 ^ 64 < n" using lessI by blast
  ultimately have "enough (live env (room (held p))) (player_handle n env e)" unfolding MessageEv by (rule message_bound)
  moreover have "live env (room (held p)) (p, root)" using assms(2) by (simp add: live_def room_def)
  ultimately show ?thesis using enoughD by blast
next
  case (RoundInterruptionEv r ver)
  obtain n where "(2 :: nat) ^ 64 < n" using lessI by blast
  then have th: "enough (live env tableOK) (player_handle n env (ThresholdEv th))" for th by (rule threshold_bound_any)
  have "enough (live env tableOK) (enterRound env (player_handle n env) e r)"
    by (rule enterRound_enough) (rule enough_pre [OF th], erule live_mono, simp)
  from enoughD [OF this assms(2)] have "roomy (player_handle (Suc n) env e (p, root))"
    by (simp add: RoundInterruptionEv isNone_def)
  then show ?thesis by blast
next
  case (TimeoutEv to)
  then have "roomy (player_handle (Suc 0) env e (p, root))"
    using fuelFreeD [OF timeout_free(1), of env to] fuelFreeD [OF timeout_free(2), of env to] by (simp add: isNone_def)
  then show ?thesis by blast
next
  case (CheckpointEv ck)
  then have "roomy (player_handle (Suc 0) env e (p, root))" by (simp add: isNone_def ret_def)
  then show ?thesis by blast
qed (use assms(1) in \<open>simp_all add: admitted_def\<close>)

section \<open>The player returns\<close>

lemma submitTop_bound:
  assumes "admitted p e" "live env tableOK (p, root)"
  shows "\<exists>n. roomy (submitTop n env e (p, root))"
  using event_bound [OF assms(1), of env "rootRouter_update p 0 root"] assms(2)
  by (simp add: submitTop_def live_def rootOK_update)

lemma submitTop_extends:
  assumes "roomy (submitTop n env e s)" "n \<le> m"
  shows "submitTop m env e s = submitTop n env e s"
proof -
  obtain p root where s: "s = (p, root)" by (cases s)
  obtain k where k: "m = n + k" using assms(2) le_iff_add by blast
  show ?thesis using player_handle_extends [of n env e k] assms(1) by (simp add: s k submitTop_def extends_def)
qed

end
