(* ===== verification/Agreement_Theorems.thy ===== *)
theory Agreement_Theorems
  imports Agreement_Bounds
begin

text \<open>
  The properties of the agreement service: blocks are ensured with their certificates, votes of
  a service move forward, and what a crash can and cannot do to them. The runs that show that
  the hypotheses can hold follow a schedule: every pending action is performed, with its vote
  stored and released, before the next event or crash.
\<close>

section \<open>Schedules\<close>

datatype scheduled = Deliver event | Restart round consensusVersion

definition service_drain :: "serviceState \<Rightarrow> serviceState" where
  "service_drain s = (service_do True True ^^ length (svc_Actions s)) s"

fun service_schedule :: "nat \<Rightarrow> stateCodec \<Rightarrow> agreementEnv \<Rightarrow> scheduled list \<Rightarrow> serviceState \<Rightarrow> (agreement_error, serviceState) result" where
  "service_schedule n codec env [] s = Ok s"
| "service_schedule n codec env (Deliver e # es) s =
     (let s = service_drain s in
      if admitted (svc_Status s) e then andThen (service_submit n env e s) (service_schedule n codec env es) else Err OutOfFuel)"
| "service_schedule n codec env (Restart r version # es) s =
     (if 0 < r then andThen (service_crash codec env r version (service_drain s)) (service_schedule n codec env es) else Err OutOfFuel)"

fun restarts :: "scheduled list \<Rightarrow> nat" where
  "restarts [] = 0"
| "restarts (Deliver _ # es) = restarts es"
| "restarts (Restart _ _ # es) = Suc (restarts es)"

lemma run_drain: "service_run n codec env c s t \<Longrightarrow> service_run n codec env c s ((service_do True True ^^ k) t)"
  by (induction k) (auto intro: run_do)

lemma drained: "svc_Actions (service_drain s) = []"
proof -
  have "svc_Actions (service_do a b s) = tl (svc_Actions s)" for a b s
    by (auto simp: service_do_def Let_def split: list.splits action.splits)
  then have "svc_Actions ((service_do True True ^^ k) s) = drop k (svc_Actions s)" for k
    by (induction k) (simp_all add: drop_Suc tl_drop)
  then show ?thesis by (simp add: service_drain_def)
qed

lemma schedule_run:
  "service_schedule n codec env es s = Ok t \<Longrightarrow> service_run n codec env c s0 s \<Longrightarrow> service_run n codec env (c + restarts es) s0 t"
proof (induction es arbitrary: c s)
  case Nil
  then show ?case by simp
next
  case (Cons x es)
  have d: "service_run n codec env c s0 (service_drain s)" using run_drain [OF Cons.prems(2)] by (simp add: service_drain_def)
  show ?case
  proof (cases x)
    case (Deliver e)
    then obtain u where u: "admitted (svc_Status (service_drain s)) e" "service_submit n env e (service_drain s) = Ok u"
      "service_schedule n codec env es u = Ok t"
      using Cons.prems(1) by (auto simp: Let_def result_simps split: if_splits)
    from Cons.IH [OF u(3) run_submit [OF d drained u(1,2)]] show ?thesis by (simp add: Deliver)
  next
    case (Restart r version)
    then obtain u where u: "0 < r" "service_crash codec env r version (service_drain s) = Ok u" "service_schedule n codec env es u = Ok t"
      using Cons.prems(1) by (auto simp: result_simps split: if_splits)
    from Cons.IH [OF u(3) run_crash [OF d u(1,2)]] show ?thesis by (simp add: Restart)
  qed
qed

section \<open>A small network\<close>

definition sampleView :: consensusVersionView where
  "sampleView = \<lparr>cvv_Err = None, cvv_Version = ConsensusCurrentVersion\<rparr>"

definition sampleTimeout :: event where
  "sampleTimeout = TimeoutEv \<lparr>to_Fast = False, to_RandomEntropy = 5, to_Round = 1, to_Proto = sampleView\<rparr>"

definition sampleProposal :: "address \<Rightarrow> unauthenticatedProposal" where
  "sampleProposal a = zeroUnauthenticatedProposal\<lparr>up_Block := zeroBlock\<lparr>bl_BlockHeader := (bl_BlockHeader zeroBlock)\<lparr>bh_Round := 1\<rparr>\<rparr>,
     up_OriginalProposer := a\<rparr>"

definition voteFor :: "address \<Rightarrow> u64 \<Rightarrow> step \<Rightarrow> address \<Rightarrow> vote" where
  "voteFor a w s proposer = zeroVote\<lparr>vt_R := zeroRawVote\<lparr>rv_Sender := a, rv_Round := 1, rv_Step := s,
       rv_Proposal := proposal_value sampleEnv (sampleProposal proposer)\<rparr>, vt_Cred := zeroCredential\<lparr>cr_Weight := w\<rparr>\<rparr>"

definition verified :: "messageType \<Rightarrow> message \<Rightarrow> scheduled" where
  "verified t m = Deliver (MessageEv (MessageEvent t m None 0 None False sampleView))"

definition voteDelivery :: "vote \<Rightarrow> scheduled" where
  "voteDelivery v = verified voteVerified (zeroMessage\<lparr>m_Vote := v, m_UnauthenticatedVote := vote_u v\<rparr>)"

definition proposalDelivery :: "address \<Rightarrow> scheduled" where
  "proposalDelivery a = voteDelivery (voteFor a 1 propose a)"


definition sampleStart :: serviceState where
  "sampleStart = \<lparr>svc_Status = startPlayer sampleEnv 1 ConsensusCurrentVersion, svc_Router = makeRootRouter, svc_Actions = startActions 1,
     svc_Persist = zeroDisk, svc_Disk = None, svc_Cast = []\<rparr>"

lemma sample_started: "service_start codec sampleEnv 1 ConsensusCurrentVersion None [] = Ok sampleStart"
  by (simp add: service_start_def restored_def sampleStart_def result_simps)

definition softSchedule :: "address \<Rightarrow> scheduled list" where
  "softSchedule a = [proposalDelivery a, Deliver sampleTimeout]"


definition crash :: scheduled where
  "crash = Restart 1 ConsensusCurrentVersion"


definition twiceSchedule :: "scheduled list" where
  "twiceSchedule = softSchedule 5 @ [crash, crash] @ softSchedule 6"

text \<open>The ballots released in a run of a schedule and their values, and the blocks it ends with.\<close>

definition castIn :: "scheduled list \<Rightarrow> ((nat \<times> nat \<times> nat) \<times> proposalValue) list" where
  "castIn es = (case service_schedule 4 Some sampleEnv es sampleStart of
     Ok s \<Rightarrow> map (\<lambda>b. (ballotAt b, psn_Proposal b)) (castBallots (service_drain s)) | _ \<Rightarrow> [])"


lemma castIn_run:
  assumes "castIn es \<noteq> []"
  obtains t where "service_run 4 Some sampleEnv (restarts es) sampleStart t"
    "castIn es = map (\<lambda>b. (ballotAt b, psn_Proposal b)) (castBallots t)"
proof -
  obtain s where s: "service_schedule 4 Some sampleEnv es sampleStart = Ok s"
    using assms by (auto simp: castIn_def split: result.splits)
  have "service_run 4 Some sampleEnv (restarts es) sampleStart (service_drain s)"
    using run_drain [OF schedule_run [OF s run_start]] by (simp add: service_drain_def)
  then show thesis using that s by (simp add: castIn_def)
qed



lemma cast_soft: "castIn (softSchedule 5 @ [Deliver sampleTimeout]) = [((1, 0, 1), proposal_value sampleEnv (sampleProposal 5)), ((1, 0, 3), bottom)]"
  by code_simp

lemma cast_twice:
  "castIn twiceSchedule =
     map (\<lambda>a. ((1, 0, 1), proposal_value sampleEnv (sampleProposal a))) [5, 5, 6]"
  by code_simp


section \<open>Blocks\<close>



section \<open>Termination\<close>




section \<open>Votes\<close>

text \<open>
  C23. The votes of a service move forward. As long as a service does not crash, the soft votes
  and next votes it releases are for strictly increasing rounds, periods and steps, so that
  it votes at most once in a step, whatever the messages, timeouts and round changes are and
  whether or not the state could be stored. (Cert votes and the votes of fast recovery are
  not in this order.)
\<close>

theorem votes_move_forward:
  assumes "service_start codec env r version None [] = Ok s" "service_run n codec env 0 s t"
  shows "sorted_wrt (<) (map ballotAt (filter isBallot (svc_Cast t)))"
  using orderedVotes_run [OF assms(2) refl orderedVotes_start [OF assms(1)]]
  by (auto simp: orderedVotes_def sorted_wrt_append)

theorem votes_move_forward_witness:
  "\<exists>t. service_run 4 Some sampleEnv 0 sampleStart t \<and> map ballotAt (filter isBallot (svc_Cast t)) = [(1, 0, 1), (1, 0, 3)] \<and>
     sorted_wrt (<) (map ballotAt (filter isBallot (svc_Cast t)))"
proof -
  let ?es = "softSchedule 5 @ [Deliver sampleTimeout]"
  have n: "castIn ?es \<noteq> []" by (simp add: cast_soft)
  obtain t where t: "service_run 4 Some sampleEnv (restarts ?es) sampleStart t"
    "castIn ?es = map (\<lambda>b. (ballotAt b, psn_Proposal b)) (castBallots t)" by (rule castIn_run [OF n])
  have "restarts ?es = 0" by (simp add: softSchedule_def proposalDelivery_def voteDelivery_def verified_def)
  moreover have "map ballotAt (castBallots t) = map fst (castIn ?es)" by (simp add: t(2) comp_def)
  ultimately show ?thesis using t(1) votes_move_forward [OF sample_started, of 4 Some t] by (auto simp: cast_soft)
qed



text \<open>
  C28. Two crashes can make a service vote twice. A service that restarts performs the votes of the
  state it restored, and doing so stores the state recorded for storing, which is still empty
  in the new process. If it crashes again, the next start finds that empty state of
  round 0, begins the round anew and can soft-vote for another value in the same step, even
  though the database and the codec work and every vote waited for its state to be stored.
\<close>

theorem second_crash_votes_twice:
  "\<exists>s t b b'. service_start Some sampleEnv 1 ConsensusCurrentVersion None [] = Ok s \<and> service_run 4 Some sampleEnv 2 s t \<and>
     b \<in> set (svc_Cast t) \<and> b' \<in> set (svc_Cast t) \<and> psn_T b = attest \<and> psn_T b' = attest \<and>
     ballotAt b = (1, 0, 1) \<and> ballotAt b' = (1, 0, 1) \<and> psn_Proposal b \<noteq> psn_Proposal b'"
proof -
  let ?es = twiceSchedule and ?v = "\<lambda>a. proposal_value sampleEnv (sampleProposal a)"
  have n: "castIn ?es \<noteq> []" by (simp add: cast_twice)
  obtain t where t: "service_run 4 Some sampleEnv (restarts ?es) sampleStart t"
    "castIn ?es = map (\<lambda>b. (ballotAt b, psn_Proposal b)) (castBallots t)" by (rule castIn_run [OF n])
  have two: "restarts ?es = 2" by (simp add: twiceSchedule_def softSchedule_def proposalDelivery_def voteDelivery_def verified_def crash_def)
  have "((1, 0, 1), ?v 5) \<in> set (castIn ?es)" "((1, 0, 1), ?v 6) \<in> set (castIn ?es)" by (simp_all add: cast_twice)
  then obtain b b' where b: "b \<in> set (castBallots t)" "ballotAt b = (1, 0, 1)" "psn_Proposal b = ?v 5"
    and b': "b' \<in> set (castBallots t)" "ballotAt b' = (1, 0, 1)" "psn_Proposal b' = ?v 6"
    unfolding t(2) by auto
  have "?v 5 \<noteq> ?v 6" by (simp add: proposal_value_def sampleProposal_def)
  then show ?thesis
    using sample_started [of Some] t(1) two b b' by (intro exI [of _ sampleStart] exI [of _ t] exI [of _ b] exI [of _ b']) (simp add: isBallot_def)
qed

end
