(* ===== verification/Agreement_Freshness.thy ===== *)
theory Agreement_Freshness
  imports Agreement_Safety
begin

text \<open>
  The freshest threshold of a round, and a certificate that comes too late. Of the threshold events of
  a round the machine of the round keeps one that no other is fresher than. A bundle of
  cert votes is never filtered by its period, but the machine of an old period is collected as
  soon as it is made, so that such a bundle makes the player dereference a nil pointer.
\<close>

section \<open>Freshness\<close>

definition fresher :: "thresholdEvent \<Rightarrow> thresholdEvent \<Rightarrow> bool" where
  "fresher e other \<longleftrightarrow> fresherThan e other = Ok True"

definition inRound :: "round \<Rightarrow> thresholdEvent \<Rightarrow> bool" where
  "inRound r th \<longleftrightarrow> th_T th \<noteq> noThreshold \<and> th_Round th = r"

lemma fresherThan_Ok: "inRound r e \<Longrightarrow> inRound r x \<or> th_T x = noThreshold \<Longrightarrow> fresherThan e x = Ok (fresher e x)"
  by (auto simp: fresher_def fresherThan_def inRound_def)

lemma fresher_iff:
  "inRound r e \<Longrightarrow> inRound r x \<Longrightarrow> fresher e x \<longleftrightarrow> th_T x \<noteq> certThreshold \<and>
     (case th_T e of
        softThreshold \<Rightarrow> th_Period e > th_Period x
      | certThreshold \<Rightarrow> True
      | _ \<Rightarrow> th_Period e > th_Period x \<or> th_Period e = th_Period x \<and> (th_T x = softThreshold \<or> th_Proposal e = bottom \<and> th_Proposal x \<noteq> bottom))"
  unfolding fresher_def fresherThan_def inRound_def by (auto split: thresholdType.splits)

lemma fresher_irrefl: "inRound r e \<Longrightarrow> \<not> fresher e e"
  by (subst fresher_iff) (auto split: thresholdType.splits)

lemma fresher_trans: "inRound r x \<Longrightarrow> inRound r y \<Longrightarrow> inRound r z \<Longrightarrow> fresher z y \<Longrightarrow> fresher y x \<Longrightarrow> fresher z x"
  by (cases "th_T x"; cases "th_T y"; cases "th_T z"; auto simp: fresher_iff; simp add: inRound_def)

definition replyStep :: "roundRouter \<Rightarrow> thresholdEvent \<Rightarrow> (agreement_error, roundRouter \<times> event) result" where
  "replyStep router th = andThen (voteTrackerRound_reply (ThresholdEv th) router) (\<lambda>(out, router). Ok (router, out))"

definition keepsFreshest :: "round \<Rightarrow> thresholdEvent list \<Rightarrow> roundRouter \<Rightarrow> bool" where
  "keepsFreshest r ths router \<longleftrightarrow> (let t = rr_VoteTrackerRound router in
     if ths = [] then \<not> vr_Ok t \<and> vr_Freshest t = zeroThreshold
     else vr_Ok t \<and> vr_Freshest t \<in> set ths \<and> list_all (\<lambda>th. \<not> fresher th (vr_Freshest t)) ths)"

lemma replyStep_keeps:
  assumes "keepsFreshest r ths router" "list_all (inRound r) ths" "inRound r th"
  shows "\<exists>router' out. replyStep router th = Ok (router', out) \<and> keepsFreshest r (ths @ [th]) router'"
proof -
  let ?x = "vr_Freshest (rr_VoteTrackerRound router)"
  have x: "inRound r ?x \<or> th_T ?x = noThreshold" and xi: "ths \<noteq> [] \<Longrightarrow> inRound r ?x"
    using assms(1,2) by (auto simp: keepsFreshest_def Let_def list_all_iff zeroThreshold_def split: if_splits)
  have nt: "th_T th \<noteq> noThreshold" using assms(3) by (simp add: inRound_def)
  show ?thesis
  proof (cases "fresher th ?x")
    case True
    have "\<not> fresher y th" if "y \<in> set ths" for y
    proof
      assume "fresher y th"
      moreover have "inRound r y" "inRound r ?x" "\<not> fresher y ?x"
        using that assms(1,2) xi by (auto simp: keepsFreshest_def Let_def list_all_iff split: if_splits)
      ultimately show False using fresher_trans [of r ?x th y] True assms(3) by blast
    qed
    then have "keepsFreshest r (ths @ [th]) (router\<lparr>rr_VoteTrackerRound := \<lparr>vr_Freshest = th, vr_Ok = True\<rparr>\<rparr>)"
      using fresher_irrefl [OF assms(3)] by (simp add: keepsFreshest_def list_all_iff)
    then show ?thesis using fresherThan_Ok [OF assms(3) x] True nt
      by (simp add: replyStep_def voteTrackerRound_reply_def)
  next
    case False
    have "ths \<noteq> []" using False nt assms(1) by (auto simp: keepsFreshest_def Let_def fresher_def fresherThan_def zeroThreshold_def)
    then have "keepsFreshest r (ths @ [th]) router" using assms(1) False by (simp add: keepsFreshest_def Let_def)
    then show ?thesis using fresherThan_Ok [OF assms(3) x] False nt
      by (simp add: replyStep_def voteTrackerRound_reply_def)
  qed
qed

text \<open>
  C26. The machine of a round keeps the freshest threshold. However the threshold events of a
  round arrive, all of them are handled without a panic, and the event that is kept, and that
  the player is given when it enters the round or resynchronises, is one of those
  that arrived, and none of them is fresher than it by \<open>fresherThan\<close>.
\<close>

theorem freshest_threshold_kept:
  assumes "list_all (inRound r) ths" "ths \<noteq> []"
  shows "\<exists>router outs. runs replyStep zeroRoundRouter ths = Ok (router, outs) \<and>
    voteTrackerRound_reply FreshestBundleRequestEv router = Ok (FreshestBundleEv True (vr_Freshest (rr_VoteTrackerRound router)), router) \<and>
    vr_Freshest (rr_VoteTrackerRound router) \<in> set ths \<and>
    list_all (\<lambda>th. fresherThan th (vr_Freshest (rr_VoteTrackerRound router)) = Ok False) ths"
proof -
  have "\<exists>router outs. runs replyStep zeroRoundRouter ths = Ok (router, outs) \<and> keepsFreshest r ths router"
    using assms(1)
  proof (induction ths rule: rev_induct)
    case Nil
    show ?case by (simp add: keepsFreshest_def zeroRoundRouter_def)
  next
    case (snoc th ths)
    then obtain router outs where "runs replyStep zeroRoundRouter ths = Ok (router, outs)" "keepsFreshest r ths router" by auto
    moreover from this obtain router' out where "replyStep router th = Ok (router', out)" "keepsFreshest r (ths @ [th]) router'"
      using replyStep_keeps [of r ths router th] snoc.prems by auto
    ultimately show ?case unfolding runs_snoc by blast
  qed
  then obtain router outs where k: "runs replyStep zeroRoundRouter ths = Ok (router, outs)" "keepsFreshest r ths router" by blast
  let ?x = "vr_Freshest (rr_VoteTrackerRound router)"
  have f: "vr_Ok (rr_VoteTrackerRound router)" "?x \<in> set ths" "list_all (\<lambda>th. \<not> fresher th ?x) ths"
    using k(2) assms(2) by (simp_all add: keepsFreshest_def Let_def)
  have "list_all (\<lambda>th. fresherThan th ?x = Ok False) ths"
    using f(2,3) assms(1) fresherThan_Ok [of r _ ?x] unfolding list_all_iff by fastforce
  then show ?thesis using k(1) f(1,2) by (auto simp: voteTrackerRound_reply_def)
qed

theorem freshest_threshold_kept_witness:
  "\<exists>router outs. runs replyStep zeroRoundRouter
      [zeroThreshold\<lparr>th_T := certThreshold, th_Round := 1\<rparr>, zeroThreshold\<lparr>th_T := nextThreshold, th_Round := 1, th_Period := 4\<rparr>] = Ok (router, outs) \<and>
     th_T (vr_Freshest (rr_VoteTrackerRound router)) = certThreshold"
proof -
  let ?c = "zeroThreshold\<lparr>th_T := certThreshold, th_Round := 1\<rparr>" and ?n = "zeroThreshold\<lparr>th_T := nextThreshold, th_Round := 1, th_Period := 4\<rparr>"
  have "list_all (inRound 1) [?c, ?n]" "[?c, ?n] \<noteq> []" by (simp_all add: inRound_def)
  from freshest_threshold_kept [OF this] obtain router outs where r: "runs replyStep zeroRoundRouter [?c, ?n] = Ok (router, outs)"
    "vr_Freshest (rr_VoteTrackerRound router) \<in> set [?c, ?n]" "fresherThan ?c (vr_Freshest (rr_VoteTrackerRound router)) = Ok False"
    unfolding list.pred_inject by blast
  have "fresherThan ?c ?n = Ok True" by (simp add: fresherThan_def)
  then have "vr_Freshest (rr_VoteTrackerRound router) \<noteq> ?n" using r(3) by auto
  then have "th_T (vr_Freshest (rr_VoteTrackerRound router)) = certThreshold" using r(2) by auto
  then show ?thesis using r(1) by blast
qed

section \<open>Stale certificates\<close>

lemma round_child:
  assumes "pl_Round p \<le> r"
  obtains child where "mget (root_Children (rootRouter_update p r root)) r = Some child"
proof -
  have "mget (root_Children (rootRouter_update p r root)) r \<noteq> None"
    using assms by (simp add: rootRouter_update_def Let_def mget_filter mget_mput)
  then show thesis using that by blast
qed

lemma collected_period: "\<not> q + 1 \<ge> pl_Period p \<Longrightarrow> \<not> q \<le> 1 \<Longrightarrow> mget (rr_Children (roundRouter_update p q router)) q = None"
  by (simp add: roundRouter_update_def Let_def mget_filter)

lemma deliverVote_collected:
  assumes "rv_Round (vt_R v) = pl_Round p" "\<not> rv_Period (vt_R v) + 1 \<ge> pl_Period p" "\<not> rv_Period (vt_R v) \<le> 1"
  shows "deliverVote env p ver v root = Panic NilDereference"
proof -
  obtain child where "mget (root_Children (rootRouter_update p (pl_Round p) root)) (pl_Round p) = Some child"
    using round_child [of p "pl_Round p" root] by blast
  then show ?thesis
    using assms(1) collected_period [OF assms(2,3)]
    by (simp add: deliverVote_def rootRouter_forward_def Let_def roundRouter_dispatch_def voteTrackerRound_handle_def andDo_def roundRouter_forward_def)
qed

text \<open>
  C29. A certificate of an old period stops the node. When a verified bundle of cert votes for the
  round of the player is delivered, and its period is at least 2 and more than one period
  before that of the player, \<open>bundleFresh\<close> lets it pass, and delivering its first vote
  dereferences the machine of that period, which the router has collected: the handler panics,
  whatever the state of the machines is.
\<close>

theorem stale_certificate_panics:
  assumes "me_T me = bundleVerified" "\<not> me_Cancelled me" "cvv_Err (me_Proto me) = None" "me_Err me = None"
    "ub_Round (bd_U (m_Bundle (me_Input me))) = pl_Round p" "ub_Step (bd_U (m_Bundle (me_Input me))) = cert"
    "bundleVotes (m_Bundle (me_Input me)) = v # vs" "rv_Round (vt_R v) = pl_Round p"
    "2 \<le> rv_Period (vt_R v)" "rv_Period (vt_R v) + 1 < pl_Period p"
  shows "player_handle (Suc n) env (MessageEv me) (p, root) = Panic NilDereference"
proof -
  have q: "\<not> rv_Period (vt_R v) \<le> 1" "\<not> rv_Period (vt_R v) + 1 \<ge> pl_Period p"
    using assms(9) by (simp add: word_le_nat_alt) (use assms(10) in \<open>simp add: not_le\<close>)
  have b: "bundleFresh (freshnessOf p) (bd_U (m_Bundle (me_Input me)))" using assms(5,6) by (simp add: bundleFresh_def freshnessOf_def)
  have "voteAggregator_handle env p (FilterableMessageEv me (freshnessOf p)) r = Panic NilDereference" for r
    using assms(1-4,7) b deliverVote_collected [OF assms(8) q(2,1)]
    by (simp add: voteAggregator_handle_def aggregator_bundleVerified_def andDo_def)
  then have "ask env (FilterableMessageEv me (freshnessOf p)) voteMachine 0 0 0 (p, root) = Panic NilDereference"
    by (simp add: ask_def below_def rootRouter_dispatch_def Let_def andDo_def)
  then show ?thesis
    using assms(1) by (simp add: isNone_def handleMessageEvent_def handleBundle_def andDo_def getPlayer_def)
qed

definition staleBundle :: messageEvent where
  "staleBundle = MessageEvent bundleVerified (zeroMessage\<lparr>m_Bundle := \<lparr>bd_U = zeroBundle\<lparr>ub_Round := 1, ub_Period := 2, ub_Step := cert\<rparr>,
     bd_Votes = [zeroVote\<lparr>vt_R := zeroRawVote\<lparr>rv_Round := 1, rv_Period := 2, rv_Step := cert\<rparr>\<rparr>], bd_EquivocationVotes = []\<rparr>\<rparr>)
     None 0 None False zeroVersionView"

definition latePlayer :: player where
  "latePlayer = \<lparr>pl_Round = 1, pl_Period = 4, pl_Step = soft, pl_LastConcluding = 0, pl_Deadline = 0, pl_Napping = False,
     pl_FastRecoveryDeadline = 0, pl_Pending = \<lparr>tbl_Pending = [], tbl_PendingNext = 0\<rparr>\<rparr>"

theorem stale_certificate_panics_witness:
  "player_handle 1 sampleEnv (MessageEv staleBundle) (latePlayer, \<lparr>root_Children = []\<rparr>) = Panic NilDereference"
proof -
  have "me_T staleBundle = bundleVerified" "\<not> me_Cancelled staleBundle" "cvv_Err (me_Proto staleBundle) = None" "me_Err staleBundle = None"
    "ub_Round (bd_U (m_Bundle (me_Input staleBundle))) = pl_Round latePlayer" "ub_Step (bd_U (m_Bundle (me_Input staleBundle))) = cert"
    "bundleVotes (m_Bundle (me_Input staleBundle)) = [zeroVote\<lparr>vt_R := zeroRawVote\<lparr>rv_Round := 1, rv_Period := 2, rv_Step := cert\<rparr>\<rparr>]"
    by (simp_all add: staleBundle_def latePlayer_def bundleVotes_def zeroVersionView_def)
  note h = this
  show ?thesis
    using stale_certificate_panics [OF h, of 0 sampleEnv] by (simp add: latePlayer_def zeroVote_def zeroRawVote_def)
qed

end
